(* ===== verification/Go_Prelude.thy ===== *)
theory Go_Prelude
  imports
    Main
    "HOL-Library.AList"
    "HOL-Library.Char_ord"
    "HOL-Library.List_Lexorder"
    "HOL-Library.Multiset"
    "HOL-Library.Word"
begin

text \<open>
  Shared vocabulary of the development.  A Go \<^verbatim>\<open>string\<close> or \<^verbatim>\<open>[]byte\<close> is a list
  of bytes, here a HOL \<^typ>\<open>string\<close> (a character is one byte).  A Go map is an association
  list; iteration order is unspecified in Go, so every lemma about a map ranges over
  all lists that represent it.  The functions below model what the repository uses of
  the packages \<^verbatim>\<open>strings\<close>, \<^verbatim>\<open>strconv\<close>, \<^verbatim>\<open>sort\<close>, \<^verbatim>\<open>bytes\<close> and
  \<^verbatim>\<open>math/big\<close>; the lemmas are the facts about them that the components share.
\<close>

named_theorems go_defs "definitions of standard-library functions, unfolded on demand"
named_theorems go_len "length facts that give termination and bounds"

type_synonym bytes = string
type_synonym ('k, 'v) gomap = "('k \<times> 'v) list"
type_synonym goset = "string list"

abbreviation byte_val :: "char \<Rightarrow> nat" where
  "byte_val c \<equiv> of_char c"

abbreviation NUL :: char where
  "NUL \<equiv> CHR 0x00"

abbreviation LF :: char where
  "LF \<equiv> CHR 0x0A"

abbreviation CR :: char where
  "CR \<equiv> CHR 0x0D"

abbreviation TAB :: char where
  "TAB \<equiv> CHR 0x09"

section \<open>Package strings\<close>

definition lower_char :: "char \<Rightarrow> char" where
  "lower_char c = (if 65 \<le> byte_val c \<and> byte_val c \<le> 90 then char_of (byte_val c + 32) else c)"

definition upper_char :: "char \<Rightarrow> char" where
  "upper_char c = (if 97 \<le> byte_val c \<and> byte_val c \<le> 122 then char_of (byte_val c - 32) else c)"

text \<open>
  \<^verbatim>\<open>strings.ToLower\<close>: ASCII letters, and the two non-ASCII runes whose lower case is an
  ASCII letter (the Kelvin sign and the dotted capital I).  Every other non-ASCII rune maps
  to a non-ASCII rune and is kept as it is, which is exact wherever the result is compared
  with an ASCII literal.
\<close>

fun to_lower :: "string \<Rightarrow> string" where
  "to_lower [] = []"
| "to_lower (a # s) =
     (if a = CHR 0xE2 \<and> take 2 s = [CHR 0x84, CHR 0xAA] then CHR ''k'' # to_lower (drop 2 s)
      else if a = CHR 0xC4 \<and> take 1 s = [CHR 0xB0] then CHR ''i'' # to_lower (drop 1 s)
      else lower_char a # to_lower s)"

definition to_upper :: "string \<Rightarrow> string" where
  "to_upper s = map upper_char s"

text \<open>
  \<^verbatim>\<open>strings.EqualFold\<close> against an ASCII literal: ASCII letters fold, and the Kelvin sign and
  the long s fold to the ASCII letters k and s.
\<close>

fun fold_case :: "string \<Rightarrow> string" where
  "fold_case [] = []"
| "fold_case (a # s) =
     (if a = CHR 0xE2 \<and> take 2 s = [CHR 0x84, CHR 0xAA] then CHR ''k'' # fold_case (drop 2 s)
      else if a = CHR 0xC5 \<and> take 1 s = [CHR 0xBF] then CHR ''s'' # fold_case (drop 1 s)
      else lower_char a # fold_case s)"

definition equal_fold :: "string \<Rightarrow> string \<Rightarrow> bool" where
  "equal_fold s t = (fold_case s = fold_case t)"

text \<open>
  One leading white-space rune (\<^verbatim>\<open>unicode.IsSpace\<close>) in UTF-8, and the same for the reversed
  string.  Lead bytes never occur as continuation bytes, so matching the encodings byte by
  byte agrees with decoding runes.
\<close>

definition ascii_space :: "char \<Rightarrow> bool" where
  "ascii_space c = (9 \<le> byte_val c \<and> byte_val c \<le> 13 \<or> byte_val c = 32)"

definition space_rune :: "string \<Rightarrow> bool" where
  "space_rune r = (case map byte_val r of
       [a] \<Rightarrow> 9 \<le> a \<and> a \<le> 13 \<or> a = 32
     | [a, b] \<Rightarrow> a = 0xC2 \<and> (b = 0x85 \<or> b = 0xA0)
     | [a, b, c] \<Rightarrow> a = 0xE1 \<and> b = 0x9A \<and> c = 0x80
         \<or> a = 0xE2 \<and> b = 0x80 \<and> (0x80 \<le> c \<and> c \<le> 0x8A \<or> c = 0xA8 \<or> c = 0xA9 \<or> c = 0xAF)
         \<or> a = 0xE2 \<and> b = 0x81 \<and> c = 0x9F
         \<or> a = 0xE3 \<and> b = 0x80 \<and> c = 0x80
     | _ \<Rightarrow> False)"

definition eat_space :: "string \<Rightarrow> string option" where
  "eat_space s = (if space_rune (take 1 s) then Some (drop 1 s)
     else if space_rune (take 2 s) then Some (drop 2 s)
     else if space_rune (take 3 s) then Some (drop 3 s) else None)"

definition eat_space_rev :: "string \<Rightarrow> string option" where
  "eat_space_rev s = (if space_rune (take 1 s) then Some (drop 1 s)
     else if space_rune (rev (take 2 s)) then Some (drop 2 s)
     else if space_rune (rev (take 3 s)) then Some (drop 3 s) else None)"

lemma space_rune_Nil [simp]: "\<not> space_rune []"
  by (simp add: space_rune_def)

lemma eat_space_shorter [go_len]: "eat_space s = Some t \<Longrightarrow> length t < length s"
  by (cases s) (auto simp: eat_space_def split: if_splits)

lemma eat_space_rev_shorter [go_len]: "eat_space_rev s = Some t \<Longrightarrow> length t < length s"
  by (cases s) (auto simp: eat_space_rev_def split: if_splits)

function trim_with :: "(string \<Rightarrow> string option) \<Rightarrow> string \<Rightarrow> string" where
  "trim_with f s = (case f s of None \<Rightarrow> s
     | Some t \<Rightarrow> if length t < length s then trim_with f t else s)"
  by pat_completeness auto
termination
  by (relation "measure (\<lambda>(f, s). length s)") auto

declare trim_with.simps [simp del]

definition trim_left_space :: "string \<Rightarrow> string" where
  "trim_left_space s = trim_with eat_space s"

definition trim_right_space :: "string \<Rightarrow> string" where
  "trim_right_space s = rev (trim_with eat_space_rev (rev s))"

definition trim_space :: "string \<Rightarrow> string" where
  "trim_space s = trim_right_space (trim_left_space s)"

definition has_prefix :: "string \<Rightarrow> string \<Rightarrow> bool" where
  "has_prefix s p = (take (length p) s = p)"

definition trim_prefix :: "string \<Rightarrow> string \<Rightarrow> string" where
  "trim_prefix s p = (if has_prefix s p then drop (length p) s else s)"

fun index_byte :: "string \<Rightarrow> char \<Rightarrow> nat option" where
  "index_byte [] c = None"
| "index_byte (a # s) c = (if a = c then Some 0 else map_option Suc (index_byte s c))"

fun join_with :: "string \<Rightarrow> string list \<Rightarrow> string" where
  "join_with sep [] = []"
| "join_with sep [x] = x"
| "join_with sep (x # y # xs) = x @ sep @ join_with sep (y # xs)"

text \<open>\<^verbatim>\<open>strings.Fields\<close>: the maximal runs without white space.\<close>

function split_fields_from :: "string \<Rightarrow> string \<Rightarrow> string list" where
  "split_fields_from w s = (case s of [] \<Rightarrow> (if w = [] then [] else [w])
     | c # s' \<Rightarrow> (case eat_space s of
           None \<Rightarrow> split_fields_from (w @ [c]) s'
         | Some t \<Rightarrow> (if w = [] then [] else [w]) @ split_fields_from [] t))"
  by pat_completeness auto
termination
  by (relation "measure (\<lambda>(w, s). length s)") (auto dest: eat_space_shorter)

declare split_fields_from.simps [simp del]

definition split_fields :: "string \<Rightarrow> string list" where
  "split_fields s = split_fields_from [] s"

section \<open>Packages strconv and math/big\<close>

definition is_digit :: "char \<Rightarrow> bool" where
  "is_digit c = (48 \<le> byte_val c \<and> byte_val c \<le> 57)"

definition digit_val :: "char \<Rightarrow> nat" where
  "digit_val c = byte_val c - 48"

definition digit_char :: "nat \<Rightarrow> char" where
  "digit_char d = char_of (48 + d)"

definition all_digits :: "string \<Rightarrow> bool" where
  "all_digits s = list_all is_digit s"

fun show_nat :: "nat \<Rightarrow> string" where
  "show_nat n = (if n < 10 then [digit_char n] else show_nat (n div 10) @ [digit_char (n mod 10)])"

declare show_nat.simps [simp del]

definition read_nat :: "string \<Rightarrow> nat" where
  "read_nat s = foldl (\<lambda>acc c. 10 * acc + digit_val c) 0 s"

text \<open>\<^verbatim>\<open>strconv.FormatInt(n, 10)\<close> and \<^verbatim>\<open>(*big.Int).String\<close>.\<close>

definition show_int :: "int \<Rightarrow> string" where
  "show_int n = (if n < 0 then CHR ''-'' # show_nat (nat (- n)) else show_nat (nat n))"

text \<open>\<^verbatim>\<open>(*big.Int).SetString(s, 10)\<close>: an optional sign and at least one digit, nothing else.\<close>

definition big_set_string :: "string \<Rightarrow> int option" where
  "big_set_string s =
     (let neg = (take 1 s = ''-''); d = (if take 1 s = ''-'' \<or> take 1 s = ''+'' then drop 1 s else s)
      in if d \<noteq> [] \<and> all_digits d
         then Some (if neg then - int (read_nat d) else int (read_nat d)) else None)"

text \<open>\<^verbatim>\<open>strconv.ParseInt(s, 10, 64)\<close> and \<^verbatim>\<open>strconv.Atoi\<close> on a 64-bit platform.\<close>

definition parse_int64 :: "string \<Rightarrow> int option" where
  "parse_int64 s = (case big_set_string s of None \<Rightarrow> None
     | Some n \<Rightarrow> if - (2 ^ 63) \<le> n \<and> n < 2 ^ 63 then Some n else None)"

definition parse_bool :: "string \<Rightarrow> bool option" where
  "parse_bool s =
     (if s \<in> set [''1'', ''t'', ''T'', ''TRUE'', ''true'', ''True''] then Some True
      else if s \<in> set [''0'', ''f'', ''F'', ''FALSE'', ''false'', ''False''] then Some False
      else None)"

definition format_bool :: "bool \<Rightarrow> string" where
  "format_bool b = (if b then ''true'' else ''false'')"

lemma byte_val_less: "byte_val c < 256"
  by (simp add: of_char_def) 

lemma digit_val_char [simp]: "d < 10 \<Longrightarrow> digit_val (digit_char d) = d"
  by (simp add: digit_val_def digit_char_def)

lemma is_digit_char [simp]: "d < 10 \<Longrightarrow> is_digit (digit_char d)"
  by (simp add: is_digit_def digit_char_def)

lemma digit_char_val [simp]: "is_digit c \<Longrightarrow> digit_char (digit_val c) = c"
  by (simp add: is_digit_def digit_val_def digit_char_def)

lemma digit_val_less: "is_digit c \<Longrightarrow> digit_val c < 10"
  by (auto simp: is_digit_def digit_val_def)

lemma digit_char_0 [simp]: "digit_char 0 = CHR ''0''"
  by code_simp

lemma digit_char_zero_iff: "d < 10 \<Longrightarrow> digit_char d = CHR ''0'' \<longleftrightarrow> d = 0"
  by (metis digit_char_0 digit_val_char zero_less_numeral)

lemma read_nat_snoc [simp]: "read_nat (s @ [c]) = 10 * read_nat s + digit_val c"
  by (simp add: read_nat_def)

lemma read_nat_Nil [simp]: "read_nat [] = 0"
  by (simp add: read_nat_def)

lemma read_nat_single [simp]: "read_nat [c] = digit_val c"
  by (simp add: read_nat_def)

lemma read_show_nat [simp]: "read_nat (show_nat n) = n"
proof (induction n rule: show_nat.induct)
  case (1 n)
  show ?case
  proof (cases "n < 10")
    case True
    then show ?thesis by (simp add: show_nat.simps [of n] read_nat_def)
  next
    case False
    with 1 show ?thesis by (subst show_nat.simps) simp
  qed
qed

lemma show_nat_not_Nil [simp]: "show_nat n \<noteq> []"
  by (subst show_nat.simps) simp

lemma all_digits_show_nat [simp]: "all_digits (show_nat n)"
proof (induction n rule: show_nat.induct)
  case (1 n)
  then show ?case by (subst show_nat.simps) (auto simp: all_digits_def)
qed

lemma hd_show_nat: "hd (show_nat n) = CHR ''0'' \<longleftrightarrow> n = 0"
proof (induction n rule: show_nat.induct)
  case (1 n)
  show ?case
  proof (cases "n < 10")
    case True
    then show ?thesis by (subst show_nat.simps) (simp add: digit_char_zero_iff)
  next
    case False
    with 1 have "hd (show_nat (n div 10)) = CHR ''0'' \<longleftrightarrow> n div 10 = 0" by simp
    with False show ?thesis by (subst show_nat.simps) (simp add: hd_append)
  qed
qed

text \<open>Digits without a leading zero are the decimal representation of their value.\<close>

lemma show_read_nat:
  assumes "all_digits s" and "s \<noteq> []" and "hd s \<noteq> CHR ''0''"
  shows "show_nat (read_nat s) = s"
  using assms
proof (induction s rule: rev_induct)
  case Nil
  then show ?case by simp
next
  case (snoc c s)
  show ?case
  proof (cases "s = []")
    case True
    with snoc.prems show ?thesis
      by (simp add: all_digits_def show_nat.simps [of "digit_val c"] digit_val_less)
  next
    case False
    with snoc.prems have d: "all_digits s" "is_digit c" and h: "hd s \<noteq> CHR ''0''"
      by (auto simp: all_digits_def)
    with False snoc.IH have ih: "show_nat (read_nat s) = s" by simp
    have "read_nat s \<noteq> 0"
      using hd_show_nat [of "read_nat s"] ih h by simp
    with d(2) ih show ?thesis
      by (subst show_nat.simps) (simp add: digit_val_less)
  qed
qed

lemma read_nat_zeros: "read_nat (dropWhile (\<lambda>c. c = CHR ''0'') s) = read_nat s"
proof (induction s)
  case (Cons a s)
  have "read_nat (CHR ''0'' # s) = read_nat s"
    by (simp add: read_nat_def digit_val_def)
  with Cons show ?case by simp
qed simp

lemma all_digits_dropWhile: "all_digits s \<Longrightarrow> all_digits (dropWhile P s)"
  by (auto simp: all_digits_def list_all_iff dest: set_dropWhileD)

lemma show_nat_read_strip:
  assumes "all_digits s"
  shows "show_nat (read_nat s) =
    (let t = dropWhile (\<lambda>c. c = CHR ''0'') s in if t = [] then ''0'' else t)"
proof (cases "dropWhile (\<lambda>c. c = CHR ''0'') s = []")
  case True
  then have "read_nat s = 0" by (metis read_nat_zeros read_nat_Nil)
  with True show ?thesis by (simp add: show_nat.simps [of 0])
next
  case False
  let ?t = "dropWhile (\<lambda>c. c = CHR ''0'') s"
  from False have "hd ?t \<noteq> CHR ''0''" by (rule hd_dropWhile)
  with False assms have "show_nat (read_nat ?t) = ?t"
    by (intro show_read_nat) (auto simp: all_digits_dropWhile)
  with False show ?thesis by (auto simp: read_nat_zeros)
qed

lemma show_nat_inject [simp]: "show_nat m = show_nat n \<longleftrightarrow> m = n"
  by (metis read_show_nat)

lemma not_digit_sign: "\<not> is_digit CHR ''-''" "\<not> is_digit CHR ''+''"
  by (simp_all add: is_digit_def)

lemma take1_show_nat: "take 1 (show_nat n) \<noteq> ''-''" "take 1 (show_nat n) \<noteq> ''+''"
  using all_digits_show_nat [of n] not_digit_sign
  by (cases "show_nat n"; simp add: all_digits_def; metis)+

lemma big_set_show_int [simp]: "big_set_string (show_int n) = Some n"
  using take1_show_nat [of "nat n"]
  by (auto simp: big_set_string_def show_int_def Let_def)

lemma show_int_inject [simp]: "show_int m = show_int n \<longleftrightarrow> m = n"
  by (metis big_set_show_int option.inject)

section \<open>White space\<close>

lemma trim_with_None: "f s = None \<Longrightarrow> trim_with f s = s"
  by (simp add: trim_with.simps)

lemma trim_with_stops:
  assumes "\<And>s t. f s = Some t \<Longrightarrow> length t < length s"
  shows "f (trim_with f s) = None"
proof (induction "length s" arbitrary: s rule: less_induct)
  case less
  show ?case
  proof (cases "f s")
    case (Some t)
    with assms have "length t < length s" by blast
    with less Some show ?thesis by (simp add: trim_with.simps [of f s])
  qed (simp add: trim_with_None)
qed

lemma ascii_no_space_rune:
  "byte_val a < 128 \<Longrightarrow> \<not> ascii_space a \<Longrightarrow> \<not> space_rune (a # r)"
  "byte_val a < 128 \<Longrightarrow> \<not> ascii_space a \<Longrightarrow> \<not> space_rune (r @ [a])"
  by (auto simp: space_rune_def ascii_space_def split: list.splits)

lemma eat_space_ascii:
  "byte_val a < 128 \<Longrightarrow> \<not> ascii_space a \<Longrightarrow> eat_space (a # s) = None"
  "byte_val a < 128 \<Longrightarrow> \<not> ascii_space a \<Longrightarrow> eat_space_rev (a # s) = None"
   by (simp_all add: eat_space_def eat_space_rev_def ascii_no_space_rune take_Cons')

lemma trim_space_ascii:
  assumes "s \<noteq> []" and "byte_val (hd s) < 128" and "\<not> ascii_space (hd s)"
    and "byte_val (last s) < 128" and "\<not> ascii_space (last s)"
  shows "trim_space s = s"
proof -
  from assms have "eat_space s = None" by (cases s) (auto simp: eat_space_ascii)
  then have "trim_left_space s = s" by (simp add: trim_left_space_def trim_with_None)
  moreover from assms have "eat_space_rev (rev s) = None"
    by (cases "rev s") (auto simp: eat_space_ascii hd_rev[symmetric] simp del: hd_rev)
  ultimately show ?thesis
    by (simp add: trim_space_def trim_right_space_def trim_with_None)
qed
lemma trim_with_suffix:
  assumes "\<And>s t. f s = Some t \<Longrightarrow> \<exists>n. t = drop n s"
  shows "\<exists>n. trim_with f s = drop n s"
proof (induction "length s" arbitrary: s rule: less_induct)
  case less
  show ?case
  proof (cases "f s")
    case None
    then have "trim_with f s = drop 0 s" by (simp add: trim_with_None)
    then show ?thesis by blast
  next
    case (Some t)
    with assms obtain n where t: "t = drop n s" by blast
    show ?thesis
    proof (cases "length t < length s")
      case True
      with less obtain m where "trim_with f t = drop m t" by blast
      with True Some t show ?thesis by (auto simp: trim_with.simps [of f s])
    next
      case False
      with Some have "trim_with f s = drop 0 s" by (simp add: trim_with.simps [of f s])
      then show ?thesis by blast
    qed
  qed
qed

lemma space_drop: "eat_space s = Some t \<Longrightarrow> \<exists>n. t = drop n s" "eat_space_rev s = Some t \<Longrightarrow> \<exists>n. t = drop n s"
  by (auto simp: eat_space_def eat_space_rev_def split: if_splits)

lemma eat_space_take:
  assumes "eat_space s = None" shows "eat_space (take n s) = None"
proof -
 have "\<not> space_rune (take k (take n s))" if "k \<in> {1,2,3}" for k
 proof (cases "k \<le> n")
  case True with assms that show ?thesis by (auto simp: eat_space_def min_def split: if_splits)
 next
  case False then have n: "n < k" by simp
  with that have "n = 0 \<or> n = 1 \<or> n = 2" by auto
  with assms n show ?thesis  by (auto simp: eat_space_def min_def split: if_splits)
 qed
 then show ?thesis by (simp add: eat_space_def)
qed

lemma trim_space_idem: "trim_space (trim_space s) = trim_space s"
proof -
  let ?l = "trim_left_space s"
  let ?r = "trim_right_space ?l"
  have l: "eat_space ?l = None"
    unfolding trim_left_space_def by (rule trim_with_stops) (rule eat_space_shorter)
  obtain n where "trim_with eat_space_rev (rev ?l) = drop n (rev ?l)"
    using trim_with_suffix space_drop(2) by blast
  then have "?r = take (length ?l - n) ?l"
    by (simp add: trim_right_space_def rev_drop)
  with l have "eat_space ?r = None" by (simp add: eat_space_take)
  moreover have "eat_space_rev (rev ?r) = None"
    unfolding trim_right_space_def rev_rev_ident by (rule trim_with_stops) (rule eat_space_rev_shorter)
  ultimately have "trim_with eat_space ?r = ?r" "trim_with eat_space_rev (rev ?r) = rev ?r"
    by (blast intro: trim_with_None)+
  then have "trim_left_space ?r = ?r" "trim_right_space ?r = ?r"
    by (metis trim_left_space_def, metis trim_right_space_def rev_rev_ident)
  then show ?thesis by (simp only: trim_space_def)
qed

lemma trim_space_show_int [simp]: "trim_space (show_int n) = show_int n"
proof (rule trim_space_ascii)
  have d: "is_digit c \<Longrightarrow> byte_val c < 128 \<and> \<not> ascii_space c" for c
    by (auto simp: is_digit_def ascii_space_def)
  have m: "byte_val CHR ''-'' < 128" "\<not> ascii_space CHR ''-''"
    by (simp_all add: ascii_space_def)
  have s: "is_digit (hd (show_nat k))" "is_digit (last (show_nat k))" for k
    using all_digits_show_nat [of k] show_nat_not_Nil [of k]
    by (auto simp: all_digits_def list_all_iff)
  show "show_int n \<noteq> []" by (simp add: show_int_def)
  show "byte_val (hd (show_int n)) < 128" "\<not> ascii_space (hd (show_int n))"
    "byte_val (last (show_int n)) < 128" "\<not> ascii_space (last (show_int n))"
    using d s m by (auto simp: show_int_def)
qed

section \<open>Joining with a separator byte\<close>

lemma split_at_separator:
  assumes "c \<notin> set x" and "c \<notin> set y"
  shows "x @ c # r = y @ c # t \<longleftrightarrow> x = y \<and> r = t"
  using assms
proof (induction x arbitrary: y)
  case Nil
  then show ?case by (cases y) auto
next
  case (Cons a x)
  then show ?case by (cases y) auto
qed

lemma join_with_Cons:
  "xs \<noteq> [] \<Longrightarrow> join_with sep (x # xs) = x @ sep @ join_with sep xs"
  by (cases xs) auto

text \<open>
  Joining tuples of the same length with a byte that none of the components contains is
  injective: this is what makes the joined shard key a key of the whole tuple.
\<close>

lemma join_with_inject:
  assumes "length xs = length ys"
    and "\<forall>x \<in> set xs. c \<notin> set x" and "\<forall>y \<in> set ys. c \<notin> set y"
  shows "join_with [c] xs = join_with [c] ys \<longleftrightarrow> xs = ys"
  using assms
proof (induction xs ys rule: list_induct2)
  case Nil
  then show ?case by simp
next
  case (Cons x xs y ys)
  show ?case
  proof (cases "xs = []")
    case True
    with Cons show ?thesis by auto
  next
    case False
    moreover from False Cons.hyps have "ys \<noteq> []" by auto
    ultimately show ?thesis
      using Cons by (simp add: join_with_Cons split_at_separator)
  qed
qed

section \<open>Package sort\<close>

text \<open>\<^verbatim>\<open>sort.Search\<close>: the least index whose element satisfies a monotone predicate.\<close>

function bin_search :: "(nat \<Rightarrow> bool) \<Rightarrow> nat \<Rightarrow> nat \<Rightarrow> nat" where
  "bin_search f i j =
     (if i < j then (let h = (i + j) div 2 in
        if \<not> f h then bin_search f (h + 1) j else bin_search f i h) else i)"
  by pat_completeness auto
termination
  by (relation "measure (\<lambda>(f, i, j). j - i)") auto

declare bin_search.simps [simp del]

definition search_strings :: "string list \<Rightarrow> string \<Rightarrow> nat" where
  "search_strings a x = bin_search (\<lambda>i. x \<le> a ! i) 0 (length a)"

text \<open>The idiom \<^verbatim>\<open>index < len(a) && a[index] == x\<close> after \<^verbatim>\<open>sort.SearchStrings\<close>.\<close>

definition sorted_contains :: "string list \<Rightarrow> string \<Rightarrow> bool" where
  "sorted_contains a x =
     (let i = search_strings a x in i < length a \<and> a ! i = x)"

lemma bin_search_le: "i \<le> j \<Longrightarrow> bin_search f i j \<le> j"
proof (induction f i j rule: bin_search.induct)
  case (1 f i j)
  show ?case
  proof (cases "i < j")
    case True
    then have "i \<le> (i + j) div 2" "(i + j) div 2 < j" by auto
    with 1(1) [OF True refl] 1(2) [OF True refl] True show ?thesis
        by (auto simp: bin_search.simps [of f i j] Let_def)
  next
    case False
    then have "bin_search f i j = i" by (simp add: bin_search.simps [of f i j])
    with 1(3) show ?thesis by simp
  qed
qed

lemma bin_search_spec:
  assumes "\<And>a b. a \<le> b \<Longrightarrow> b < j \<Longrightarrow> f a \<Longrightarrow> f b"
  shows "(\<forall>a. i \<le> a \<and> a < bin_search f i j \<longrightarrow> \<not> f a)
    \<and> (bin_search f i j < j \<longrightarrow> f (bin_search f i j))"
  using assms
proof (induction f i j rule: bin_search.induct)
  case (1 f i j)
  show ?case
  proof (cases "i < j")
    case True
    define h where "h = (i + j) div 2"
    with True have h: "i \<le> h" "h < j" by auto
    show ?thesis
    proof (cases "f h")
      case f: True
      have "bin_search f i j = bin_search f i h"
        using True f by (simp add: bin_search.simps [of f i j] h_def)
      moreover have "(\<forall>a. i \<le> a \<and> a < bin_search f i h \<longrightarrow> \<not> f a)
          \<and> (bin_search f i h < h \<longrightarrow> f (bin_search f i h))"
        using 1(2) [OF True h_def] f h 1(3) by (metis order.strict_trans)
      ultimately show ?thesis using f h bin_search_le [of i h f] by (metis le_less)
    next
      case f: False
      have "bin_search f i j = bin_search f (h + 1) j"
        using True f by (simp add: bin_search.simps [of f i j] h_def)
      moreover have "(\<forall>a. h + 1 \<le> a \<and> a < bin_search f (h + 1) j \<longrightarrow> \<not> f a)
          \<and> (bin_search f (h + 1) j < j \<longrightarrow> f (bin_search f (h + 1) j))"
        using 1(1) [OF True h_def] f 1(3) by blast
      moreover have "\<not> f a" if "a \<le> h" for a
        using f h 1(3) that by blast
      ultimately show ?thesis by (metis Suc_eq_plus1 not_less_eq_eq)
    qed
  qed (auto simp: bin_search.simps [of f i j])
qed

lemma sorted_contains_iff:
  assumes "sorted a"
  shows "sorted_contains a x \<longleftrightarrow> x \<in> set a"
proof
  assume "sorted_contains a x"
  then show "x \<in> set a" by (metis sorted_contains_def nth_mem)
next
  assume "x \<in> set a"
  then obtain k where k: "k < length a" "a ! k = x" by (auto simp: in_set_conv_nth)
  let ?r = "search_strings a x"
  have spec: "(\<forall>i. i < ?r \<longrightarrow> \<not> x \<le> a ! i) \<and> (?r < length a \<longrightarrow> x \<le> a ! ?r)"
    using bin_search_spec [of "length a" "\<lambda>i. x \<le> a ! i" 0] assms
    unfolding search_strings_def by (auto intro: order_trans sorted_nth_mono)
  with k have "?r \<le> k" by (metis leI order_refl)
  with k spec assms have "a ! ?r = x"
    by (metis order.strict_trans1 order_antisym sorted_nth_mono)
  with \<open>?r \<le> k\<close> k show "sorted_contains a x"
    by (simp add: sorted_contains_def Let_def)
qed

section \<open>Loops that stop at the first error, and Go maps\<close>

fun first_error :: "('a \<Rightarrow> 'e option) \<Rightarrow> 'a list \<Rightarrow> 'e option" where
  "first_error f [] = None"
| "first_error f (x # xs) = (case f x of Some e \<Rightarrow> Some e | None \<Rightarrow> first_error f xs)"

lemma first_error_None [simp]: "first_error f xs = None \<longleftrightarrow> (\<forall>x \<in> set xs. f x = None)"
  by (induction xs) (auto split: option.splits)

lemma first_error_Some: "first_error f xs = Some e \<Longrightarrow> \<exists>x \<in> set xs. f x = Some e"
  by (induction xs) (auto split: option.splits)

lemma map_sum_Inr_iff: "map_sum f g x = Inr y \<longleftrightarrow> (\<exists>z. x = Inr z \<and> y = g z)"
  by (cases x) auto

lemma map_sum_Inl_iff: "map_sum f g x = Inl y \<longleftrightarrow> (\<exists>z. x = Inl z \<and> y = f z)"
  by (cases x) auto

abbreviation keys :: "('k, 'v) gomap \<Rightarrow> 'k list" where
  "keys m \<equiv> map fst m"

definition map_ok :: "('k, 'v) gomap \<Rightarrow> bool" where
  "map_ok m = distinct (keys m)"

lemma map_of_update_key [simp]:
  "map_of (AList.update k v m) = (map_of m)(k \<mapsto> v)"
  by (rule update_conv')

lemma map_of_delete_key [simp]:
  "map_of (AList.delete k m) = (map_of m)(k := None)"
  by (rule delete_conv')

lemma update_absent: "k \<notin> set (keys m) \<Longrightarrow> AList.update k v m = m @ [(k, v)]"
  by (induction m) auto

lemma map_ok_simps [simp]:
  "map_ok []"
  "map_ok m \<Longrightarrow> map_ok (AList.update k v m)"
  "map_ok m \<Longrightarrow> map_ok (AList.delete k m)"
  by (simp_all add: map_ok_def distinct_update distinct_delete)

lemma map_ok_Cons: "map_ok ((k, v) # m) \<longleftrightarrow> k \<notin> set (keys m) \<and> map_ok m"
  by (simp add: map_ok_def)

lemma keys_dom: "set (keys m) = dom (map_of m)"
  by (simp add: dom_map_of_conv_image_fst)

text \<open>
  Comparing two maps the way Go code does, by their sizes and by one pass over the first,
  decides whether they are equal as maps.
\<close>

lemma same_map_iff:
  assumes m: "map_ok m" and n: "map_ok n"
  shows "length m = length n \<and> (\<forall>(k, v) \<in> set m. map_of n k = Some v) \<longleftrightarrow> map_of m = map_of n"
    (is "?l \<longleftrightarrow> ?r")
proof
  assume ?r
  then have "set (keys m) = set (keys n)" by (simp only: keys_dom)
  with m n have "length (keys m) = length (keys n)"
    unfolding map_ok_def by (metis distinct_card)
  moreover have "map_of n k = Some v" if "(k, v) \<in> set m" for k v
    using that m \<open>?r\<close> unfolding map_ok_def by (metis map_of_is_SomeI)
  ultimately show ?l by auto
next
  assume l: ?l
  have sub: "map_of m k = Some v \<Longrightarrow> map_of n k = Some v" for k v
    using l by (auto dest!: map_of_SomeD)
  then have "set (keys m) \<subseteq> set (keys n)"
    unfolding keys_dom by auto
  moreover have "card (set (keys m)) = card (set (keys n))"
    using l m n unfolding map_ok_def by (metis distinct_card length_map)
  ultimately have "set (keys m) = set (keys n)" by (simp add: card_subset_eq)
  then have dom: "dom (map_of m) = dom (map_of n)" by (simp only: keys_dom)
  show ?r
  proof
    fix k
    show "map_of m k = map_of n k"
    proof (cases "map_of m k")
      case None
      with dom show ?thesis by (metis domIff)
    qed (simp add: sub)
  qed
qed

text \<open>Names that cannot be confused once they are joined with NUL.\<close>

definition clean_name :: "string \<Rightarrow> bool" where
  "clean_name s = (s \<noteq> [] \<and> NUL \<notin> set s)"

lemma count_join: "xs \<noteq> [] \<Longrightarrow> \<forall>x \<in> set xs. c \<notin> set x \<Longrightarrow>
    Suc (count_list (join_with [c] xs) c) = length xs"
  by (induction "[c]" xs rule: join_with.induct) (auto simp: count_notin)

lemma join_clean_inject:
  assumes "\<forall>x \<in> set xs. clean_name x" and "\<forall>y \<in> set ys. clean_name y"
  shows "join_with [NUL] xs = join_with [NUL] ys \<longleftrightarrow> xs = ys"
proof
  assume eq: "join_with [NUL] xs = join_with [NUL] ys"
  have Nil: "zs = []" if "join_with [NUL] zs = []" "\<forall>z \<in> set zs. clean_name z" for zs
    using that by (cases "([NUL], zs)" rule: join_with.cases) (auto simp: clean_name_def)
  show "xs = ys"
  proof (cases "xs = [] \<or> ys = []")
    case True
    with eq Nil assms show ?thesis by (metis join_with.simps(1))
  next
    case False
    with eq assms have "length xs = length ys"
      using count_join [of xs NUL] count_join [of ys NUL] by (metis clean_name_def)
    with eq assms show ?thesis
      by (subst (asm) join_with_inject) (auto simp: clean_name_def)
  qed
qed simp

text \<open>A map built by one pass over a list, \<^verbatim>\<open>m[key(x)] = x\<close>.\<close>

definition by_key :: "('a \<Rightarrow> 'k) \<Rightarrow> 'a list \<Rightarrow> ('k, 'a) gomap" where
  "by_key f xs = foldl (\<lambda>m x. AList.update (f x) x m) [] xs"

lemma by_key_snoc: "by_key f (xs @ [x]) = AList.update (f x) x (by_key f xs)"
  by (simp add: by_key_def)

lemma map_ok_by_key [simp]: "map_ok (by_key f xs)"
  by (induction xs rule: rev_induct) (simp_all add: by_key_snoc, simp add: by_key_def)

lemma by_key_SomeD: "map_of (by_key f xs) k = Some x \<Longrightarrow> x \<in> set xs \<and> f x = k"
  by (induction xs rule: rev_induct) (auto simp: by_key_snoc by_key_def split: if_splits)

lemma by_key_None: "map_of (by_key f xs) k = None \<longleftrightarrow> k \<notin> f ` set xs"
  by (induction xs rule: rev_induct) (auto simp: by_key_snoc by_key_def)

lemma by_key_Some:
  assumes "distinct (map f xs)"
  shows "map_of (by_key f xs) k = Some x \<longleftrightarrow> x \<in> set xs \<and> f x = k"
proof
  assume "map_of (by_key f xs) k = Some x"
  then show "x \<in> set xs \<and> f x = k" by (rule by_key_SomeD)
next
  assume x: "x \<in> set xs \<and> f x = k"
  then obtain y where y: "map_of (by_key f xs) k = Some y"
    using by_key_None [of f xs k] by auto
  then have "y \<in> set xs \<and> f y = k" by (rule by_key_SomeD)
  with x assms have "y = x" by (auto simp: distinct_map inj_on_def)
  with y show "map_of (by_key f xs) k = Some x" by simp
qed

lemma by_key_ball:
  assumes "distinct (map f xs)" and "map_of (by_key f xs) k = Some y"
  shows "k \<in> f ` set xs" and "(\<forall>x \<in> set xs. f x = k \<longrightarrow> P x) \<longleftrightarrow> P y"
proof -
  have "x = y" if "x \<in> set xs" "f x = k" for x
    using that assms(2) by_key_Some [OF assms(1), of k x] by simp
  with by_key_SomeD [OF assms(2)] show "k \<in> f ` set xs" "(\<forall>x \<in> set xs. f x = k \<longrightarrow> P x) \<longleftrightarrow> P y"
    by auto
qed

lemma map_of_foldl_update:
  assumes "map_ok xs"
  shows "map_of (foldl (\<lambda>m (k, v). AList.update k (f v) m) m xs) k
    = (case map_of xs k of None \<Rightarrow> map_of m k | Some v \<Rightarrow> Some (f v))"
  using assms
proof (induction xs arbitrary: m)
  case (Cons x xs)
  obtain a v where x: "x = (a, v)" by (cases x)
  with Cons.prems have "map_of xs a = None" by (auto simp: map_ok_Cons map_of_eq_None_iff)
  with Cons x show ?case by (auto simp: map_ok_Cons split: option.splits)
qed simp

end
