(* ===== verification/Nest_Client.thy ===== *)
theory Nest_Client
  imports Go_Prelude
begin

text \<open>
  The Proxy's side of the Nest, an etcd server reached through its HTTP gateway
  (\<^verbatim>\<open>internal/nest\<close>).  A method that talks to the Nest is a program: a tree of requests whose
  branches are the possible HTTP results.  Programs run alone (\<open>run\<close>) or interleaved with other
  Proxies (\<open>net_step\<close>).  The server is a parameter; \<open>etcd_contract\<close> is what the code relies on:
  an accepted request is applied atomically, a failed one is applied or not.  Keys and values
  travel as base64 inside JSON; a request is the record of its decoded fields, a value that is
  not base64 is \<open>None\<close>, and so is a body that is not JSON.
\<close>

datatype (plugins only: code size) nest_compare =
    CompareMod string
  | CompareVersionZero
  | CompareCreateZero

datatype (plugins only: code size) nest_request =
    RangeRequest string
  | PutRequest string bytes
  | TxnRequest string nest_compare bytes
  | DeleteRangeRequest string string
  | CompactionRequest string

record nest_kv =
  kv_value :: "bytes option"
  kv_mod_revision :: string

record nest_body =
  nb_kvs :: "nest_kv list"
  nb_succeeded :: bool
  nb_deleted :: string
  nb_revision :: string

datatype (plugins only: code size) http_result =
    ContactFailed
  | ReadFailed
  | HttpReply int "nest_body option" string

datatype (plugins only: code size) nest_error =
    CannotContact
  | CannotRead
  | StatusError int string
  | BadResponse
  | BadValue
  | InvalidSequenceValue bytes
  | BadModRevision string
  | SequenceExhausted
  | TooMuchContention
  | BadCatalog
  | InvalidTopology
  | TransitionRefused
  | TopologyConflict
  | LostButNoWinner
  | CreatedButMissing
  | UpdatedButMissing
  | NoTopology
  | RepeatedConflicts
  | BadRegistry
  | SchemaDiffers
  | UnsafeTestKey
  | BadDeleteCount string
  | CompactFailed nest_error

datatype 'a prog = Return 'a | Ask nest_request "http_result \<Rightarrow> 'a prog"

primrec bind :: "'a prog \<Rightarrow> ('a \<Rightarrow> 'b prog) \<Rightarrow> 'b prog" where
  "bind (Return a) f = f a"
| "bind (Ask q k) f = Ask q (\<lambda>x. bind (k x) f)"

text \<open>\<^verbatim>\<open>if err != nil { return err }\<close>\<close>

definition check :: "('e + 'a) prog \<Rightarrow> ('a \<Rightarrow> ('e + 'b) prog) \<Rightarrow> ('e + 'b) prog" where
  "check p f = bind p (\<lambda>r. case r of Inl e \<Rightarrow> Return (Inl e) | Inr a \<Rightarrow> f a)"

lemma check_simps [simp]:
  "check (Return (Inl e)) f = Return (Inl e)" "check (Return (Inr a)) f = f a"
  "check (Ask q k) f = Ask q (\<lambda>x. check (k x) f)"
  by (simp_all add: check_def)

definition request_result :: "http_result \<Rightarrow> nest_error + nest_body option" where
  "request_result x = (case x of ContactFailed \<Rightarrow> Inl CannotContact | ReadFailed \<Rightarrow> Inl CannotRead
     | HttpReply status body text \<Rightarrow>
         if status div 100 \<noteq> 2 then Inl (StatusError status (trim_space text)) else Inr body)"

definition request :: "nest_request \<Rightarrow> (nest_error + nest_body option) prog" where
  "request q = Ask q (\<lambda>x. Return (request_result x))"

lemma check_request [simp]:
  "check (request q) f = Ask q (\<lambda>x. case request_result x of Inl e \<Rightarrow> Return (Inl e) | Inr b \<Rightarrow> f b)"
  unfolding request_def check_simps by (rule arg_cong [of _ _ "Ask q"]) (auto split: sum.split)

section \<open>Running programs\<close>

type_synonym 'e http = "'e \<Rightarrow> nest_request \<Rightarrow> http_result \<times> 'e"

primrec run :: "'e http \<Rightarrow> 'a prog \<Rightarrow> 'e \<Rightarrow> 'a \<times> 'e" where
  "run http (Return a) e = (a, e)"
| "run http (Ask q k) e = run http (k (fst (http e q))) (snd (http e q))"

text \<open>
  Several Proxies on one Nest: a client performs its next request, a new client starts, or
  somebody else performs a request that the property at hand tolerates.
\<close>

inductive net_step :: "'e http \<Rightarrow> ('a prog \<Rightarrow> bool) \<Rightarrow> (nest_request \<Rightarrow> bool)
    \<Rightarrow> 'e \<times> 'a prog list \<Rightarrow> 'e \<times> 'a prog list \<Rightarrow> bool" for http starts foreign where
  start: "starts p \<Longrightarrow> net_step http starts foreign (e, ps) (e, ps @ [p])"
| client: "i < length ps \<Longrightarrow> ps ! i = Ask q k \<Longrightarrow> http e q = (x, e')
    \<Longrightarrow> net_step http starts foreign (e, ps) (e', ps[i := k x])"
| other: "foreign q \<Longrightarrow> http e q = (x, e') \<Longrightarrow> net_step http starts foreign (e, ps) (e', ps)"

inductive net_reach :: "'e http \<Rightarrow> ('a prog \<Rightarrow> bool) \<Rightarrow> (nest_request \<Rightarrow> bool)
    \<Rightarrow> 'e \<times> 'a prog list \<Rightarrow> 'e \<times> 'a prog list \<Rightarrow> bool" for http starts foreign w where
  here: "net_reach http starts foreign w w"
| more_steps: "net_reach http starts foreign w v \<Longrightarrow> net_step http starts foreign v u \<Longrightarrow> net_reach http starts foreign w u"

lemma net_reach_invariant:
  assumes "net_reach http starts foreign w u" and "I w"
    and "\<And>v u. I v \<Longrightarrow> net_step http starts foreign v u \<Longrightarrow> I u"
  shows "I u"
  using assms(1,2) by (induction rule: net_reach.induct) (auto intro: assms(3))

text \<open>Running a client without interruption is one of the interleavings.\<close>

lemma run_reach:
  "net_reach http starts foreign w (e, ps @ [p]) \<Longrightarrow>
     net_reach http starts foreign w (snd (run http p e), ps @ [Return (fst (run http p e))])"
proof (induction p arbitrary: e)
  case (Ask q k)
  have "net_step http starts foreign (e, ps @ [Ask q k]) (snd (http e q), (ps @ [Ask q k])[length ps := k (fst (http e q))])"
    by (rule net_step.client) auto
  with Ask.prems have "net_reach http starts foreign w (snd (http e q), ps @ [k (fst (http e q))])"
    by (auto intro: net_reach.more_steps)
  from Ask.IH [OF _ this] show ?case by simp
qed simp

text \<open>An upper bound on the number of requests of a program, whatever the answers.\<close>

fun within :: "nat \<Rightarrow> 'a prog \<Rightarrow> bool" where
  "within n (Return a) = True"
| "within 0 (Ask q k) = False"
| "within (Suc n) (Ask q k) = (\<forall>x. within n (k x))"

section \<open>What the code relies on in etcd\<close>

type_synonym kv_state = "(string \<Rightarrow> (bytes \<times> int) option) \<times> int"

definition kv_holds :: "nest_compare \<Rightarrow> (bytes \<times> int) option \<Rightarrow> bool" where
  "kv_holds c entry = (case c of
       CompareMod text \<Rightarrow> text = show_int (case entry of None \<Rightarrow> 0 | Some (v, r) \<Rightarrow> r)
     | CompareVersionZero \<Rightarrow> entry = None
     | CompareCreateZero \<Rightarrow> entry = None)"

definition kv_put :: "string \<Rightarrow> bytes \<Rightarrow> kv_state \<Rightarrow> kv_state" where
  "kv_put k v s = ((fst s)(k \<mapsto> (v, snd s + 1)), snd s + 1)"

definition kv_apply :: "nest_request \<Rightarrow> kv_state \<Rightarrow> kv_state" where
  "kv_apply q s = (case q of RangeRequest k \<Rightarrow> s | CompactionRequest r \<Rightarrow> s
     | PutRequest k v \<Rightarrow> kv_put k v s
     | TxnRequest k c v \<Rightarrow> if kv_holds c (fst s k) then kv_put k v s else s
     | DeleteRangeRequest a b \<Rightarrow> (\<lambda>k. if a \<le> k \<and> k < b then None else fst s k, snd s + 1))"

definition kv_reply :: "nest_request \<Rightarrow> kv_state \<Rightarrow> nest_body \<Rightarrow> bool" where
  "kv_reply q s b = (case q of
       RangeRequest k \<Rightarrow> nb_kvs b = (case fst s k of None \<Rightarrow> []
         | Some (v, r) \<Rightarrow> [\<lparr>kv_value = Some v, kv_mod_revision = show_int r\<rparr>])
     | TxnRequest k c v \<Rightarrow> nb_succeeded b = kv_holds c (fst s k)
     | _ \<Rightarrow> True)"

text \<open>\<open>replies q s x t\<close>: in state \<open>s\<close> the request \<open>q\<close> may have the HTTP result \<open>x\<close> and leave state \<open>t\<close>.\<close>

definition replies :: "nest_request \<Rightarrow> kv_state \<Rightarrow> http_result \<Rightarrow> kv_state \<Rightarrow> bool" where
  "replies q s x t = (case request_result x of
       Inr body \<Rightarrow> t = kv_apply q s \<and> (\<forall>b. body = Some b \<longrightarrow> kv_reply q s b)
     | Inl err \<Rightarrow> t = s \<or> t = kv_apply q s)"

definition etcd_contract :: "'e http \<Rightarrow> ('e \<Rightarrow> kv_state) \<Rightarrow> bool" where
  "etcd_contract http st = (\<forall>e q. replies q (st e) (fst (http e q)) (st (snd (http e q))))"

definition kv_wf :: "kv_state \<Rightarrow> bool" where
  "kv_wf s = (0 \<le> snd s \<and> (\<forall>k v r. fst s k = Some (v, r) \<longrightarrow> 0 < r \<and> r \<le> snd s))"

lemma kv_put_wf: "kv_wf s \<Longrightarrow> kv_wf (kv_put k v s)"
  by (fastforce simp: kv_wf_def kv_put_def split: if_splits)

lemma kv_apply_wf: "kv_wf s \<Longrightarrow> kv_wf (kv_apply q s)"
  by (cases q) (auto simp: kv_apply_def kv_put_wf, auto simp: kv_wf_def le_SucI split: if_splits, force+)

lemma contract_state:
  assumes "etcd_contract http st" and "http e q = (x, e')"
  shows "st e' = st e \<or> st e' = kv_apply q (st e)"
  using assms(1) [unfolded etcd_contract_def replies_def, rule_format, of e q] assms(2) by (auto split: sum.splits)

lemma contract_accepted:
  assumes "etcd_contract http st" and "http e q = (x, e')" and "request_result x = Inr body"
  shows "st e' = kv_apply q (st e)" "body = Some b \<Longrightarrow> kv_reply q (st e) b"
  using assms(1) [unfolded etcd_contract_def replies_def, rule_format, of e q] assms(2,3) by (auto split: sum.splits)

lemma contract_wf: "etcd_contract http st \<Longrightarrow> http e q = (x, e') \<Longrightarrow> kv_wf (st e) \<Longrightarrow> kv_wf (st e')"
  using contract_state [of http st e q x e'] kv_apply_wf [of "st e" q] by auto

text \<open>Which keys a request may change.\<close>

definition touches :: "string \<Rightarrow> nest_request \<Rightarrow> bool" where
  "touches key q = (case q of RangeRequest k \<Rightarrow> False | CompactionRequest r \<Rightarrow> False
     | PutRequest k v \<Rightarrow> k = key | TxnRequest k c v \<Rightarrow> k = key | DeleteRangeRequest a b \<Rightarrow> a \<le> key \<and> key < b)"

lemma untouched: "\<not> touches key q \<Longrightarrow> fst (kv_apply q s) key = fst s key \<and> snd s \<le> snd (kv_apply q s)"
  by (cases q) (auto simp: touches_def kv_apply_def kv_put_def)

lemma kv_apply_rev: "snd s \<le> snd (kv_apply q s)"
  by (cases q) (auto simp: kv_apply_def kv_put_def)

text \<open>A server that meets the contract.\<close>

definition sample_etcd :: "kv_state http" where
  "sample_etcd s q = (HttpReply 200 (Some \<lparr>
       nb_kvs = (case q of RangeRequest k \<Rightarrow> (case fst s k of None \<Rightarrow> []
           | Some (v, r) \<Rightarrow> [\<lparr>kv_value = Some v, kv_mod_revision = show_int r\<rparr>]) | _ \<Rightarrow> []),
       nb_succeeded = (case q of TxnRequest k c v \<Rightarrow> kv_holds c (fst s k) | _ \<Rightarrow> False),
       nb_deleted = [], nb_revision = []\<rparr>) [], kv_apply q s)"

text \<open>A Nest that answers every request.\<close>

definition available :: "'e http \<Rightarrow> bool" where
  "available http = (\<forall>e q. \<exists>b. request_result (fst (http e q)) = Inr (Some b))"

lemma sample_etcd_available: "available sample_etcd"
  by (simp add: available_def sample_etcd_def request_result_def)

lemma sample_etcd_contract: "etcd_contract sample_etcd (\<lambda>s. s)"
  unfolding etcd_contract_def replies_def sample_etcd_def request_result_def kv_reply_def
  by (auto split: nest_request.split)

section \<open>Rely and guarantee\<close>

text \<open>
  A program is safe for a relation \<open>R\<close> in state \<open>s\<close> when each of its requests, after any evolution
  of the store within \<open>R\<close>, evolves the store within \<open>R\<close>, whatever the reply.
\<close>

primrec safe :: "(kv_state \<Rightarrow> kv_state \<Rightarrow> bool) \<Rightarrow> 'a prog \<Rightarrow> kv_state \<Rightarrow> bool" where
  "safe R (Return a) s = True"
| "safe R (Ask q k) s = (\<forall>t x u. R s t \<and> replies q t x u \<longrightarrow> R t u \<and> safe R (k x) u)"

declare safe.simps(2) [simp del]

lemma safe_AskI:
  "(\<And>t x u. R s t \<Longrightarrow> replies q t x u \<Longrightarrow> R t u \<and> safe R (k x) u) \<Longrightarrow> safe R (Ask q k) s"
  unfolding safe.simps by blast

lemma safe_AskD: "safe R (Ask q k) s \<Longrightarrow> R s t \<Longrightarrow> replies q t x u \<Longrightarrow> R t u \<and> safe R (k x) u"
  unfolding safe.simps by blast

locale rely_guarantee =
  fixes inv :: "kv_state \<Rightarrow> bool"
    and evolves :: "kv_state \<Rightarrow> kv_state \<Rightarrow> bool"
  assumes evolves_refl: "evolves s s"
    and evolves_trans: "evolves s t \<Longrightarrow> evolves t u \<Longrightarrow> evolves s u"
    and evolves_inv: "evolves s t \<Longrightarrow> inv s \<Longrightarrow> inv t"
begin

lemma safe_later: "safe evolves p s \<Longrightarrow> evolves s t \<Longrightarrow> safe evolves p t"
  by (cases p) (auto intro!: safe_AskI dest: safe_AskD evolves_trans)

lemma safe_bind:
  "safe evolves p s \<Longrightarrow> (\<And>a t. evolves s t \<Longrightarrow> safe evolves (f a) t) \<Longrightarrow> safe evolves (bind p f) s"
proof (induction p arbitrary: s)
  case (Return a)
  then show ?case using evolves_refl by simp
next
  case (Ask q k)
  show ?case unfolding bind.simps
  proof (rule safe_AskI)
    fix t x u assume h: "evolves s t" "replies q t x u"
    with safe_AskD [OF Ask.prems(1)] have tu: "evolves t u" "safe evolves (k x) u" by auto
    then have "safe evolves (bind (k x) f) u"
      using Ask.IH [OF rangeI] Ask.prems(2) evolves_trans h(1) by meson
    with tu show "evolves t u \<and> safe evolves (bind (k x) f) u" by simp
  qed
qed

text \<open>When every client program and every foreign request is safe, every reachable state evolves
  within the relation.\<close>

lemma net_evolves:
  assumes "net_reach http starts foreign w u" and "etcd_contract http st" and "inv (st (fst w))"
    and "\<forall>p\<in>set (snd w). safe evolves p (st (fst w))"
    and "\<And>p s. starts p \<Longrightarrow> inv s \<Longrightarrow> safe evolves p s"
    and "\<And>q s. foreign q \<Longrightarrow> inv s \<Longrightarrow> evolves s (kv_apply q s)"
  shows "evolves (st (fst w)) (st (fst u)) \<and> inv (st (fst u)) \<and> (\<forall>p\<in>set (snd u). safe evolves p (st (fst u)))"
  using assms(1)
proof (induction rule: net_reach.induct)
  case here
  then show ?case using assms(3,4) evolves_refl by simp
next
  case (more_steps v u)
  from more_steps(2) show ?case
  proof (cases rule: net_step.cases)
    case (start p e ps)
    with more_steps.IH assms(5) show ?thesis by auto
  next
    case (client i ps q k e x e')
    then have "Ask q k \<in> set ps" by (metis nth_mem)
    with more_steps.IH client have sf: "safe evolves (Ask q k) (st e)" by auto
    have "replies q (st e) x (st e')"
      using assms(2) [unfolded etcd_contract_def, rule_format, of q e] client(5) by simp
    from safe_AskD [OF sf evolves_refl this] have ev: "evolves (st e) (st e')" "safe evolves (k x) (st e')" by auto
    with more_steps.IH client show ?thesis
      by (auto dest!: set_update_subset_insert [THEN subsetD] intro: safe_later evolves_trans evolves_inv)
  next
    case (other q e x e' ps)
    from contract_state [OF assms(2) other(4)] assms(6) [OF other(3), of "st e"] more_steps.IH other evolves_refl [of "st e"]
    have "evolves (st e) (st e')" by auto
    with more_steps.IH other show ?thesis by (auto intro: safe_later evolves_trans evolves_inv)
  qed
qed

end

end
