(* ===== verification/Schema_Registry.thy ===== *)
theory Schema_Registry
  imports Go_Prelude
begin

text \<open>
  \<^verbatim>\<open>internal/schema/registry.go\<close>: the schema contract shared by all Burrows and the
  routing projection the Proxy reads from it.  The record \<open>registry\<close> has the fields of the
  Go struct; every method is one definition.  The SHA-256 fingerprint and the JSON codec
  are parameters.
\<close>

definition CurrentFormatVersion :: int where
  "CurrentFormatVersion = 4"

record GeneratedPrimary =
  gp_Column :: string
  gp_Kind :: string

record snapshot =
  sn_FormatVersion :: int
  sn_Revision :: "64 word"
  sn_Tables :: "(string, string list) gomap"
  sn_ShardKeyTypes :: "(string, string list) gomap"
  sn_Generated :: "(string, GeneratedPrimary) gomap"
  sn_VShards :: "string list"
  sn_AllTables :: "string list"

record registry =
  reg_formatVersion :: int
  reg_revision :: "64 word"
  reg_tables :: "(string, string list) gomap"
  reg_shardKeyTypes :: "(string, string list) gomap"
  reg_generated :: "(string, GeneratedPrimary) gomap"
  reg_vshards :: "string list"
  reg_tableVShards :: "(string, string list) gomap option"
  reg_allTables :: "string list"

definition NewWithGeneratedAndTypes ::
    "(string, string list) gomap \<Rightarrow> (string, GeneratedPrimary) gomap
      \<Rightarrow> (string, string list) gomap \<Rightarrow> registry" where
  "NewWithGeneratedAndTypes tables generated shardKeyTypes =
     \<lparr>reg_formatVersion = CurrentFormatVersion, reg_revision = 0, reg_tables = tables,
      reg_shardKeyTypes = shardKeyTypes, reg_generated = generated, reg_vshards = [],
      reg_tableVShards = None, reg_allTables = []\<rparr>"

definition WithRevision :: "registry \<Rightarrow> 64 word \<Rightarrow> registry" where
  "WithRevision r revision = r\<lparr>reg_revision := revision\<rparr>"

definition Revision :: "registry \<Rightarrow> 64 word" where
  "Revision r = reg_revision r"

definition WithVShards :: "registry \<Rightarrow> string list \<Rightarrow> registry" where
  "WithVShards r owners = r\<lparr>reg_vshards := owners\<rparr>"

definition WithTableVShards :: "registry \<Rightarrow> (string, string list) gomap \<Rightarrow> registry" where
  "WithTableVShards r placements = r\<lparr>reg_tableVShards := Some placements\<rparr>"

definition HasTopologyPlacement :: "registry \<Rightarrow> bool" where
  "HasTopologyPlacement r = (reg_tableVShards r \<noteq> None)"

definition WithAllTables :: "registry \<Rightarrow> string list \<Rightarrow> registry" where
  "WithAllTables r tables = r\<lparr>reg_allTables := sort tables\<rparr>"

definition PrimaryKey :: "registry \<Rightarrow> string \<Rightarrow> string list option" where
  "PrimaryKey r table = map_of (reg_tables r) table"

definition ShardKey :: "registry \<Rightarrow> string \<Rightarrow> string list option" where
  "ShardKey r table = PrimaryKey r table"

definition ShardKeyTypes :: "registry \<Rightarrow> string \<Rightarrow> string list option" where
  "ShardKeyTypes r table = map_of (reg_shardKeyTypes r) table"

definition GeneratedPrimaryKey :: "registry \<Rightarrow> string \<Rightarrow> GeneratedPrimary option" where
  "GeneratedPrimaryKey r table = map_of (reg_generated r) table"

definition IsSharded :: "registry \<Rightarrow> string \<Rightarrow> bool" where
  "IsSharded r table = (ShardKey r table \<noteq> None)"

definition CanonicalTable :: "registry \<Rightarrow> string \<Rightarrow> string" where
  "CanonicalTable r table =
     (if CHR ''.'' \<in> set table then table
      else (let qualified = ''public.'' @ table in
        if sorted_contains (reg_allTables r) qualified then qualified else table))"

definition HasTable :: "registry \<Rightarrow> string \<Rightarrow> bool" where
  "HasTable r table = sorted_contains (reg_allTables r) (CanonicalTable r table)"

definition VShardOwners :: "registry \<Rightarrow> string list" where
  "VShardOwners r = reg_vshards r"

text \<open>Reading a nil map finds nothing.\<close>

definition TableVShardOwners :: "registry \<Rightarrow> string \<Rightarrow> string list option" where
  "TableVShardOwners r table =
     (case reg_tableVShards r of None \<Rightarrow> None
      | Some placements \<Rightarrow> map_of placements (CanonicalTable r table))"

definition VShardCountFor :: "registry \<Rightarrow> string \<Rightarrow> nat" where
  "VShardCountFor r table =
     (case TableVShardOwners r table of Some owners \<Rightarrow> length owners
      | None \<Rightarrow> length (reg_vshards r))"

definition MaximumVShardCount :: "registry \<Rightarrow> nat" where
  "MaximumVShardCount r =
     foldl (\<lambda>maximum (table, owners). if length owners > maximum then length owners else maximum)
       (length (reg_vshards r)) (case reg_tableVShards r of None \<Rightarrow> [] | Some p \<Rightarrow> p)"

definition VShardOwner :: "registry \<Rightarrow> int \<Rightarrow> string option" where
  "VShardOwner r vshard =
     (if vshard < 0 \<or> vshard \<ge> int (length (reg_vshards r)) then None
      else Some (reg_vshards r ! nat vshard))"

definition VShardOwnerFor :: "registry \<Rightarrow> string \<Rightarrow> int \<Rightarrow> string option" where
  "VShardOwnerFor r table vshard =
     (case TableVShardOwners r table of
        Some owners \<Rightarrow> (if vshard < 0 \<or> vshard \<ge> int (length owners) then None
                       else Some (owners ! nat vshard))
      | None \<Rightarrow> VShardOwner r vshard)"

definition CanonicalShardedTables :: "registry \<Rightarrow> string list" where
  "CanonicalShardedTables r = filter (IsSharded r) (reg_allTables r)"

record TableInventory =
  ti_Table :: string
  ti_Sharded :: bool
  ti_ShardKeys :: "string list"

definition Inventory :: "registry \<Rightarrow> TableInventory list" where
  "Inventory r = map (\<lambda>table.
     \<lparr>ti_Table = table, ti_Sharded = IsSharded r table,
      ti_ShardKeys = (case ShardKey r table of None \<Rightarrow> [] | Some ks \<Rightarrow> ks)\<rparr>) (reg_allTables r)"

section \<open>Comparing registries\<close>

datatype schema_error =
    TableCountDiffers nat nat
  | ShardKeyDiffers string
  | TypeCountDiffers nat nat
  | ShardKeyTypesDiffer string
  | GeneratedCountDiffers nat nat
  | GeneratedKeyDiffers string
  | TableInventoryDiffers
  | VShardPlacementDiffers

definition EqualSchema :: "registry \<Rightarrow> registry \<Rightarrow> schema_error option" where
  "EqualSchema r other =
     (if length (reg_tables r) \<noteq> length (reg_tables other)
      then Some (TableCountDiffers (length (reg_tables r)) (length (reg_tables other)))
      else case first_error (\<lambda>(table, columns).
             case map_of (reg_tables other) table of
               None \<Rightarrow> Some (ShardKeyDiffers table)
             | Some otherColumns \<Rightarrow>
                 if join_with [NUL] columns \<noteq> join_with [NUL] otherColumns
                 then Some (ShardKeyDiffers table) else None) (reg_tables r) of
        Some e \<Rightarrow> Some e
      | None \<Rightarrow>
     (if length (reg_shardKeyTypes r) \<noteq> length (reg_shardKeyTypes other)
      then Some (TypeCountDiffers (length (reg_shardKeyTypes r)) (length (reg_shardKeyTypes other)))
      else case first_error (\<lambda>(table, types).
             case map_of (reg_shardKeyTypes other) table of
               None \<Rightarrow> Some (ShardKeyTypesDiffer table)
             | Some otherTypes \<Rightarrow>
                 if join_with [NUL] types \<noteq> join_with [NUL] otherTypes
                 then Some (ShardKeyTypesDiffer table) else None) (reg_shardKeyTypes r) of
        Some e \<Rightarrow> Some e
      | None \<Rightarrow>
     (if length (reg_generated r) \<noteq> length (reg_generated other)
      then Some (GeneratedCountDiffers (length (reg_generated r)) (length (reg_generated other)))
      else case first_error (\<lambda>(table, value).
             if (case map_of (reg_generated other) table of
                   None \<Rightarrow> \<lparr>gp_Column = [], gp_Kind = []\<rparr> | Some v \<Rightarrow> v) \<noteq> value
             then Some (GeneratedKeyDiffers table) else None) (reg_generated r) of
        Some e \<Rightarrow> Some e
      | None \<Rightarrow>
     (if join_with [NUL] (reg_allTables r) \<noteq> join_with [NUL] (reg_allTables other)
      then Some TableInventoryDiffers else None))))"

definition Equal :: "registry \<Rightarrow> registry \<Rightarrow> schema_error option" where
  "Equal r other = (case EqualSchema r other of Some e \<Rightarrow> Some e
     | None \<Rightarrow> if join_with [NUL] (reg_vshards r) \<noteq> join_with [NUL] (reg_vshards other)
              then Some VShardPlacementDiffers else None)"

definition Tables :: "registry \<Rightarrow> string list" where
  "Tables r = sort (keys (reg_tables r))"

text \<open>
  \<^verbatim>\<open>Fingerprint\<close> hashes the JSON of the two routing maps; \<open>digest\<close> is
  that hash.
\<close>

type_synonym fingerprinter = "(string, string list) gomap \<Rightarrow> (string, string list) gomap \<Rightarrow> string"

definition Fingerprint :: "fingerprinter \<Rightarrow> registry \<Rightarrow> string" where
  "Fingerprint digest r = digest (reg_tables r) (reg_shardKeyTypes r)"

section \<open>Snapshots\<close>

definition Snapshot :: "registry \<Rightarrow> snapshot" where
  "Snapshot r = \<lparr>sn_FormatVersion = CurrentFormatVersion, sn_Revision = reg_revision r,
     sn_Tables = reg_tables r, sn_ShardKeyTypes = reg_shardKeyTypes r,
     sn_Generated = reg_generated r, sn_VShards = [], sn_AllTables = reg_allTables r\<rparr>"

definition MarshalJSON :: "(snapshot \<Rightarrow> bytes) \<Rightarrow> registry \<Rightarrow> bytes" where
  "MarshalJSON encode r = encode (Snapshot r)"

definition FromJSON :: "(bytes \<Rightarrow> snapshot option) \<Rightarrow> bytes \<Rightarrow> registry option" where
  "FromJSON decode data = (case decode data of None \<Rightarrow> None
     | Some sn \<Rightarrow>
         (let version = (if sn_FormatVersion sn = 0 then 3 else sn_FormatVersion sn);
              revision = (if sn_Revision sn = 0 then 1 else sn_Revision sn);
              r = WithAllTables (WithVShards (WithRevision
                    (NewWithGeneratedAndTypes (sn_Tables sn) (sn_Generated sn) (sn_ShardKeyTypes sn))
                    revision) (sn_VShards sn)) (sn_AllTables sn)
          in Some (r\<lparr>reg_formatVersion := version\<rparr>)))"

section \<open>Well-formed registries\<close>

definition names_clean :: "registry \<Rightarrow> bool" where
  "names_clean r \<longleftrightarrow>
     (\<forall>(t, cs) \<in> set (reg_tables r). \<forall>c \<in> set cs. clean_name c)
     \<and> (\<forall>(t, ts) \<in> set (reg_shardKeyTypes r). \<forall>c \<in> set ts. clean_name c)
     \<and> (\<forall>(t, g) \<in> set (reg_generated r). gp_Column g \<noteq> [])
     \<and> (\<forall>t \<in> set (reg_allTables r). clean_name t)"

definition registry_wf :: "registry \<Rightarrow> bool" where
  "registry_wf r \<longleftrightarrow> map_ok (reg_tables r) \<and> map_ok (reg_shardKeyTypes r)
     \<and> map_ok (reg_generated r) \<and> sorted (reg_allTables r) \<and> names_clean r"

definition same_schema :: "registry \<Rightarrow> registry \<Rightarrow> bool" where
  "same_schema r s \<longleftrightarrow> map_of (reg_tables r) = map_of (reg_tables s)
     \<and> map_of (reg_shardKeyTypes r) = map_of (reg_shardKeyTypes s)
     \<and> map_of (reg_generated r) = map_of (reg_generated s)
     \<and> reg_allTables r = reg_allTables s"

text \<open>Snapshots that agree as maps; a codec may reorder the entries of an object.\<close>

definition snapshot_equiv :: "snapshot \<Rightarrow> snapshot \<Rightarrow> bool" where
  "snapshot_equiv a b \<longleftrightarrow> sn_FormatVersion a = sn_FormatVersion b \<and> sn_Revision a = sn_Revision b
     \<and> map_of (sn_Tables a) = map_of (sn_Tables b)
     \<and> map_of (sn_ShardKeyTypes a) = map_of (sn_ShardKeyTypes b)
     \<and> map_of (sn_Generated a) = map_of (sn_Generated b)
     \<and> sn_VShards a = sn_VShards b \<and> sn_AllTables a = sn_AllTables b"

lemmas registry_defs = WithRevision_def Revision_def WithVShards_def WithTableVShards_def
  HasTopologyPlacement_def WithAllTables_def PrimaryKey_def ShardKey_def ShardKeyTypes_def
  GeneratedPrimaryKey_def IsSharded_def NewWithGeneratedAndTypes_def

section \<open>Facts about registries\<close>

lemma same_columns_iff:
  assumes "map_ok m" and "map_ok n"
    and cm: "\<forall>(t, cs) \<in> set m. \<forall>c \<in> set cs. clean_name c"
    and cn: "\<forall>(t, cs) \<in> set n. \<forall>c \<in> set cs. clean_name c"
  shows "length m = length n \<and> (\<forall>(k, v) \<in> set m.
      (case map_of n k of None \<Rightarrow> False | Some w \<Rightarrow> join_with [NUL] v = join_with [NUL] w))
    \<longleftrightarrow> map_of m = map_of n"
proof -
  have "(case map_of n k of None \<Rightarrow> False | Some w \<Rightarrow> join_with [NUL] v = join_with [NUL] w)
      \<longleftrightarrow> map_of n k = Some v" if kv: "(k, v) \<in> set m" for k v
  proof (cases "map_of n k")
    case (Some w)
    from Some have "(k, w) \<in> set n" by (rule map_of_SomeD)
    with cn have "\<forall>c \<in> set w. clean_name c" by auto
    moreover from cm kv have "\<forall>c \<in> set v. clean_name c" by auto
    ultimately have "join_with [NUL] v = join_with [NUL] w \<longleftrightarrow> v = w"
      by (intro join_clean_inject)
    with Some show ?thesis by auto
  qed simp
  then have "(\<forall>(k, v) \<in> set m. (case map_of n k of None \<Rightarrow> False
      | Some w \<Rightarrow> join_with [NUL] v = join_with [NUL] w)) \<longleftrightarrow> (\<forall>(k, v) \<in> set m. map_of n k = Some v)"
    by (intro ball_cong) auto
  with same_map_iff [OF assms(1,2)] show ?thesis by metis
qed

lemma same_generated_iff:
  assumes "map_ok m" and "map_ok n" and "\<forall>(t, g) \<in> set m. gp_Column g \<noteq> []"
  shows "length m = length n \<and> (\<forall>(k, v) \<in> set m.
      (case map_of n k of None \<Rightarrow> \<lparr>gp_Column = [], gp_Kind = []\<rparr> | Some w \<Rightarrow> w) = v)
    \<longleftrightarrow> map_of m = map_of n"
proof -
  have "((case map_of n k of None \<Rightarrow> \<lparr>gp_Column = [], gp_Kind = []\<rparr> | Some w \<Rightarrow> w) = v)
      \<longleftrightarrow> map_of n k = Some v" if "(k, v) \<in> set m" for k v
    using that assms(3) by (cases "map_of n k") auto
  then have "(\<forall>(k, v) \<in> set m. (case map_of n k of
      None \<Rightarrow> \<lparr>gp_Column = [], gp_Kind = []\<rparr> | Some w \<Rightarrow> w) = v)
      \<longleftrightarrow> (\<forall>(k, v) \<in> set m. map_of n k = Some v)"
    by (intro ball_cong) auto
  with same_map_iff [OF assms(1,2)] show ?thesis by metis
qed

lemma columns_error_None:
  "first_error (\<lambda>(table, columns). case map_of n table of None \<Rightarrow> Some (E table)
      | Some other \<Rightarrow> if join_with [NUL] columns \<noteq> join_with [NUL] other then Some (E table) else None) m = None
   \<longleftrightarrow> (\<forall>(k, v) \<in> set m.
      (case map_of n k of None \<Rightarrow> False | Some w \<Rightarrow> join_with [NUL] v = join_with [NUL] w))"
  unfolding first_error_None by (intro ball_cong) (auto split: option.splits if_splits)

lemma generated_error_None:
  "first_error (\<lambda>(table, value). if (case map_of n table of None \<Rightarrow> z | Some v \<Rightarrow> v) \<noteq> value
      then Some (E table) else None) m = None
   \<longleftrightarrow> (\<forall>(k, v) \<in> set m. (case map_of n k of None \<Rightarrow> z | Some w \<Rightarrow> w) = v)"
  unfolding first_error_None by (intro ball_cong) (auto split: option.splits if_splits)

lemma chain_None:
  "(if a \<noteq> b then Some x else case y of Some e \<Rightarrow> Some e | None \<Rightarrow> z) = None \<longleftrightarrow> (a = b \<and> y = None) \<and> z = None"
  by (auto split: option.splits)

lemma EqualSchema_iff:
  assumes r: "registry_wf r" and s: "registry_wf s"
  shows "EqualSchema r s = None \<longleftrightarrow> same_schema r s"
proof -
  note wf = r [unfolded registry_wf_def names_clean_def] s [unfolded registry_wf_def names_clean_def]
  have tables: "length (reg_tables r) = length (reg_tables s) \<and> (\<forall>(k, v) \<in> set (reg_tables r).
      (case map_of (reg_tables s) k of None \<Rightarrow> False | Some w \<Rightarrow> join_with [NUL] v = join_with [NUL] w))
      \<longleftrightarrow> map_of (reg_tables r) = map_of (reg_tables s)"
    using wf by (intro same_columns_iff) blast+
  have types: "length (reg_shardKeyTypes r) = length (reg_shardKeyTypes s)
      \<and> (\<forall>(k, v) \<in> set (reg_shardKeyTypes r). (case map_of (reg_shardKeyTypes s) k of
            None \<Rightarrow> False | Some w \<Rightarrow> join_with [NUL] v = join_with [NUL] w))
      \<longleftrightarrow> map_of (reg_shardKeyTypes r) = map_of (reg_shardKeyTypes s)"
    using wf by (intro same_columns_iff) blast+
  have generated: "length (reg_generated r) = length (reg_generated s)
      \<and> (\<forall>(k, v) \<in> set (reg_generated r). (case map_of (reg_generated s) k of
            None \<Rightarrow> \<lparr>gp_Column = [], gp_Kind = []\<rparr> | Some w \<Rightarrow> w) = v)
      \<longleftrightarrow> map_of (reg_generated r) = map_of (reg_generated s)"
    using wf by (intro same_generated_iff) blast+
  have inventory: "join_with [NUL] (reg_allTables r) = join_with [NUL] (reg_allTables s)
      \<longleftrightarrow> reg_allTables r = reg_allTables s"
    using wf by (intro join_clean_inject) blast+
  show ?thesis
    unfolding EqualSchema_def chain_None columns_error_None generated_error_None same_schema_def
      tables types generated inventory by simp
qed

lemma CanonicalTable_idem: "CanonicalTable r (CanonicalTable r t) = CanonicalTable r t"
  by (simp add: CanonicalTable_def Let_def)

lemma HasTable_iff:
  assumes "registry_wf r"
  shows "HasTable r t \<longleftrightarrow> t \<in> set (reg_allTables r) \<or> CHR ''.'' \<notin> set t \<and> ''public.'' @ t \<in> set (reg_allTables r)"
  using assms by (auto simp: HasTable_def CanonicalTable_def Let_def registry_wf_def sorted_contains_iff)

lemma FromJSON_MarshalJSON:
  assumes "registry_wf r" and "decode (MarshalJSON encode r) = Some sn" and "snapshot_equiv (Snapshot r) sn"
  shows "\<exists>r'. FromJSON decode (MarshalJSON encode r) = Some r' \<and> same_schema r r'
     \<and> Revision r' = (if Revision r = 0 then 1 else Revision r)
     \<and> reg_formatVersion r' = CurrentFormatVersion \<and> VShardOwners r' = [] \<and> \<not> HasTopologyPlacement r'"
  using assms
  by (auto simp: FromJSON_def Let_def snapshot_equiv_def Snapshot_def same_schema_def registry_defs
     CurrentFormatVersion_def VShardOwners_def registry_wf_def sorted_sort_id)

section \<open>Properties\<close>

text \<open>The drift check between two Burrows reports no error exactly when the two registries
  describe the same schema: the same shard keys, key types and generated keys as maps, and the
  same table inventory.\<close>

theorem EqualSchema_exact:
  assumes "registry_wf r" and "registry_wf s"
  shows "EqualSchema r s = None \<longleftrightarrow> same_schema r s"
  using assms by (rule EqualSchema_iff)

definition sample_schema :: registry where
  "sample_schema = WithAllTables (NewWithGeneratedAndTypes
     [(''public.users'', [''tenant'', ''id''])] [(''public.users'', \<lparr>gp_Column = ''id'', gp_Kind = ''uuid''\<rparr>)]
     [(''public.users'', [''bigint'', ''uuid''])]) [''public.users'', ''public.audit'']"

theorem EqualSchema_exact_witness:
  "EqualSchema sample_schema sample_schema = None \<and> same_schema sample_schema sample_schema"
proof -
  have "registry_wf sample_schema" by code_simp
  from EqualSchema_exact [OF this this] show ?thesis by (simp add: same_schema_def)
qed

text \<open>C11. A registry written to the Nest as JSON and read back, through a codec that returns the
  written snapshot up to the order of object keys, is the same schema at the same revision
  (an unversioned one becomes revision 1), at the current format and without placement.\<close>

theorem registry_round_trip:
  assumes "registry_wf r" and "decode (encode (Snapshot r)) = Some sn" and "snapshot_equiv (Snapshot r) sn"
  shows "\<exists>r'. FromJSON decode (MarshalJSON encode r) = Some r' \<and> same_schema r r'
     \<and> Revision r' = (if Revision r = 0 then 1 else Revision r)
     \<and> reg_formatVersion r' = CurrentFormatVersion \<and> VShardOwners r' = [] \<and> \<not> HasTopologyPlacement r'"
  using assms FromJSON_MarshalJSON [OF assms(1)] by (simp add: MarshalJSON_def)

theorem registry_round_trip_witness:
  "\<exists>r'. FromJSON (\<lambda>s. if s = ''doc'' then Some (Snapshot sample_schema) else None)
     (MarshalJSON (\<lambda>sn. ''doc'') sample_schema) = Some r' \<and> same_schema sample_schema r' \<and> Revision r' = 1"
proof -
  have "registry_wf sample_schema" by code_simp
  from registry_round_trip [OF this, of "\<lambda>s. if s = ''doc'' then Some (Snapshot sample_schema) else None"
      "\<lambda>sn. ''doc''" "Snapshot sample_schema"]
  show ?thesis by (auto simp: snapshot_equiv_def sample_schema_def registry_defs)
qed

end
