(* ===== verification/Nest_Registry.thy ===== *)
theory Nest_Registry
  imports Nest_Client Schema_Registry
begin

text \<open>
  \<^verbatim>\<open>internal/nest/registry.go\<close>, the schema snapshot kept in the Nest without compare-and-swap, and
  \<^verbatim>\<open>internal/nest/maintenance.go\<close>, the removal of one test namespace.  The JSON codec of a
  snapshot is the pair \<open>(encode, decode)\<close>.
\<close>

type_synonym snapshot_codec = "(snapshot \<Rightarrow> bytes) \<times> (bytes \<Rightarrow> snapshot option)"

record VerifiedRegistry =
  vr_Registry :: registry
  vr_LegacyVShardOwners :: "string list"

definition registry_get :: "snapshot_codec \<Rightarrow> string \<Rightarrow> (nest_error + registry option) prog" where
  "registry_get codec key = check (request (RangeRequest key)) (\<lambda>body. Return (case body of None \<Rightarrow> Inl BadResponse
     | Some result \<Rightarrow> (case nb_kvs result of [] \<Rightarrow> Inr None
       | kv # rest \<Rightarrow> (case kv_value kv of None \<Rightarrow> Inl BadValue
         | Some v \<Rightarrow> (case FromJSON (snd codec) v of None \<Rightarrow> Inl BadRegistry | Some r \<Rightarrow> Inr (Some r))))))"

definition registry_put :: "snapshot_codec \<Rightarrow> string \<Rightarrow> registry \<Rightarrow> (nest_error + unit) prog" where
  "registry_put codec key r = check (request (PutRequest key (MarshalJSON (fst codec) r))) (\<lambda>body. Return (Inr ()))"

definition verify_found :: "snapshot_codec \<Rightarrow> string \<Rightarrow> registry \<Rightarrow> registry option \<Rightarrow> (nest_error + VerifiedRegistry) prog" where
  "verify_found codec key live found = (case found of
       None \<Rightarrow> (let live = WithRevision live 1 in
         check (registry_put codec key live) (\<lambda>u. Return (Inr \<lparr>vr_Registry = live, vr_LegacyVShardOwners = []\<rparr>)))
     | Some stored \<Rightarrow> (case EqualSchema stored live of Some e \<Rightarrow> Return (Inl SchemaDiffers)
         | None \<Rightarrow> Return (Inr \<lparr>vr_Registry = WithRevision live (Revision stored),
             vr_LegacyVShardOwners = VShardOwners stored\<rparr>)))"

definition VerifyOrSeedVersioned :: "snapshot_codec \<Rightarrow> string \<Rightarrow> registry \<Rightarrow> (nest_error + VerifiedRegistry) prog" where
  "VerifyOrSeedVersioned codec key live = check (registry_get codec key) (verify_found codec key live)"

definition VerifyOrSeed :: "snapshot_codec \<Rightarrow> string \<Rightarrow> registry \<Rightarrow> (nest_error + unit) prog" where
  "VerifyOrSeed codec key live = check (VerifyOrSeedVersioned codec key live) (\<lambda>v. Return (Inr ()))"

definition put_revision :: "snapshot_codec \<Rightarrow> string \<Rightarrow> registry \<Rightarrow> 64 word \<Rightarrow> (nest_error + registry) prog" where
  "put_revision codec key live revision = (let live = WithRevision live revision in
     check (registry_put codec key live) (\<lambda>u. Return (Inr live)))"

definition replace_found :: "snapshot_codec \<Rightarrow> string \<Rightarrow> registry \<Rightarrow> registry option \<Rightarrow> (nest_error + registry) prog" where
  "replace_found codec key live found = (case found of None \<Rightarrow> put_revision codec key live 1
     | Some stored \<Rightarrow>
         if EqualSchema stored live = None then Return (Inr (WithRevision live (Revision stored)))
         else put_revision codec key live (Revision stored + 1))"

definition ReplaceVersioned :: "snapshot_codec \<Rightarrow> string \<Rightarrow> registry \<Rightarrow> (nest_error + registry) prog" where
  "ReplaceVersioned codec key live = check (registry_get codec key) (replace_found codec key live)"

definition Replace :: "snapshot_codec \<Rightarrow> string \<Rightarrow> registry \<Rightarrow> (nest_error + unit) prog" where
  "Replace codec key live = check (ReplaceVersioned codec key live) (\<lambda>v. Return (Inr ()))"

definition PersistVerified :: "snapshot_codec \<Rightarrow> string \<Rightarrow> registry \<Rightarrow> (nest_error + unit) prog" where
  "PersistVerified codec key live = registry_put codec key live"

section \<open>Maintenance\<close>

definition testNamespaceRoot :: string where
  "testNamespaceRoot = ''/hamstergres/tests/''"

definition safe_key_char :: "char \<Rightarrow> bool" where
  "safe_key_char c = (97 \<le> byte_val c \<and> byte_val c \<le> 122 \<or> 65 \<le> byte_val c \<and> byte_val c \<le> 90
     \<or> 48 \<le> byte_val c \<and> byte_val c \<le> 57 \<or> c = CHR ''-'' \<or> c = CHR ''_'' \<or> c = CHR ''.'')"

definition validateTestKey :: "string \<Rightarrow> bool" where
  "validateTestKey testKey = (testKey \<noteq> [] \<and> length testKey \<le> 128 \<and> list_all safe_key_char testKey)"

fun range_end_rev :: "bytes \<Rightarrow> bytes option" where
  "range_end_rev [] = None"
| "range_end_rev (c # rest) = (if byte_val c < 255 then Some (char_of (byte_val c + 1) # rest) else range_end_rev rest)"

definition prefixRangeEnd :: "bytes \<Rightarrow> bytes" where
  "prefixRangeEnd prefix = (case range_end_rev (rev prefix) of None \<Rightarrow> [NUL] | Some r \<Rightarrow> rev r)"

fun contains_text :: "string \<Rightarrow> string \<Rightarrow> bool" where
  "contains_text [] t = (t = [])"
| "contains_text (c # s) t = (has_prefix (c # s) t \<or> contains_text s t)"

text \<open>The error text of a failed request that the check for a compacted revision reads.\<close>

definition error_text :: "nest_error \<Rightarrow> string" where
  "error_text e = (case e of StatusError status text \<Rightarrow> text | _ \<Rightarrow> [])"

definition compact :: "string \<Rightarrow> (nest_error + unit) prog" where
  "compact revision = bind (request (CompactionRequest revision)) (\<lambda>r. Return (case r of Inr b \<Rightarrow> Inr ()
     | Inl e \<Rightarrow> if contains_text (error_text e) ''required revision has been compacted'' then Inr () else Inl (CompactFailed e)))"

definition DeleteTestNamespace :: "string \<Rightarrow> (nest_error + int) prog" where
  "DeleteTestNamespace testKey =
     (if \<not> validateTestKey testKey then Return (Inl UnsafeTestKey)
      else (let prefix = testNamespaceRoot @ testKey @ ''/'' in
        check (request (DeleteRangeRequest prefix (prefixRangeEnd prefix))) (\<lambda>body.
          case body of None \<Rightarrow> Return (Inl BadResponse)
          | Some result \<Rightarrow>
              (let text = (if nb_deleted result = [] then ''0'' else nb_deleted result) in
               case parse_int64 text of None \<Rightarrow> Return (Inl (BadDeleteCount text))
               | Some deleted \<Rightarrow>
                   if deleted < 0 then Return (Inl (BadDeleteCount text))
                   else if nb_revision result \<noteq> []
                   then check (compact (nb_revision result)) (\<lambda>u. Return (Inr deleted))
                   else Return (Inr deleted)))))"

section \<open>The range of a prefix\<close>

lemma byte_less: "(a :: char) < b \<longleftrightarrow> byte_val a < byte_val b"
  by (simp add: less_char_def)

lemma range_end_split:
  "range_end_rev (rev p) = Some r \<Longrightarrow> \<exists>q c t. p = q @ [c] @ t \<and> byte_val c < 255 \<and> rev r = q @ [char_of (byte_val c + 1)]
     \<and> (\<forall>x\<in>set t. byte_val x = 255)"
proof (induction p rule: rev_induct)
  case (snoc d p)
  show ?case
  proof (cases "byte_val d < 255")
    case True
    with snoc.prems show ?thesis by (intro exI [of _ p] exI [of _ d] exI [of _ "[]"]) auto
  next
    case False
    then have "byte_val d = 255" using byte_val_less [of d] by linarith
    with snoc False obtain q c t where "p = q @ [c] @ t" "byte_val c < 255" "rev r = q @ [char_of (byte_val c + 1)]"
      "\<forall>x\<in>set t. byte_val x = 255" by auto
    with \<open>byte_val d = 255\<close> show ?thesis by (intro exI [of _ q] exI [of _ c] exI [of _ "t @ [d]"]) auto
  qed
qed simp

lemma full_prefix_le: "\<forall>x\<in>set t. byte_val x = 255 \<Longrightarrow> t \<le> k \<longleftrightarrow> (\<exists>rest. k = t @ rest)"
proof (induction t arbitrary: k)
  case (Cons a t)
  show ?case
  proof (cases k)
    case (Cons d k')
    from Cons.prems have "byte_val a = 255" by simp
    with byte_val_less [of d] have "\<not> a < d" unfolding byte_less by linarith
    with Cons Cons.IH [of k'] Cons.prems show ?thesis by auto
  qed simp
qed simp

lemma range_of_prefix:
  assumes "byte_val c < 255" and "\<forall>x\<in>set t. byte_val x = 255"
  shows "q @ c # t \<le> k \<and> k < q @ [char_of (byte_val c + 1)] \<longleftrightarrow> (\<exists>rest. k = q @ c # t @ rest)"
proof (induction q arbitrary: k)
  case Nil
  show ?case
  proof (cases k)
    case (Cons d k')
    have "byte_val (char_of (byte_val c + 1) :: char) = byte_val c + 1" using assms(1) by simp
    then have "d < char_of (byte_val c + 1) \<longleftrightarrow> d < c \<or> d = c" by (auto simp: byte_less less_Suc_eq)
    with Cons full_prefix_le [OF assms(2), of k'] show ?thesis by auto
  qed simp
next
  case (Cons a q)
  show ?case
  proof (cases k)
    case k: (Cons d k')
    with Cons.IH [of k'] show ?thesis by auto
  qed simp
qed

lemma prefixRangeEnd_exact:
  assumes "\<exists>c\<in>set p. byte_val c < 255"
  shows "p \<le> k \<and> k < prefixRangeEnd p \<longleftrightarrow> (\<exists>rest. k = p @ rest)"
proof -
  have "range_end_rev (rev p) \<noteq> None"
    using assms by (induction p rule: rev_induct) auto
  then obtain r where r: "range_end_rev (rev p) = Some r" by blast
  from range_end_split [OF r] obtain q c t where "p = q @ [c] @ t" "byte_val c < 255" "rev r = q @ [char_of (byte_val c + 1)]"
    "\<forall>x\<in>set t. byte_val x = 255" by blast
  with range_of_prefix [of c t q k] r show ?thesis by (simp add: prefixRangeEnd_def)
qed

section \<open>Properties\<close>

text \<open>\<open>DeleteTestNamespace\<close> deletes nothing outside one test's namespace: for a test key it accepts,
  the store loses exactly the keys under \<^verbatim>\<open>/hamstergres/tests/<key>/\<close>, and for any other it sends no
  request at all.\<close>

theorem delete_namespace_exact:
  assumes "etcd_contract http st" and "available http"
  shows "if validateTestKey testKey
    then (\<forall>k. fst (st (snd (run http (DeleteTestNamespace testKey) e))) k
            = (if \<exists>rest. k = ''/hamstergres/tests/'' @ testKey @ ''/'' @ rest then None else fst (st e) k))
    else run http (DeleteTestNamespace testKey) e = (Inl UnsafeTestKey, e)"
proof (cases "validateTestKey testKey")
  case True
  let ?p = "testNamespaceRoot @ testKey @ ''/''"
  let ?q = "DeleteRangeRequest ?p (prefixRangeEnd ?p)"
  obtain x e1 where h: "http e ?q = (x, e1)" by (cases "http e ?q")
  from assms(2) h obtain b where b: "request_result x = Inr (Some b)" unfolding available_def by (metis fst_conv)
  have st1: "fst (st e1) k = (if \<exists>rest. k = ?p @ rest then None else fst (st e) k)" for k
  proof -
    have "\<exists>c\<in>set ?p. byte_val c < 255" by (simp add: testNamespaceRoot_def)
    from prefixRangeEnd_exact [OF this, of k] contract_accepted(1) [OF assms(1) h b] show ?thesis by (simp add: kv_apply_def)
  qed
  have compacted: "st (snd (run http (check (compact r) (\<lambda>u. Return (Inr d))) e1)) = st e1" for r and d :: int
  proof -
    obtain y e2 where c: "http e1 (CompactionRequest r) = (y, e2)" by (cases "http e1 (CompactionRequest r)")
    from contract_state [OF assms(1) c] have "st e2 = st e1" by (auto simp: kv_apply_def)
    then show ?thesis using c
      by (cases "request_result y") (auto simp: compact_def request_def check_def)
  qed
  have "st (snd (run http (DeleteTestNamespace testKey) e)) = st e1"
    using True h b compacted
    by (auto simp: DeleteTestNamespace_def Let_def split: option.split)
  with True st1 show ?thesis by (simp add: testNamespaceRoot_def)
next
  case False
  then show ?thesis by (simp add: DeleteTestNamespace_def)
qed

theorem delete_namespace_exact_witness:
  "fst (snd (run sample_etcd (DeleteTestNamespace ''t1'') (\<lambda>k. Some (k, 1), 5))) ''/hamstergres/tests/t1/x'' = None
   \<and> fst (snd (run sample_etcd (DeleteTestNamespace ''t1'') (\<lambda>k. Some (k, 1), 5))) ''/hamstergres/tests/t10/x'' \<noteq> None"
proof -
  have v: "validateTestKey ''t1''" by code_simp
  from delete_namespace_exact [OF sample_etcd_contract sample_etcd_available, of "''t1''" "(\<lambda>k. Some (k, 1), 5)"] v
  show ?thesis by simp
qed

lemma registry_get_run:
  assumes "etcd_contract http st" and "fst (st e) key = Some (data, m)" and "FromJSON (snd codec) data = Some old"
  shows "\<exists>e1. st e1 = st e \<and> ((\<exists>err. run http (check (registry_get codec key) f) e = (Inl err, e1))
    \<or> run http (check (registry_get codec key) f) e = run http (f (Some old)) e1)"
proof -
  obtain x e1 where h: "http e (RangeRequest key) = (x, e1)" by (cases "http e (RangeRequest key)")
  from contract_state [OF assms(1) h] have st1: "st e1 = st e" by (auto simp: kv_apply_def)
  show ?thesis
  proof (cases "\<exists>b. request_result x = Inr (Some b)")
    case True
    then obtain b where b: "request_result x = Inr (Some b)" by blast
    from contract_accepted(2) [OF assms(1) h b refl] assms(2)
    have "nb_kvs b = [\<lparr>kv_value = Some data, kv_mod_revision = show_int m\<rparr>]" by (simp add: kv_reply_def)
    with b h assms(3) st1 show ?thesis by (auto simp: registry_get_def)
  next
    case False
    with h st1 show ?thesis
      by (cases "request_result x"; cases "projr (request_result x)") (auto simp: registry_get_def)
  qed
qed

text \<open>Schema verification fails closed: against a stored registry a Proxy starts only when its live
  schema equals the stored one, and it adopts the stored revision; an intended replacement
  keeps the revision of an equal schema and advances it by one otherwise.\<close>

theorem registry_fails_closed:
  assumes "etcd_contract http st" and "fst (st e) key = Some (data, m)" and "FromJSON (snd codec) data = Some old"
  shows "st (snd (run http (VerifyOrSeedVersioned codec key live) e)) = st e
    \<and> (\<forall>v. fst (run http (VerifyOrSeedVersioned codec key live) e) = Inr v \<longrightarrow>
          EqualSchema old live = None \<and> Revision (vr_Registry v) = Revision old)
    \<and> (\<forall>r. fst (run http (ReplaceVersioned codec key live) e) = Inr r \<longrightarrow>
          Revision r = (if EqualSchema old live = None then Revision old else Revision old + 1))"
proof -
  obtain e1 where e1: "st e1 = st e"
    "(\<exists>err. run http (VerifyOrSeedVersioned codec key live) e = (Inl err, e1))
      \<or> run http (VerifyOrSeedVersioned codec key live) e = run http (verify_found codec key live (Some old)) e1"
    using registry_get_run [OF assms, of "verify_found codec key live"] unfolding VerifyOrSeedVersioned_def by blast
  obtain e2 where e2: "(\<exists>err. run http (ReplaceVersioned codec key live) e = (Inl err, e2))
      \<or> run http (ReplaceVersioned codec key live) e = run http (replace_found codec key live (Some old)) e2"
    using registry_get_run [OF assms, of "replace_found codec key live"] unfolding ReplaceVersioned_def by blast
  have put: "r = WithRevision live revision" if "fst (run http (put_revision codec key live revision) e2) = Inr r" for r revision
    using that by (auto simp: put_revision_def registry_put_def Let_def split: sum.splits)
  from e1 have "st (snd (run http (VerifyOrSeedVersioned codec key live) e)) = st e
    \<and> (\<forall>v. fst (run http (VerifyOrSeedVersioned codec key live) e) = Inr v \<longrightarrow>
          EqualSchema old live = None \<and> Revision (vr_Registry v) = Revision old)"
    by (auto simp: verify_found_def WithRevision_def Revision_def split: option.splits)
  moreover from e2 put have "\<forall>r. fst (run http (ReplaceVersioned codec key live) e) = Inr r \<longrightarrow>
          Revision r = (if EqualSchema old live = None then Revision old else Revision old + 1)"
    by (auto simp: replace_found_def WithRevision_def Revision_def dest!: put [unfolded WithRevision_def] split: if_splits)
  ultimately show ?thesis by blast
qed

definition sample_snapshot_codec :: snapshot_codec where
  "sample_snapshot_codec = (\<lambda>sn. ''doc'', \<lambda>v. if v = ''doc'' then Some (Snapshot sample_schema) else None)"

definition sample_docs :: kv_state where
  "sample_docs = (\<lambda>k. Some (''doc'', 3), 3)"

theorem registry_fails_closed_witness:
  "snd (run sample_etcd (VerifyOrSeedVersioned sample_snapshot_codec ''r'' sample_schema) sample_docs) = sample_docs"
proof -
  obtain old where o: "FromJSON (snd sample_snapshot_codec) ''doc'' = Some old"
    by (cases "FromJSON (snd sample_snapshot_codec) ''doc''")
      (auto simp: sample_snapshot_codec_def FromJSON_def Let_def Snapshot_def CurrentFormatVersion_def split: if_splits)
  have s: "fst sample_docs ''r'' = Some (''doc'', 3)" by (simp add: sample_docs_def)
  show ?thesis
    using registry_fails_closed [where st = "\<lambda>s. s" and codec = sample_snapshot_codec, OF sample_etcd_contract s o]
    by blast
qed

text \<open>
  Seeding is not atomic: two Proxies that both find the Nest empty both seed it and both start,
  whatever their schemas are.
\<close>

lemma read_empty_step:
  assumes "i < length ps" and "ps ! i = VerifyOrSeedVersioned codec key r" and "fst s key = None"
  shows "net_step sample_etcd starts foreign (s, ps) (s, ps[i := verify_found codec key r None])"
proof -
  let ?k = "\<lambda>x. check (case request_result x of Inl e \<Rightarrow> Return (Inl e)
     | Inr body \<Rightarrow> Return (case body of None \<Rightarrow> Inl BadResponse
       | Some result \<Rightarrow> (case nb_kvs result of [] \<Rightarrow> Inr None
       | kv # rest \<Rightarrow> (case kv_value kv of None \<Rightarrow> Inl BadValue
         | Some v \<Rightarrow> (case FromJSON (snd codec) v of None \<Rightarrow> Inl BadRegistry | Some r \<Rightarrow> Inr (Some r))))))
     (verify_found codec key r)"
  obtain x where x: "sample_etcd s (RangeRequest key) = (x, s)" "?k x = verify_found codec key r None"
    using assms(3) by (simp add: sample_etcd_def kv_apply_def request_result_def)
  have "ps ! i = Ask (RangeRequest key) ?k"
    using assms(2) by (simp add: VerifyOrSeedVersioned_def registry_get_def)
  from net_step.client [where k = ?k and http = sample_etcd and starts = starts and foreign = foreign, OF assms(1) this x(1)] x(2) show ?thesis by simp
qed

lemma seed_step:
  assumes "i < length ps" and "ps ! i = verify_found codec key r None"
  shows "\<exists>t. net_step sample_etcd starts foreign (s, ps)
    (t, ps[i := Return (Inr \<lparr>vr_Registry = WithRevision r 1, vr_LegacyVShardOwners = []\<rparr>)])"
proof -
  let ?q = "PutRequest key (MarshalJSON (fst codec) (WithRevision r 1))"
  let ?k = "\<lambda>x. case request_result x of Inl e \<Rightarrow> Return (Inl e)
    | Inr b \<Rightarrow> Return (Inr \<lparr>vr_Registry = WithRevision r 1, vr_LegacyVShardOwners = []\<rparr>)"
  obtain x t where x: "sample_etcd s ?q = (x, t)"
    "?k x = Return (Inr \<lparr>vr_Registry = WithRevision r 1, vr_LegacyVShardOwners = []\<rparr>)"
    by (simp add: sample_etcd_def request_result_def)
  have "check (case request_result y of Inl e \<Rightarrow> Return (Inl e) | Inr b \<Rightarrow> Return (Inr ()))
      (\<lambda>u. Return (Inr \<lparr>vr_Registry = WithRevision r 1, vr_LegacyVShardOwners = []\<rparr>)) = ?k y" for y
    by (cases "request_result y") simp_all
  then have "ps ! i = Ask ?q ?k" using assms(2) by (simp add: verify_found_def registry_put_def Let_def)
  from net_step.client [where k = ?k and http = sample_etcd and starts = starts and foreign = foreign, OF assms(1) this x(1)] x(2) show ?thesis by (intro exI [of _ t]) simp
qed

lemma seed_race:
  "\<exists>e. net_reach sample_etcd (\<lambda>p. p \<in> {VerifyOrSeedVersioned codec key r1, VerifyOrSeedVersioned codec key r2}) (\<lambda>q. False)
     ((\<lambda>k. None, 0), []) (e, [Return (Inr \<lparr>vr_Registry = WithRevision r1 1, vr_LegacyVShardOwners = []\<rparr>),
        Return (Inr \<lparr>vr_Registry = WithRevision r2 1, vr_LegacyVShardOwners = []\<rparr>)])"
proof -
  let ?p1 = "VerifyOrSeedVersioned codec key r1" and ?p2 = "VerifyOrSeedVersioned codec key r2"
  let ?starts = "\<lambda>p. p \<in> {?p1, ?p2}"
  let ?reach = "net_reach sample_etcd ?starts (\<lambda>q. False) ((\<lambda>k. None, 0), [])"
  let ?ok = "\<lambda>r. Return (Inr \<lparr>vr_Registry = WithRevision r 1, vr_LegacyVShardOwners = []\<rparr>)"
  have "?reach ((\<lambda>k. None, 0), [] @ [?p1])"
    by (intro net_reach.more_steps [OF net_reach.here] net_step.start) simp
  then have "?reach ((\<lambda>k. None, 0), ([] @ [?p1]) @ [?p2])"
    by (rule net_reach.more_steps) (rule net_step.start, simp)
  then have "?reach ((\<lambda>k. None, 0), [?p1, ?p2])" by simp
  from net_reach.more_steps [OF this read_empty_step [of 0]]
  have "?reach ((\<lambda>k. None, 0), [verify_found codec key r1 None, ?p2])" by simp
  from net_reach.more_steps [OF this read_empty_step [of 1]]
  have b: "?reach ((\<lambda>k. None, 0), [verify_found codec key r1 None, verify_found codec key r2 None])" by simp
  obtain t1 where "net_step sample_etcd ?starts (\<lambda>q. False)
      ((\<lambda>k. None, 0), [verify_found codec key r1 None, verify_found codec key r2 None]) (t1, [?ok r1, verify_found codec key r2 None])"
    using seed_step [of 0 "[verify_found codec key r1 None, verify_found codec key r2 None]"] by fastforce
  note c = net_reach.more_steps [OF b this]
  obtain t2 where "net_step sample_etcd ?starts (\<lambda>q. False) (t1, [?ok r1, verify_found codec key r2 None]) (t2, [?ok r1, ?ok r2])"
    using seed_step [of 1 "[?ok r1, verify_found codec key r2 None]"] by fastforce
  from net_reach.more_steps [OF c this] show ?thesis by blast
qed

end
