(* ===== verification/Topology_Catalog.thy ===== *)
theory Topology_Catalog
  imports Schema_Registry
begin

text \<open>
  \<^verbatim>\<open>internal/topology/catalog.go\<close>: the versioned routing catalog kept in the Nest, its
  validation, the bootstrap from schema-registry v3 placement, the projection to per-table
  owner lists, and the rules for moving from one catalog to the next.  An instant is an
  integer with 0 for Go's zero time.  SHA-256 (as a hexadecimal string) and URL parsing are
  parameters.
\<close>

definition TopologyFormatVersion :: int where
  "TopologyFormatVersion = 1"

definition DefaultVShardCount :: nat where
  "DefaultVShardCount = 65536"

definition BootstrapDistribution :: string where
  "BootstrapDistribution = ''distribution-bootstrap-0001''"

definition BurrowAdding :: string where "BurrowAdding = ''adding''"
definition BurrowReady :: string where "BurrowReady = ''ready''"
definition BurrowDraining :: string where "BurrowDraining = ''draining''"
definition BurrowRemoved :: string where "BurrowRemoved = ''removed''"

lemmas state_defs = BurrowAdding_def BurrowReady_def BurrowDraining_def BurrowRemoved_def

record SchemaCompatibility =
  sc_RegistryFormat :: int
  sc_Revision :: "64 word"
  sc_Fingerprint :: string

record TunnelEndpoint =
  te_Name :: string
  te_Address :: string
  te_ConfigurationFingerprint :: string

record Burrow =
  b_ID :: string
  b_Name :: string
  b_State :: string
  b_Tunnels :: "TunnelEndpoint list"
  b_Weight :: "32 word"
  b_CapacityBytes :: int
  b_Labels :: "(string, string) gomap"

record Distribution =
  d_ID :: string
  d_VShardCount :: int
  d_BurrowIDs :: "string list"
  d_OwnerIndexes :: "16 word list"

record ChangeMetadata =
  cm_Actor :: string
  cm_Reason :: string
  cm_Timestamp :: int

record Catalog =
  c_FormatVersion :: int
  c_Revision :: "64 word"
  c_Schema :: SchemaCompatibility
  c_Burrows :: "Burrow list"
  c_Distributions :: "Distribution list"
  c_TableDistributions :: "(string, string) gomap"
  c_Change :: ChangeMetadata

record BootstrapBurrow =
  bb_Name :: string
  bb_DSN :: string

datatype (plugins only: code size) topology_error =
    UnsupportedFormat int
  | RevisionNotPositive
  | SchemaIncomplete
  | AuditIncomplete
  | BurrowIdNameRequired
  | DuplicateBurrowID string
  | DuplicateBurrowName string
  | InvalidState string string
  | WeightNotPositive string
  | CapacityNegative string
  | NoTunnel string
  | IncompleteTunnel string
  | RepeatedTunnel string string
  | EmptyLabelKey string
  | DistributionIdRequired
  | DuplicateDistribution string
  | IncompleteCoverage string
  | InvalidDictionary string
  | RepeatedOwner string string
  | UnknownOwner string string
  | OwnerState string string string
  | UnknownOwnerIndex string
  | EmptyTableName
  | UnknownDistribution string string
  | NoConfiguredBurrow
  | BootstrapNameRequired
  | DuplicateConfigured string
  | UnconfiguredOwner string
  | TooManyOwners
  | CurrentInvalid topology_error
  | RevisionMustAdvance
  | TimestampMustAdvance
  | NewBurrowMustAdd string
  | InvalidTransition string string string
  | BurrowsMustBeRemoved
  | VShardCountChanged string
  | SchemaFormatTooNew
  | SchemaRevisionTooOld
  | SchemaFingerprintMismatch
  | NoDistributionFor string
  | TableNotSharded string
  | NotConfigured string
  | TunnelDiffers string

type_synonym sha_hex = "string \<Rightarrow> string"
type_synonym url_parse = "string \<Rightarrow> (string \<times> string) option"

definition StableBurrowID :: "sha_hex \<Rightarrow> string \<Rightarrow> string" where
  "StableBurrowID sha name = ''burrow-'' @ take 20 (sha (''hamstergres-burrow'' @ [NUL] @ name))"

definition LegacyModuloOwners :: "string list \<Rightarrow> nat \<Rightarrow> string list" where
  "LegacyModuloOwners names n =
     (let sorted = sort names in
      if length sorted = 0 then replicate n []
      else map (\<lambda>vshard. let remainder = vshard mod length sorted in
             if remainder = 0 then sorted ! (length sorted - 1) else sorted ! (remainder - 1))
           [0..<n])"

text \<open>\<open>url dsn\<close> is the host and the escaped path, \<open>None\<close> when the DSN does not parse.\<close>

definition tunnelMetadata :: "sha_hex \<Rightarrow> url_parse \<Rightarrow> string \<Rightarrow> string \<times> string" where
  "tunnelMetadata sha url dsn =
     (let fingerprint = ''sha256:'' @ sha dsn in
      case url dsn of None \<Rightarrow> (''configured-endpoint'', fingerprint)
      | Some (host, path) \<Rightarrow>
          if host = [] then (''configured-endpoint'', fingerprint)
          else (host @ (if path \<noteq> [] \<and> last path = CHR ''/'' then butlast path else path),
                fingerprint))"

section \<open>Validation\<close>

definition validState :: "string \<Rightarrow> bool" where
  "validState state = (state = BurrowAdding \<or> state = BurrowReady
     \<or> state = BurrowDraining \<or> state = BurrowRemoved)"

fun validate_tunnels :: "string \<Rightarrow> TunnelEndpoint list \<Rightarrow> goset \<Rightarrow> topology_error option" where
  "validate_tunnels bn [] seen = None"
| "validate_tunnels bn (t # ts) seen =
     (if te_Name t = [] \<or> te_Address t = [] \<or> te_ConfigurationFingerprint t = []
      then Some (IncompleteTunnel bn)
      else if te_Name t \<in> set seen then Some (RepeatedTunnel bn (te_Name t))
      else validate_tunnels bn ts (te_Name t # seen))"

definition validate_burrow :: "Burrow \<Rightarrow> topology_error option" where
  "validate_burrow b =
     (if \<not> validState (b_State b) then Some (InvalidState (b_Name b) (b_State b))
      else if b_Weight b = 0 then Some (WeightNotPositive (b_Name b))
      else if b_CapacityBytes b < 0 then Some (CapacityNegative (b_Name b))
      else if b_State b \<noteq> BurrowRemoved \<and> length (b_Tunnels b) = 0 then Some (NoTunnel (b_Name b))
      else case validate_tunnels (b_Name b) (b_Tunnels b) [] of Some e \<Rightarrow> Some e
      | None \<Rightarrow> first_error (\<lambda>(key, value).
          if trim_space key = [] then Some (EmptyLabelKey (b_Name b)) else None) (b_Labels b))"

fun validate_burrows ::
    "Burrow list \<Rightarrow> (string, Burrow) gomap \<Rightarrow> goset \<Rightarrow> topology_error + (string, Burrow) gomap" where
  "validate_burrows [] burrows names = Inr burrows"
| "validate_burrows (b # bs) burrows names =
     (if b_ID b = [] \<or> b_Name b = [] then Inl BurrowIdNameRequired
      else if map_of burrows (b_ID b) \<noteq> None then Inl (DuplicateBurrowID (b_ID b))
      else if b_Name b \<in> set names then Inl (DuplicateBurrowName (b_Name b))
      else case validate_burrow b of Some e \<Rightarrow> Inl e
      | None \<Rightarrow> validate_burrows bs (AList.update (b_ID b) b burrows) (b_Name b # names))"

fun validate_owners ::
    "string \<Rightarrow> (string, Burrow) gomap \<Rightarrow> string list \<Rightarrow> goset \<Rightarrow> topology_error option" where
  "validate_owners did burrows [] seen = None"
| "validate_owners did burrows (ow # owners) seen =
     (if ow \<in> set seen then Some (RepeatedOwner did ow)
      else case map_of burrows ow of None \<Rightarrow> Some (UnknownOwner did ow)
      | Some b \<Rightarrow>
          if b_State b \<noteq> BurrowReady \<and> b_State b \<noteq> BurrowDraining
          then Some (OwnerState did (b_Name b) (b_State b))
          else validate_owners did burrows owners (ow # seen))"

definition validate_distribution ::
    "(string, Burrow) gomap \<Rightarrow> Distribution \<Rightarrow> topology_error option" where
  "validate_distribution burrows d =
     (if d_VShardCount d \<le> 0 \<or> int (length (d_OwnerIndexes d)) \<noteq> d_VShardCount d
      then Some (IncompleteCoverage (d_ID d))
      else if length (d_BurrowIDs d) = 0 \<or> int (length (d_BurrowIDs d)) > 2 ^ 16
      then Some (InvalidDictionary (d_ID d))
      else case validate_owners (d_ID d) burrows (d_BurrowIDs d) [] of Some e \<Rightarrow> Some e
      | None \<Rightarrow> first_error (\<lambda>ownerIndex.
          if unat ownerIndex \<ge> length (d_BurrowIDs d) then Some (UnknownOwnerIndex (d_ID d)) else None)
          (d_OwnerIndexes d))"

fun validate_distributions ::
    "(string, Burrow) gomap \<Rightarrow> Distribution list \<Rightarrow> (string, Distribution) gomap
      \<Rightarrow> topology_error + (string, Distribution) gomap" where
  "validate_distributions burrows [] ds = Inr ds"
| "validate_distributions burrows (d # rest) ds =
     (if d_ID d = [] then Inl DistributionIdRequired
      else if map_of ds (d_ID d) \<noteq> None then Inl (DuplicateDistribution (d_ID d))
      else case validate_distribution burrows d of Some e \<Rightarrow> Inl e
      | None \<Rightarrow> validate_distributions burrows rest (AList.update (d_ID d) d ds))"

definition Validate :: "Catalog \<Rightarrow> topology_error option" where
  "Validate c =
     (if c_FormatVersion c \<noteq> TopologyFormatVersion then Some (UnsupportedFormat (c_FormatVersion c))
      else if c_Revision c = 0 then Some RevisionNotPositive
      else if sc_RegistryFormat (c_Schema c) \<le> 0 \<or> sc_Revision (c_Schema c) = 0
           \<or> sc_Fingerprint (c_Schema c) = [] then Some SchemaIncomplete
      else if cm_Actor (c_Change c) = [] \<or> cm_Reason (c_Change c) = []
           \<or> cm_Timestamp (c_Change c) = 0 then Some AuditIncomplete
      else case validate_burrows (c_Burrows c) [] [] of Inl e \<Rightarrow> Some e
      | Inr burrows \<Rightarrow>
     (case validate_distributions burrows (c_Distributions c) [] of Inl e \<Rightarrow> Some e
      | Inr distributions \<Rightarrow>
          first_error (\<lambda>(table, distributionID).
            if trim_space table = [] then Some EmptyTableName
            else if map_of distributions distributionID = None
            then Some (UnknownDistribution table distributionID) else None)
          (c_TableDistributions c)))"

section \<open>Bootstrap\<close>

definition bootstrap_burrow :: "sha_hex \<Rightarrow> url_parse \<Rightarrow> BootstrapBurrow \<Rightarrow> Burrow" where
  "bootstrap_burrow sha url cb =
     (let (address, fingerprint) = tunnelMetadata sha url (bb_DSN cb)
      in \<lparr>b_ID = StableBurrowID sha (bb_Name cb), b_Name = bb_Name cb, b_State = BurrowReady,
          b_Tunnels = [\<lparr>te_Name = ''primary'', te_Address = address,
                        te_ConfigurationFingerprint = fingerprint\<rparr>],
          b_Weight = 1, b_CapacityBytes = 0, b_Labels = []\<rparr>)"

fun bootstrap_burrows :: "sha_hex \<Rightarrow> url_parse \<Rightarrow> BootstrapBurrow list \<Rightarrow> (string, string) gomap
    \<Rightarrow> topology_error + ((string, string) gomap \<times> Burrow list)" where
  "bootstrap_burrows sha url [] byName = Inr (byName, [])"
| "bootstrap_burrows sha url (cb # rest) byName =
     (if bb_Name cb = [] \<or> bb_DSN cb = [] then Inl BootstrapNameRequired
      else if map_of byName (bb_Name cb) \<noteq> None then Inl (DuplicateConfigured (bb_Name cb))
      else case bootstrap_burrows sha url rest
                  (AList.update (bb_Name cb) (StableBurrowID sha (bb_Name cb)) byName) of
             Inl e \<Rightarrow> Inl e
           | Inr (m, burrows) \<Rightarrow> Inr (m, bootstrap_burrow sha url cb # burrows))"

text \<open>The owner dictionary grows in order of first occurrence; indexes are 16 bits wide.\<close>

fun encode_owners :: "(string, string) gomap \<Rightarrow> string list \<Rightarrow> string list \<Rightarrow> (string, 16 word) gomap
    \<Rightarrow> 16 word list \<Rightarrow> topology_error + (string list \<times> 16 word list)" where
  "encode_owners byName [] dictionary byID indexes = Inr (dictionary, indexes)"
| "encode_owners byName (ow # owners) dictionary byID indexes =
     (case map_of byName ow of None \<Rightarrow> Inl (UnconfiguredOwner ow)
      | Some bid \<Rightarrow>
     (case map_of byID bid of
        Some i \<Rightarrow> encode_owners byName owners dictionary byID (indexes @ [i])
      | None \<Rightarrow>
          if int (length dictionary) \<ge> 2 ^ 16 then Inl TooManyOwners
          else (let i = of_nat (length dictionary) in
            encode_owners byName owners (dictionary @ [bid]) (AList.update bid i byID) (indexes @ [i]))))"

definition bootstrap_catalog :: "fingerprinter \<Rightarrow> registry \<Rightarrow> Burrow list \<Rightarrow> string list
    \<Rightarrow> 16 word list \<Rightarrow> int \<Rightarrow> Catalog" where
  "bootstrap_catalog digest r burrows dictionary indexes now =
     \<lparr>c_FormatVersion = TopologyFormatVersion, c_Revision = 1,
      c_Schema = \<lparr>sc_RegistryFormat = CurrentFormatVersion,
         sc_Revision = (if Revision r = 0 then 1 else Revision r),
         sc_Fingerprint = Fingerprint digest r\<rparr>,
      c_Burrows = burrows,
      c_Distributions = [\<lparr>d_ID = BootstrapDistribution,
         d_VShardCount = int (length indexes), d_BurrowIDs = dictionary,
         d_OwnerIndexes = indexes\<rparr>],
      c_TableDistributions =
        foldl (\<lambda>m t. AList.update t BootstrapDistribution m) [] (CanonicalShardedTables r),
      c_Change = \<lparr>cm_Actor = ''hamstergres-proxy'',
         cm_Reason = ''bootstrap schema-registry v3 placement'', cm_Timestamp = now\<rparr>\<rparr>"

definition Bootstrap :: "sha_hex \<Rightarrow> url_parse \<Rightarrow> fingerprinter \<Rightarrow> registry \<Rightarrow> BootstrapBurrow list
    \<Rightarrow> string list \<Rightarrow> int \<Rightarrow> topology_error + Catalog" where
  "Bootstrap sha url digest r configured legacyOwners now =
     (if length configured = 0 then Inl NoConfiguredBurrow
      else (let configured = sort_key bb_Name configured in
        case bootstrap_burrows sha url configured [] of Inl e \<Rightarrow> Inl e
        | Inr (byName, burrows) \<Rightarrow>
       (let owners = (if length legacyOwners = 0
              then LegacyModuloOwners (map bb_Name configured) DefaultVShardCount else legacyOwners) in
        case encode_owners byName owners [] [] [] of Inl e \<Rightarrow> Inl e
        | Inr (dictionary, indexes) \<Rightarrow>
       (let catalog = bootstrap_catalog digest r burrows dictionary indexes now
        in case Validate catalog of Some e \<Rightarrow> Inl e | None \<Rightarrow> Inr catalog))))"

section \<open>Compatibility with the schema and the configuration\<close>

definition ValidateSchema :: "fingerprinter \<Rightarrow> Catalog \<Rightarrow> registry \<Rightarrow> topology_error option" where
  "ValidateSchema digest c r =
     (if sc_RegistryFormat (c_Schema c) > CurrentFormatVersion then Some SchemaFormatTooNew
      else if Revision r < sc_Revision (c_Schema c) then Some SchemaRevisionTooOld
      else if Fingerprint digest r \<noteq> sc_Fingerprint (c_Schema c) then Some SchemaFingerprintMismatch
      else case first_error (\<lambda>table.
             if map_of (c_TableDistributions c) table = None then Some (NoDistributionFor table) else None)
             (CanonicalShardedTables r) of
        Some e \<Rightarrow> Some e
      | None \<Rightarrow> first_error (\<lambda>(table, distributionID).
             if \<not> IsSharded r table then Some (TableNotSharded table) else None)
             (c_TableDistributions c))"

definition ValidateConfigured ::
    "sha_hex \<Rightarrow> url_parse \<Rightarrow> Catalog \<Rightarrow> (string, string) gomap \<Rightarrow> topology_error option" where
  "ValidateConfigured sha url c configured = first_error (\<lambda>b.
     if b_State b \<noteq> BurrowReady \<and> b_State b \<noteq> BurrowDraining then None
     else case map_of configured (b_Name b) of None \<Rightarrow> Some (NotConfigured (b_Name b))
     | Some dsn \<Rightarrow>
         (let (address, fingerprint) = tunnelMetadata sha url dsn in
          case b_Tunnels b of [] \<Rightarrow> Some (TunnelDiffers (b_Name b))
          | t # _ \<Rightarrow> if te_Address t \<noteq> address \<or> te_ConfigurationFingerprint t \<noteq> fingerprint
                     then Some (TunnelDiffers (b_Name b)) else None)) (c_Burrows c)"

section \<open>Routing projection\<close>

definition owner_names :: "Catalog \<Rightarrow> Distribution \<Rightarrow> string list" where
  "owner_names c d = map (\<lambda>ownerIndex.
     case map_of (by_key b_ID (c_Burrows c)) (d_BurrowIDs d ! unat ownerIndex) of
       None \<Rightarrow> [] | Some b \<Rightarrow> b_Name b) (d_OwnerIndexes d)"

definition TablePlacements :: "Catalog \<Rightarrow> topology_error + (string, string list) gomap" where
  "TablePlacements c = (case Validate c of Some e \<Rightarrow> Inl e
     | None \<Rightarrow> Inr (foldl (\<lambda>placements (table, distributionID).
         AList.update table
           (case map_of (by_key d_ID (c_Distributions c)) distributionID of
              None \<Rightarrow> [] | Some d \<Rightarrow> owner_names c d) placements) [] (c_TableDistributions c)))"

definition routable :: "Burrow \<Rightarrow> bool" where
  "routable b = (b_State b = BurrowReady \<or> b_State b = BurrowDraining)"

definition RoutableBurrowNames :: "Catalog \<Rightarrow> string list" where
  "RoutableBurrowNames c = sort (map b_Name (filter routable (c_Burrows c)))"

section \<open>Transitions\<close>

definition validTransition :: "string \<Rightarrow> string \<Rightarrow> bool" where
  "validTransition from to =
     (if from = to then True
      else if from = BurrowAdding then to = BurrowReady \<or> to = BurrowRemoved
      else if from = BurrowReady then to = BurrowDraining
      else if from = BurrowDraining then to = BurrowReady \<or> to = BurrowRemoved
      else False)"

fun check_next_burrows ::
    "Burrow list \<Rightarrow> (string, Burrow) gomap \<Rightarrow> topology_error + (string, Burrow) gomap" where
  "check_next_burrows [] previous = Inr previous"
| "check_next_burrows (b # bs) previous =
     (case map_of previous (b_ID b) of
        None \<Rightarrow> if b_State b \<noteq> BurrowAdding then Inl (NewBurrowMustAdd (b_Name b))
               else check_next_burrows bs previous
      | Some old \<Rightarrow>
          if \<not> validTransition (b_State old) (b_State b)
          then Inl (InvalidTransition (b_Name b) (b_State old) (b_State b))
          else check_next_burrows bs (AList.delete (b_ID b) previous))"

definition ValidateTransition :: "Catalog \<Rightarrow> Catalog \<Rightarrow> topology_error option" where
  "ValidateTransition previous next' =
     (case Validate previous of Some e \<Rightarrow> Some (CurrentInvalid e)
      | None \<Rightarrow>
     (case Validate next' of Some e \<Rightarrow> Some e
      | None \<Rightarrow>
          if c_Revision next' \<noteq> c_Revision previous + 1 then Some RevisionMustAdvance
          else if \<not> cm_Timestamp (c_Change next') > cm_Timestamp (c_Change previous)
          then Some TimestampMustAdvance
          else case check_next_burrows (c_Burrows next') (by_key b_ID (c_Burrows previous)) of
            Inl e \<Rightarrow> Some e
          | Inr remaining \<Rightarrow>
              if length remaining \<noteq> 0 then Some BurrowsMustBeRemoved
              else first_error (\<lambda>d.
                case map_of (by_key d_ID (c_Distributions previous)) (d_ID d) of
                  None \<Rightarrow> None
                | Some old \<Rightarrow> if d_VShardCount old \<noteq> d_VShardCount d
                              then Some (VShardCountChanged (d_ID d)) else None)
                (c_Distributions next')))"


section \<open>What a valid catalog is\<close>

definition tunnel_complete :: "TunnelEndpoint \<Rightarrow> bool" where
  "tunnel_complete t \<longleftrightarrow> te_Name t \<noteq> [] \<and> te_Address t \<noteq> [] \<and> te_ConfigurationFingerprint t \<noteq> []"

definition burrow_ok :: "Burrow \<Rightarrow> bool" where
  "burrow_ok b \<longleftrightarrow> b_ID b \<noteq> [] \<and> b_Name b \<noteq> [] \<and> validState (b_State b) \<and> b_Weight b \<noteq> 0
     \<and> 0 \<le> b_CapacityBytes b \<and> (b_State b = BurrowRemoved \<or> b_Tunnels b \<noteq> [])
     \<and> (\<forall>t \<in> set (b_Tunnels b). tunnel_complete t) \<and> distinct (map te_Name (b_Tunnels b))
     \<and> (\<forall>k \<in> set (keys (b_Labels b)). trim_space k \<noteq> [])"

definition distribution_ok :: "Burrow list \<Rightarrow> Distribution \<Rightarrow> bool" where
  "distribution_ok bs d \<longleftrightarrow> d_ID d \<noteq> [] \<and> d_OwnerIndexes d \<noteq> []
     \<and> d_VShardCount d = int (length (d_OwnerIndexes d))
     \<and> d_BurrowIDs d \<noteq> [] \<and> length (d_BurrowIDs d) \<le> 65536 \<and> distinct (d_BurrowIDs d)
     \<and> (\<forall>ow \<in> set (d_BurrowIDs d). \<exists>b \<in> set bs. b_ID b = ow \<and> routable b)
     \<and> (\<forall>i \<in> set (d_OwnerIndexes d). unat i < length (d_BurrowIDs d))"

definition catalog_ok :: "Catalog \<Rightarrow> bool" where
  "catalog_ok c \<longleftrightarrow> c_FormatVersion c = TopologyFormatVersion \<and> c_Revision c \<noteq> 0
     \<and> 0 < sc_RegistryFormat (c_Schema c) \<and> sc_Revision (c_Schema c) \<noteq> 0
     \<and> sc_Fingerprint (c_Schema c) \<noteq> []
     \<and> cm_Actor (c_Change c) \<noteq> [] \<and> cm_Reason (c_Change c) \<noteq> [] \<and> cm_Timestamp (c_Change c) \<noteq> 0
     \<and> (\<forall>b \<in> set (c_Burrows c). burrow_ok b)
     \<and> distinct (map b_ID (c_Burrows c)) \<and> distinct (map b_Name (c_Burrows c))
     \<and> (\<forall>d \<in> set (c_Distributions c). distribution_ok (c_Burrows c) d)
     \<and> distinct (map d_ID (c_Distributions c))
     \<and> (\<forall>(t, did) \<in> set (c_TableDistributions c).
          trim_space t \<noteq> [] \<and> did \<in> d_ID ` set (c_Distributions c))"

lemma validate_tunnels_None:
  "validate_tunnels bn ts seen = None \<longleftrightarrow> (\<forall>t \<in> set ts. tunnel_complete t)
     \<and> distinct (map te_Name ts) \<and> set (map te_Name ts) \<inter> set seen = {}"
  by (induction ts arbitrary: seen) (auto simp: tunnel_complete_def)

lemma guard_None: "(if p then Some e else x) = None \<longleftrightarrow> \<not> p \<and> x = None"
  by simp

lemma option_chain_None: "(case y of Some e \<Rightarrow> Some (f e) | None \<Rightarrow> z) = None \<longleftrightarrow> y = None \<and> z = None"
  by (cases y) auto

lemma labels_error_None:
  "first_error (\<lambda>(key, value). if trim_space key = [] then Some e else None) m = None
   \<longleftrightarrow> (\<forall>k \<in> set (keys m). trim_space k \<noteq> [])"
  by (auto split: if_splits)

lemma validate_burrow_None:
  "b_ID b \<noteq> [] \<Longrightarrow> b_Name b \<noteq> [] \<Longrightarrow> validate_burrow b = None \<longleftrightarrow> burrow_ok b"
  unfolding validate_burrow_def burrow_ok_def guard_None option_chain_None labels_error_None
    validate_tunnels_None by auto

lemma validate_burrows_Inr:
  "validate_burrows bs m names = Inr m' \<longleftrightarrow>
     m' = foldl (\<lambda>m b. AList.update (b_ID b) b m) m bs
     \<and> (\<forall>b \<in> set bs. burrow_ok b) \<and> distinct (map b_ID bs) \<and> distinct (map b_Name bs)
     \<and> (\<forall>b \<in> set bs. map_of m (b_ID b) = None \<and> b_Name b \<notin> set names)"
proof (induction bs arbitrary: m names)
  case (Cons b bs)
  show ?case
  proof (cases "b_ID b = [] \<or> b_Name b = []")
    case True
    then show ?thesis by (auto simp: burrow_ok_def)
  next
    case False
    then have ok: "validate_burrow b = None \<longleftrightarrow> burrow_ok b" by (simp add: validate_burrow_None)
    with False show ?thesis
      by (cases "validate_burrow b") (auto simp: Cons.IH rev_image_eqI split: if_splits)
  qed
qed auto

lemma validate_owners_None:
  "validate_owners did m owners seen = None \<longleftrightarrow> distinct owners \<and> set owners \<inter> set seen = {}
     \<and> (\<forall>ow \<in> set owners. \<exists>b. map_of m ow = Some b \<and> routable b)"
  by (induction owners arbitrary: seen) (auto simp: routable_def split: option.splits)

lemma validate_distribution_None:
  assumes "distinct (map b_ID bs)" and "d_ID d \<noteq> []"
  shows "validate_distribution (by_key b_ID bs) d = None \<longleftrightarrow> distribution_ok bs d"
proof -
  have "validate_owners (d_ID d) (by_key b_ID bs) (d_BurrowIDs d) [] = None \<longleftrightarrow> distinct (d_BurrowIDs d)
      \<and> (\<forall>ow \<in> set (d_BurrowIDs d). \<exists>b \<in> set bs. b_ID b = ow \<and> routable b)"
    using assms(1) by (auto simp: validate_owners_None by_key_Some)
  then show ?thesis
    unfolding validate_distribution_def distribution_ok_def guard_None option_chain_None first_error_None
    using assms(2) by (auto simp: not_le)
qed

lemma validate_distributions_Inr:
  assumes "distinct (map b_ID bs)"
  shows "validate_distributions (by_key b_ID bs) ds m = Inr m' \<longleftrightarrow>
     m' = foldl (\<lambda>m d. AList.update (d_ID d) d m) m ds
     \<and> (\<forall>d \<in> set ds. distribution_ok bs d \<and> map_of m (d_ID d) = None) \<and> distinct (map d_ID ds)"
proof (induction ds arbitrary: m)
  case (Cons d ds)
  show ?case
  proof (cases "d_ID d = []")
    case False
    then have "validate_distribution (by_key b_ID bs) d = None \<longleftrightarrow> distribution_ok bs d"
      using assms by (simp add: validate_distribution_None)
    with False show ?thesis
      by (cases "validate_distribution (by_key b_ID bs) d") (auto simp: Cons.IH rev_image_eqI split: if_splits)
  qed (auto simp: distribution_ok_def)
qed auto

lemma table_errors_None:
  "first_error (\<lambda>(table, did). if trim_space table = [] then Some EmptyTableName
      else if map_of (by_key d_ID ds) did = None then Some (UnknownDistribution table did) else None) m = None
   \<longleftrightarrow> (\<forall>(t, did) \<in> set m. trim_space t \<noteq> [] \<and> did \<in> d_ID ` set ds)"
  unfolding first_error_None by (intro ball_cong) (auto simp: by_key_None split: if_splits)

lemma sum_case_None:
  "(case v of Inl e \<Rightarrow> Some (f e) | Inr x \<Rightarrow> g x) = None \<longleftrightarrow> (\<exists>x. v = Inr x \<and> g x = None)"
  by (cases v) auto

lemma Validate_None: "Validate c = None \<longleftrightarrow> catalog_ok c"
proof (cases "distinct (map b_ID (c_Burrows c))")
  case True
  then show ?thesis
    unfolding Validate_def guard_None sum_case_None [where f = "\<lambda>e. e"] validate_burrows_Inr
      validate_distributions_Inr [OF True] catalog_ok_def by_key_def [symmetric]
    by (simp del: first_error_None
        add: validate_distributions_Inr [OF True] by_key_def [symmetric] table_errors_None not_le)
next
  case False
  then show ?thesis
    unfolding Validate_def guard_None sum_case_None [where f = "\<lambda>e. e"] validate_burrows_Inr catalog_ok_def
    by blast
qed

section \<open>Placement\<close>

lemma owner_name_at:
  assumes "catalog_ok c" and "d \<in> set (c_Distributions c)" and "i \<in> set (d_OwnerIndexes d)"
  obtains b where "b \<in> set (c_Burrows c)" "b_ID b = d_BurrowIDs d ! unat i" "routable b"
    "map_of (by_key b_ID (c_Burrows c)) (d_BurrowIDs d ! unat i) = Some b"
proof -
  from assms have "unat i < length (d_BurrowIDs d)" and d: "distribution_ok (c_Burrows c) d"
    and ids: "distinct (map b_ID (c_Burrows c))"
    by (auto simp: catalog_ok_def distribution_ok_def)
  then have "d_BurrowIDs d ! unat i \<in> set (d_BurrowIDs d)" by simp
  with d obtain b where "b \<in> set (c_Burrows c)" "b_ID b = d_BurrowIDs d ! unat i" "routable b"
    unfolding distribution_ok_def by blast
  with ids that show thesis by (simp add: by_key_Some)
qed

lemma owner_names_routable:
  assumes "catalog_ok c" and "d \<in> set (c_Distributions c)"
  shows "set (owner_names c d) \<subseteq> set (RoutableBurrowNames c)"
proof
  fix n assume "n \<in> set (owner_names c d)"
  then obtain i where i: "i \<in> set (d_OwnerIndexes d)"
    and n: "n = (case map_of (by_key b_ID (c_Burrows c)) (d_BurrowIDs d ! unat i) of
       None \<Rightarrow> [] | Some b \<Rightarrow> b_Name b)"
    by (auto simp: owner_names_def)
  from assms i obtain b where "b \<in> set (c_Burrows c)" "routable b"
    "map_of (by_key b_ID (c_Burrows c)) (d_BurrowIDs d ! unat i) = Some b"
    by (rule owner_name_at)
  with n show "n \<in> set (RoutableBurrowNames c)" by (simp add: RoutableBurrowNames_def)
qed

lemma owner_names_length:
  "distribution_ok bs d \<Longrightarrow> int (length (owner_names c d)) = d_VShardCount d \<and> owner_names c d \<noteq> []"
  by (auto simp: owner_names_def distribution_ok_def)

lemma distribution_lookup:
  assumes "catalog_ok c" and "(t, did) \<in> set (c_TableDistributions c)"
  obtains d where "d \<in> set (c_Distributions c)" "d_ID d = did" "distribution_ok (c_Burrows c) d"
    "map_of (by_key d_ID (c_Distributions c)) did = Some d"
proof -
  from assms obtain d where "d \<in> set (c_Distributions c)" "d_ID d = did"
    by (auto simp: catalog_ok_def)
  with assms(1) that show thesis by (auto simp: catalog_ok_def by_key_Some)
qed

lemma TablePlacements_lookup:
  assumes "map_ok (c_TableDistributions c)" and "TablePlacements c = Inr p"
  shows "map_of p t = map_option (\<lambda>did. case map_of (by_key d_ID (c_Distributions c)) did of
      None \<Rightarrow> [] | Some d \<Rightarrow> owner_names c d) (map_of (c_TableDistributions c) t)"
  using assms
  by (auto simp: TablePlacements_def map_of_foldl_update split: option.splits)

lemma TablePlacements_ok: "(\<exists>p. TablePlacements c = Inr p) \<longleftrightarrow> catalog_ok c"
  by (auto simp: TablePlacements_def Validate_None [symmetric] split: option.splits)

section \<open>Transitions and histories\<close>

definition burrow_step_ok :: "Burrow list \<Rightarrow> Burrow \<Rightarrow> bool" where
  "burrow_step_ok bs b \<longleftrightarrow> (if b_ID b \<in> b_ID ` set bs
     then \<forall>old \<in> set bs. b_ID old = b_ID b \<longrightarrow> validTransition (b_State old) (b_State b)
     else b_State b = BurrowAdding)"

definition transition_ok :: "Catalog \<Rightarrow> Catalog \<Rightarrow> bool" where
  "transition_ok p n \<longleftrightarrow> catalog_ok p \<and> catalog_ok n
     \<and> unat (c_Revision n) = unat (c_Revision p) + 1
     \<and> cm_Timestamp (c_Change p) < cm_Timestamp (c_Change n)
     \<and> (\<forall>b \<in> set (c_Burrows n). burrow_step_ok (c_Burrows p) b)
     \<and> b_ID ` set (c_Burrows p) \<subseteq> b_ID ` set (c_Burrows n)
     \<and> (\<forall>d \<in> set (c_Distributions n). \<forall>old \<in> set (c_Distributions p).
          d_ID old = d_ID d \<longrightarrow> d_VShardCount old = d_VShardCount d)"

lemma check_next_burrows_Inr:
  assumes "distinct (map b_ID bs)"
  shows "check_next_burrows bs m = Inr m' \<longleftrightarrow>
     m' = foldl (\<lambda>m b. AList.delete (b_ID b) m) m bs
     \<and> (\<forall>b \<in> set bs. case map_of m (b_ID b) of None \<Rightarrow> b_State b = BurrowAdding
          | Some old \<Rightarrow> validTransition (b_State old) (b_State b))"
  using assms
proof (induction bs arbitrary: m)
  case (Cons b bs)
  from Cons.prems have "b_ID x \<noteq> b_ID b" if "x \<in> set bs" for x
    using that by (auto simp: image_iff)
  then have keep: "map_of (AList.delete (b_ID b) m) (b_ID x) = map_of m (b_ID x)" if "x \<in> set bs" for x
    using that by auto
  show ?case
  proof (cases "map_of m (b_ID b)")
    case None
    then have "AList.delete (b_ID b) m = m" by (simp add: map_of_eq_None_iff)
    with Cons None show ?thesis by simp
  next
    case (Some old)
    with Cons keep show ?thesis by simp
  qed
qed auto

lemma remaining_empty:
  "foldl (\<lambda>m b. AList.delete (b_ID b) m) m bs = [] \<longleftrightarrow> set (keys m) \<subseteq> b_ID ` set bs"
proof (induction bs arbitrary: m)
  case (Cons b bs)
  have "set (keys (AList.delete (b_ID b) m)) = set (keys m) - {b_ID b}"
    unfolding keys_dom by auto
  with Cons show ?case by auto
qed auto

lemma revision_advances:
  fixes a b :: "64 word"
  assumes "b \<noteq> 0"
  shows "b = a + 1 \<longleftrightarrow> unat b = unat a + 1"
proof
  assume "b = a + 1"
  with assms show "unat b = unat a + 1" by (metis Suc_eq_plus1 unatSuc add.commute)
next
  assume u: "unat b = unat a + 1"
  then have "of_nat (unat b) = (of_nat (unat a) + 1 :: 64 word)" by simp
  then show "b = a + 1" by simp
qed

lemma ValidateTransition_None: "ValidateTransition p n = None \<longleftrightarrow> transition_ok p n"
proof (cases "catalog_ok p \<and> catalog_ok n")
  case True
  then have idp: "distinct (map b_ID (c_Burrows p))" and idn: "distinct (map b_ID (c_Burrows n))"
    and dp: "distinct (map d_ID (c_Distributions p))" and r: "c_Revision n \<noteq> 0"
    by (auto simp: catalog_ok_def)
  have step: "(case map_of (by_key b_ID (c_Burrows p)) (b_ID b) of None \<Rightarrow> b_State b = BurrowAdding
      | Some old \<Rightarrow> validTransition (b_State old) (b_State b)) \<longleftrightarrow> burrow_step_ok (c_Burrows p) b" for b
  proof (cases "map_of (by_key b_ID (c_Burrows p)) (b_ID b)")
    case None
    then have "b_ID b \<notin> b_ID ` set (c_Burrows p)" by (simp only: by_key_None not_False_eq_True)
    with None show ?thesis by (simp add: burrow_step_ok_def)
  next
    case (Some old)
    then show ?thesis unfolding burrow_step_ok_def by (simp add: by_key_ball [OF idp Some])
  qed
  have dist: "(case map_of (by_key d_ID (c_Distributions p)) (d_ID d) of None \<Rightarrow> None
      | Some old \<Rightarrow> if d_VShardCount old \<noteq> d_VShardCount d then Some (VShardCountChanged (d_ID d)) else None) = None
      \<longleftrightarrow> (\<forall>old \<in> set (c_Distributions p). d_ID old = d_ID d \<longrightarrow> d_VShardCount old = d_VShardCount d)" for d
  proof (cases "map_of (by_key d_ID (c_Distributions p)) (d_ID d)")
    case None
    then have "d_ID d \<notin> d_ID ` set (c_Distributions p)" by (simp only: by_key_None not_False_eq_True)
    with None show ?thesis by (auto simp: image_iff)
  next
    case (Some old)
    then show ?thesis by (simp add: by_key_ball [OF dp Some])
  qed
  have keys: "set (keys (by_key b_ID (c_Burrows p))) = b_ID ` set (c_Burrows p)"
    unfolding keys_dom by (auto simp: dom_def by_key_None simp flip: not_None_eq)
  from True have v: "Validate p = None" "Validate n = None" by (simp_all add: Validate_None)
  have "ValidateTransition p n = None \<longleftrightarrow> c_Revision n = c_Revision p + 1
      \<and> cm_Timestamp (c_Change p) < cm_Timestamp (c_Change n)
      \<and> (\<forall>b \<in> set (c_Burrows n). burrow_step_ok (c_Burrows p) b)
      \<and> set (keys (by_key b_ID (c_Burrows p))) \<subseteq> b_ID ` set (c_Burrows n)
      \<and> (\<forall>d \<in> set (c_Distributions n). \<forall>old \<in> set (c_Distributions p).
          d_ID old = d_ID d \<longrightarrow> d_VShardCount old = d_VShardCount d)"
    unfolding ValidateTransition_def v option.case guard_None sum_case_None [where f = "\<lambda>e. e"]
      check_next_burrows_Inr [OF idn] step first_error_None dist remaining_empty [symmetric] by simp
  with True show ?thesis
    unfolding transition_ok_def keys revision_advances [OF r] by blast
next
  case False
  then show ?thesis
    by (auto simp: ValidateTransition_def transition_ok_def Validate_None [symmetric] split: option.splits)
qed

text \<open>Catalogs reachable from one another by accepted replacements.\<close>

inductive history :: "Catalog \<Rightarrow> Catalog \<Rightarrow> bool" where
  history_start: "Validate c = None \<Longrightarrow> history c c"
| history_next: "history c d \<Longrightarrow> ValidateTransition d e = None \<Longrightarrow> history c e"

inductive_cases history_cases [elim]: "history c d"

lemma history_valid: "history c d \<Longrightarrow> catalog_ok c \<and> catalog_ok d"
  by (induction rule: history.induct) (auto simp: Validate_None ValidateTransition_None transition_ok_def)

lemma removed_terminal: "validTransition BurrowRemoved s \<longleftrightarrow> s = BurrowRemoved"
  by (auto simp: validTransition_def state_defs)

lemma history_keeps_burrow:
  assumes "history c d" and "b \<in> set (c_Burrows c)"
  shows "\<exists>b' \<in> set (c_Burrows d). b_ID b' = b_ID b
     \<and> (b_State b = BurrowRemoved \<longrightarrow> b_State b' = BurrowRemoved)"
  using assms
proof (induction rule: history.induct)
  case (history_next c d e)
  then obtain b' where b': "b' \<in> set (c_Burrows d)" "b_ID b' = b_ID b"
    "b_State b = BurrowRemoved \<longrightarrow> b_State b' = BurrowRemoved" by blast
  from history_next have t: "transition_ok d e" by (simp add: ValidateTransition_None)
  with b' obtain b'' where b'': "b'' \<in> set (c_Burrows e)" "b_ID b'' = b_ID b'"
    by (auto simp: transition_ok_def image_subset_iff image_iff)
  from t b'' have "burrow_step_ok (c_Burrows d) b''" by (simp add: transition_ok_def)
  with b' b'' have "validTransition (b_State b') (b_State b'')"
    unfolding burrow_step_ok_def by (metis image_eqI)
  with b' b'' show ?case by (metis removed_terminal)
qed auto

lemma history_revision: "history c d \<Longrightarrow> unat (c_Revision c) \<le> unat (c_Revision d)
    \<and> (c = d \<or> unat (c_Revision c) < unat (c_Revision d))"
  by (induction rule: history.induct) (auto simp: ValidateTransition_None transition_ok_def)

section \<open>Bootstrap reproduces the legacy placement\<close>

definition encoded :: "(string, string) gomap \<Rightarrow> string list \<Rightarrow> string list \<Rightarrow> 16 word list \<Rightarrow> bool" where
  "encoded byName dict = list_all2 (\<lambda>ow i. unat i < length dict \<and> map_of byName ow = Some (dict ! unat i))"

definition dict_ok :: "(string, string) gomap \<Rightarrow> string list \<Rightarrow> (string, 16 word) gomap \<Rightarrow> bool" where
  "dict_ok byName dict byID \<longleftrightarrow> distinct dict \<and> set dict \<subseteq> ran (map_of byName) \<and> length dict \<le> 65536
     \<and> dom (map_of byID) = set dict
     \<and> (\<forall>bid i. map_of byID bid = Some i \<longrightarrow> unat i < length dict \<and> dict ! unat i = bid)"

lemma encoded_append: "encoded byName dict xs is \<Longrightarrow> encoded byName (dict @ dict') xs is"
  unfolding encoded_def by (erule list_all2_mono) (auto simp: nth_append)

lemma dict_ok_extend:
  assumes "dict_ok byName dict byID" and "map_of byID bid = None" and "map_of byName ow = Some bid"
    and "length dict < 65536"
  shows "dict_ok byName (dict @ [bid]) (AList.update bid (of_nat (length dict)) byID)"
proof -
  have u: "unat (of_nat (length dict) :: 16 word) = length dict"
    using assms(4) by (simp add: unat_of_nat)
  have "bid \<notin> set dict" using assms(1,2) by (metis dict_ok_def domIff)
  with assms u show ?thesis
    by (auto simp: dict_ok_def nth_append ranI less_SucI split: if_splits)
qed

lemma dict_room:
  assumes "dict_ok byName dict byID" and "map_of byID bid = None" and "map_of byName ow = Some bid"
    and "length byName \<le> 65536"
  shows "length dict < 65536"
proof -
  have "bid \<notin> set dict" using assms(1,2) by (metis dict_ok_def domIff)
  moreover have "insert bid (set dict) \<subseteq> snd ` set byName"
    using assms(1,3) unfolding dict_ok_def ran_def
    by (auto dest!: map_of_SomeD intro: image_eqI [of _ snd "(_, _)", OF snd_conv [symmetric]])
  ultimately have "Suc (card (set dict)) \<le> card (snd ` set byName)"
    by (metis List.finite_set card_insert_disjoint card_mono finite_imageI)
  also have "\<dots> \<le> 65536" using assms(4) by (metis card_image_le card_length List.finite_set le_trans)
  finally show ?thesis using assms(1) by (simp add: dict_ok_def distinct_card)
qed

lemma encode_owners_sound:
  assumes "encode_owners byName owners dict byID idx = Inr (dict', idx')"
    and "dict_ok byName dict byID"
  shows "\<exists>added new. dict' = dict @ added \<and> idx' = idx @ new \<and> encoded byName dict' owners new
    \<and> distinct dict' \<and> set dict' \<subseteq> ran (map_of byName) \<and> length dict' \<le> 65536"
  using assms
proof (induction byName owners dict byID idx rule: encode_owners.induct)
  case (1 byName dict byID idx)
  then show ?case by (auto simp: encoded_def dict_ok_def)
next
  case (2 byName ow owners dict byID idx)
  from 2(3) obtain bid where bid: "map_of byName ow = Some bid" by (auto split: option.splits)
  show ?case
  proof (cases "map_of byID bid")
    case (Some i)
    with 2(2) [OF bid Some] 2(3,4) bid obtain added new where *: "dict' = dict @ added"
      "idx' = (idx @ [i]) @ new" "encoded byName dict' owners new"
      "distinct dict'" "set dict' \<subseteq> ran (map_of byName)" "length dict' \<le> 65536" by auto
    moreover from Some 2(4) have "unat i < length dict" "dict ! unat i = bid" by (auto simp: dict_ok_def)
    ultimately have "encoded byName dict' (ow # owners) (i # new)"
      using bid by (simp add: encoded_def nth_append)
    with * show ?thesis by (intro exI [of _ added] exI [of _ "i # new"]) simp
  next
    case None
    let ?i = "of_nat (length dict) :: 16 word"
    from 2(3) bid None have room: "length dict < 65536" by (auto split: if_splits)
    then have u: "unat ?i = length dict" by (simp add: unat_of_nat)
    from 2(1) [OF bid None _ refl] 2(3,4) bid None room dict_ok_extend [OF 2(4) None bid room]
    obtain added new where *: "dict' = (dict @ [bid]) @ added"
      "idx' = (idx @ [?i]) @ new" "encoded byName dict' owners new"
      "distinct dict'" "set dict' \<subseteq> ran (map_of byName)" "length dict' \<le> 65536" by (auto simp: Let_def)
    with bid u have "encoded byName dict' (ow # owners) (?i # new)"
      by (simp add: encoded_def nth_append)
    with * show ?thesis by (intro exI [of _ "bid # added"] exI [of _ "?i # new"]) simp
  qed
qed

lemma encode_owners_total:
  assumes "set owners \<subseteq> dom (map_of byName)" and "dict_ok byName dict byID" and "length byName \<le> 65536"
  shows "\<exists>r. encode_owners byName owners dict byID idx = Inr r"
  using assms
proof (induction byName owners dict byID idx rule: encode_owners.induct)
  case (2 byName ow owners dict byID idx)
  then obtain bid where bid: "map_of byName ow = Some bid" by auto
  show ?case
  proof (cases "map_of byID bid")
    case (Some i)
    with 2(2) [OF bid Some] 2(3-5) bid show ?thesis by auto
  next
    case None
    have room: "length dict < 65536" by (rule dict_room [OF 2(4) None bid 2(5)])
    with 2(1) [OF bid None _ refl] 2(3-5) bid None dict_ok_extend [OF 2(4) None bid room]
    show ?thesis by (auto simp: Let_def)
  qed
qed auto

lemma bootstrap_burrow_ok:
  "bb_Name cb \<noteq> [] \<Longrightarrow> burrow_ok (bootstrap_burrow sha url cb)"
  "b_ID (bootstrap_burrow sha url cb) = StableBurrowID sha (bb_Name cb)"
  "b_Name (bootstrap_burrow sha url cb) = bb_Name cb"
  "b_State (bootstrap_burrow sha url cb) = BurrowReady"
proof -
  obtain address fp where tm: "tunnelMetadata sha url (bb_DSN cb) = (address, fp)" by fastforce
  then have tc: "address \<noteq> []" "fp \<noteq> []"
    by (auto simp: tunnelMetadata_def Let_def split: option.splits prod.splits if_splits)
  with tm show "bb_Name cb \<noteq> [] \<Longrightarrow> burrow_ok (bootstrap_burrow sha url cb)"
    by (simp add: bootstrap_burrow_def burrow_ok_def tunnel_complete_def validState_def StableBurrowID_def)
  from tm show "b_ID (bootstrap_burrow sha url cb) = StableBurrowID sha (bb_Name cb)"
    "b_Name (bootstrap_burrow sha url cb) = bb_Name cb"
    "b_State (bootstrap_burrow sha url cb) = BurrowReady"
    by (simp_all add: bootstrap_burrow_def)
qed

lemma bootstrap_burrows_Inr:
  assumes "bootstrap_burrows sha url cbs byName = Inr (m, bs)"
  shows "map b_Name bs = map bb_Name cbs
    \<and> (\<forall>n. map_of m n = (if n \<in> bb_Name ` set cbs then Some (StableBurrowID sha n) else map_of byName n))
    \<and> (\<forall>b \<in> set bs. b_ID b = StableBurrowID sha (b_Name b) \<and> burrow_ok b \<and> b_State b = BurrowReady)"
  using assms
  by (induction cbs arbitrary: bs byName)
    (auto simp: bootstrap_burrow_ok split: if_splits sum.splits prod.splits)

lemma bootstrap_burrows_total:
  assumes "\<forall>cb \<in> set cbs. bb_Name cb \<noteq> [] \<and> bb_DSN cb \<noteq> []" and "distinct (map bb_Name cbs)"
    and "\<forall>cb \<in> set cbs. map_of byName (bb_Name cb) = None"
  shows "\<exists>m bs. bootstrap_burrows sha url cbs byName = Inr (m, bs) \<and> length m = length byName + length cbs"
  using assms
proof (induction cbs arbitrary: byName)
  case (Cons cb cbs)
  let ?m = "AList.update (bb_Name cb) (StableBurrowID sha (bb_Name cb)) byName"
  have "length ?m = Suc (length byName)"
    using Cons.prems(3) by (simp add: update_absent map_of_eq_None_iff)
  moreover have "\<forall>x \<in> set cbs. map_of ?m (bb_Name x) = None"
    using Cons.prems by (auto simp: image_iff)
  with Cons.IH [of ?m] Cons.prems obtain m bs where
    "bootstrap_burrows sha url cbs ?m = Inr (m, bs)" "length m = length ?m + length cbs" by auto
  ultimately show ?case using Cons.prems by simp
qed auto

lemma const_update_lookup:
  "map_of (foldl (\<lambda>m t. AList.update t v m) m ts) t = (if t \<in> set ts then Some v else map_of m t)"
  by (induction ts arbitrary: m) auto

lemma const_update_ok: "map_ok m \<Longrightarrow> map_ok (foldl (\<lambda>m t. AList.update t v m) m ts)"
  by (induction ts arbitrary: m) auto

lemma legacy_names_sorted:
  "LegacyModuloOwners (map bb_Name (sort_key bb_Name cbs)) n = LegacyModuloOwners (map bb_Name cbs) n"
proof -
  have "sort (map bb_Name (sort_key bb_Name cbs)) = sort (map bb_Name cbs)"
    by (rule properties_for_sort) simp_all
  then show ?thesis by (simp add: LegacyModuloOwners_def)
qed

definition bootstrap_owners :: "BootstrapBurrow list \<Rightarrow> string list \<Rightarrow> string list" where
  "bootstrap_owners configured legacyOwners = (if legacyOwners = []
     then LegacyModuloOwners (map bb_Name configured) DefaultVShardCount else legacyOwners)"

lemma Bootstrap_Inr:
  "Bootstrap sha url digest r configured legacyOwners now = Inr c \<longleftrightarrow> configured \<noteq> []
    \<and> (\<exists>m bs dict idx. bootstrap_burrows sha url (sort_key bb_Name configured) [] = Inr (m, bs)
      \<and> encode_owners m (bootstrap_owners configured legacyOwners) [] [] [] = Inr (dict, idx)
      \<and> c = bootstrap_catalog digest r bs dict idx now \<and> Validate c = None)"
  unfolding Bootstrap_def Let_def legacy_names_sorted bootstrap_owners_def length_0_conv
  by (auto split: sum.splits prod.splits option.splits)

lemma Bootstrap_owner_names:
  assumes "Bootstrap sha url digest r configured legacyOwners now = Inr c"
    and "d \<in> set (c_Distributions c)"
  shows "owner_names c d = bootstrap_owners configured legacyOwners"
proof -
  from assms(1) obtain m dict idx where v: "Validate c = None"
    and b: "bootstrap_burrows sha url (sort_key bb_Name configured) [] = Inr (m, c_Burrows c)"
    and e: "encode_owners m (bootstrap_owners configured legacyOwners) [] [] [] = Inr (dict, idx)"
    and d: "c_Distributions c = [\<lparr>d_ID = BootstrapDistribution, d_VShardCount = int (length idx),
        d_BurrowIDs = dict, d_OwnerIndexes = idx\<rparr>]"
    by (auto simp: Bootstrap_Inr bootstrap_catalog_def)
  from v have ids: "distinct (map b_ID (c_Burrows c))" by (simp add: Validate_None catalog_ok_def)
  note bb = bootstrap_burrows_Inr [OF b]
  from encode_owners_sound [OF e] have "encoded m dict (bootstrap_owners configured legacyOwners) idx"
    by (auto simp: dict_ok_def)
  moreover have "(case map_of (by_key b_ID (c_Burrows c)) (dict ! unat i) of None \<Rightarrow> [] | Some x \<Rightarrow> b_Name x) = ow"
    if "map_of m ow = Some (dict ! unat i)" for i ow
  proof -
    have "set (map b_Name (c_Burrows c)) = bb_Name ` set configured" using bb by simp
    with that bb have "ow \<in> set (map b_Name (c_Burrows c))" and "dict ! unat i = StableBurrowID sha ow"
      by (auto split: if_splits)
    then obtain x where "x \<in> set (c_Burrows c)" "b_Name x = ow" "b_ID x = dict ! unat i"
      using bb unfolding set_map by (metis imageE)
    with ids show ?thesis using by_key_Some [OF ids, of "dict ! unat i" x] by simp
  qed
  ultimately have "list_all2 (\<lambda>ow i. ow = (case map_of (by_key b_ID (c_Burrows c)) (dict ! unat i) of
      None \<Rightarrow> [] | Some x \<Rightarrow> b_Name x)) (bootstrap_owners configured legacyOwners) idx"
    unfolding encoded_def by (auto elim!: list_all2_mono)
  then show ?thesis
    using assms(2) d by (simp add: owner_names_def list_eq_iff_nth_eq list_all2_conv_all_nth)
qed

definition bootstrap_ready :: "sha_hex \<Rightarrow> fingerprinter \<Rightarrow> registry \<Rightarrow> BootstrapBurrow list
    \<Rightarrow> string list \<Rightarrow> int \<Rightarrow> bool" where
  "bootstrap_ready sha digest r configured legacyOwners now \<longleftrightarrow>
     configured \<noteq> [] \<and> length configured \<le> 65536 \<and> now \<noteq> 0
     \<and> (\<forall>cb \<in> set configured. bb_Name cb \<noteq> [] \<and> bb_DSN cb \<noteq> [])
     \<and> distinct (map (\<lambda>cb. StableBurrowID sha (bb_Name cb)) configured)
     \<and> set legacyOwners \<subseteq> bb_Name ` set configured
     \<and> Fingerprint digest r \<noteq> [] \<and> (\<forall>t \<in> set (CanonicalShardedTables r). trim_space t \<noteq> [])"

lemma LegacyModuloOwners_length [simp]: "length (LegacyModuloOwners names n) = n"
  by (simp add: LegacyModuloOwners_def Let_def)

lemma LegacyModuloOwners_nth:
  "v < n \<Longrightarrow> names \<noteq> [] \<Longrightarrow> LegacyModuloOwners names n ! v
     = sort names ! ((v + length names - 1) mod length names)"
proof -
  assume v: "v < n" and n: "names \<noteq> []"
  have "(if v mod length names = 0 then length names - 1 else v mod length names - 1)
      = (v + length names - 1) mod length names"
  proof (cases "v mod length names = 0")
    case True
    then have "v + length names - 1 = (length names - 1) + length names * (v div length names)"
      using n mult_div_mod_eq [of "length names" v] by (cases "length names") simp_all
    with True n show ?thesis by simp
  next
    case False
    have "v + length names - 1 = (v mod length names - 1) + length names * Suc (v div length names)"
      using False mult_div_mod_eq [of "length names" v]
      by (cases "v mod length names") (simp_all add: algebra_simps)
    also have "\<dots> mod length names = v mod length names - 1"
      using n by (simp only: mod_mult_self2) (simp add: less_imp_diff_less)
    finally show ?thesis using False by simp
  qed
  moreover have "sort names \<noteq> []" using n by (metis length_0_conv length_sort)
  ultimately show ?thesis using v by (auto simp: LegacyModuloOwners_def Let_def)
qed

lemma LegacyModuloOwners_set: "names \<noteq> [] \<Longrightarrow> set (LegacyModuloOwners names n) \<subseteq> set names"
proof
  fix x assume n: "names \<noteq> []" and "x \<in> set (LegacyModuloOwners names n)"
  then obtain i where "x = sort names ! i" "i < length (sort names)"
    by (auto simp: in_set_conv_nth LegacyModuloOwners_nth)
  then show "x \<in> set names" using nth_mem [of i "sort names"] by simp
qed

lemma bootstrap_owners_ok:
  assumes "bootstrap_ready sha digest r configured legacyOwners now"
  shows "bootstrap_owners configured legacyOwners \<noteq> []"
    "set (bootstrap_owners configured legacyOwners) \<subseteq> bb_Name ` set configured"
proof -
  show "bootstrap_owners configured legacyOwners \<noteq> []"
    by (auto simp: bootstrap_owners_def DefaultVShardCount_def simp flip: length_greater_0_conv)
  show "set (bootstrap_owners configured legacyOwners) \<subseteq> bb_Name ` set configured"
    using assms LegacyModuloOwners_set [of "map bb_Name configured"]
    by (auto simp: bootstrap_owners_def bootstrap_ready_def)
qed

lemma bootstrap_parts:
  assumes ready: "bootstrap_ready sha digest r configured legacyOwners now"
  obtains m bs where "bootstrap_burrows sha url (sort_key bb_Name configured) [] = Inr (m, bs)"
    "length m \<le> 65536" "distinct (map b_ID bs)" "distinct (map b_Name bs)"
proof -
  let ?cs = "sort_key bb_Name configured"
  from ready have "distinct (map (\<lambda>cb. StableBurrowID sha (bb_Name cb)) configured)"
    by (simp add: bootstrap_ready_def)
  then have dc: "distinct ?cs" and injs: "inj_on (\<lambda>cb. StableBurrowID sha (bb_Name cb)) (set ?cs)"
    and "inj_on bb_Name (set ?cs)"
    by (auto simp: distinct_map inj_on_def)
  then have names: "distinct (map bb_Name ?cs)" by (simp add: distinct_map)
  with ready obtain m bs where b: "bootstrap_burrows sha url ?cs [] = Inr (m, bs)" "length m = length ?cs"
    using bootstrap_burrows_total [of ?cs "[]" sha url] by (auto simp: bootstrap_ready_def)
  note bb = bootstrap_burrows_Inr [OF b(1)]
  then have "map b_ID bs = map (StableBurrowID sha \<circ> b_Name) bs" by (intro map_cong) auto
  also have "\<dots> = map (StableBurrowID sha) (map b_Name bs)" by simp
  finally have "map b_ID bs = map (\<lambda>cb. StableBurrowID sha (bb_Name cb)) ?cs" using bb by (simp add: comp_def)
  with injs dc have "distinct (map b_ID bs)" by (simp add: distinct_map)
  moreover have "length m \<le> 65536" using b ready by (simp add: bootstrap_ready_def)
  ultimately show thesis using that [OF b(1)] bb names by simp
qed

lemma bootstrap_distribution_ok:
  assumes ready: "bootstrap_ready sha digest r configured legacyOwners now"
    and b: "bootstrap_burrows sha url (sort_key bb_Name configured) [] = Inr (m, bs)"
    and e: "encode_owners m (bootstrap_owners configured legacyOwners) [] [] [] = Inr (dict, idx)"
  shows "distribution_ok bs \<lparr>d_ID = BootstrapDistribution, d_VShardCount = int (length idx),
    d_BurrowIDs = dict, d_OwnerIndexes = idx\<rparr>"
proof -
  note bb = bootstrap_burrows_Inr [OF b]
  have "dict_ok m [] []" by (simp add: dict_ok_def)
  from encode_owners_sound [OF e this]
  have enc: "encoded m dict (bootstrap_owners configured legacyOwners) idx" and dd: "distinct dict"
    "set dict \<subseteq> ran (map_of m)" "length dict \<le> 65536" by auto
  from enc have "idx \<noteq> []" and idx: "\<forall>i \<in> set idx. unat i < length dict"
    using bootstrap_owners_ok(1) [OF ready]
    by (auto simp: encoded_def list_all2_conv_all_nth in_set_conv_nth)
  moreover have "\<exists>x \<in> set bs. b_ID x = ow \<and> routable x" if "ow \<in> set dict" for ow
  proof -
    from that dd obtain n where n: "map_of m n = Some ow" by (auto simp: ran_def)
    with bb have "n \<in> bb_Name ` set configured" "ow = StableBurrowID sha n"
      by (auto split: if_splits)
    moreover have "set (map b_Name bs) = bb_Name ` set configured" using bb by simp
    ultimately have "n \<in> b_Name ` set bs" "ow = StableBurrowID sha n" by simp_all
    with bb show ?thesis by (auto simp: routable_def)
  qed
  ultimately show ?thesis
    using dd by (cases idx) (auto simp: distribution_ok_def BootstrapDistribution_def)
qed

lemma Bootstrap_total:
  assumes ready: "bootstrap_ready sha digest r configured legacyOwners now"
  shows "\<exists>c. Bootstrap sha url digest r configured legacyOwners now = Inr c"
proof -
  from ready obtain m bs where b: "bootstrap_burrows sha url (sort_key bb_Name configured) [] = Inr (m, bs)"
    "length m \<le> 65536" "distinct (map b_ID bs)" "distinct (map b_Name bs)"
    by (rule bootstrap_parts)
  note bb = bootstrap_burrows_Inr [OF b(1)]
  have "set (bootstrap_owners configured legacyOwners) \<subseteq> dom (map_of m)"
    using bb bootstrap_owners_ok(2) [OF ready] by (auto simp: dom_def)
  with b(2) obtain dict idx
    where e: "encode_owners m (bootstrap_owners configured legacyOwners) [] [] [] = Inr (dict, idx)"
    using encode_owners_total [of "bootstrap_owners configured legacyOwners" m "[]" "[]" "[]"]
    by (auto simp: dict_ok_def)
  have tables: "trim_space t \<noteq> [] \<and> did = BootstrapDistribution"
    if "(t, did) \<in> set (foldl (\<lambda>m t. AList.update t BootstrapDistribution m) [] (CanonicalShardedTables r))" for t did
  proof -
    from that have "map_of (foldl (\<lambda>m t. AList.update t BootstrapDistribution m) []
        (CanonicalShardedTables r)) t = Some did"
      using const_update_ok [of "[]" BootstrapDistribution "CanonicalShardedTables r"]
      by (simp add: map_ok_def)
    with ready show ?thesis
      by (auto simp: const_update_lookup bootstrap_ready_def split: if_splits)
  qed
  have "catalog_ok (bootstrap_catalog digest r bs dict idx now)"
    using bb b(3,4) bootstrap_distribution_ok [OF ready b(1) e] ready tables
    unfolding catalog_ok_def bootstrap_catalog_def
    by (auto simp: bootstrap_ready_def CurrentFormatVersion_def)
  with b(1) e ready show ?thesis
    by (auto simp: Bootstrap_Inr Validate_None bootstrap_ready_def)
qed

section \<open>Properties\<close>

text \<open>C7. A catalog passes validation exactly when it is well formed: identities are present
  and unique, every distribution covers all its vshards with indexes into a dictionary of
  routable Burrows, and every table refers to a distribution.\<close>

theorem Validate_exact: "Validate c = None \<longleftrightarrow> catalog_ok c"
  by (rule Validate_None)

text \<open>Every valid catalog projects to a placement of exactly its tables, in which each
  table has one owner per vshard of its distribution and each owner is a routable Burrow.\<close>

theorem TablePlacements_complete:
  assumes "Validate c = None" and "map_ok (c_TableDistributions c)"
  shows "\<exists>p. TablePlacements c = Inr p \<and> dom (map_of p) = dom (map_of (c_TableDistributions c))
    \<and> (\<forall>t owners. map_of p t = Some owners \<longrightarrow> owners \<noteq> [] \<and> set owners \<subseteq> set (RoutableBurrowNames c)
        \<and> (\<exists>d \<in> set (c_Distributions c). map_of (c_TableDistributions c) t = Some (d_ID d)
             \<and> int (length owners) = d_VShardCount d))"
proof -
  from assms(1) have ok: "catalog_ok c" by (simp add: Validate_None)
  then obtain p where p: "TablePlacements c = Inr p" using TablePlacements_ok by blast
  note look = TablePlacements_lookup [OF assms(2) p]
  have "owners \<noteq> [] \<and> set owners \<subseteq> set (RoutableBurrowNames c)
      \<and> (\<exists>d \<in> set (c_Distributions c). map_of (c_TableDistributions c) t = Some (d_ID d)
           \<and> int (length owners) = d_VShardCount d)" if t: "map_of p t = Some owners" for t owners
  proof -
    from t look obtain did where did: "map_of (c_TableDistributions c) t = Some did" by auto
    then have "(t, did) \<in> set (c_TableDistributions c)" by (rule map_of_SomeD)
    with ok obtain d where d: "d \<in> set (c_Distributions c)" "d_ID d = did" "distribution_ok (c_Burrows c) d"
      "map_of (by_key d_ID (c_Distributions c)) did = Some d" by (rule distribution_lookup)
    with t look did have "owners = owner_names c d" by simp
    with d did ok owner_names_routable owner_names_length show ?thesis by metis
  qed
  with p look show ?thesis by (auto simp: dom_def)
qed

definition sample_configured :: "BootstrapBurrow list" where
  "sample_configured = [\<lparr>bb_Name = ''b'', bb_DSN = ''two''\<rparr>, \<lparr>bb_Name = ''a'', bb_DSN = ''one''\<rparr>]"

definition sample_registry :: registry where
  "sample_registry = WithRevision (WithAllTables (NewWithGeneratedAndTypes
     [(''public.users'', [''id''])] [] [(''public.users'', [''int8''])]) [''public.users'', ''public.audit'']) 3"

definition sample_catalog :: Catalog where
  "sample_catalog = (case Bootstrap rev (\<lambda>dsn. Some (dsn, ''/'')) (\<lambda>t y. ''fp'') sample_registry
      sample_configured [''a'', ''b'', ''b'', ''a''] 7 of Inr c \<Rightarrow> c | Inl _ \<Rightarrow> undefined)"

theorem TablePlacements_complete_witness:
  "\<exists>p. TablePlacements sample_catalog = Inr p
    \<and> dom (map_of p) = dom (map_of (c_TableDistributions sample_catalog))"
proof -
  have "Validate sample_catalog = None" "map_ok (c_TableDistributions sample_catalog)"
    by code_simp+
  from TablePlacements_complete [OF this] show ?thesis by blast
qed

text \<open>Bootstrapping keeps the routing of the previous registry format: for every sharded
  table, the projected owner of each vshard is the legacy owner.\<close>

theorem Bootstrap_keeps_placement:
  assumes "Bootstrap sha url digest r configured legacyOwners now = Inr c"
  shows "\<exists>p. TablePlacements c = Inr p \<and> (\<forall>t. map_of p t =
    (if t \<in> set (CanonicalShardedTables r) then Some (bootstrap_owners configured legacyOwners) else None))"
proof -
  from assms obtain bs dict idx where c: "c = bootstrap_catalog digest r bs dict idx now"
    and v: "Validate c = None" by (auto simp: Bootstrap_Inr)
  then obtain p where p: "TablePlacements c = Inr p"
    using TablePlacements_ok by (auto simp: Validate_None)
  have ok: "map_ok (c_TableDistributions c)"
    by (simp add: c bootstrap_catalog_def const_update_ok)
  obtain d where d: "c_Distributions c = [d]" "d_ID d = BootstrapDistribution"
    by (simp add: c bootstrap_catalog_def)
  then have "owner_names c d = bootstrap_owners configured legacyOwners"
    using Bootstrap_owner_names [OF assms] by simp
  with d TablePlacements_lookup [OF ok p] p show ?thesis
    by (simp add: c bootstrap_catalog_def const_update_lookup by_key_def)
qed

theorem Bootstrap_keeps_placement_witness:
  "\<exists>p. TablePlacements sample_catalog = Inr p
     \<and> map_of p ''public.users'' = Some [''a'', ''b'', ''b'', ''a''] \<and> map_of p ''public.audit'' = None"
proof -
  have "Bootstrap rev (\<lambda>dsn. Some (dsn, ''/'')) (\<lambda>t y. ''fp'') sample_registry
      sample_configured [''a'', ''b'', ''b'', ''a''] 7 = Inr sample_catalog"
    by code_simp
  moreover have "''public.users'' \<in> set (CanonicalShardedTables sample_registry)"
    "''public.audit'' \<notin> set (CanonicalShardedTables sample_registry)" by code_simp+
  ultimately show ?thesis
    using Bootstrap_keeps_placement by (fastforce simp: bootstrap_owners_def)
qed

text \<open>C8. Bootstrap never rejects a well-formed configuration: with named, distinct Burrows whose
  stable identifiers do not collide, and legacy owners among them, it returns a catalog, and
  that catalog is accepted for the registry it was made from once the registry has a revision.\<close>

theorem Bootstrap_succeeds:
  assumes "bootstrap_ready sha digest r configured legacyOwners now" and "Revision r \<noteq> 0"
  shows "\<exists>c. Bootstrap sha url digest r configured legacyOwners now = Inr c
    \<and> ValidateSchema digest c r = None"
proof -
  from Bootstrap_total [OF assms(1)] obtain c
    where c: "Bootstrap sha url digest r configured legacyOwners now = Inr c" by blast
  then obtain bs dict idx where k: "c = bootstrap_catalog digest r bs dict idx now"
    by (auto simp: Bootstrap_Inr)
  let ?m = "foldl (\<lambda>m t. AList.update t BootstrapDistribution m) [] (CanonicalShardedTables r)"
  have "IsSharded r t" if "(t, did) \<in> set ?m" for t did
  proof -
    have "map_of ?m t \<noteq> None" using that by (metis map_of_eq_None_iff fst_conv image_eqI)
    then have "t \<in> set (CanonicalShardedTables r)"
      by (simp add: const_update_lookup split: if_splits)
    then show ?thesis by (simp add: CanonicalShardedTables_def)
  qed
  then have "\<forall>(t, did) \<in> set ?m. IsSharded r t" by (intro ballI) (simp only: split_paired_all prod.case)
  then have "ValidateSchema digest c r = None"
    using assms(2) unfolding ValidateSchema_def k guard_None option_chain_None first_error_None
    by (simp add: bootstrap_catalog_def const_update_lookup case_prod_beta)
  with c show ?thesis by blast
qed

theorem Bootstrap_succeeds_witness:
  "\<exists>c. Bootstrap rev (\<lambda>dsn. Some (dsn, ''/'')) (\<lambda>t y. ''fp'') sample_registry sample_configured
      [''a'', ''b'', ''b'', ''a''] 7 = Inr c \<and> ValidateSchema (\<lambda>t y. ''fp'') c sample_registry = None"
proof -
  have "bootstrap_ready rev (\<lambda>t y. ''fp'') sample_registry sample_configured [''a'', ''b'', ''b'', ''a''] 7"
    "Revision sample_registry \<noteq> 0"
    unfolding bootstrap_ready_def by (simp add: sample_configured_def) code_simp+
  then show ?thesis by (rule Bootstrap_succeeds)
qed

text \<open>C9. A replacement is accepted exactly when both catalogs are valid, the revision advances
  by one as a number (no wrap-around), time advances, every known Burrow is kept and moves by a
  legal state transition, new Burrows start as adding, and no distribution changes its
  vshard count.\<close>

theorem ValidateTransition_exact: "ValidateTransition p n = None \<longleftrightarrow> transition_ok p n"
  by (rule ValidateTransition_None)

text \<open>C10. Along any sequence of accepted replacements the revision never repeats, no Burrow
  identifier is ever lost, and a removed Burrow stays removed.\<close>

theorem history_invariant:
  assumes "history c d"
  shows "Validate d = None \<and> unat (c_Revision c) \<le> unat (c_Revision d)
    \<and> (c \<noteq> d \<longrightarrow> unat (c_Revision c) < unat (c_Revision d))
    \<and> (\<forall>b \<in> set (c_Burrows c). \<exists>b' \<in> set (c_Burrows d). b_ID b' = b_ID b
         \<and> (b_State b = BurrowRemoved \<longrightarrow> b_State b' = BurrowRemoved))"
  using history_valid [OF assms] history_revision [OF assms] history_keeps_burrow [OF assms]
  by (simp add: Validate_None) blast

definition sample_next :: Catalog where
  "sample_next = sample_catalog\<lparr>c_Revision := 2, c_Change := \<lparr>cm_Actor = ''ops'', cm_Reason = ''drain'',
     cm_Timestamp = 8\<rparr>, c_Burrows := map (\<lambda>b. if b_Name b = ''a'' then b\<lparr>b_State := BurrowDraining\<rparr> else b)
       (c_Burrows sample_catalog)\<rparr>"

theorem history_invariant_witness:
  "history sample_catalog sample_next
    \<and> unat (c_Revision sample_catalog) \<le> unat (c_Revision sample_next)"
proof -
  have "Validate sample_catalog = None" by code_simp
  moreover have "ValidateTransition sample_catalog sample_next = None" by code_simp
  ultimately have "history sample_catalog sample_next" by (metis history.intros)
  with history_invariant [OF this] show ?thesis by blast
qed

end
