(* ===== verification/Nest_Topology.thy ===== *)
theory Nest_Topology
  imports Nest_Client Topology_Catalog "HOL-Library.Countable"
begin

text \<open>
  \<^verbatim>\<open>internal/nest/topology.go\<close>: the catalog kept in the Nest under optimistic concurrency.  The
  JSON codec of a catalog is the pair \<open>(enc, dec)\<close>; \<open>now\<close> is the clock of \<open>ReconcileSchema\<close>.
\<close>

type_synonym catalog_codec = "(Catalog \<Rightarrow> bytes) \<times> (bytes \<Rightarrow> Catalog option)"

record StoredTopology =
  sto_Catalog :: Catalog
  sto_ModRevision :: int

definition topology_Get :: "catalog_codec \<Rightarrow> string \<Rightarrow> (nest_error + StoredTopology option) prog" where
  "topology_Get codec key = check (request (RangeRequest key)) (\<lambda>body. Return (case body of None \<Rightarrow> Inl BadResponse
     | Some result \<Rightarrow> (case nb_kvs result of [] \<Rightarrow> Inr None
       | kv # rest \<Rightarrow> (case kv_value kv of None \<Rightarrow> Inl BadValue
         | Some v \<Rightarrow> (case snd codec v of None \<Rightarrow> Inl BadCatalog
           | Some catalog \<Rightarrow> (case Validate catalog of Some e \<Rightarrow> Inl InvalidTopology
             | None \<Rightarrow> (case parse_int64 (kv_mod_revision kv) of None \<Rightarrow> Inl (BadModRevision (kv_mod_revision kv))
               | Some modRevision \<Rightarrow>
                   if modRevision \<le> 0 then Inl (BadModRevision (kv_mod_revision kv))
                   else Inr (Some \<lparr>sto_Catalog = catalog, sto_ModRevision = modRevision\<rparr>))))))))"

definition compareAndSwap :: "catalog_codec \<Rightarrow> string \<Rightarrow> int \<Rightarrow> Catalog \<Rightarrow> (nest_error + unit) prog" where
  "compareAndSwap codec key expectedModRevision catalog =
     check (request (TxnRequest key
         (if expectedModRevision = 0 then CompareCreateZero else CompareMod (show_int expectedModRevision))
         (fst codec catalog)))
       (\<lambda>body. Return (case body of None \<Rightarrow> Inl BadResponse
          | Some result \<Rightarrow> if \<not> nb_succeeded result then Inl TopologyConflict else Inr ()))"

definition read_back :: "catalog_codec \<Rightarrow> string \<Rightarrow> nest_error \<Rightarrow> (nest_error + StoredTopology) prog" where
  "read_back codec key missing = check (topology_Get codec key) (\<lambda>found.
     Return (case found of None \<Rightarrow> Inl missing | Some stored \<Rightarrow> Inr stored))"

definition VerifyOrBootstrap :: "catalog_codec \<Rightarrow> string \<Rightarrow> Catalog \<Rightarrow> (nest_error + StoredTopology) prog" where
  "VerifyOrBootstrap codec key bootstrap = check (topology_Get codec key) (\<lambda>found.
     case found of Some stored \<Rightarrow> Return (Inr stored)
     | None \<Rightarrow> (case Validate bootstrap of Some e \<Rightarrow> Return (Inl InvalidTopology)
       | None \<Rightarrow> bind (compareAndSwap codec key 0 bootstrap) (\<lambda>r.
           case r of Inl e \<Rightarrow> if e \<noteq> TopologyConflict then Return (Inl e) else read_back codec key LostButNoWinner
           | Inr u \<Rightarrow> read_back codec key CreatedButMissing)))"

definition topology_Update :: "catalog_codec \<Rightarrow> string \<Rightarrow> StoredTopology \<Rightarrow> Catalog \<Rightarrow> (nest_error + StoredTopology) prog" where
  "topology_Update codec key current next' = (case ValidateTransition (sto_Catalog current) next' of
       Some e \<Rightarrow> Return (Inl TransitionRefused)
     | None \<Rightarrow> check (compareAndSwap codec key (sto_ModRevision current) next') (\<lambda>u. read_back codec key UpdatedButMissing))"

definition cloneCatalog :: "catalog_codec \<Rightarrow> Catalog \<Rightarrow> nest_error + Catalog" where
  "cloneCatalog codec catalog = (case snd codec (fst codec catalog) of None \<Rightarrow> Inl BadCatalog | Some c \<Rightarrow> Inr c)"

text \<open>The membership of the tables: new sharded tables join the bootstrap distribution, tables that are
  no longer sharded leave.\<close>

definition reconcile_tables :: "registry \<Rightarrow> (string, string) gomap \<Rightarrow> (string, string) gomap" where
  "reconcile_tables r tables =
     (let sharded = CanonicalShardedTables r;
          added = foldl (\<lambda>m table. if map_of m table = None then AList.update table BootstrapDistribution m else m) tables sharded in
      filter (\<lambda>(table, d). table \<in> set sharded) added)"

definition reconciled :: "fingerprinter \<Rightarrow> registry \<Rightarrow> int \<Rightarrow> Catalog \<Rightarrow> Catalog" where
  "reconciled digest r now c = c\<lparr>c_TableDistributions := reconcile_tables r (c_TableDistributions c),
     c_Schema := \<lparr>sc_RegistryFormat = CurrentFormatVersion, sc_Revision = Revision r, sc_Fingerprint = Fingerprint digest r\<rparr>,
     c_Revision := c_Revision c + 1,
     c_Change := \<lparr>cm_Actor = ''hamstergres-proxy'', cm_Reason = ''reconcile successful fleet-wide schema change'', cm_Timestamp = now\<rparr>\<rparr>"

primrec reconcile_loop :: "catalog_codec \<Rightarrow> string \<Rightarrow> fingerprinter \<Rightarrow> registry \<Rightarrow> (nat \<Rightarrow> int) \<Rightarrow> nat
    \<Rightarrow> (nest_error + StoredTopology) prog" where
  "reconcile_loop codec key digest r now 0 = Return (Inl RepeatedConflicts)"
| "reconcile_loop codec key digest r now (Suc attempts) = check (topology_Get codec key) (\<lambda>found.
     case found of None \<Rightarrow> Return (Inl NoTopology)
     | Some current \<Rightarrow> (case cloneCatalog codec (sto_Catalog current) of Inl e \<Rightarrow> Return (Inl e)
       | Inr copy \<Rightarrow> bind (topology_Update codec key current (reconciled digest r (now attempts) copy)) (\<lambda>r'.
           if r' = Inl TopologyConflict then reconcile_loop codec key digest r now attempts else Return r')))"

definition ReconcileSchema :: "catalog_codec \<Rightarrow> string \<Rightarrow> fingerprinter \<Rightarrow> registry \<Rightarrow> (nat \<Rightarrow> int)
    \<Rightarrow> (nest_error + StoredTopology) prog" where
  "ReconcileSchema codec key digest r now = reconcile_loop codec key digest r now 3"

section \<open>What the key may hold and how it evolves\<close>

definition codec_ok :: "catalog_codec \<Rightarrow> bool" where
  "codec_ok codec = (\<forall>c. snd codec (fst codec c) = Some c)"

definition stored :: "catalog_codec \<Rightarrow> string \<Rightarrow> kv_state \<Rightarrow> Catalog option" where
  "stored codec key s = (case fst s key of None \<Rightarrow> None | Some (v, r) \<Rightarrow> snd codec v)"

definition topo_inv :: "catalog_codec \<Rightarrow> string \<Rightarrow> kv_state \<Rightarrow> bool" where
  "topo_inv codec key s = (kv_wf s \<and> (\<forall>v r. fst s key = Some (v, r) \<longrightarrow> (\<exists>c. snd codec v = Some c \<and> Validate c = None)))"

text \<open>The store moves along accepted transitions of the catalog, each under a new revision.\<close>

definition topo_evolves :: "catalog_codec \<Rightarrow> string \<Rightarrow> kv_state \<Rightarrow> kv_state \<Rightarrow> bool" where
  "topo_evolves codec key s t = (s = t \<or> (topo_inv codec key s \<longrightarrow> topo_inv codec key t \<and> snd s \<le> snd t
     \<and> (fst t key = fst s key \<or> (\<exists>v r c. fst t key = Some (v, r) \<and> snd s < r \<and> snd codec v = Some c
           \<and> (\<forall>b. stored codec key s = Some b \<longrightarrow> history b c)))))"

lemma history_trans: "history b c \<Longrightarrow> history c d \<Longrightarrow> history b d"
  by (rotate_tac, induction rule: history.induct) (auto intro: history.intros)

lemma stored_inv: "topo_inv codec key s \<Longrightarrow> stored codec key s = None \<longleftrightarrow> fst s key = None"
  by (auto simp: topo_inv_def stored_def split: option.splits)

interpretation topo: rely_guarantee "topo_inv codec key" "topo_evolves codec key" for codec key
proof unfold_locales
  show "topo_evolves codec key s s" for s by (simp add: topo_evolves_def)
  show "topo_inv codec key t" if "topo_evolves codec key s t" "topo_inv codec key s" for s t
    using that by (auto simp: topo_evolves_def)
  show "topo_evolves codec key s u" if st: "topo_evolves codec key s t" and tu: "topo_evolves codec key t u" for s t u
  proof (cases "s = t \<or> t = u \<or> \<not> topo_inv codec key s")
    case True
    with st tu show ?thesis by (auto simp: topo_evolves_def)
  next
    case False
    with st have t: "topo_inv codec key t" "snd s \<le> snd t" by (auto simp: topo_evolves_def)
    with tu False have u: "topo_inv codec key u" "snd t \<le> snd u" by (auto simp: topo_evolves_def)
    consider (same) "fst u key = fst t key" | (moved) v r c where "fst u key = Some (v, r)" "snd t < r" "snd codec v = Some c"
      "\<forall>b. stored codec key t = Some b \<longrightarrow> history b c"
      using tu False t by (auto simp: topo_evolves_def)
    then show ?thesis
    proof cases
      case same
      with st False t u show ?thesis by (auto simp: topo_evolves_def)
    next
      case (moved v r c)
      have "history b c" if b: "stored codec key s = Some b" for b
      proof -
        from st False b consider "fst t key = fst s key" | d where "stored codec key t = Some d" "history b d"
          by (auto simp: topo_evolves_def stored_def split: option.splits)
        then show ?thesis using b moved(4) by cases (auto simp: stored_def intro: history_trans)
      qed
      with moved t u show ?thesis by (auto simp: topo_evolves_def)
    qed
  qed
qed

section \<open>The programs are safe\<close>

definition get_result :: "catalog_codec \<Rightarrow> http_result \<Rightarrow> nest_error + StoredTopology option" where
  "get_result codec x = (case request_result x of Inl e \<Rightarrow> Inl e | Inr None \<Rightarrow> Inl BadResponse
     | Inr (Some result) \<Rightarrow> (case nb_kvs result of [] \<Rightarrow> Inr None
       | kv # rest \<Rightarrow> (case kv_value kv of None \<Rightarrow> Inl BadValue
         | Some v \<Rightarrow> (case snd codec v of None \<Rightarrow> Inl BadCatalog
           | Some catalog \<Rightarrow> (case Validate catalog of Some e \<Rightarrow> Inl InvalidTopology
             | None \<Rightarrow> (case parse_int64 (kv_mod_revision kv) of None \<Rightarrow> Inl (BadModRevision (kv_mod_revision kv))
               | Some modRevision \<Rightarrow>
                   if modRevision \<le> 0 then Inl (BadModRevision (kv_mod_revision kv))
                   else Inr (Some \<lparr>sto_Catalog = catalog, sto_ModRevision = modRevision\<rparr>)))))))"

lemma topology_Get_Ask: "topology_Get codec key = Ask (RangeRequest key) (\<lambda>x. Return (get_result codec x))"
  unfolding topology_Get_def check_request get_result_def
  by (rule arg_cong [of _ _ "Ask (RangeRequest key)"]) (auto simp: fun_eq_iff split: sum.split option.split)

definition cas_result :: "http_result \<Rightarrow> nest_error + unit" where
  "cas_result x = (case request_result x of Inl e \<Rightarrow> Inl e | Inr None \<Rightarrow> Inl BadResponse
     | Inr (Some result) \<Rightarrow> if \<not> nb_succeeded result then Inl TopologyConflict else Inr ())"

definition cas_compare :: "int \<Rightarrow> nest_compare" where
  "cas_compare expected = (if expected = 0 then CompareCreateZero else CompareMod (show_int expected))"

lemma compareAndSwap_Ask:
  "compareAndSwap codec key expected c
     = Ask (TxnRequest key (cas_compare expected) (fst codec c)) (\<lambda>x. Return (cas_result x))"
  unfolding compareAndSwap_def check_request cas_result_def cas_compare_def
  by (rule arg_cong [of _ _ "Ask q" for q]) (auto simp: fun_eq_iff split: sum.split option.split)

lemma parse_show_eq: "parse_int64 (show_int r) = Some m \<Longrightarrow> m = r"
  by (auto simp: parse_int64_def split: if_splits)

text \<open>What a read tells about the store at the moment it was made.\<close>

definition snapshot_of :: "catalog_codec \<Rightarrow> string \<Rightarrow> kv_state \<Rightarrow> StoredTopology option \<Rightarrow> bool" where
  "snapshot_of codec key t found = (case found of None \<Rightarrow> fst t key = None
     | Some sc \<Rightarrow> 0 < sto_ModRevision sc \<and> (\<exists>v. fst t key = Some (v, sto_ModRevision sc) \<and> snd codec v = Some (sto_Catalog sc)))"

lemma get_result_sound:
  assumes "replies (RangeRequest key) t x u" and "get_result codec x = Inr found"
  shows "u = t \<and> snapshot_of codec key t found"
proof -
  from assms(2) obtain b where b: "request_result x = Inr (Some b)"
    by (auto simp: get_result_def split: sum.splits option.splits)
  with assms(1) have u: "u = t" and kvs: "nb_kvs b = (case fst t key of None \<Rightarrow> []
      | Some (v, r) \<Rightarrow> [\<lparr>kv_value = Some v, kv_mod_revision = show_int r\<rparr>])"
    by (simp_all add: replies_def kv_apply_def kv_reply_def)
  show ?thesis
  proof (cases "fst t key")
    case None
    with assms(2) b kvs u show ?thesis by (simp add: get_result_def snapshot_of_def)
  next
    case (Some vr)
    obtain v r where "vr = (v, r)" by (cases vr)
    with Some assms(2) b kvs u show ?thesis
      by (auto simp: get_result_def snapshot_of_def dest: parse_show_eq split: option.splits if_splits)
  qed
qed

lemma safe_Get:
  assumes "\<And>t found. topo_evolves codec key s t \<Longrightarrow> snapshot_of codec key t found \<Longrightarrow> safe (topo_evolves codec key) (f found) t"
  shows "safe (topo_evolves codec key) (check (topology_Get codec key) f) s"
  unfolding topology_Get_Ask check_simps
proof (rule safe_AskI)
  fix t x u assume h: "topo_evolves codec key s t" "replies (RangeRequest key) t x u"
  then have u: "u = t" by (auto simp: replies_def kv_apply_def split: sum.splits)
  show "topo_evolves codec key t u \<and> safe (topo_evolves codec key) (check (Return (get_result codec x)) f) u"
    using assms [OF h(1)] get_result_sound [OF h(2)] u topo.evolves_refl [of codec key t]
    by (cases "get_result codec x") auto
qed

lemma safe_read_back: "safe (topo_evolves codec key) (read_back codec key missing) s"
  unfolding read_back_def by (rule safe_Get) simp

lemma commit_evolves:
  assumes "codec_ok codec" and "Validate c = None" and "\<forall>b. stored codec key t = Some b \<longrightarrow> history b c"
  shows "topo_evolves codec key t (kv_put key (fst codec c) t)"
  using assms kv_put_wf [of t key "fst codec c"]
  by (auto simp: topo_evolves_def topo_inv_def kv_put_def codec_ok_def)

lemma safe_cas:
  assumes "codec_ok codec" and "Validate c = None"
    and "\<And>t b. topo_evolves codec key s t \<Longrightarrow> kv_holds (cas_compare expected) (fst t key) \<Longrightarrow> stored codec key t = Some b \<Longrightarrow> history b c"
  shows "safe (topo_evolves codec key) (compareAndSwap codec key expected c) s"
  unfolding compareAndSwap_Ask
proof (rule safe_AskI)
  let ?q = "TxnRequest key (cas_compare expected) (fst codec c)"
  fix t x u assume h: "topo_evolves codec key s t" "replies ?q t x u"
  then have "u = t \<or> u = kv_apply ?q t" by (auto simp: replies_def split: sum.splits)
  moreover have "topo_evolves codec key t (kv_apply ?q t)"
    using commit_evolves [OF assms(1,2)] assms(3) [OF h(1)] topo.evolves_refl [of codec key t] by (auto simp: kv_apply_def)
  ultimately show "topo_evolves codec key t u \<and> safe (topo_evolves codec key) (Return (cas_result x)) u"
    using topo.evolves_refl [of codec key t] by auto
qed

lemma safe_VerifyOrBootstrap:
  assumes "codec_ok codec"
  shows "safe (topo_evolves codec key) (VerifyOrBootstrap codec key boot) s"
  unfolding VerifyOrBootstrap_def
proof (rule safe_Get)
  fix t found
  have "safe (topo_evolves codec key) (compareAndSwap codec key 0 boot) t" if "Validate boot = None"
    by (rule safe_cas [OF assms that]) (auto simp: cas_compare_def kv_holds_def stored_def)
  then show "safe (topo_evolves codec key) (case found of Some sc \<Rightarrow> Return (Inr sc)
     | None \<Rightarrow> (case Validate boot of Some e \<Rightarrow> Return (Inl InvalidTopology)
       | None \<Rightarrow> bind (compareAndSwap codec key 0 boot) (\<lambda>r.
           case r of Inl e \<Rightarrow> if e \<noteq> TopologyConflict then Return (Inl e) else read_back codec key LostButNoWinner
           | Inr u \<Rightarrow> read_back codec key CreatedButMissing))) t"
    by (auto intro!: topo.safe_bind safe_read_back split: option.split sum.split)
qed

lemma safe_Update:
  assumes "codec_ok codec" and "topo_inv codec key t" and "snapshot_of codec key t (Some current)"
  shows "safe (topo_evolves codec key) (topology_Update codec key current next') t"
proof (cases "ValidateTransition (sto_Catalog current) next'")
  case None
  then have ok: "Validate next' = None" and hist: "history (sto_Catalog current) next'"
    by (auto simp: ValidateTransition_def intro: history_next history_start split: option.splits)
  have "safe (topo_evolves codec key) (compareAndSwap codec key (sto_ModRevision current) next') t"
  proof (rule safe_cas [OF assms(1) ok])
    fix u b assume u: "topo_evolves codec key t u" "kv_holds (cas_compare (sto_ModRevision current)) (fst u key)" "stored codec key u = Some b"
    from assms(2,3) have m: "0 < sto_ModRevision current" "sto_ModRevision current \<le> snd t"
      by (auto simp: snapshot_of_def topo_inv_def kv_wf_def)
    with u(2,3) obtain v where "fst u key = Some (v, sto_ModRevision current)"
      by (auto simp: kv_holds_def cas_compare_def stored_def split: option.splits)
    with u(1) assms(2) m have "fst u key = fst t key" by (auto simp: topo_evolves_def)
    with assms(3) u(3) have "b = sto_Catalog current" by (auto simp: snapshot_of_def stored_def)
    with hist show "history b next'" by simp
  qed
  with None show ?thesis
    unfolding topology_Update_def check_def
    by (auto intro!: topo.safe_bind safe_read_back split: sum.split)
qed (simp add: topology_Update_def)

lemma safe_ReconcileSchema:
  assumes "codec_ok codec" and "topo_inv codec key s"
  shows "safe (topo_evolves codec key) (ReconcileSchema codec key digest r now) s"
proof -
  have "safe (topo_evolves codec key) (reconcile_loop codec key digest r now n) s" if "topo_inv codec key s" for n s
    using that
  proof (induction n arbitrary: s)
    case (Suc n)
    show ?case unfolding reconcile_loop.simps
    proof (rule safe_Get)
      fix t found assume t: "topo_evolves codec key s t" "snapshot_of codec key t found"
      note inv = topo.evolves_inv [OF t(1) Suc.prems]
      show "safe (topo_evolves codec key) (case found of None \<Rightarrow> Return (Inl NoTopology)
        | Some current \<Rightarrow> (case cloneCatalog codec (sto_Catalog current) of Inl e \<Rightarrow> Return (Inl e)
          | Inr copy \<Rightarrow> bind (topology_Update codec key current (reconciled digest r (now n) copy)) (\<lambda>r'.
              if r' = Inl TopologyConflict then reconcile_loop codec key digest r now n else Return r'))) t"
        using safe_Update [OF assms(1) inv] t(2) Suc.IH topo.evolves_inv [OF _ inv]
        by (auto intro!: topo.safe_bind split: option.split sum.split)
    qed
  qed simp
  with assms(2) show ?thesis by (simp add: ReconcileSchema_def)
qed

lemma evolves_history:
  assumes "topo_evolves codec key s t" and "topo_inv codec key s" and "stored codec key s = Some c"
  shows "\<exists>d. stored codec key t = Some d \<and> history c d"
proof -
  have "Validate c = None" using assms(2,3) by (auto simp: topo_inv_def stored_def split: option.splits)
  then have "history c c" by (rule history_start)
  with assms show ?thesis by (auto simp: topo_evolves_def stored_def split: option.splits)
qed

lemma foreign_evolves:
  assumes "\<not> touches key q" and "topo_inv codec key s"
  shows "topo_evolves codec key s (kv_apply q s)"
  using assms untouched [OF assms(1), of s] kv_apply_wf [of s q] by (auto simp: topo_evolves_def topo_inv_def)

section \<open>Reconciling the table membership\<close>

lemma reconcile_added:
  "map_of (foldl (\<lambda>m table. if map_of m table = None then AList.update table d m else m) m ts) t
     = (case map_of m t of Some x \<Rightarrow> Some x | None \<Rightarrow> if t \<in> set ts then Some d else None)"
  by (induction ts arbitrary: m) (auto split: option.split)

lemma map_of_filter_key: "map_of (filter (\<lambda>(k, v). P k) m) k = (if P k then map_of m k else None)"
  by (induction m) auto

lemma reconcile_tables_lookup:
  "map_of (reconcile_tables r m) t = (if t \<in> set (CanonicalShardedTables r)
     then Some (case map_of m t of None \<Rightarrow> BootstrapDistribution | Some d \<Rightarrow> d) else None)"
  by (auto simp: reconcile_tables_def Let_def map_of_filter_key reconcile_added split: option.split)

section \<open>A codec\<close>

text \<open>Catalogs are countable, so a codec that meets the law exists.\<close>

instance SchemaCompatibility_ext :: (countable) countable
  by (rule countable_classI [of "\<lambda>r. to_nat (sc_RegistryFormat r, sc_Revision r, sc_Fingerprint r, SchemaCompatibility.more r)"]) auto

instance TunnelEndpoint_ext :: (countable) countable
  by (rule countable_classI [of "\<lambda>r. to_nat (te_Name r, te_Address r, te_ConfigurationFingerprint r, TunnelEndpoint.more r)"]) auto

instance Burrow_ext :: (countable) countable
  by (rule countable_classI [of "\<lambda>r. to_nat (b_ID r, b_Name r, b_State r, b_Tunnels r, b_Weight r, b_CapacityBytes r,
      b_Labels r, Burrow.more r)"]) auto

instance Distribution_ext :: (countable) countable
  by (rule countable_classI [of "\<lambda>r. to_nat (d_ID r, d_VShardCount r, d_BurrowIDs r, d_OwnerIndexes r, Distribution.more r)"]) auto

instance ChangeMetadata_ext :: (countable) countable
  by (rule countable_classI [of "\<lambda>r. to_nat (cm_Actor r, cm_Reason r, cm_Timestamp r, ChangeMetadata.more r)"]) auto

instance Catalog_ext :: (countable) countable
  by (rule countable_classI [of "\<lambda>r. to_nat (c_FormatVersion r, c_Revision r, c_Schema r, c_Burrows r, c_Distributions r,
      c_TableDistributions r, c_Change r, Catalog.more r)"]) auto

definition sample_codec :: catalog_codec where
  "sample_codec = (\<lambda>c. replicate (to_nat c) CHR ''x'', \<lambda>v. Some (from_nat (length v)))"

lemma sample_codec_ok: "codec_ok sample_codec"
  by (simp add: codec_ok_def sample_codec_def)

section \<open>Properties\<close>

definition topo_starts :: "catalog_codec \<Rightarrow> string \<Rightarrow> (nest_error + StoredTopology) prog \<Rightarrow> bool" where
  "topo_starts codec key p = ((\<exists>boot. p = VerifyOrBootstrap codec key boot)
     \<or> (\<exists>digest r now. p = ReconcileSchema codec key digest r now))"

definition topo_reach :: "'e http \<Rightarrow> catalog_codec \<Rightarrow> string \<Rightarrow> 'e \<times> (nest_error + StoredTopology) prog list
    \<Rightarrow> 'e \<times> (nest_error + StoredTopology) prog list \<Rightarrow> bool" where
  "topo_reach http codec key = net_reach http (topo_starts codec key) (\<lambda>q. \<not> touches key q)"

lemma topo_reach_evolves:
  assumes "etcd_contract http st" and "codec_ok codec" and "topo_reach http codec key w u"
    and "topo_inv codec key (st (fst w))" and "\<forall>p\<in>set (snd w). safe (topo_evolves codec key) p (st (fst w))"
  shows "topo_evolves codec key (st (fst w)) (st (fst u)) \<and> topo_inv codec key (st (fst u))
    \<and> (\<forall>p\<in>set (snd u). safe (topo_evolves codec key) p (st (fst u)))"
  using assms(3) unfolding topo_reach_def
  by (rule topo.net_evolves [OF _ assms(1,4,5)])
    (auto simp: topo_starts_def intro: safe_VerifyOrBootstrap [OF assms(2)] safe_ReconcileSchema [OF assms(2)] foreign_evolves)

text \<open>C22. The catalog in the Nest only ever moves along accepted transitions: however the bootstraps and
  schema reconciliations of several Proxies interleave, also with lost responses, the stored
  catalog is always valid, and a later one is reached from an earlier one by transitions the
  catalog's own check accepts, so revisions never go back and no Burrow disappears.\<close>

theorem topology_history:
  assumes "etcd_contract http st" and "codec_ok codec" and "topo_inv codec key (st e)"
    and "topo_reach http codec key (e, []) (e1, ps1)" and "topo_reach http codec key (e1, ps1) (e2, ps2)"
    and "stored codec key (st e1) = Some c"
  shows "\<exists>d. stored codec key (st e2) = Some d \<and> Validate d = None \<and> history c d
    \<and> unat (c_Revision c) \<le> unat (c_Revision d) \<and> (\<forall>b\<in>set (c_Burrows c). \<exists>b'\<in>set (c_Burrows d). b_ID b' = b_ID b)"
proof -
  from topo_reach_evolves [OF assms(1,2,4)] assms(3) have e1: "topo_inv codec key (st e1)"
    "\<forall>p\<in>set ps1. safe (topo_evolves codec key) p (st e1)" by auto
  from topo_reach_evolves [OF assms(1,2,5)] e1 have e2: "topo_evolves codec key (st e1) (st e2)" by auto
  from evolves_history [OF e2 e1(1) assms(6)] obtain d where d: "stored codec key (st e2) = Some d" "history c d" by blast
  moreover have "Validate d = None" using history_valid [OF d(2)] by (simp add: Validate_None)
  ultimately show ?thesis using history_revision [OF d(2)] history_keeps_burrow [OF d(2)] by blast
qed

definition sample_store :: kv_state where
  "sample_store = (\<lambda>k. if k = ''topology'' then Some (fst sample_codec sample_catalog, 1) else None, 1)"

definition sample_reconcile :: "(nest_error + StoredTopology) prog" where
  "sample_reconcile = ReconcileSchema sample_codec ''topology'' (\<lambda>t y. ''fp2'') sample_registry (\<lambda>n. 9)"

theorem topology_history_witness:
  "\<exists>d. stored sample_codec ''topology'' (snd (run sample_etcd sample_reconcile sample_store)) = Some d \<and> history sample_catalog d"
proof -
  have st: "stored sample_codec ''topology'' sample_store = Some sample_catalog"
    using sample_codec_ok by (simp add: stored_def sample_store_def codec_ok_def)
  have "Validate sample_catalog = None" by code_simp
  then have inv: "topo_inv sample_codec ''topology'' sample_store"
    using sample_codec_ok by (auto simp: topo_inv_def kv_wf_def sample_store_def codec_ok_def)
  have "topo_starts sample_codec ''topology'' sample_reconcile" by (auto simp: topo_starts_def sample_reconcile_def)
  then have "net_reach sample_etcd (topo_starts sample_codec ''topology'') (\<lambda>q. \<not> touches ''topology'' q)
      (sample_store, []) (sample_store, [] @ [sample_reconcile])"
    by (intro net_reach.more_steps [OF net_reach.here] net_step.start)
  from run_reach [OF this] have "topo_reach sample_etcd sample_codec ''topology'' (sample_store, [])
      (snd (run sample_etcd sample_reconcile sample_store), [Return (fst (run sample_etcd sample_reconcile sample_store))])"
    by (simp add: topo_reach_def)
  from topology_history [OF sample_etcd_contract sample_codec_ok inv _ this st] show ?thesis
    by (auto simp: topo_reach_def intro: net_reach.here)
qed

text \<open>Reconciling the catalog after a schema change keeps every placement: Burrows, distributions and
  the distribution of every table that stays sharded are unchanged, newly sharded tables join
  the bootstrap distribution, all other tables leave, and the result fits the new schema.\<close>

theorem reconcile_keeps_placement:
  "c_Burrows (reconciled digest r now c) = c_Burrows c \<and> c_Distributions (reconciled digest r now c) = c_Distributions c
    \<and> (\<forall>t. map_of (c_TableDistributions (reconciled digest r now c)) t
          = (if t \<in> set (CanonicalShardedTables r)
             then Some (case map_of (c_TableDistributions c) t of None \<Rightarrow> BootstrapDistribution | Some d \<Rightarrow> d) else None))
    \<and> ValidateSchema digest (reconciled digest r now c) r = None"
proof -
  have "IsSharded r t" if "(t, d) \<in> set (reconcile_tables r m)" for t d m
    using that by (auto simp: reconcile_tables_def Let_def CanonicalShardedTables_def)
  then have "ValidateSchema digest (reconciled digest r now c) r = None"
    by (auto simp: ValidateSchema_def reconciled_def reconcile_tables_lookup split: option.split)
  then show ?thesis by (simp add: reconciled_def reconcile_tables_lookup)
qed

end
