(* ===== verification/Nest_Sequence.thy ===== *)
theory Nest_Sequence
  imports Nest_Client
begin

text \<open>
  \<^verbatim>\<open>internal/nest/sequence.go\<close>: fleet-wide generated keys.  \<open>Next\<close> reads the counter and swaps it
  for its successor, up to 64 times.  Any number of Proxies run it at once.
\<close>

definition seq_read :: "string \<Rightarrow> (nest_error + int \<times> int \<times> bool) prog" where
  "seq_read key = check (request (RangeRequest key)) (\<lambda>body. Return (case body of None \<Rightarrow> Inl BadResponse
     | Some result \<Rightarrow> (case nb_kvs result of [] \<Rightarrow> Inr (0, 0, False)
       | kv # rest \<Rightarrow> (case kv_value kv of None \<Rightarrow> Inl BadValue
         | Some v \<Rightarrow> (case parse_int64 v of None \<Rightarrow> Inl (InvalidSequenceValue v)
           | Some current \<Rightarrow>
               if current < 0 then Inl (InvalidSequenceValue v)
               else (case parse_int64 (kv_mod_revision kv) of None \<Rightarrow> Inl (BadModRevision (kv_mod_revision kv))
                 | Some revision \<Rightarrow> Inr (current, revision, True)))))))"

definition seq_swap :: "string \<Rightarrow> int \<Rightarrow> bool \<Rightarrow> int \<Rightarrow> (nest_error + bool) prog" where
  "seq_swap key revision found next' =
     check (request (TxnRequest key (if found then CompareMod (show_int revision) else CompareVersionZero) (show_int next')))
       (\<lambda>body. Return (case body of None \<Rightarrow> Inl BadResponse | Some outcome \<Rightarrow> Inr (nb_succeeded outcome)))"

primrec next_loop :: "string \<Rightarrow> nat \<Rightarrow> (nest_error + int) prog" where
  "next_loop key 0 = Return (Inl TooMuchContention)"
| "next_loop key (Suc attempts) = check (seq_read key) (\<lambda>(current, revision, found).
     if current = 2 ^ 63 - 1 then Return (Inl SequenceExhausted)
     else check (seq_swap key revision found (current + 1)) (\<lambda>succeeded.
       if succeeded then Return (Inr (current + 1)) else next_loop key attempts))"

definition Next :: "string \<Rightarrow> (nest_error + int) prog" where
  "Next key = next_loop key 64"

section \<open>The counter\<close>

definition counter :: "string \<Rightarrow> kv_state \<Rightarrow> int" where
  "counter key s = (case fst s key of None \<Rightarrow> 0
     | Some (v, r) \<Rightarrow> (case parse_int64 v of None \<Rightarrow> 0 | Some n \<Rightarrow> n))"

text \<open>What the key may hold: nothing, or the decimal text of a non-negative int64 number.\<close>

definition counter_ok :: "string \<Rightarrow> kv_state \<Rightarrow> bool" where
  "counter_ok key s = (kv_wf s \<and> (\<forall>v r. fst s key = Some (v, r) \<longrightarrow> (\<exists>n. parse_int64 v = Some n \<and> 0 \<le> n)))"

definition after_read :: "string \<Rightarrow> nat \<Rightarrow> int \<Rightarrow> int \<Rightarrow> bool \<Rightarrow> (nest_error + int) prog" where
  "after_read key n current revision found =
     check (seq_swap key revision found (current + 1)) (\<lambda>succeeded.
       if succeeded then Return (Inr (current + 1)) else next_loop key n)"

lemma next_loop_read:
  "next_loop key (Suc n) = check (seq_read key) (\<lambda>(current, revision, found).
     if current = 2 ^ 63 - 1 then Return (Inl SequenceExhausted) else after_read key n current revision found)"
  unfolding after_read_def by (simp only: next_loop.simps)

definition swap_result :: "string \<Rightarrow> nat \<Rightarrow> int \<Rightarrow> http_result \<Rightarrow> (nest_error + int) prog" where
  "swap_result key n nx x = (case request_result x of Inl e \<Rightarrow> Return (Inl e)
     | Inr None \<Rightarrow> Return (Inl BadResponse)
     | Inr (Some b) \<Rightarrow> if nb_succeeded b then Return (Inr nx) else next_loop key n)"

lemma after_read_Ask:
  "after_read key n current revision found
     = Ask (TxnRequest key (if found then CompareMod (show_int revision) else CompareVersionZero) (show_int (current + 1)))
         (swap_result key n (current + 1))"
  unfolding after_read_def seq_swap_def check_request check_simps swap_result_def
  by (auto simp: fun_eq_iff split: sum.split option.split)

definition read_result :: "string \<Rightarrow> nat \<Rightarrow> http_result \<Rightarrow> (nest_error + int) prog" where
  "read_result key n x = check (case request_result x of Inl e \<Rightarrow> Return (Inl e)
     | Inr body \<Rightarrow> Return (case body of None \<Rightarrow> Inl BadResponse
     | Some result \<Rightarrow> (case nb_kvs result of [] \<Rightarrow> Inr (0, 0, False)
       | kv # rest \<Rightarrow> (case kv_value kv of None \<Rightarrow> Inl BadValue
         | Some v \<Rightarrow> (case parse_int64 v of None \<Rightarrow> Inl (InvalidSequenceValue v)
           | Some current \<Rightarrow>
               if current < 0 then Inl (InvalidSequenceValue v)
               else (case parse_int64 (kv_mod_revision kv) of None \<Rightarrow> Inl (BadModRevision (kv_mod_revision kv))
                 | Some revision \<Rightarrow> Inr (current, revision, True)))))))
     (\<lambda>(current, revision, found).
       if current = 2 ^ 63 - 1 then Return (Inl SequenceExhausted) else after_read key n current revision found)"

lemma next_loop_Ask: "next_loop key (Suc n) = Ask (RangeRequest key) (read_result key n)"
  unfolding next_loop_read seq_read_def check_request check_simps read_result_def ..

lemma parse_show_int64: "parse_int64 (show_int n) = Some m \<Longrightarrow> m = n"
  by (auto simp: parse_int64_def split: if_splits)

lemma parse_int64_bound: "parse_int64 v = Some n \<Longrightarrow> n < 2 ^ 63"
  by (auto simp: parse_int64_def split: option.splits if_splits)

lemma parse_show_ok: "0 \<le> n \<Longrightarrow> n < 2 ^ 63 \<Longrightarrow> parse_int64 (show_int n) = Some n"
  by (simp add: parse_int64_def)

text \<open>What a client may do next, given the state of the key.\<close>

inductive seq_client :: "string \<Rightarrow> kv_state \<Rightarrow> (nest_error + int) prog \<Rightarrow> bool" for key s where
  reading: "seq_client key s (next_loop key n)"
| failed: "seq_client key s (Return (Inl e))"
| finished: "0 < v \<Longrightarrow> v \<le> counter key s \<Longrightarrow> seq_client key s (Return (Inr v))"
| creating: "seq_client key s (after_read key n 0 revision False)"
| swapping: "0 \<le> current \<Longrightarrow> current < 2 ^ 63 - 1 \<Longrightarrow> revision \<le> snd s
    \<Longrightarrow> (\<And>v. fst s key = Some (v, revision) \<Longrightarrow> parse_int64 v = Some current) \<Longrightarrow> fst s key \<noteq> None
    \<Longrightarrow> seq_client key s (after_read key n current revision True)"

lemma read_client:
  assumes "counter_ok key s" and "\<And>b. request_result x = Inr (Some b) \<Longrightarrow> kv_reply (RangeRequest key) s b"
  shows "seq_client key s (read_result key n x)"
proof (cases "\<exists>b. request_result x = Inr (Some b)")
  case False
  then have "read_result key n x = Return (Inl BadResponse) \<or> (\<exists>e. read_result key n x = Return (Inl e))"
    by (cases "request_result x"; cases "projr (request_result x)") (auto simp: read_result_def)
  then show ?thesis by (auto intro: failed)
next
  case True
  then obtain b where b: "request_result x = Inr (Some b)" by blast
  from assms(2) [OF b] have kvs: "nb_kvs b = (case fst s key of None \<Rightarrow> []
      | Some (v, r) \<Rightarrow> [\<lparr>kv_value = Some v, kv_mod_revision = show_int r\<rparr>])" by (simp add: kv_reply_def)
  show ?thesis
  proof (cases "fst s key")
    case None
    with kvs b have "read_result key n x = after_read key n 0 0 False" by (simp add: read_result_def)
    then show ?thesis by (simp add: creating)
  next
    case (Some vr)
    obtain v r where vr: "vr = (v, r)" by (cases vr)
    from assms(1) Some vr obtain c where c: "parse_int64 v = Some c" "0 \<le> c" "0 < r" "r \<le> snd s"
      by (auto simp: counter_ok_def kv_wf_def)
    have eq: "read_result key n x = (if parse_int64 (show_int r) = None then Return (Inl (BadModRevision (show_int r)))
        else if c = 2 ^ 63 - 1 then Return (Inl SequenceExhausted) else after_read key n c r True)"
      using b kvs Some vr c by (auto simp: read_result_def dest: parse_show_int64 split: option.split)
    have "c \<noteq> 2 ^ 63 - 1 \<Longrightarrow> c < 2 ^ 63 - 1" using parse_int64_bound [OF c(1)] by simp
    with eq c Some vr show ?thesis by (auto intro: failed swapping)
  qed
qed

text \<open>How the key moves: it is untouched, or holds a larger number under a new revision.\<close>

definition advances :: "string \<Rightarrow> kv_state \<Rightarrow> kv_state \<Rightarrow> bool" where
  "advances key s t = (snd s \<le> snd t \<and> (fst t key = fst s key
     \<or> (\<exists>v r n. fst t key = Some (v, r) \<and> snd s < r \<and> parse_int64 v = Some n \<and> counter key s < n)))"

lemma advances_counter: "advances key s t \<Longrightarrow> counter key s \<le> counter key t"
  by (auto simp: advances_def counter_def)

lemma seq_client_mono: "seq_client key s p \<Longrightarrow> advances key s t \<Longrightarrow> seq_client key t p"
proof (induction rule: seq_client.induct)
  case (finished v)
  then show ?case by (intro seq_client.finished) (auto dest: advances_counter)
next
  case (swapping current revision n)
  then show ?case by (intro seq_client.swapping) (auto simp: advances_def)
qed (auto intro: seq_client.intros)

lemma next_loop_not_Inr: "Return (Inr v) = next_loop key n \<Longrightarrow> P"
  by (cases n) (simp_all add: next_loop_Ask del: next_loop.simps(2))

lemma commit_advances:
  assumes "counter_ok key s" and "kv_holds c (fst s key)" and "counter key s = current" and "current < 2 ^ 63 - 1"
  shows "advances key s (kv_apply (TxnRequest key c (show_int (current + 1))) s)
    \<and> counter_ok key (kv_apply (TxnRequest key c (show_int (current + 1))) s)
    \<and> counter key (kv_apply (TxnRequest key c (show_int (current + 1))) s) = current + 1"
proof -
  have "0 \<le> current" using assms(1,3) by (auto simp: counter_def counter_ok_def split: option.splits)
  with assms(4) have p: "parse_int64 (show_int (current + 1)) = Some (current + 1)" by (intro parse_show_ok) auto
  have w: "kv_wf (kv_apply (TxnRequest key c (show_int (current + 1))) s)"
    using assms(1) by (intro kv_apply_wf) (simp add: counter_ok_def)
  show ?thesis
    using assms(2,3) p w \<open>0 \<le> current\<close>
    by (auto simp: kv_apply_def kv_put_def advances_def counter_ok_def counter_def)
qed

lemma swap_step:
  assumes "etcd_contract http st" and "counter_ok key (st e)"
    and "http e (TxnRequest key c (show_int (current + 1))) = (x, e')"
    and "kv_holds c (fst (st e) key) \<Longrightarrow> counter key (st e) = current" and "0 \<le> current" and "current < 2 ^ 63 - 1"
  shows "advances key (st e) (st e') \<and> counter_ok key (st e') \<and> seq_client key (st e') (swap_result key n (current + 1) x)
    \<and> (\<forall>v. swap_result key n (current + 1) x = Return (Inr v) \<longrightarrow> counter key (st e) < v)"
proof -
  let ?q = "TxnRequest key c (show_int (current + 1))"
  have adv: "advances key (st e) (st e') \<and> counter_ok key (st e')"
  proof (cases "kv_holds c (fst (st e) key)")
    case True
    from commit_advances [OF assms(2) True assms(4) [OF True] assms(6)] contract_state [OF assms(1,3)] assms(2)
    show ?thesis by (auto simp: advances_def)
  next
    case False
    with contract_state [OF assms(1,3)] assms(2) show ?thesis by (auto simp: kv_apply_def advances_def)
  qed
  have ret: "kv_holds c (fst (st e) key) \<and> v = current + 1 \<and> st e' = kv_apply ?q (st e)"
    if "swap_result key n (current + 1) x = Return (Inr v)" for v
  proof -
    have no: "next_loop key m \<noteq> Return (Inr v)" for m by (metis next_loop_not_Inr)
    from that no obtain b where b: "request_result x = Inr (Some b)" "nb_succeeded b" "v = current + 1"
      by (auto simp: swap_result_def split: sum.splits option.splits if_splits)
    with contract_accepted [OF assms(1,3) b(1)] show ?thesis by (simp add: kv_reply_def)
  qed
  have "seq_client key (st e') (swap_result key n (current + 1) x)"
  proof (cases "\<exists>v. swap_result key n (current + 1) x = Return (Inr v)")
    case True
    then obtain v where v: "swap_result key n (current + 1) x = Return (Inr v)" by blast
    from ret [OF v] commit_advances [OF assms(2) _ assms(4) assms(6)] assms(5) have "counter key (st e') = v" "0 < v" by auto
    with v show ?thesis by (auto intro: finished)
  next
    case False
    then show ?thesis
      by (auto simp: swap_result_def intro: reading failed split: sum.splits option.splits if_splits)
  qed
  with adv ret assms(4) show ?thesis by fastforce
qed

lemma seq_client_step:
  assumes "etcd_contract http st" and "counter_ok key (st e)" and "seq_client key (st e) (Ask q k)" and "http e q = (x, e')"
  shows "advances key (st e) (st e') \<and> counter_ok key (st e') \<and> seq_client key (st e') (k x)
    \<and> (\<forall>v. k x = Return (Inr v) \<longrightarrow> counter key (st e) < v)"
  using assms(3)
proof (cases rule: seq_client.cases)
  case (reading n)
  then obtain m where m: "n = Suc m" by (cases n) auto
  with reading have q: "q = RangeRequest key" "k = read_result key m" by (simp_all add: next_loop_Ask del: next_loop.simps)
  from contract_state [OF assms(1,4)] q have st: "st e' = st e" by (auto simp: kv_apply_def)
  have "seq_client key (st e) (read_result key m x)"
    using contract_accepted(2) [OF assms(1) assms(4) [unfolded q(1)]] by (intro read_client [OF assms(2)]) auto
  moreover have "read_result key m x \<noteq> Return (Inr v)" for v
    by (auto simp: read_result_def after_read_Ask split: sum.splits option.splits list.splits if_splits)
  ultimately show ?thesis using st assms(2) q by (auto simp: advances_def)
next
  case (creating n revision)
  then have q: "q = TxnRequest key CompareVersionZero (show_int (0 + 1))" "k = swap_result key n (0 + 1)"
    by (simp_all add: after_read_Ask)
  have "kv_holds CompareVersionZero (fst (st e) key) \<Longrightarrow> counter key (st e) = 0" by (simp add: kv_holds_def counter_def)
  from swap_step [OF assms(1,2) assms(4) [unfolded q(1)] this] q(2) show ?thesis by simp
next
  case (swapping current revision n)
  then have q: "q = TxnRequest key (CompareMod (show_int revision)) (show_int (current + 1))" "k = swap_result key n (current + 1)"
    by (simp_all add: after_read_Ask)
  have "kv_holds (CompareMod (show_int revision)) (fst (st e) key) \<Longrightarrow> counter key (st e) = current"
    using swapping(5,6) by (auto simp: kv_holds_def counter_def split: option.splits)
  from swap_step [OF assms(1,2) assms(4) [unfolded q(1)] this] q(2) swapping show ?thesis by simp
qed

section \<open>All clients together\<close>

definition seq_world_ok :: "string \<Rightarrow> ('e \<Rightarrow> kv_state) \<Rightarrow> 'e \<times> (nest_error + int) prog list \<Rightarrow> bool" where
  "seq_world_ok key st w = (counter_ok key (st (fst w)) \<and> (\<forall>p\<in>set (snd w). seq_client key (st (fst w)) p)
     \<and> (\<forall>i j v u. i < length (snd w) \<and> j < length (snd w) \<and> i \<noteq> j \<and> snd w ! i = Return (Inr v) \<and> snd w ! j = Return (Inr u)
          \<longrightarrow> v \<noteq> u))"

lemma seq_world_step:
  assumes "etcd_contract http st" and "net_step http (\<lambda>p. p = Next key) (\<lambda>q. \<not> touches key q) w u" and "seq_world_ok key st w"
  shows "seq_world_ok key st u \<and> advances key (st (fst w)) (st (fst u))"
  using assms(2)
proof (cases rule: net_step.cases)
  case (start p e ps)
  moreover have "Next key \<noteq> Return (Inr v)" for v by (simp add: Next_def next_loop_Ask numeral_eq_Suc del: next_loop.simps)
  ultimately show ?thesis
    using assms(3) reading [of key "st e" 64] by (auto simp: seq_world_ok_def Next_def nth_append advances_def)
next
  case (client i ps q k e x e')
  let ?ps = "ps[i := k x]"
  from assms(3) client have c: "counter_ok key (st e)" "seq_client key (st e) (Ask q k)"
    "\<And>p. p \<in> set ps \<Longrightarrow> seq_client key (st e) p" by (auto simp: seq_world_ok_def) (metis nth_mem)
  note s = seq_client_step [OF assms(1) c(1,2) client(5)]
  have cl: "seq_client key (st e') p" if "p \<in> set ?ps" for p
    using that s c(3) by (auto dest!: set_update_subset_insert [THEN subsetD] intro: seq_client_mono)
  have old: "v \<le> counter key (st e)" if "j < length ps" "ps ! j = Return (Inr v)" for j v
  proof -
    from that have "seq_client key (st e) (Return (Inr v))" using c(3) nth_mem by metis
    then show ?thesis
      by (cases rule: seq_client.cases) (auto simp: after_read_Ask elim: next_loop_not_Inr)
  qed
  have dist: "v \<noteq> u" if "j < length ?ps" "j' < length ?ps" "j \<noteq> j'" "?ps ! j = Return (Inr v)" "?ps ! j' = Return (Inr u)" for j j' v u
  proof (cases "j = i \<or> j' = i")
    case True
    with that s old [of j v] old [of j' u] show ?thesis by (auto split: if_splits)
  next
    case False
    with that assms(3) client show ?thesis by (auto simp: seq_world_ok_def)
  qed
  have "seq_world_ok key st (e', ?ps)"
    unfolding seq_world_ok_def fst_conv snd_conv using s cl dist by blast
  then show ?thesis using s client by simp
next
  case (other q e x e' ps)
  from contract_state [OF assms(1) other(4)] untouched [OF other(3), of "st e"]
  have u: "fst (st e') key = fst (st e) key" "snd (st e) \<le> snd (st e')" by auto
  then have "advances key (st e) (st e')" by (simp add: advances_def)
  moreover have "kv_wf (st e')" using assms(3) other contract_wf [OF assms(1) other(4)] by (simp add: seq_world_ok_def counter_ok_def)
  ultimately show ?thesis
    using assms(3) other u by (auto simp: seq_world_ok_def counter_ok_def intro: seq_client_mono)
qed

lemma Next_simp: "Next key = Ask (RangeRequest key) (read_result key 63)"
proof -
  have "Next key = next_loop key (Suc 63)" by (simp only: Next_def) simp
  then show ?thesis by (simp only: next_loop_Ask)
qed

definition seq_reach :: "'e http \<Rightarrow> string \<Rightarrow> 'e \<times> (nest_error + int) prog list \<Rightarrow> 'e \<times> (nest_error + int) prog list \<Rightarrow> bool" where
  "seq_reach http key = net_reach http (\<lambda>p. p = Next key) (\<lambda>q. \<not> touches key q)"

lemma seq_reach_ok:
  assumes "etcd_contract http st" and "seq_reach http key w u" and "seq_world_ok key st w"
  shows "seq_world_ok key st u"
  using net_reach_invariant [of http _ _ w u "seq_world_ok key st"] assms seq_world_step [OF assms(1)]
  unfolding seq_reach_def by blast

text \<open>Values handed out from a point on are larger than the counter at that point.\<close>

lemma seq_reach_larger:
  assumes "etcd_contract http st" and "seq_reach http key w u" and "seq_world_ok key st w"
  shows "counter key (st (fst w)) \<le> counter key (st (fst u))
    \<and> (\<forall>j v. length (snd w) \<le> j \<and> j < length (snd u) \<and> snd u ! j = Return (Inr v) \<longrightarrow> counter key (st (fst w)) < v)"
  using assms(2) unfolding seq_reach_def
proof (induction rule: net_reach.induct)
  case (more_steps x y)
  then have ok: "seq_world_ok key st x" using seq_reach_ok [OF assms(1) _ assms(3)] by (simp add: seq_reach_def)
  from seq_world_step [OF assms(1) more_steps(2) ok] have "counter key (st (fst x)) \<le> counter key (st (fst y))"
    by (auto dest: advances_counter)
  moreover have "counter key (st (fst w)) < v"
    if j: "length (snd w) \<le> j" "j < length (snd y)" "snd y ! j = Return (Inr v)" for j v
    using more_steps(2)
  proof (cases rule: net_step.cases)
    case (start p e ps)
    with j more_steps.IH show ?thesis by (auto simp: nth_append Next_simp split: if_splits)
  next
    case (client i ps q k e x' e')
    show ?thesis
    proof (cases "j = i")
      case True
      from ok client have "counter_ok key (st e)" "seq_client key (st e) (Ask q k)"
        by (auto simp: seq_world_ok_def) (metis nth_mem)
      from seq_client_step [OF assms(1) this client(5)] True client j more_steps.IH show ?thesis by fastforce
    next
      case False
      with j client more_steps.IH show ?thesis by auto
    qed
  next
    case (other q e x' e' ps)
    with j more_steps.IH show ?thesis by auto
  qed
  ultimately show ?case using more_steps.IH by auto
qed auto

text \<open>C17. Generated keys are unique across the fleet: however the \<open>Next\<close> calls of any number of
  Proxies interleave, with lost responses and foreign requests to other keys in between, no two
  calls return the same value, a call that starts after another returned gets a larger one,
  and every value is a positive int64 not above the stored counter.\<close>

theorem sequence_values_unique:
  assumes "etcd_contract http st" and "counter_ok key (st e)"
    and "seq_reach http key (e, []) (e1, ps1)" and "seq_reach http key (e1, ps1) (e2, ps2)"
  shows "(\<forall>i j v u. i < length ps2 \<and> j < length ps2 \<and> i \<noteq> j \<and> ps2 ! i = Return (Inr v) \<and> ps2 ! j = Return (Inr u) \<longrightarrow> v \<noteq> u)
    \<and> (\<forall>i j v u. i < length ps1 \<and> ps1 ! i = Return (Inr v) \<and> length ps1 \<le> j \<and> j < length ps2 \<and> ps2 ! j = Return (Inr u)
          \<longrightarrow> v < u)
    \<and> (\<forall>p\<in>set ps2. \<forall>v. p = Return (Inr v) \<longrightarrow> counter key (st e) < v \<and> v \<le> counter key (st e2) \<and> v < 2 ^ 63)"
proof -
  have w: "seq_world_ok key st (e, [])" using assms(2) by (simp add: seq_world_ok_def)
  note w1 = seq_reach_ok [OF assms(1,3) w]
  note w2 = seq_reach_ok [OF assms(1,4) w1]
  have fin: "v \<le> counter key (st a)" if "seq_client key (st a) (Return (Inr v))" for a v
    using that by (cases rule: seq_client.cases) (auto simp: after_read_Ask elim: next_loop_not_Inr)
  have old: "v \<le> counter key (st e1)" if "i < length ps1" "ps1 ! i = Return (Inr v)" for i v
    using w1 that fin nth_mem [of i ps1] by (auto simp: seq_world_ok_def)
  have new: "counter key (st e1) < u" if "length ps1 \<le> j" "j < length ps2" "ps2 ! j = Return (Inr u)" for j u
    using seq_reach_larger [OF assms(1,4) w1] that by auto
  have reach2: "seq_reach http key (e, []) (e2, ps2)"
    using assms(4,3) unfolding seq_reach_def by (induction rule: net_reach.induct) (auto intro: net_reach.more_steps)
  have all: "counter key (st e) < v \<and> v \<le> counter key (st e2) \<and> v < 2 ^ 63" if "p \<in> set ps2" "p = Return (Inr v)" for p v
  proof -
    from that obtain j where "j < length ps2" "ps2 ! j = Return (Inr v)" by (auto simp: in_set_conv_nth)
    then have "counter key (st e) < v" using seq_reach_larger [OF assms(1) reach2 w] by auto
    moreover have "v \<le> counter key (st e2)" using w2 that fin by (auto simp: seq_world_ok_def)
    moreover have "counter key (st e2) < 2 ^ 63"
      by (auto simp: counter_def dest: parse_int64_bound split: option.split)
    ultimately show ?thesis by simp
  qed
  show ?thesis using w2 old new all by (auto simp: seq_world_ok_def) (meson le_less_trans)
qed

definition sample_s1 :: kv_state where
  "sample_s1 = snd (run sample_etcd (Next ''seq'') (\<lambda>k. None, 0))"

definition sample_s2 :: kv_state where
  "sample_s2 = snd (run sample_etcd (Next ''seq'') sample_s1)"

theorem sequence_values_unique_witness:
  "seq_reach sample_etcd ''seq'' (sample_s1, [Return (Inr 1)]) (sample_s2, [Return (Inr 1), Return (Inr 2)]) \<and> (1 :: int) < 2"
proof -
  let ?start = "\<lambda>p. p = Next ''seq''" and ?foreign = "\<lambda>q. \<not> touches ''seq'' q"
  have v: "fst (run sample_etcd (Next ''seq'') (\<lambda>k. None, 0)) = Inr 1"
    "fst (run sample_etcd (Next ''seq'') sample_s1) = Inr 2" by code_simp+
  have "net_reach sample_etcd ?start ?foreign ((\<lambda>k. None, 0), []) ((\<lambda>k. None, 0), [] @ [Next ''seq''])"
    by (intro net_reach.more_steps [OF net_reach.here] net_step.start) simp
  from run_reach [OF this] v(1) have r1: "seq_reach sample_etcd ''seq'' ((\<lambda>k. None, 0), []) (sample_s1, [Return (Inr 1)])"
    by (simp add: seq_reach_def sample_s1_def)
  have "net_reach sample_etcd ?start ?foreign (sample_s1, [Return (Inr 1)]) (sample_s1, [Return (Inr 1)] @ [Next ''seq''])"
    by (intro net_reach.more_steps [OF net_reach.here] net_step.start) simp
  from run_reach [OF this] v(2) have r2: "seq_reach sample_etcd ''seq'' (sample_s1, [Return (Inr 1)]) (sample_s2, [Return (Inr 1), Return (Inr 2)])"
    by (simp add: seq_reach_def sample_s2_def)
  have "counter_ok ''seq'' (\<lambda>k. None, 0)" by (simp add: counter_ok_def kv_wf_def)
  from sequence_values_unique [OF sample_etcd_contract this r1 r2] have "(1 :: int) < 2" by fastforce
  with r2 show ?thesis by simp
qed

text \<open>On a reachable Nest with no competitor \<open>Next\<close> returns the successor of the counter and stores
  it, and on the largest int64 it fails and leaves the counter alone instead of wrapping around.\<close>

theorem sequence_alone:
  assumes "etcd_contract http st" and "available http" and "counter_ok key (st e)" and "snd (st e) < 2 ^ 63"
  shows "if counter key (st e) = 2 ^ 63 - 1
    then fst (run http (Next key) e) = Inl SequenceExhausted \<and> st (snd (run http (Next key) e)) = st e
    else fst (run http (Next key) e) = Inr (counter key (st e) + 1)
      \<and> counter key (st (snd (run http (Next key) e))) = counter key (st e) + 1"
proof -
  obtain x e1 where r: "http e (RangeRequest key) = (x, e1)" by (cases "http e (RangeRequest key)")
  from assms(2) r obtain b where b: "request_result x = Inr (Some b)" unfolding available_def by (metis fst_conv)
  from contract_accepted [OF assms(1) r b] have st1: "st e1 = st e" and kvs: "nb_kvs b = (case fst (st e) key of None \<Rightarrow> []
      | Some (v, r) \<Rightarrow> [\<lparr>kv_value = Some v, kv_mod_revision = show_int r\<rparr>])"
    by (auto simp: kv_apply_def kv_reply_def)
  obtain revision found where rd: "read_result key 63 x = (if counter key (st e) = 2 ^ 63 - 1 then Return (Inl SequenceExhausted)
      else after_read key 63 (counter key (st e)) revision found)"
    and h: "kv_holds (if found then CompareMod (show_int revision) else CompareVersionZero) (fst (st e) key)"
  proof (cases "fst (st e) key")
    case None
    with kvs b that [of 0 False] show thesis by (simp add: read_result_def counter_def kv_holds_def)
  next
    case (Some vr)
    obtain v r where vr: "vr = (v, r)" by (cases vr)
    from assms(3) Some vr obtain n where n: "parse_int64 v = Some n" "0 \<le> n" "0 < r" "r \<le> snd (st e)"
      by (auto simp: counter_ok_def kv_wf_def)
    with assms(4) have "parse_int64 (show_int r) = Some r" by (intro parse_show_ok) auto
    with kvs b n Some vr that [of r True] show thesis by (simp add: read_result_def counter_def kv_holds_def)
  qed
  have run1: "run http (Next key) e = run http (read_result key 63 x) e1" using r by (simp add: Next_simp)
  show ?thesis
  proof (cases "counter key (st e) = 2 ^ 63 - 1")
    case True
    with run1 rd st1 show ?thesis by simp
  next
    case False
    let ?c = "counter key (st e)"
    let ?q = "TxnRequest key (if found then CompareMod (show_int revision) else CompareVersionZero) (show_int (?c + 1))"
    obtain y e2 where t: "http e1 ?q = (y, e2)" by (cases "http e1 ?q")
    from assms(2) t obtain b2 where b2: "request_result y = Inr (Some b2)" unfolding available_def by (metis fst_conv)
    from contract_accepted [OF assms(1) t b2] h st1 have s2: "st e2 = kv_apply ?q (st e)" "nb_succeeded b2"
      by (auto simp: kv_reply_def)
    have "?c < 2 ^ 63" by (auto simp: counter_def dest: parse_int64_bound split: option.split)
    with False have "?c < 2 ^ 63 - 1" by simp
    from commit_advances [OF assms(3) h refl this] s2 have "counter key (st e2) = ?c + 1" by simp
    moreover have "run http (Next key) e = (Inr (?c + 1), e2)"
      using run1 rd False t b2 s2(2) by (simp add: after_read_Ask swap_result_def)
    ultimately show ?thesis using False by simp
  qed
qed

definition sample_full :: kv_state where
  "sample_full = (\<lambda>k. if k = ''seq'' then Some (show_int (2 ^ 63 - 1), 4) else None, 4)"

theorem sequence_alone_witness:
  "fst (run sample_etcd (Next ''seq'') sample_full) = Inl SequenceExhausted"
proof -
  have p: "parse_int64 (show_int (2 ^ 63 - 1)) = Some (2 ^ 63 - 1)" by (rule parse_show_ok) simp_all
  then have ok: "counter_ok ''seq'' sample_full" "snd sample_full < 2 ^ 63" and c: "counter ''seq'' sample_full = 2 ^ 63 - 1"
    unfolding sample_full_def by (auto simp: counter_ok_def kv_wf_def counter_def)
  show ?thesis
    using sequence_alone [OF sample_etcd_contract sample_etcd_available ok] unfolding c by (simp only: if_True)
qed

text \<open>C21. \<open>Next\<close> always ends: whatever the server answers, it makes at most 128 requests.\<close>

theorem sequence_bounded: "within 128 (Next key)"
proof -
  have swap: "within (Suc m) (after_read key n c r f)" if "within m (next_loop key n)" for m n c r f
    using that by (auto simp: after_read_Ask swap_result_def split: sum.split option.split)
  have "within (2 * n) (next_loop key n)" for n
  proof (induction n)
    case (Suc n)
    have "within (Suc (2 * n)) (read_result key n x)" for x
      using swap [OF Suc.IH] by (auto simp: read_result_def split: sum.split option.split list.split)
    then show ?case by (simp add: next_loop_Ask del: next_loop.simps)
  qed simp
  from this [of 64] show ?thesis by (simp add: Next_def del: next_loop.simps within.simps)
qed

end
