(* ===== verification/Go_Number.thy ===== *)
theory Go_Number
  imports Go_Prelude "HOL-Library.Log_Nat"
begin

text \<open>
  Arithmetic of Go that HOL does not have as it is: integer division that truncates toward zero, and
  binary64 values, kept as the rationals they denote.
\<close>

section \<open>Division and rounding\<close>

definition go_quot :: "int \<Rightarrow> int \<Rightarrow> int" where
  "go_quot a b = sgn a * sgn b * (\<bar>a\<bar> div \<bar>b\<bar>)"

definition go_rem :: "int \<Rightarrow> int \<Rightarrow> int" where
  "go_rem a b = sgn a * (\<bar>a\<bar> mod \<bar>b\<bar>)"

text \<open>
  \<open>float64 q\<close> rounds to the nearest 53-bit value, ties to even.  Durations are far inside the
  normal range, so neither overflow nor subnormal numbers arise.
\<close>

definition binade :: "rat \<Rightarrow> int" where
  "binade q = (let (n, d) = quotient_of q; k = bitlen n - bitlen d in if 2 powi k \<le> q then k else k - 1)"

definition round_even :: "rat \<Rightarrow> int" where
  "round_even q = (let f = \<lfloor>q\<rfloor>; r = q - of_int f in
     if r < 1 / 2 \<or> r = 1 / 2 \<and> even f then f else f + 1)"

definition float64 :: "rat \<Rightarrow> rat" where
  "float64 q = (if q = 0 then 0
     else let ulp = 2 powi (binade \<bar>q\<bar> - 52) in of_int (round_even (q / ulp)) * ulp)"

end
