(* ===== verification/Proxy_Config.thy ===== *)
theory Proxy_Config
  imports Go_Number
begin

text \<open>
  \<^verbatim>\<open>internal/config/config.go\<close>: the configuration file of a Proxy, its defaults and its validation.
  Reading the file and decoding YAML are parameters; \<^verbatim>\<open>time.ParseDuration\<close> of the Go library is
  written out.
\<close>

section \<open>time.ParseDuration\<close>

text \<open>The unsigned accumulators of the library are 64 bits wide.\<close>

fun leadingInt :: "int \<Rightarrow> string \<Rightarrow> (int \<times> string) option" where
  "leadingInt x [] = Some (x, [])"
| "leadingInt x (c # s) = (if \<not> is_digit c then Some (x, c # s)
     else if x > 2 ^ 63 div 10 then None
     else let x = x * 10 + int (digit_val c) in if x > 2 ^ 63 then None else leadingInt x s)"

text \<open>Digits past the range of the accumulator are read and ignored.\<close>

fun leadingFraction :: "int \<Rightarrow> rat \<Rightarrow> bool \<Rightarrow> string \<Rightarrow> int \<times> rat \<times> string" where
  "leadingFraction x scale overflow [] = (x, scale, [])"
| "leadingFraction x scale overflow (c # s) = (if \<not> is_digit c then (x, scale, c # s)
     else if overflow \<or> x > (2 ^ 63 - 1) div 10 then leadingFraction x scale True s
     else let y = x * 10 + int (digit_val c) in
       if y > 2 ^ 63 then leadingFraction x scale True s else leadingFraction y (float64 (scale * 10)) False s)"

definition unitMap :: "(string, int) gomap" where
  "unitMap = [(''ns'', 1), (''us'', 10 ^ 3), ([CHR 0xC2, CHR 0xB5, CHR ''s''], 10 ^ 3), ([CHR 0xCE, CHR 0xBC, CHR ''s''], 10 ^ 3),
     (''ms'', 10 ^ 6), (''s'', 10 ^ 9), (''m'', 60 * 10 ^ 9), (''h'', 3600 * 10 ^ 9)]"

definition number_char :: "char \<Rightarrow> bool" where
  "number_char c = (c = CHR ''.'' \<or> is_digit c)"

text \<open>One number with its unit: its nanoseconds and the rest of the text.\<close>

definition duration_part :: "string \<Rightarrow> (int \<times> string) option" where
  "duration_part s = (case s of [] \<Rightarrow> None | c # _ \<Rightarrow>
     if \<not> number_char c then None
     else (case leadingInt 0 s of None \<Rightarrow> None
       | Some (v, s1) \<Rightarrow>
           (let pre = length s \<noteq> length s1;
                (f, scale, s2) = (if take 1 s1 = ''.'' then leadingFraction 0 1 False (drop 1 s1) else (0, 1, s1));
                post = (take 1 s1 = ''.'' \<and> length s2 \<noteq> length (drop 1 s1)) in
            if \<not> pre \<and> \<not> post then None
            else let u = takeWhile (\<lambda>c. \<not> number_char c) s2; rest = dropWhile (\<lambda>c. \<not> number_char c) s2 in
              if u = [] then None
              else (case map_of unitMap u of None \<Rightarrow> None
                | Some unit \<Rightarrow>
                    if v > 2 ^ 63 div unit then None
                    else let v = v * unit in
                      if f > 0
                      then let v = v + \<lfloor>float64 (float64 (of_int f) * float64 (of_int unit / scale))\<rfloor> in
                        if v > 2 ^ 63 then None else Some (v, rest)
                      else Some (v, rest)))))"

lemma leadingInt_shorter [go_len]: "leadingInt x s = Some (v, t) \<Longrightarrow> length t \<le> length s"
  by (induction x s rule: leadingInt.induct) (auto simp: Let_def split: if_splits)

lemma leadingFraction_shorter [go_len]: "leadingFraction x scale b s = (v, w, t) \<Longrightarrow> length t \<le> length s"
  by (induction x scale b s rule: leadingFraction.induct) (auto simp: Let_def split: if_splits)

lemma dropWhile_shorter: "takeWhile P s \<noteq> [] \<Longrightarrow> length (dropWhile P s) < length s"
  by (cases s) (auto simp: less_Suc_eq_le length_dropWhile_le split: if_splits)

lemma duration_part_shorter [go_len]:
  assumes "duration_part s = Some (v, t)"
  shows "length t < length s"
proof -
  from assms obtain w s1 where i: "leadingInt 0 s = Some (w, s1)"
    by (auto simp: duration_part_def split: list.splits if_splits option.splits prod.splits)
  obtain f scale s2 where fr: "(if take 1 s1 = ''.'' then leadingFraction 0 1 False (drop 1 s1) else (0, 1, s1)) = (f, scale, s2)"
    by (metis prod_cases3)
  have "length s2 \<le> length s1"
    using fr leadingFraction_shorter [of 0 1 False "drop 1 s1" f scale s2] by (auto split: if_splits)
  moreover have "t = dropWhile (\<lambda>c. \<not> number_char c) s2 \<and> takeWhile (\<lambda>c. \<not> number_char c) s2 \<noteq> []"
    using assms i fr by (auto simp: duration_part_def Let_def split: list.splits if_splits option.splits)
  ultimately show ?thesis
    using leadingInt_shorter [OF i] dropWhile_shorter [of "\<lambda>c. \<not> number_char c" s2] by auto
qed

function duration_parts :: "int \<Rightarrow> string \<Rightarrow> int option" where
  "duration_parts d s = (if s = [] then Some d
     else (case duration_part s of None \<Rightarrow> None
       | Some (v, rest) \<Rightarrow>
           (let d = (d + v) mod 2 ^ 64 in if d > 2 ^ 63 then None else duration_parts d rest)))"
  by pat_completeness auto
termination
  by (relation "measure (\<lambda>(d, s). length s)") (auto dest: duration_part_shorter)

declare duration_parts.simps [simp del]

definition ParseDuration :: "string \<Rightarrow> int option" where
  "ParseDuration s =
     (let neg = (take 1 s = ''-''); s = (if take 1 s = ''-'' \<or> take 1 s = ''+'' then drop 1 s else s) in
      if s = ''0'' then Some 0
      else if s = [] then None
      else (case duration_parts 0 s of None \<Rightarrow> None
        | Some d \<Rightarrow> if neg then Some (- d) else if d > 2 ^ 63 - 1 then None else Some d))"

section \<open>The configuration\<close>

record Shard =
  sh_DSN :: string

record Config =
  cf_MaxProcs :: int
  cf_ListenAddress :: string
  cf_StatusAddress :: string
  cf_Profiling :: bool
  cf_NestEndpoint :: string
  cf_RegistryKey :: string
  cf_TopologyKey :: string
  cf_SequenceKey :: string
  cf_LogFile :: string
  cf_TwoPhaseCommit :: "bool option"
  cf_LockTimeout :: string
  cf_PhysicalShards :: "(string, Shard) gomap"
  cf_MaxConnections :: int
  cf_UnshardedMode :: string
  cf_PrimaryBurrow :: string

datatype config_error =
    CannotRead
  | CannotParse
  | ListenAddressRequired
  | NegativeMaxProcs
  | BadLockTimeout
  | NoBurrow
  | NegativeMaxConnections
  | BurrowWithoutDSN string
  | BadUnshardedMode
  | PrimaryNotConfigured string

definition DefaultStatusAddress :: string where
  "DefaultStatusAddress = ''127.0.0.1:8080''"

definition DefaultBackendPoolMaxConnections :: int where
  "DefaultBackendPoolMaxConnections = 8"

definition DefaultRuntimeMaxProcs :: int where
  "DefaultRuntimeMaxProcs = 4"

definition DefaultTransactionLockTimeout :: string where
  "DefaultTransactionLockTimeout = ''1s''"

definition DefaultTopologyKey :: string where
  "DefaultTopologyKey = ''/hamstergres/topology/v1''"

definition TwoPhaseCommitEnabled :: "Config \<Rightarrow> bool" where
  "TwoPhaseCommitEnabled c = (cf_TwoPhaseCommit c = None \<or> cf_TwoPhaseCommit c = Some True)"

definition ShardNames :: "Config \<Rightarrow> string list" where
  "ShardNames c = sort (keys (cf_PhysicalShards c))"

definition or_default :: "string \<Rightarrow> string \<Rightarrow> string" where
  "or_default s d = (if s = [] then d else s)"

text \<open>
  The body of \<^verbatim>\<open>Load\<close> after the file is decoded, check by check.  The map of Burrows is visited in an
  unspecified order, which decides only which Burrow the error names.
\<close>

definition load_unsharded :: "Config \<Rightarrow> config_error + Config" where
  "load_unsharded cfg =
     (let cfg = cfg\<lparr>cf_UnshardedMode := or_default (cf_UnshardedMode cfg) ''primary''\<rparr> in
      if cf_UnshardedMode cfg \<noteq> ''primary'' \<and> cf_UnshardedMode cfg \<noteq> ''replicated'' then Inl BadUnshardedMode
      else if cf_UnshardedMode cfg = ''primary''
      then let cfg = cfg\<lparr>cf_PrimaryBurrow := or_default (cf_PrimaryBurrow cfg) (hd (ShardNames cfg))\<rparr> in
        if map_of (cf_PhysicalShards cfg) (cf_PrimaryBurrow cfg) = None then Inl (PrimaryNotConfigured (cf_PrimaryBurrow cfg))
        else Inr cfg
      else Inr cfg)"

definition load_sharding :: "Config \<Rightarrow> config_error + Config" where
  "load_sharding cfg =
     (if cf_PhysicalShards cfg = [] then Inl NoBurrow
      else if cf_MaxConnections cfg < 0 then Inl NegativeMaxConnections
      else let cfg = (if cf_MaxConnections cfg = 0 then cfg\<lparr>cf_MaxConnections := DefaultBackendPoolMaxConnections\<rparr> else cfg) in
        case find (\<lambda>(name, shard). sh_DSN shard = []) (cf_PhysicalShards cfg) of
          Some (name, _) \<Rightarrow> Inl (BurrowWithoutDSN name)
        | None \<Rightarrow> load_unsharded cfg)"

definition load_checked :: "Config \<Rightarrow> config_error + Config" where
  "load_checked cfg =
     (if cf_ListenAddress cfg = [] then Inl ListenAddressRequired
      else let cfg = cfg\<lparr>cf_StatusAddress := or_default (cf_StatusAddress cfg) DefaultStatusAddress\<rparr> in
      if cf_MaxProcs cfg < 0 then Inl NegativeMaxProcs
      else let cfg = cfg\<lparr>cf_LockTimeout := or_default (cf_LockTimeout cfg) DefaultTransactionLockTimeout\<rparr> in
      if (case ParseDuration (cf_LockTimeout cfg) of None \<Rightarrow> True | Some lockTimeout \<Rightarrow> lockTimeout \<le> 0) then Inl BadLockTimeout
      else let cfg = cfg\<lparr>cf_RegistryKey := or_default (cf_RegistryKey cfg) ''/hamstergres/schema-registry/v3'',
          cf_TopologyKey := or_default (cf_TopologyKey cfg) DefaultTopologyKey,
          cf_SequenceKey := or_default (cf_SequenceKey cfg) ''/hamstergres/sequences/global-id/v1''\<rparr>
      in load_sharding cfg)"

definition Load :: "(string \<Rightarrow> bytes option) \<Rightarrow> (bytes \<Rightarrow> Config option) \<Rightarrow> string \<Rightarrow> config_error + Config" where
  "Load read_file unmarshal path = (case read_file path of None \<Rightarrow> Inl CannotRead
     | Some contents \<Rightarrow> (case unmarshal contents of None \<Rightarrow> Inl CannotParse | Some cfg \<Rightarrow> load_checked cfg))"

definition TransactionLockTimeout :: "Config \<Rightarrow> string" where
  "TransactionLockTimeout c = (if cf_LockTimeout c = [] then DefaultTransactionLockTimeout else cf_LockTimeout c)"

text \<open>\<open>configured\<close>: whether the environment sets GOMAXPROCS.  Zero leaves the scheduler as it is.\<close>

definition RuntimeMaxProcs :: "bool \<Rightarrow> Config \<Rightarrow> int" where
  "RuntimeMaxProcs configured c = (if cf_MaxProcs c > 0 then cf_MaxProcs c else if configured then 0 else DefaultRuntimeMaxProcs)"

definition BackendPoolMaxConnections :: "Config \<Rightarrow> int" where
  "BackendPoolMaxConnections c = (if cf_MaxConnections c > 0 then cf_MaxConnections c else DefaultBackendPoolMaxConnections)"

section \<open>What a loaded configuration promises\<close>

definition positive_duration :: "string \<Rightarrow> bool" where
  "positive_duration s = (case ParseDuration s of None \<Rightarrow> False | Some d \<Rightarrow> 0 < d)"

definition config_ok :: "Config \<Rightarrow> bool" where
  "config_ok c = (cf_ListenAddress c \<noteq> [] \<and> cf_StatusAddress c \<noteq> [] \<and> 0 \<le> cf_MaxProcs c
     \<and> positive_duration (cf_LockTimeout c)
     \<and> cf_RegistryKey c \<noteq> [] \<and> cf_TopologyKey c \<noteq> [] \<and> cf_SequenceKey c \<noteq> []
     \<and> cf_PhysicalShards c \<noteq> [] \<and> 0 < cf_MaxConnections c
     \<and> list_all (\<lambda>(name, shard). sh_DSN shard \<noteq> []) (cf_PhysicalShards c)
     \<and> (cf_UnshardedMode c = ''replicated''
        \<or> cf_UnshardedMode c = ''primary'' \<and> cf_PrimaryBurrow c \<in> set (ShardNames c)))"

lemma or_default_simps [simp]: "or_default [] d = d" "s \<noteq> [] \<Longrightarrow> or_default s d = s"
  "or_default s d = [] \<longleftrightarrow> s = [] \<and> d = []"
  by (simp_all add: or_default_def)

lemma or_default_idem [simp]: "or_default (or_default s d) d = or_default s d"
  by (simp add: or_default_def)

lemma find_no_dsn: "find (\<lambda>(name, shard). sh_DSN shard = []) m = None \<longleftrightarrow> list_all (\<lambda>(name, shard). sh_DSN shard \<noteq> []) m"
  by (induction m) auto

lemma lookup_ShardNames: "map_of (cf_PhysicalShards c) n = None \<longleftrightarrow> n \<notin> set (ShardNames c)"
  by (simp add: ShardNames_def map_of_eq_None_iff)

lemma ShardNames_update [simp]:
  "ShardNames (c\<lparr>cf_UnshardedMode := m\<rparr>) = ShardNames c" "ShardNames (c\<lparr>cf_PrimaryBurrow := p\<rparr>) = ShardNames c"
  "ShardNames (c\<lparr>cf_MaxConnections := n\<rparr>) = ShardNames c"
  by (simp_all add: ShardNames_def)

lemma ShardNames_hd: "cf_PhysicalShards c \<noteq> [] \<Longrightarrow> hd (ShardNames c) \<in> set (ShardNames c)"
  by (intro hd_in_set) (metis ShardNames_def length_0_conv length_map length_sort)

lemma sorted_empty_first: "[] \<in> set (ShardNames c) \<Longrightarrow> hd (ShardNames c) = []"
proof -
  assume "[] \<in> set (ShardNames c)"
  moreover have "sorted (ShardNames c)" by (simp add: ShardNames_def)
  ultimately have "hd (ShardNames c) \<le> []" by (cases "ShardNames c") auto
  then show ?thesis by simp
qed

text \<open>The mode and the primary Burrow that \<open>load_unsharded\<close> settles on.\<close>

definition final_mode :: "Config \<Rightarrow> string" where
  "final_mode c = or_default (cf_UnshardedMode c) ''primary''"

definition final_primary :: "Config \<Rightarrow> string" where
  "final_primary c = (if final_mode c = ''primary'' then or_default (cf_PrimaryBurrow c) (hd (ShardNames c)) else cf_PrimaryBurrow c)"

lemma load_unsharded_result:
  "load_unsharded c = (if final_mode c = ''replicated'' \<or> final_mode c = ''primary'' \<and> final_primary c \<in> set (ShardNames c)
     then Inr (c\<lparr>cf_UnshardedMode := final_mode c, cf_PrimaryBurrow := final_primary c\<rparr>)
     else Inl (if final_mode c = ''primary'' then PrimaryNotConfigured (final_primary c) else BadUnshardedMode))"
  by (simp add: load_unsharded_def final_mode_def final_primary_def lookup_ShardNames Let_def)

definition final_connections :: "Config \<Rightarrow> int" where
  "final_connections c = (if cf_MaxConnections c = 0 then DefaultBackendPoolMaxConnections else cf_MaxConnections c)"

lemma load_sharding_result:
  "load_sharding c = (if cf_PhysicalShards c = [] then Inl NoBurrow else if cf_MaxConnections c < 0 then Inl NegativeMaxConnections
     else case find (\<lambda>(name, shard). sh_DSN shard = []) (cf_PhysicalShards c) of Some (name, _) \<Rightarrow> Inl (BurrowWithoutDSN name)
       | None \<Rightarrow> load_unsharded (c\<lparr>cf_MaxConnections := final_connections c\<rparr>))"
  by (simp add: load_sharding_def final_connections_def Let_def cong: option.case_cong)

definition final_settings :: "Config \<Rightarrow> Config" where
  "final_settings c = c\<lparr>cf_StatusAddress := or_default (cf_StatusAddress c) DefaultStatusAddress,
     cf_LockTimeout := or_default (cf_LockTimeout c) DefaultTransactionLockTimeout,
     cf_RegistryKey := or_default (cf_RegistryKey c) ''/hamstergres/schema-registry/v3'',
     cf_TopologyKey := or_default (cf_TopologyKey c) DefaultTopologyKey,
     cf_SequenceKey := or_default (cf_SequenceKey c) ''/hamstergres/sequences/global-id/v1''\<rparr>"

definition final_config :: "Config \<Rightarrow> Config" where
  "final_config c = (let s = final_settings c; p = s\<lparr>cf_MaxConnections := final_connections s\<rparr> in
     p\<lparr>cf_UnshardedMode := final_mode p, cf_PrimaryBurrow := final_primary p\<rparr>)"

lemma load_checked_settings:
  "load_checked c = (if cf_ListenAddress c = [] then Inl ListenAddressRequired else if cf_MaxProcs c < 0 then Inl NegativeMaxProcs
     else if \<not> positive_duration (cf_LockTimeout (final_settings c)) then Inl BadLockTimeout
     else load_sharding (final_settings c))"
  by (auto simp: load_checked_def final_settings_def positive_duration_def Let_def split: option.splits)

lemmas final_defs = final_config_def final_settings_def final_mode_def final_primary_def final_connections_def
  DefaultStatusAddress_def DefaultTransactionLockTimeout_def DefaultTopologyKey_def DefaultBackendPoolMaxConnections_def

lemma load_checked_result: "load_checked c = Inr c' \<longleftrightarrow> c' = final_config c \<and> config_ok c'"
  (is "?l \<longleftrightarrow> ?r")
proof -
  let ?s = "final_settings c"
  let ?p = "?s\<lparr>cf_MaxConnections := final_connections ?s\<rparr>"
  have fc: "final_config c = ?p\<lparr>cf_UnshardedMode := final_mode ?p, cf_PrimaryBurrow := final_primary ?p\<rparr>"
    by (simp add: final_config_def Let_def)
  have same: "cf_ListenAddress ?s = cf_ListenAddress c" "cf_MaxProcs ?s = cf_MaxProcs c" "cf_StatusAddress ?s \<noteq> []"
    "cf_RegistryKey ?s \<noteq> []" "cf_TopologyKey ?s \<noteq> []" "cf_SequenceKey ?s \<noteq> []"
    by (simp_all add: final_defs)
  have conn: "0 < final_connections ?s \<longleftrightarrow> \<not> cf_MaxConnections ?s < 0"
    by (auto simp: final_connections_def DefaultBackendPoolMaxConnections_def)
  have ok: "config_ok (final_config c) \<longleftrightarrow> cf_ListenAddress c \<noteq> [] \<and> \<not> cf_MaxProcs c < 0
      \<and> positive_duration (cf_LockTimeout ?s) \<and> cf_PhysicalShards ?s \<noteq> [] \<and> \<not> cf_MaxConnections ?s < 0
      \<and> list_all (\<lambda>(name, shard). sh_DSN shard \<noteq> []) (cf_PhysicalShards ?s)
      \<and> (final_mode ?p = ''replicated'' \<or> final_mode ?p = ''primary'' \<and> final_primary ?p \<in> set (ShardNames ?p))"
    by (simp add: config_ok_def fc same conn not_less)
  show ?thesis
    unfolding load_checked_settings load_sharding_result load_unsharded_result fc [symmetric]
    by (auto simp: ok find_no_dsn [symmetric] split: if_splits option.splits)
qed

lemma positive_duration_Nil [simp]: "\<not> positive_duration []"
  by (simp add: positive_duration_def ParseDuration_def)

lemma final_config_fixed:
  assumes "config_ok c"
  shows "final_config c = c"
proof -
  have "cf_LockTimeout c \<noteq> []" using assms by (auto simp: config_ok_def)
  with assms have s: "final_settings c = c" by (simp add: config_ok_def final_settings_def)
  have "final_connections c = cf_MaxConnections c" using assms by (simp add: config_ok_def final_connections_def)
  moreover have m: "final_mode c = cf_UnshardedMode c" using assms by (auto simp: config_ok_def final_mode_def)
  moreover have "final_primary c = cf_PrimaryBurrow c"
    using assms m sorted_empty_first [of c] by (auto simp: config_ok_def final_primary_def or_default_def)
  ultimately show ?thesis by (simp add: final_config_def s Let_def)
qed

text \<open>C20. A configuration file is accepted exactly when its text with the defaults filled in is usable: an
  address to listen on, a positive lock timeout, at least one Burrow, every Burrow with a DSN, a
  positive pool size, and an existing primary Burrow in primary mode.  What is returned is that
  configuration, and validating it again changes nothing.\<close>

theorem Load_exact:
  "Load read_file unmarshal path = Inr c \<longleftrightarrow>
     (\<exists>contents raw. read_file path = Some contents \<and> unmarshal contents = Some raw \<and> c = final_config raw
        \<and> config_ok c \<and> load_checked c = Inr c)"
proof -
  have again: "load_checked c = Inr c" if "config_ok c"
    using load_checked_result [of c c] final_config_fixed [OF that] that by simp
  have result: "load_checked raw = Inr c \<longleftrightarrow> c = final_config raw \<and> config_ok c \<and> load_checked c = Inr c" for raw
    unfolding load_checked_result [of raw c] using again by blast
  show ?thesis (is "?l \<longleftrightarrow> ?r")
  proof
    assume ?l
    then obtain contents raw where "read_file path = Some contents" "unmarshal contents = Some raw" "load_checked raw = Inr c"
      by (auto simp: Load_def split: option.splits)
    with result [of raw] show ?r by blast
  next
    assume ?r
    then obtain contents raw where "read_file path = Some contents" "unmarshal contents = Some raw" "load_checked raw = Inr c"
      using result by blast
    then show ?l by (simp add: Load_def)
  qed
qed

end
