(* ===== verification/Shard_Key.thy ===== *)
theory Shard_Key
  imports Complex_Main Topology_Catalog
begin

text \<open>
  The shard-key half of \<^verbatim>\<open>internal/router/router.go\<close>: the canonical text of a key value for
  its PostgreSQL type, the FNV-1a hash of the joined tuple, and the Burrow that owns the
  resulting vshard.  Parsing and printing floating-point numbers is a parameter
  (\<open>float_text bits s\<close> is \<^verbatim>\<open>FormatFloat(ParseFloat(s, bits), 'g', -1, bits)\<close>).  Exponents and
  scales are unbounded integers; \<^verbatim>\<open>strings.Repeat\<close> is assumed to find the memory it needs,
  which bounds the exponents for which the Go code returns at all.
\<close>

unbundle bit_operations_syntax

type_synonym float_codec = "nat \<Rightarrow> string \<Rightarrow> string option"

definition VirtualShards :: int where
  "VirtualShards = 65536"

definition allDigits :: "string \<Rightarrow> bool" where
  "allDigits value = list_all is_digit value"

definition allHex :: "string \<Rightarrow> bool" where
  "allHex value = list_all (\<lambda>c. is_digit c \<or> 97 \<le> byte_val c \<and> byte_val c \<le> 102) value"

definition index_any :: "string \<Rightarrow> string \<Rightarrow> nat option" where
  "index_any s cs = (let p = takeWhile (\<lambda>c. c \<notin> set cs) s in
     if length p < length s then Some (length p) else None)"

definition trim_cutset :: "string \<Rightarrow> string \<Rightarrow> string" where
  "trim_cutset s cs = rev (dropWhile (\<lambda>c. c \<in> set cs) (rev (dropWhile (\<lambda>c. c \<in> set cs) s)))"

definition trim_right_byte :: "string \<Rightarrow> char \<Rightarrow> string" where
  "trim_right_byte s c = rev (dropWhile (\<lambda>x. x = c) (rev s))"

section \<open>Decimal numbers\<close>

text \<open>The loop that drops trailing zeros while the scale is positive.\<close>

function strip_scale :: "string \<Rightarrow> int \<Rightarrow> string \<times> int" where
  "strip_scale digits scale =
     (if scale > 0 \<and> digits \<noteq> [] \<and> last digits = CHR ''0''
      then strip_scale (butlast digits) (scale - 1) else (digits, scale))"
  by pat_completeness auto
termination
  by (relation "measure (\<lambda>(digits, scale). length digits)") auto

declare strip_scale.simps [simp del]

text \<open>Sign, whole digits, fraction digits and exponent of a decimal literal.\<close>

definition decimal_parts :: "string \<Rightarrow> (string \<times> string \<times> string \<times> int) option" where
  "decimal_parts value =
     (let value = trim_space value in
      if value = [] then None
      else
       let sign = (if value ! 0 = CHR ''-'' then ''-'' else []);
           value = (if value ! 0 = CHR ''+'' \<or> value ! 0 = CHR ''-'' then drop 1 value else value)
       in case (case index_any value ''eE'' of
            None \<Rightarrow> Some (0, value)
          | Some index \<Rightarrow> (case parse_int64 (drop (index + 1) value) of
                None \<Rightarrow> None
              | Some parsed \<Rightarrow> Some (parsed, take index value))) of
         None \<Rightarrow> None
       | Some (exponent, value) \<Rightarrow>
      (case (case index_byte value CHR ''.'' of
            None \<Rightarrow> Some (value, [])
          | Some index \<Rightarrow>
              if index_byte (drop (index + 1) value) CHR ''.'' \<noteq> None then None
              else Some (take index value, drop (index + 1) value)) of
         None \<Rightarrow> None
       | Some (whole, fraction) \<Rightarrow>
           if whole = [] \<and> fraction = [] \<or> \<not> allDigits whole \<or> \<not> allDigits fraction then None
           else Some (sign, whole, fraction, exponent)))"

definition place_point :: "string \<Rightarrow> int \<Rightarrow> string" where
  "place_point digits scale =
     (if scale \<le> 0 then digits @ replicate (nat (- scale)) CHR ''0''
      else if scale \<ge> int (length digits)
      then ''0.'' @ replicate (nat (scale - int (length digits))) CHR ''0'' @ digits
      else take (nat (int (length digits) - scale)) digits @ ''.''
             @ drop (nat (int (length digits) - scale)) digits)"

definition canonicalDecimal :: "string \<Rightarrow> string option" where
  "canonicalDecimal value = (case decimal_parts value of None \<Rightarrow> None
     | Some (sign, whole, fraction, exponent) \<Rightarrow>
        (let digits = dropWhile (\<lambda>c. c = CHR ''0'') (whole @ fraction) in
         if digits = [] then Some ''0''
         else
          let (digits, scale) = strip_scale digits (int (length fraction) - exponent)
          in Some (sign @ place_point digits scale)))"

section \<open>Scalars\<close>

definition integer_types :: "string list" where
  "integer_types = [''int2'', ''smallint'', ''smallserial'', ''serial2'', ''int4'', ''int'', ''integer'',
     ''serial'', ''serial4'', ''int8'', ''bigint'', ''bigserial'', ''serial8'', ''oid'']"

definition type_key :: "string \<Rightarrow> string" where
  "type_key dataType =
     (let typeKey = trim_prefix (to_lower (trim_space dataType)) ''pg_catalog.'' in
      case index_byte typeKey CHR ''('' of None \<Rightarrow> typeKey
      | Some index \<Rightarrow> trim_space (take index typeKey))"

definition canonicalBool :: "string \<Rightarrow> string option" where
  "canonicalBool value =
     (let v = to_lower (trim_space value) in
      if v \<in> set [''true'', ''t'', ''yes'', ''y'', ''on'', ''1''] then Some ''true''
      else if v \<in> set [''false'', ''f'', ''no'', ''n'', ''off'', ''0''] then Some ''false''
      else None)"

definition canonicalUUID :: "string \<Rightarrow> string option" where
  "canonicalUUID value =
     (let compact = filter (\<lambda>c. c \<noteq> CHR ''-'') (to_lower (trim_cutset (trim_space value) ''{}'')) in
      if length compact \<noteq> 32 \<or> \<not> allHex compact then None
      else Some (take 8 compact @ ''-'' @ take 4 (drop 8 compact) @ ''-'' @ take 4 (drop 12 compact)
             @ ''-'' @ take 4 (drop 16 compact) @ ''-'' @ drop 20 compact))"

definition canonicalScalar :: "float_codec \<Rightarrow> string \<Rightarrow> string \<Rightarrow> string option" where
  "canonicalScalar float_text value dataType =
     (if dataType = [] then Some value
      else let typeKey = type_key dataType in
        if typeKey \<in> set integer_types
        then map_option show_int (big_set_string (trim_space value))
        else if typeKey \<in> set [''numeric'', ''decimal''] then canonicalDecimal value
        else if typeKey \<in> set [''float4'', ''real''] then float_text 32 (trim_space value)
        else if typeKey \<in> set [''float8'', ''double precision''] then float_text 64 (trim_space value)
        else if typeKey \<in> set [''bool'', ''boolean''] then canonicalBool value
        else if typeKey = ''uuid'' then canonicalUUID value
        else if typeKey \<in> set [''text'', ''varchar'', ''character varying'', ''name''] then Some value
        else if typeKey \<in> set [''bpchar'', ''char'', ''character'']
        then Some (trim_right_byte value CHR '' '')
        else None)"

section \<open>Hash and owner\<close>

definition HashKey :: "string \<Rightarrow> 64 word" where
  "HashKey key = foldl (\<lambda>hash c. (hash XOR word_of_nat (byte_val c)) * 1099511628211)
     14695981039346656037 key"

definition BurrowForKey :: "string \<Rightarrow> string list \<Rightarrow> string" where
  "BurrowForKey key burrows =
     (if length burrows = 0 then []
      else let vshard = uint (HashKey key mod 65536);
               remainder = vshard mod int (length burrows)
        in if remainder = 0 then burrows ! (length burrows - 1) else burrows ! nat (remainder - 1))"

fun canonical_tuple :: "float_codec \<Rightarrow> string list \<Rightarrow> string list \<Rightarrow> string list option" where
  "canonical_tuple float_text [] types = Some []"
| "canonical_tuple float_text (value # values) types =
     (case canonicalScalar float_text value (case types of [] \<Rightarrow> [] | ty # _ \<Rightarrow> ty) of
        None \<Rightarrow> None
      | Some canonical \<Rightarrow> map_option (\<lambda>cs. canonical # cs)
          (canonical_tuple float_text values (tl types)))"

definition TargetForTableShardKey :: "float_codec \<Rightarrow> string \<Rightarrow> string list \<Rightarrow> string list
    \<Rightarrow> registry \<Rightarrow> string list \<Rightarrow> string option" where
  "TargetForTableShardKey float_text table values types r burrows =
     (if length values = 0 \<or> length types \<noteq> 0 \<and> length values \<noteq> length types \<or> length burrows = 0
      then None
      else case canonical_tuple float_text values types of
        None \<Rightarrow> None
      | Some canonical \<Rightarrow>
          (let key = join_with [NUL] canonical;
               vshard = uint (HashKey key mod 65536)
           in if int (VShardCountFor r table) = VirtualShards
              then VShardOwnerFor r table vshard
              else if HasTopologyPlacement r then None
              else Some (BurrowForKey key burrows)))"

definition TargetForShardKey :: "float_codec \<Rightarrow> string list \<Rightarrow> string list \<Rightarrow> registry
    \<Rightarrow> string list \<Rightarrow> string option" where
  "TargetForShardKey float_text values types r burrows =
     TargetForTableShardKey float_text [] values types r burrows"

section \<open>Canonical decimals denote their value\<close>

definition dec_value :: "string \<times> string \<times> string \<times> int \<Rightarrow> rat" where
  "dec_value p = (case p of (sign, whole, fraction, exponent) \<Rightarrow>
     (if sign = ''-'' then -1 else 1) * of_nat (read_nat (whole @ fraction))
       * 10 powi (exponent - int (length fraction)))"

definition fixed :: "nat \<Rightarrow> nat \<Rightarrow> string" where
  "fixed m s = place_point (show_nat m) (int s)"

definition normal :: "nat \<Rightarrow> nat \<Rightarrow> bool" where
  "normal m s \<longleftrightarrow> m \<noteq> 0 \<and> (s = 0 \<or> \<not> 10 dvd m)"

lemma decimal_parts_shape:
  assumes "decimal_parts v = Some (sg, w, f, e)"
  shows "(sg = [] \<or> sg = ''-'') \<and> all_digits (w @ f) \<and> w @ f \<noteq> []"
  using assms
  by (auto simp: decimal_parts_def Let_def allDigits_def all_digits_def min_def split: option.splits if_splits)

lemma last_digit_zero:
  assumes "is_digit c" shows "10 dvd (10 * a + digit_val c) \<longleftrightarrow> c = CHR ''0''"
proof -
  have "10 dvd (10 * a + digit_val c) \<longleftrightarrow> digit_val c mod 10 = 0" by presburger
  also have "\<dots> \<longleftrightarrow> digit_val c = 0" using digit_val_less [OF assms] by simp
  also have "\<dots> \<longleftrightarrow> c = CHR ''0''"
    using digit_char_val [OF assms] by (metis digit_char_0 digit_val_char zero_less_numeral)
  finally show ?thesis .
qed

lemma strip_scale_spec:
  assumes "strip_scale d s = (d', s')" and "all_digits d" and "d \<noteq> []" and "hd d \<noteq> CHR ''0''"
  shows "\<exists>k. s = s' + int k \<and> d = d' @ replicate k CHR ''0'' \<and> d' \<noteq> [] \<and> (s' \<le> 0 \<or> last d' \<noteq> CHR ''0'')"
  using assms
proof (induction d s rule: strip_scale.induct)
  case (1 d s)
  show ?case
  proof (cases "s > 0 \<and> d \<noteq> [] \<and> last d = CHR ''0''")
    case True
    with 1(5) have b: "butlast d \<noteq> []" by (cases d rule: rev_cases) auto
    with True 1(4,5) have h: "hd (butlast d) \<noteq> CHR ''0''" "all_digits (butlast d)"
      using 1(3) by (cases d rule: rev_cases; auto simp: all_digits_def)+
    from True 1(2) have "strip_scale (butlast d) (s - 1) = (d', s')"
      by (simp add: strip_scale.simps [of d s])
    with 1(1) [OF True _ h(2) b h(1)] obtain k where k: "s - 1 = s' + int k"
      "butlast d = d' @ replicate k CHR ''0''" "d' \<noteq> []" "s' \<le> 0 \<or> last d' \<noteq> CHR ''0''" by blast
    then have "d = d' @ replicate (Suc k) CHR ''0''"
      using True by (metis append_assoc append_butlast_last_id replicate_append_same replicate_Suc)
    with k show ?thesis by (intro exI [of _ "Suc k"]) simp
  next
    case False
    with 1 have "d' = d" "s' = s" by (auto simp: strip_scale.simps [of d s])
    with False 1 show ?thesis by (intro exI [of _ 0]) auto
  qed
qed

lemma read_nat_zeros_right: "read_nat (d @ replicate k CHR ''0'') = read_nat d * 10 ^ k"
proof (induction k)
  case (Suc k)
  have "d @ replicate (Suc k) CHR ''0'' = (d @ replicate k CHR ''0'') @ [CHR ''0'']"
    by (simp add: replicate_append_same)
  with Suc show ?case by (simp only: read_nat_snoc) (simp add: digit_val_def)
qed simp

lemma read_nat_zeros_left: "read_nat (replicate n CHR ''0'' @ d) = read_nat d"
  by (induction n) (simp_all add: read_nat_def digit_val_def)

lemma powi_shift: "(10::rat) powi (int a - int b) = 10 ^ a / 10 ^ b"
  by (simp add: power_int_diff)

text \<open>Every literal is a normal fixed-point number, or zero.\<close>

lemma canonicalDecimal_parts:
  assumes p: "decimal_parts v = Some (sg, w, f, e)"
  shows "(read_nat (w @ f) = 0 \<and> canonicalDecimal v = Some ''0'')
    \<or> (\<exists>m s. normal m s \<and> canonicalDecimal v = Some (sg @ fixed m s)
         \<and> of_nat m / 10 ^ s = (of_nat (read_nat (w @ f)) * 10 powi (e - int (length f)) :: rat))"
proof -
  from decimal_parts_shape [OF p] have ds: "all_digits (w @ f)" by simp
  let ?d = "dropWhile (\<lambda>c. c = CHR ''0'') (w @ f)"
  have rd: "read_nat ?d = read_nat (w @ f)" by (rule read_nat_zeros)
  show ?thesis
  proof (cases "?d = []")
    case True
    with rd p show ?thesis by (simp add: canonicalDecimal_def)
  next
    case False
    have ad: "all_digits ?d" by (rule all_digits_dropWhile [OF ds])
    have hd0: "hd ?d \<noteq> CHR ''0''" using False by (rule hd_dropWhile)
    obtain d' s' where st: "strip_scale ?d (int (length f) - e) = (d', s')" by fastforce
    from strip_scale_spec [OF st ad False hd0] obtain k where k: "int (length f) - e = s' + int k"
      "?d = d' @ replicate k CHR ''0''" "d' \<noteq> []" "s' \<le> 0 \<or> last d' \<noteq> CHR ''0''" by blast
    from k ad hd0 have d': "all_digits d'" "hd d' \<noteq> CHR ''0''" by (auto simp: all_digits_def)
    have show_d: "show_nat (read_nat d') = d'" using d' k(3) by (intro show_read_nat)
    have nz: "read_nat d' \<noteq> 0" using d' show_d hd_show_nat [of "read_nat d'"] by simp
    have val: "read_nat (w @ f) = read_nat d' * 10 ^ k" using rd k(2) by (metis read_nat_zeros_right)
    have cd: "canonicalDecimal v = Some (sg @ place_point d' s')"
      using p False st by (simp add: canonicalDecimal_def del: dropWhile_eq_Nil_conv)
    have e: "e - int (length f) = - s' - int k" using k(1) by simp
    show ?thesis
    proof (cases "s' \<le> 0")
      case True
      let ?m = "read_nat d' * 10 ^ nat (- s')"
      have "all_digits (d' @ replicate (nat (- s')) CHR ''0'')"
        using d' by (auto simp: all_digits_def list_all_iff is_digit_def)
      then have "show_nat ?m = d' @ replicate (nat (- s')) CHR ''0''"
        using show_read_nat [of "d' @ replicate (nat (- s')) CHR ''0''"] d' k(3)
        by (simp add: read_nat_zeros_right)
      then have "place_point d' s' = fixed ?m 0" using True by (simp add: fixed_def place_point_def)
      moreover have "of_nat ?m / 10 ^ 0 = (of_nat (read_nat (w @ f)) * 10 powi (e - int (length f)) :: rat)"
        using True powi_shift [of "nat (- s')" k] by (simp add: val e)
      ultimately show ?thesis
        using cd nz by (intro disjI2 exI [of _ ?m] exI [of _ 0]) (simp add: normal_def)
    next
      case False
      with k(4) have "last d' \<noteq> CHR ''0''" by simp
      moreover have "is_digit (last d')" using d'(1) k(3) by (simp add: all_digits_def list_all_iff)
      moreover have "read_nat d' = 10 * read_nat (butlast d') + digit_val (last d')"
        using k(3) read_nat_snoc [of "butlast d'" "last d'"] by simp
      ultimately have "\<not> 10 dvd read_nat d'" by (metis last_digit_zero)
      moreover have "place_point d' s' = fixed (read_nat d') (nat s')" using False by (simp add: fixed_def show_d)
      moreover have "of_nat (read_nat d') / 10 ^ nat s' = (of_nat (read_nat (w @ f)) * 10 powi (e - int (length f)) :: rat)"
        using False powi_shift [of 0 "nat s' + k"] by (simp add: val e power_add)
      ultimately show ?thesis using cd nz by (auto simp: normal_def)
    qed
  qed
qed

definition unfix :: "string \<Rightarrow> nat \<times> nat" where
  "unfix t = (read_nat (filter is_digit t), length (drop 1 (dropWhile (\<lambda>c. c \<noteq> CHR ''.'') t)))"

lemma digits_no_point: "all_digits d \<Longrightarrow> dropWhile (\<lambda>c. c \<noteq> CHR ''.'') (d @ t) = dropWhile (\<lambda>c. c \<noteq> CHR ''.'') t"
  by (induction d) (auto simp: all_digits_def is_digit_def)

lemma digits_filter: "all_digits d \<Longrightarrow> filter is_digit d = d"
  by (simp add: all_digits_def list_all_iff filter_id_conv)

lemma unfix_fixed: "unfix (fixed m s) = (m, s)"
proof -
  let ?d = "show_nat m"
  have d: "all_digits ?d" by simp
  have parts: "all_digits (take n ?d)" "all_digits (drop n ?d)" "all_digits (replicate n CHR ''0'')" for n
    using d by (auto simp: all_digits_def list_all_iff is_digit_def dest: in_set_takeD in_set_dropD)
  have z: "read_nat (CHR ''0'' # replicate n CHR ''0'' @ ?d) = m" for n
    using read_nat_zeros_left [of "Suc n" ?d] by simp
  consider "s = 0" | "s > 0" "length ?d \<le> s" | "s > 0" "s < length ?d" by linarith
  then show ?thesis
  proof cases
    case 1
    then show ?thesis
      using digits_no_point [OF d, of "[]"]
      by (simp add: unfix_def fixed_def place_point_def digits_filter del: dropWhile_eq_Nil_conv)
  next
    case 2
    then show ?thesis
      using z [of "s - length ?d"]
      by (simp add: unfix_def fixed_def place_point_def digits_filter parts nat_diff_distrib' is_digit_def [of "CHR ''0''"] is_digit_def [of "CHR ''.''"])
  next
    case 3
    then have "fixed m s = take (length ?d - s) ?d @ ''.'' @ drop (length ?d - s) ?d"
      by (simp add: fixed_def place_point_def nat_diff_distrib')
    with 3 show ?thesis
      by (simp add: unfix_def digits_filter parts digits_no_point is_digit_def [of "CHR ''.''"])
  qed
qed

lemma fixed_inject: "fixed m s = fixed n t \<longleftrightarrow> m = n \<and> s = t"
  by (metis unfix_fixed prod.inject)

lemma hd_fixed: "fixed m s \<noteq> [] \<and> is_digit (hd (fixed m s))"
proof -
  have "is_digit (hd (show_nat m))"
    using all_digits_show_nat [of m] show_nat_not_Nil [of m] by (cases "show_nat m") (auto simp: all_digits_def)
  then show ?thesis
    by (auto simp: fixed_def place_point_def hd_append is_digit_def [of "CHR ''0''"] nat_diff_distrib')
qed

lemma signed_inject:
  assumes "sg = [] \<or> sg = ''-''" and "sh = [] \<or> sh = ''-''"
  shows "sg @ fixed m s = sh @ fixed n t \<longleftrightarrow> sg = sh \<and> m = n \<and> s = t"
proof -
  have ne: "CHR ''-'' # fixed m s \<noteq> fixed n t" for m s n t
    using hd_fixed [of n t] not_digit_sign by (metis list.sel(1))
  from assms show ?thesis
    by (elim disjE) (simp_all add: fixed_inject ne ne [symmetric])
qed

lemma normal_unique:
  assumes "normal m s" and "normal n t" and "(of_nat m / 10 ^ s :: rat) = of_nat n / 10 ^ t"
  shows "m = n \<and> s = t"
proof -
  from assms(3) have "(of_nat (m * 10 ^ t) :: rat) = of_nat (n * 10 ^ s)" by (simp add: field_simps)
  then have eq: "m * 10 ^ t = n * 10 ^ s" by (simp only: of_nat_eq_iff)
  have aux: False if "normal a i" "a * 10 ^ j = b * 10 ^ i" "j < i" for a b i j :: nat
  proof -
    from that(3) have "i = j + (i - j)" by simp
    then have "a * 10 ^ j = b * 10 ^ (i - j) * 10 ^ j"
      using that(2) by (metis mult.assoc mult.commute power_add)
    then have "a = b * 10 ^ (i - j)" by simp
    moreover have "(10::nat) dvd 10 ^ (i - j)" using that(3) by (simp add: dvd_power)
    ultimately have "10 dvd a" by simp
    with that show False by (auto simp: normal_def)
  qed
  have "s = t" using aux [OF assms(1) eq] aux [OF assms(2) eq [symmetric]] by (metis linorder_neqE_nat)
  with eq show ?thesis by simp
qed

lemma normal_pos: "normal m s \<Longrightarrow> (0::rat) < of_nat m / 10 ^ s"
  by (simp add: normal_def)

lemma canonicalDecimal_iff:
  assumes "decimal_parts a = Some p" and "decimal_parts b = Some q"
  shows "canonicalDecimal a = canonicalDecimal b \<longleftrightarrow> dec_value p = dec_value q"
proof -
  obtain sg w f e where p: "p = (sg, w, f, e)" by (cases p)
  obtain sh x g h where q: "q = (sh, x, g, h)" by (cases q)
  note a = assms(1) [unfolded p] and b = assms(2) [unfolded q]
  have sgn: "sg = [] \<or> sg = ''-''" "sh = [] \<or> sh = ''-''"
    using decimal_parts_shape [OF a] decimal_parts_shape [OF b] by simp_all
  have z: "sg' @ fixed m s \<noteq> ''0''" if "normal m s" "sg' = [] \<or> sg' = ''-''" for sg' m s
  proof
    assume "sg' @ fixed m s = ''0''"
    then have "sg' @ fixed m s = [] @ fixed 0 0"
      by (simp add: fixed_def place_point_def show_nat.simps [of 0])
    with signed_inject [of sg' "[]" m s 0 0] that show False by (simp add: normal_def)
  qed
  from canonicalDecimal_parts [OF a] canonicalDecimal_parts [OF b] show ?thesis
  proof (elim disjE exE conjE, goal_cases)
    case 1
    then show ?case by (simp add: p q dec_value_def)
  next
    case (2 n t)
    then have "(0::rat) < of_nat n / 10 ^ t" using normal_pos by blast
    with 2 have "read_nat (x @ g) \<noteq> 0" by (intro notI) simp
    moreover have "sh @ fixed n t \<noteq> ''0''" using 2 z sgn by blast
    ultimately show ?case using 2 by (auto simp: p q dec_value_def)
  next
    case (3 m s)
    then have "(0::rat) < of_nat m / 10 ^ s" using normal_pos by blast
    with 3 have "read_nat (w @ f) \<noteq> 0" by (intro notI) simp
    moreover have "sg @ fixed m s \<noteq> ''0''" using 3 z sgn by blast
    ultimately show ?case using 3 by (auto simp: p q dec_value_def)
  next
    case (4 m n s t)
    let ?u = "of_nat m / 10 ^ s :: rat" and ?v = "of_nat n / 10 ^ t :: rat"
    have pos: "0 < ?u" "0 < ?v" using 4 normal_pos by blast+
    have "dec_value p = (if sg = ''-'' then - ?u else ?u)" "dec_value q = (if sh = ''-'' then - ?v else ?v)"
      using 4 by (simp_all add: p q dec_value_def)
    then have "dec_value p = dec_value q \<longleftrightarrow> sg = sh \<and> ?u = ?v"
      using pos sgn by (auto split: if_splits)
    also have "?u = ?v \<longleftrightarrow> m = n \<and> s = t"
      using normal_unique [of m s n t] 4 by blast
    finally show ?case using 4 signed_inject [OF sgn] by auto
  qed
qed

section \<open>Canonical forms are fixed points\<close>

lemma index_byte_None: "index_byte s c = None \<longleftrightarrow> c \<notin> set s"
  by (induction s) auto

lemma index_byte_first: "c \<notin> set s \<Longrightarrow> index_byte (s @ c # t) c = Some (length s)"
  by (induction s) auto

lemma index_any_None: "index_any s cs = None \<longleftrightarrow> set s \<inter> set cs = {}"
proof -
  have "length (takeWhile (\<lambda>c. c \<notin> set cs) s) = length s \<longleftrightarrow> (\<forall>x \<in> set s. x \<notin> set cs)"
    by (induction s) auto
  moreover have "length (takeWhile (\<lambda>c. c \<notin> set cs) s) \<le> length s" by (rule length_takeWhile_le)
  ultimately show ?thesis by (auto simp: index_any_def Let_def)
qed

lemma decimal_parts_fixed_point:
  assumes sg: "sg = [] \<or> sg = ''-''" and w: "all_digits w" "w \<noteq> []" and f: "all_digits f"
    and v: "v = sg @ w @ (if f = [] then [] else ''.'' @ f)"
  shows "decimal_parts v = Some (sg, w, f, 0)"
proof -
  let ?t = "w @ (if f = [] then [] else ''.'' @ f)"
  have digit: "is_digit c \<Longrightarrow> byte_val c < 128 \<and> \<not> ascii_space c \<and> c \<noteq> CHR ''-'' \<and> c \<noteq> CHR ''+''
      \<and> c \<noteq> CHR ''.'' \<and> c \<noteq> CHR ''e'' \<and> c \<noteq> CHR ''E''" for c
    by (auto simp: is_digit_def ascii_space_def)
  have hw: "is_digit (hd w)" and lw: "is_digit (last w)" and lf: "f \<noteq> [] \<Longrightarrow> is_digit (last f)"
    using w f by (auto simp: all_digits_def list_all_iff)
  have m: "byte_val CHR ''-'' < 128" "\<not> ascii_space CHR ''-''" by (simp_all add: ascii_space_def)
  have ends: "byte_val (hd v) < 128" "\<not> ascii_space (hd v)" "byte_val (last v) < 128" "\<not> ascii_space (last v)"
    using sg w(2) digit [OF hw] digit [OF lw] lf digit m unfolding v by auto
  have "trim_space v = v" using w(2) v ends by (intro trim_space_ascii) simp_all
  moreover have "set ?t \<inter> set ''eE'' = {}"
    using w f digit by (auto simp: all_digits_def list_all_iff)
  then have "index_any ?t ''eE'' = None" by (simp only: index_any_None)
  moreover have "CHR ''.'' \<notin> set w" "CHR ''.'' \<notin> set f"
    using w f digit by (auto simp: all_digits_def list_all_iff)
  moreover have "?t ! 0 \<noteq> CHR ''-''" "?t ! 0 \<noteq> CHR ''+''" "?t \<noteq> []"
    using w(2) digit [OF hw] by (auto simp: hd_conv_nth nth_append)
  ultimately show ?thesis
    using sg w f unfolding decimal_parts_def v
    by (cases "f = []") (auto simp: Let_def index_byte_None [THEN iffD2] index_byte_first allDigits_def all_digits_def)
qed

lemma fixed_split:
  "\<exists>w f. fixed m s = w @ (if f = [] then [] else ''.'' @ f) \<and> all_digits w \<and> w \<noteq> [] \<and> all_digits f
     \<and> length f = s \<and> read_nat (w @ f) = m"
proof -
  let ?d = "show_nat m"
  have d: "all_digits ?d" by simp
  have parts: "all_digits (take n ?d)" "all_digits (drop n ?d)" "all_digits (replicate n CHR ''0'' @ ?d)" for n
    using d by (auto simp: all_digits_def list_all_iff is_digit_def dest: in_set_takeD in_set_dropD)
  consider "s = 0" | "s > 0" "length ?d \<le> s" | "s > 0" "s < length ?d" by linarith
  then show ?thesis
  proof cases
    case 1
    then show ?thesis by (intro exI [of _ ?d] exI [of _ "[]"]) (simp add: fixed_def place_point_def all_digits_def [of "[]"])
  next
    case 2
    let ?f = "replicate (s - length ?d) CHR ''0'' @ ?d"
    from 2 have "fixed m s = ''0'' @ ''.'' @ ?f"
      by (simp add: fixed_def place_point_def nat_diff_distrib')
    moreover have "read_nat (''0'' @ ?f) = m"
      using read_nat_zeros_left [of "Suc (s - length ?d)" ?d] by simp
    moreover have "all_digits ''0''" by (simp add: all_digits_def is_digit_def)
    ultimately show ?thesis
      using parts(3) [of "s - length ?d"] 2(2)
      by (intro exI [of _ "''0''"] exI [of _ ?f]) auto
  next
    case 3
    then have "fixed m s = take (length ?d - s) ?d @ ''.'' @ drop (length ?d - s) ?d"
      by (simp add: fixed_def place_point_def nat_diff_distrib')
    with 3 show ?thesis
      using parts
      by (intro exI [of _ "take (length ?d - s) ?d"] exI [of _ "drop (length ?d - s) ?d"]) auto
  qed
qed

lemma canonicalDecimal_idem:
  assumes "canonicalDecimal v = Some x"
  shows "canonicalDecimal x = Some x"
proof -
  from assms obtain sg w f e where p: "decimal_parts v = Some (sg, w, f, e)"
    by (auto simp: canonicalDecimal_def split: option.splits)
  from canonicalDecimal_parts [OF p] show ?thesis
  proof (elim disjE exE conjE)
    assume "canonicalDecimal v = Some ''0''"
    moreover have "canonicalDecimal ''0'' = Some ''0''" by code_simp
    ultimately show ?thesis using assms by simp
  next
    fix m s assume c: "canonicalDecimal v = Some (sg @ fixed m s)" and "normal m s"
      and val: "of_nat m / 10 ^ s = (of_nat (read_nat (w @ f)) * 10 powi (e - int (length f)) :: rat)"
    obtain w' f' where s: "fixed m s = w' @ (if f' = [] then [] else ''.'' @ f')" "all_digits w'" "w' \<noteq> []"
      "all_digits f'" "length f' = s" "read_nat (w' @ f') = m" using fixed_split by blast
    have sg: "sg = [] \<or> sg = ''-''" using decimal_parts_shape [OF p] by simp
    have x: "x = sg @ fixed m s" using c assms by simp
    have "decimal_parts x = Some (sg, w', f', 0)"
      using decimal_parts_fixed_point [OF sg s(2,3,4), of x] s(1) x by simp
    moreover have "dec_value (sg, w', f', 0) = dec_value (sg, w, f, e)"
      using val s powi_shift [of 0 s] by (simp add: dec_value_def)
    ultimately have "canonicalDecimal x = canonicalDecimal v" using canonicalDecimal_iff p by blast
    with assms show ?thesis by simp
  qed
qed

lemma to_lower_id:
  assumes "\<forall>c \<in> set s. byte_val c < 128 \<and> \<not> (65 \<le> byte_val c \<and> byte_val c \<le> 90)"
  shows "to_lower s = s"
  using assms
proof (induction s rule: to_lower.induct)
  case (2 a s)
  then have "a \<noteq> CHR 0xE2" "a \<noteq> CHR 0xC4" by auto
  with 2 show ?case by (auto simp: lower_char_def)
qed simp

definition hex_text :: "string \<Rightarrow> bool" where
  "hex_text s = list_all (\<lambda>c. is_digit c \<or> 97 \<le> byte_val c \<and> byte_val c \<le> 102 \<or> c = CHR ''-'') s"

lemma hex_text_fixed:
  assumes "hex_text s" and "s \<noteq> []"
  shows "trim_space s = s" and "trim_cutset s ''{}'' = s" and "to_lower s = s"
proof -
  have chars: "byte_val c < 128 \<and> \<not> ascii_space c \<and> c \<noteq> CHR ''{'' \<and> c \<noteq> CHR ''}''
      \<and> \<not> (65 \<le> byte_val c \<and> byte_val c \<le> 90)" if "c \<in> set s" for c
    using assms(1) that by (auto simp: hex_text_def list_all_iff is_digit_def ascii_space_def)
  show "trim_space s = s" using chars assms(2) by (intro trim_space_ascii) auto
  have id: "dropWhile (\<lambda>c. c \<in> set ''{}'') t = t" if "set t \<subseteq> set s" for t
    using chars that by (cases t) auto
  show "trim_cutset s ''{}'' = s" unfolding trim_cutset_def by (simp only: id set_rev order.refl rev_rev_ident)
  show "to_lower s = s" using chars by (intro to_lower_id) blast
qed

lemma filter_dash: "allHex s \<Longrightarrow> filter (\<lambda>c. c \<noteq> CHR ''-'') s = s"
  by (auto simp: allHex_def list_all_iff is_digit_def filter_id_conv)

lemma canonicalUUID_idem:
  assumes "canonicalUUID v = Some x"
  shows "canonicalUUID x = Some x"
proof -
  define c where "c = filter (\<lambda>c. c \<noteq> CHR ''-'') (to_lower (trim_cutset (trim_space v) ''{}''))"
  from assms have len: "length c = 32" and hex: "allHex c"
    and x: "x = take 8 c @ ''-'' @ take 4 (drop 8 c) @ ''-'' @ take 4 (drop 12 c) @ ''-''
      @ take 4 (drop 16 c) @ ''-'' @ drop 20 c"
    by (auto simp: canonicalUUID_def Let_def c_def split: if_splits)
  have sub: "allHex (take n c)" "allHex (drop n c)" "allHex (take k (drop n c))" for n k
    using hex by (auto simp: allHex_def list_all_iff dest: in_set_takeD in_set_dropD)
  have hx: "allHex s \<Longrightarrow> hex_text s" for s by (auto simp: allHex_def hex_text_def list_all_iff)
  have "hex_text x" using sub [THEN hx] by (simp add: x hex_text_def)
  then have fixed: "trim_space x = x" "trim_cutset x ''{}'' = x" "to_lower x = x"
    using hex_text_fixed [of x] x by simp_all
  have join: "take a s @ take b (drop a s) = take (a + b) s" for a b and s :: string
    by (simp add: take_add)
  have "filter (\<lambda>c. c \<noteq> CHR ''-'') x
      = take 8 c @ take 4 (drop 8 c) @ take 4 (drop 12 c) @ take 4 (drop 16 c) @ drop 20 c"
    by (simp add: x filter_dash sub)
  also have "\<dots> = c"
    using join [of 8 c 4] join [of 12 c 4] join [of 16 c 4] append_take_drop_id [of 20 c]
    by (metis append_assoc numeral_plus_numeral add_num_simps)
  finally show ?thesis using len hex x fixed by (simp add: canonicalUUID_def)
qed

definition float_idem :: "float_codec \<Rightarrow> bool" where
  "float_idem ft \<longleftrightarrow> (\<forall>bits s x. ft bits s = Some x \<longrightarrow> ft bits (trim_space x) = Some x)"

lemma canonicalBool_idem: "canonicalBool v = Some x \<Longrightarrow> canonicalBool x = Some x"
proof -
  assume "canonicalBool v = Some x"
  then have "x = ''true'' \<or> x = ''false''" by (auto simp: canonicalBool_def Let_def split: if_splits)
  moreover have "canonicalBool ''true'' = Some ''true''" "canonicalBool ''false'' = Some ''false''"
    by code_simp+
  ultimately show ?thesis by auto
qed

lemma trim_right_byte_idem: "trim_right_byte (trim_right_byte s c) c = trim_right_byte s c"
  by (simp add: trim_right_byte_def dropWhile_idem)

text \<open>
  The contract of a canonical form: what it returns is returned unchanged.  Routing applies a
  form once (COPY rows) or twice (SQL values), so both must agree.
\<close>

locale canonical_form =
  fixes canon :: "string \<Rightarrow> string option"
  assumes canon_fixed: "canon v = Some x \<Longrightarrow> canon x = Some x"
begin

lemma twice: "Option.bind (canon v) canon = canon v"
  by (cases "canon v") (auto dest: canon_fixed)

lemma range: "(\<exists>v. canon v = Some x) \<longleftrightarrow> canon x = Some x"
  using canon_fixed by blast

end

interpretation decimal: canonical_form canonicalDecimal
  by unfold_locales (rule canonicalDecimal_idem)

interpretation uuid: canonical_form canonicalUUID
  by unfold_locales (rule canonicalUUID_idem)

interpretation boolean: canonical_form canonicalBool
  by unfold_locales (rule canonicalBool_idem)

interpretation whole: canonical_form "\<lambda>v. map_option show_int (big_set_string (trim_space v))"
  by unfold_locales auto

interpretation padded: canonical_form "\<lambda>v. Some (trim_right_byte v CHR '' '')"
  by unfold_locales (auto simp: trim_right_byte_idem)

lemma canonical_form_text: "canonical_form Some" "canonical_form (\<lambda>v. None)"
  by unfold_locales auto

lemma canonical_form_float: "float_idem ft \<Longrightarrow> canonical_form (\<lambda>v. ft bits (trim_space v))"
  by unfold_locales (auto simp: float_idem_def)

lemma canonical_form_if:
  "canonical_form f \<Longrightarrow> canonical_form g \<Longrightarrow> canonical_form (\<lambda>v. if c then f v else g v)"
  by (cases c) simp_all

lemma canonicalScalar_form: "float_idem ft \<Longrightarrow> canonical_form (\<lambda>v. canonicalScalar ft v ty)"
  unfolding canonicalScalar_def Let_def
  by (intro canonical_form_if canonical_form_text canonical_form_float decimal.canonical_form_axioms
      uuid.canonical_form_axioms boolean.canonical_form_axioms whole.canonical_form_axioms
      padded.canonical_form_axioms)

lemma canonicalScalar_idem:
  "float_idem ft \<Longrightarrow> canonicalScalar ft v ty = Some x \<Longrightarrow> canonicalScalar ft x ty = Some x"
  using canonical_form.canon_fixed [OF canonicalScalar_form] by blast

section \<open>Routing a tuple\<close>

lemma canonical_tuple_length: "canonical_tuple ft vs ts = Some cs \<Longrightarrow> length cs = length vs"
  by (induction vs arbitrary: ts cs) (auto split: option.splits)

lemma canonical_tuple_idem:
  "float_idem ft \<Longrightarrow> canonical_tuple ft vs ts = Some cs \<Longrightarrow> canonical_tuple ft cs ts = Some cs"
  by (induction vs arbitrary: ts cs) (auto dest: canonicalScalar_idem split: option.splits)

lemma vshard_bound: "0 \<le> uint (HashKey k mod 65536)" "uint (HashKey k mod 65536) < 65536"
  "unat (HashKey k mod 65536) < 65536"
proof -
  have "uint (HashKey k mod 65536) = uint (HashKey k) mod 65536" by (simp add: uint_mod)
  then show "uint (HashKey k mod 65536) < 65536" by simp
  have "unat (HashKey k mod 65536) = unat (HashKey k) mod 65536" by (simp add: unat_mod)
  then show "unat (HashKey k mod 65536) < 65536" by simp
qed simp

lemma legacy_owner_BurrowForKey:
  assumes "burrows \<noteq> []" and "sorted burrows"
  shows "LegacyModuloOwners burrows 65536 ! nat (uint (HashKey k mod 65536)) = BurrowForKey k burrows"
proof -
  have "sort burrows = burrows" using assms(2) by (simp add: sorted_sort_id)
  moreover define v where "v = nat (uint (HashKey k mod 65536))"
  ultimately have "LegacyModuloOwners burrows 65536 ! v = (if v mod length burrows = 0
      then burrows ! (length burrows - 1) else burrows ! (v mod length burrows - 1))"
    using assms(1) vshard_bound(3) [of k] by (simp add: LegacyModuloOwners_def Let_def)
  also have "\<dots> = BurrowForKey k burrows"
  proof -
    have "uint (HashKey k mod 65536) mod int (length burrows) = int (v mod length burrows)"
      using vshard_bound(1) [of k] by (simp add: v_def zmod_int)
    moreover have "nat (int n - 1) = n - 1" for n by simp
    ultimately show ?thesis using assms(1) by (simp add: BurrowForKey_def Let_def del: uint_mod)
  qed
  finally show ?thesis by (simp add: v_def)
qed

lemma placed_owner:
  assumes "map_of p (CanonicalTable r t) = Some owners" and "length owners = 65536"
    and "canonical_tuple ft vs ts = Some cs" and "vs \<noteq> []" and "ts = [] \<or> length vs = length ts"
    and "burrows \<noteq> []"
  shows "TargetForTableShardKey ft t vs ts (WithTableVShards r p) burrows
    = Some (owners ! nat (uint (HashKey (join_with [NUL] cs) mod 65536)))"
proof -
  have c: "CanonicalTable (WithTableVShards r p) t = CanonicalTable r t"
    by (simp add: CanonicalTable_def WithTableVShards_def)
  have o: "TableVShardOwners (WithTableVShards r p) t = Some owners"
    using assms(1) c by (simp add: TableVShardOwners_def) (simp add: WithTableVShards_def)
  show ?thesis
    using assms(2-6) vshard_bound [of "join_with [NUL] cs"] o
    by (auto simp: TargetForTableShardKey_def VShardCountFor_def VShardOwnerFor_def Let_def VirtualShards_def)
qed

lemma placed_target:
  assumes "TargetForTableShardKey ft t vs ts (WithTableVShards r p) burrows = Some b"
    and "reg_vshards r = []"
  shows "\<exists>owners. map_of p (CanonicalTable r t) = Some owners \<and> b \<in> set owners"
proof -
  have c: "CanonicalTable (r\<lparr>reg_tableVShards := Some p\<rparr>) t = CanonicalTable r t"
    by (simp add: CanonicalTable_def)
  have "nat (uint (HashKey k mod 65536)) < length os" if "length os = 65536" for k and os :: "string list"
    using that vshard_bound [of k] by simp
  with assms show ?thesis
    by (auto simp: TargetForTableShardKey_def VShardCountFor_def VShardOwnerFor_def VShardOwner_def
        TableVShardOwners_def c Let_def VirtualShards_def WithTableVShards_def HasTopologyPlacement_def
        split: if_splits option.splits)
qed

section \<open>Properties\<close>

text \<open>C4. Two numeric literals have the same canonical text exactly when they denote the same
  rational number, whatever their signs, zeros, decimal points and exponents: equal keys are
  hashed alike and different keys are never identified.\<close>

theorem canonicalDecimal_exact:
  assumes "decimal_parts a = Some p" and "decimal_parts b = Some q"
  shows "canonicalDecimal a = canonicalDecimal b \<longleftrightarrow> dec_value p = dec_value q"
  using assms by (rule canonicalDecimal_iff)

theorem canonicalDecimal_exact_witness:
  "canonicalDecimal ''-0012.50'' = canonicalDecimal ''-.125e2''
   \<and> dec_value (''-'', ''0012'', ''50'', 0) = dec_value (''-'', [], ''125'', 2)"
proof -
  have "decimal_parts ''-0012.50'' = Some (''-'', ''0012'', ''50'', 0)"
    "decimal_parts ''-.125e2'' = Some (''-'', [], ''125'', 2)" by code_simp+
  from canonicalDecimal_exact [OF this]
  have "canonicalDecimal ''-0012.50'' = canonicalDecimal ''-.125e2''
    \<longleftrightarrow> dec_value (''-'', ''0012'', ''50'', 0) = dec_value (''-'', [], ''125'', 2)" .
  moreover have "canonicalDecimal ''-0012.50'' = canonicalDecimal ''-.125e2''" by code_simp
  ultimately show ?thesis by blast
qed

text \<open>Canonicalising a shard key twice is the same as doing it once: a SQL statement, whose
  values are canonicalised before the owner is looked up, and a COPY row, whose raw fields go
  straight to the lookup, reach the same Burrow.\<close>

theorem routing_canonical_once:
  assumes "float_idem ft" and "canonical_tuple ft vs ts = Some cs"
  shows "TargetForTableShardKey ft t cs ts r bs = TargetForTableShardKey ft t vs ts r bs"
  using assms canonical_tuple_length [OF assms(2)] canonical_tuple_idem [OF assms]
  by (simp add: TargetForTableShardKey_def)

theorem routing_canonical_once_witness:
  "TargetForTableShardKey (\<lambda>b s. None) ''public.users'' [''7'', ''12.5''] [''bigint'', ''numeric(10,2)'']
      sample_registry [''a'', ''b'']
   = TargetForTableShardKey (\<lambda>b s. None) ''public.users'' ['' +007'', ''12.50''] [''bigint'', ''numeric(10,2)'']
      sample_registry [''a'', ''b'']"
proof -
  have "float_idem (\<lambda>b s. None)" by (simp add: float_idem_def)
  moreover have "canonical_tuple (\<lambda>b s. None) ['' +007'', ''12.50''] [''bigint'', ''numeric(10,2)'']
      = Some [''7'', ''12.5'']" by code_simp
  ultimately show ?thesis by (rule routing_canonical_once)
qed

text \<open>A catalog sends keys only to Burrows it marks routable.\<close>

lemma placed_routable:
  assumes "catalog_ok c" and "map_ok (c_TableDistributions c)" and "TablePlacements c = Inr p" and "reg_vshards r = []"
    and "TargetForTableShardKey ft t vs ts (WithTableVShards r p) bs = Some b"
  shows "b \<in> set (RoutableBurrowNames c)"
proof -
  obtain os where os: "map_of p (CanonicalTable r t) = Some os" "b \<in> set os" using placed_target [OF assms(5,4)] by blast
  note look = TablePlacements_lookup [OF assms(2,3)]
  from os look obtain did where did: "map_of (c_TableDistributions c) (CanonicalTable r t) = Some did" by auto
  from assms(1) map_of_SomeD [OF did] obtain d where "d \<in> set (c_Distributions c)" "map_of (by_key d_ID (c_Distributions c)) did = Some d"
    by (rule distribution_lookup)
  with os did owner_names_routable [OF assms(1)] look show ?thesis by auto
qed

text \<open>C5. With a valid topology catalog a shard key is only ever routed to a Burrow that the
  catalog marks routable, and when the table's distribution has the full vshard space every
  key that can be canonicalised is routed.\<close>

theorem routed_to_routable:
  assumes "Validate c = None" and "map_ok (c_TableDistributions c)" and "TablePlacements c = Inr p"
    and "reg_vshards r = []" and "bs \<noteq> []"
  shows "(\<forall>b. TargetForTableShardKey ft t vs ts (WithTableVShards r p) bs = Some b
            \<longrightarrow> b \<in> set (RoutableBurrowNames c))
    \<and> (\<forall>cs d. canonical_tuple ft vs ts = Some cs \<and> vs \<noteq> [] \<and> (ts = [] \<or> length vs = length ts)
          \<and> d \<in> set (c_Distributions c) \<and> d_VShardCount d = 65536
          \<and> map_of (c_TableDistributions c) (CanonicalTable r t) = Some (d_ID d)
        \<longrightarrow> (\<exists>b. TargetForTableShardKey ft t vs ts (WithTableVShards r p) bs = Some b))"
proof (intro conjI allI impI)
  from assms(1) have ok: "catalog_ok c" by (simp add: Validate_None)
  note look = TablePlacements_lookup [OF assms(2,3)]
  show "b \<in> set (RoutableBurrowNames c)" if "TargetForTableShardKey ft t vs ts (WithTableVShards r p) bs = Some b" for b
    using placed_routable [OF ok assms(2,3,4) that] .
  fix cs d
  assume a: "canonical_tuple ft vs ts = Some cs \<and> vs \<noteq> [] \<and> (ts = [] \<or> length vs = length ts)
    \<and> d \<in> set (c_Distributions c) \<and> d_VShardCount d = 65536
    \<and> map_of (c_TableDistributions c) (CanonicalTable r t) = Some (d_ID d)"
  then have "map_of (by_key d_ID (c_Distributions c)) (d_ID d) = Some d" "distribution_ok (c_Burrows c) d"
    using ok by (auto simp: catalog_ok_def by_key_Some)
  with a look have "map_of p (CanonicalTable r t) = Some (owner_names c d)" by simp
  moreover have "int (length (owner_names c d)) = 65536"
    using a owner_names_length [OF \<open>distribution_ok (c_Burrows c) d\<close>] by simp
  then have "length (owner_names c d) = 65536" by simp
  ultimately have "map_of p (CanonicalTable r t) = Some (owner_names c d)"
    "length (owner_names c d) = 65536" by blast+
  from placed_owner [OF this] a assms(5)
  show "\<exists>b. TargetForTableShardKey ft t vs ts (WithTableVShards r p) bs = Some b" by blast
qed

theorem routed_to_routable_witness:
  "\<exists>p. TablePlacements sample_catalog = Inr p
     \<and> (\<forall>b. TargetForTableShardKey (\<lambda>b s. None) ''users'' [''7''] [''int8''] (WithTableVShards sample_registry p)
           [''a'', ''b''] = Some b \<longrightarrow> b \<in> {''a'', ''b''})"
proof -
  have v: "Validate sample_catalog = None" "map_ok (c_TableDistributions sample_catalog)"
    "set (RoutableBurrowNames sample_catalog) = {''a'', ''b''}" "reg_vshards sample_registry = []"
    by code_simp+
  then obtain p where p: "TablePlacements sample_catalog = Inr p"
    using TablePlacements_ok by (auto simp: Validate_None)
  from routed_to_routable [OF v(1,2) p v(4), of "[''a'', ''b'']" "\<lambda>b s. None" "''users''" "[''7'']" "[''int8'']"]
  show ?thesis using p v(3) by auto
qed

text \<open>C6. Introducing the topology catalog moves no row: for every sharded table and every key, the
  owner found through the bootstrapped catalog is the owner that modulo placement over the
  sorted Burrow names gave before.\<close>

theorem bootstrap_moves_nothing:
  assumes "Bootstrap sha url digest r configured [] now = Inr c" and "TablePlacements c = Inr p"
    and "\<not> HasTopologyPlacement r" and "reg_vshards r = []"
    and "CanonicalTable r t \<in> set (CanonicalShardedTables r)"
    and "burrows = sort (map bb_Name configured)"
  shows "TargetForTableShardKey ft t vs ts (WithTableVShards r p) burrows
    = TargetForTableShardKey ft t vs ts r burrows"
proof (cases "vs = [] \<or> ts \<noteq> [] \<and> length vs \<noteq> length ts \<or> burrows = [] \<or> canonical_tuple ft vs ts = None")
  case True
  then show ?thesis by (auto simp: TargetForTableShardKey_def)
next
  case False
  then obtain cs where cs: "canonical_tuple ft vs ts = Some cs" by auto
  let ?os = "LegacyModuloOwners (map bb_Name configured) 65536"
  let ?k = "join_with [NUL] cs"
  from assms(1) obtain d where d: "c_Distributions c = [d]" "d_ID d = BootstrapDistribution"
    and td: "c_TableDistributions c = foldl (\<lambda>m t. AList.update t BootstrapDistribution m) [] (CanonicalShardedTables r)"
    by (auto simp: Bootstrap_Inr bootstrap_catalog_def)
  have "owner_names c d = ?os"
    using Bootstrap_owner_names [OF assms(1)] d
    by (simp add: bootstrap_owners_def DefaultVShardCount_def)
  then have place: "map_of p (CanonicalTable r t) = Some ?os"
    using TablePlacements_lookup [OF _ assms(2)] assms(5) d td
    by (simp add: const_update_ok const_update_lookup by_key_def)
  have "LegacyModuloOwners burrows 65536 = ?os"
    using assms(6) by (simp add: LegacyModuloOwners_def sorted_sort_id)
  moreover have "sorted burrows" "burrows \<noteq> []" using assms(6) False by auto
  ultimately have "?os ! nat (uint (HashKey ?k mod 65536)) = BurrowForKey ?k burrows"
    using legacy_owner_BurrowForKey [of burrows ?k] by simp
  moreover have "TargetForTableShardKey ft t vs ts r burrows = Some (BurrowForKey ?k burrows)"
    using False cs assms(3,4)
    by (auto simp: TargetForTableShardKey_def VShardCountFor_def TableVShardOwners_def
        HasTopologyPlacement_def VirtualShards_def Let_def)
  moreover have "TargetForTableShardKey ft t vs ts (WithTableVShards r p) burrows
      = Some (?os ! nat (uint (HashKey ?k mod 65536)))"
    using False by (intro placed_owner [OF place _ cs]) auto
  ultimately show ?thesis by simp
qed

theorem bootstrap_moves_nothing_witness:
  "\<exists>c p. Bootstrap rev (\<lambda>dsn. None) (\<lambda>t y. ''fp'') sample_registry sample_configured [] 7 = Inr c
     \<and> TablePlacements c = Inr p
     \<and> TargetForTableShardKey (\<lambda>b s. None) ''users'' [''7''] [''int8''] (WithTableVShards sample_registry p) [''a'', ''b'']
       = TargetForTableShardKey (\<lambda>b s. None) ''users'' [''7''] [''int8''] sample_registry [''a'', ''b'']"
proof -
  have "bootstrap_ready rev (\<lambda>t y. ''fp'') sample_registry sample_configured [] 7"
    unfolding bootstrap_ready_def by (simp add: sample_configured_def) code_simp
  from Bootstrap_total [OF this] obtain c
    where c: "Bootstrap rev (\<lambda>dsn. None) (\<lambda>t y. ''fp'') sample_registry sample_configured [] 7 = Inr c" by blast
  then have "Validate c = None" by (auto simp: Bootstrap_Inr)
  then obtain p where p: "TablePlacements c = Inr p" using TablePlacements_ok by (auto simp: Validate_None)
  have "\<not> HasTopologyPlacement sample_registry" "reg_vshards sample_registry = []"
    "CanonicalTable sample_registry ''users'' \<in> set (CanonicalShardedTables sample_registry)"
    "[''a'', ''b''] = sort (map bb_Name sample_configured)" by code_simp+
  from bootstrap_moves_nothing [OF c p this] c p show ?thesis by blast
qed

end
