(* ===== verification/Backend_Manager.thy ===== *)
theory Backend_Manager
  imports Nest_Registry Nest_Topology Nest_Sequence Proxy_Config Shard_Key
begin

text \<open>
  \<^verbatim>\<open>internal/backend/backend.go\<close>, the Manager: the schema read from every Burrow, the start-up sequence that
  composes the configuration, the schema registry and the topology catalog of the Nest, and the refresh after a
  schema change.  The rows of PostgreSQL's catalog, the creation of connection pools and the Nest are
  parameters; metrics and logs are left out.
\<close>

section \<open>Whatever a program of requests is answered\<close>

primrec yields :: "('a \<Rightarrow> bool) \<Rightarrow> 'a prog \<Rightarrow> bool" where
  "yields P (Return a) = P a"
| "yields P (Ask q k) = (\<forall>x. yields P (k x))"

lemma yields_run: "yields P p \<Longrightarrow> P (fst (run http p e))"
  by (induction p arbitrary: e) (auto split: prod.split)

lemma yields_bind: "yields P p \<Longrightarrow> (\<And>a. P a \<Longrightarrow> yields Q (f a)) \<Longrightarrow> yields Q (bind p f)"
  by (induction p) auto

lemma yields_check:
  assumes "yields (\<lambda>r. \<forall>a. r = Inr a \<longrightarrow> P a) p" and "\<And>a. P a \<Longrightarrow> yields Q (f a)" and "\<And>e. Q (Inl e)"
  shows "yields Q (check p f)"
  unfolding check_def by (rule yields_bind [OF assms(1)]) (use assms(2,3) in \<open>auto split: sum.split\<close>)

lemma yields_mono: "yields P p \<Longrightarrow> (\<And>a. P a \<Longrightarrow> Q a) \<Longrightarrow> yields Q p"
  by (induction p) auto

lemma yields_any: "(\<And>a. P a) \<Longrightarrow> yields P p"
  by (induction p) auto

section \<open>The schema of one Burrow\<close>

text \<open>A row of the primary-key query; the position in the key is only used by its ORDER BY.\<close>

record primary_row =
  pr_namespace :: string
  pr_table :: string
  pr_column :: string
  pr_identity :: string
  pr_default :: string
  pr_type :: string

record key_row =
  kr_namespace :: string
  kr_table :: string
  kr_column :: string
  kr_type :: string

text \<open>The answers to the three queries; \<open>Inl\<close> is a failure to run the query or to read its rows.\<close>

record burrow_rows =
  br_primaryKeys :: "string + primary_row list"
  br_shardKeys :: "string + key_row list"
  br_tables :: "string + string list"

definition append_key :: "string \<Rightarrow> 'v \<Rightarrow> (string, 'v list) gomap \<Rightarrow> (string, 'v list) gomap" where
  "append_key k v m = AList.update k ((case map_of m k of None \<Rightarrow> [] | Some vs \<Rightarrow> vs) @ [v]) m"

definition qualified_name :: "string \<Rightarrow> string \<Rightarrow> string" where
  "qualified_name namespace table = namespace @ ''.'' @ table"

definition generated_kind :: "primary_row \<Rightarrow> string" where
  "generated_kind row = (if pr_identity row \<noteq> [] then ''identity'' else if has_prefix (pr_default row) ''nextval('' then ''sequence'' else [])"

definition add_primary :: "(string, string list) gomap \<times> (string, GeneratedPrimary) gomap \<Rightarrow> primary_row
    \<Rightarrow> (string, string list) gomap \<times> (string, GeneratedPrimary) gomap" where
  "add_primary acc row = (case acc of (primaryKeys, generated) \<Rightarrow>
     let qualified = qualified_name (pr_namespace row) (pr_table row); public = (pr_namespace row = ''public'');
         kind = generated_kind row; g = \<lparr>gp_Column = pr_column row, gp_Kind = kind\<rparr>;
         pks = append_key qualified (pr_column row) primaryKeys;
         pks' = (if public then append_key (pr_table row) (pr_column row) pks else pks) in
     if kind \<noteq> [] \<and> pr_type row \<in> set [''bigint'', ''integer'', ''smallint'']
     then (pks', let gen = AList.update qualified g generated in if public then AList.update (pr_table row) g gen else gen)
     else (pks', generated))"

definition appendShardKey :: "(string, string list) gomap \<times> (string, string list) gomap \<Rightarrow> key_row
    \<Rightarrow> (string, string list) gomap \<times> (string, string list) gomap" where
  "appendShardKey acc row = (case acc of (names, types) \<Rightarrow>
     let qualified = qualified_name (kr_namespace row) (kr_table row);
         names' = append_key qualified (kr_column row) names; types' = append_key qualified (kr_type row) types in
     if kr_namespace row = ''public'' then (append_key (kr_table row) (kr_column row) names', append_key (kr_table row) (kr_type row) types')
     else (names', types'))"

definition list_at :: "(string, 'v list) gomap \<Rightarrow> string \<Rightarrow> 'v list" where
  "list_at m k = (case map_of m k of None \<Rightarrow> [] | Some vs \<Rightarrow> vs)"

text \<open>Only a table whose whole primary key is one generated column, which is also its whole shard key, keeps its
  generated key.\<close>

definition burrow_registry :: "primary_row list \<Rightarrow> key_row list \<Rightarrow> string list \<Rightarrow> registry" where
  "burrow_registry primary shard tables =
     (let (primaryKeys, generated) = foldl add_primary ([], []) primary;
          single = filter (\<lambda>(table, g). length (list_at primaryKeys table) = 1) generated;
          (shardKeys, shardKeyTypes) = foldl appendShardKey ([], []) shard;
          kept = filter (\<lambda>(table, g). list_at shardKeys table = [gp_Column g]) single in
      WithAllTables (NewWithGeneratedAndTypes shardKeys kept shardKeyTypes) tables)"

datatype load_error = InspectBurrow string string | SchemaMismatch string schema_error

definition load_burrow :: "(string \<Rightarrow> burrow_rows) \<Rightarrow> string \<Rightarrow> load_error + registry" where
  "load_burrow pg name = (case br_primaryKeys (pg name) of Inl e \<Rightarrow> Inl (InspectBurrow name e)
     | Inr primary \<Rightarrow> (case br_shardKeys (pg name) of Inl e \<Rightarrow> Inl (InspectBurrow name e)
       | Inr shard \<Rightarrow> (case br_tables (pg name) of Inl e \<Rightarrow> Inl (InspectBurrow name e)
         | Inr tables \<Rightarrow> Inr (burrow_registry primary shard tables))))"

fun check_burrows :: "(string \<Rightarrow> burrow_rows) \<Rightarrow> registry \<Rightarrow> string list \<Rightarrow> load_error option" where
  "check_burrows pg expected [] = None"
| "check_burrows pg expected (name # names) = (case load_burrow pg name of Inl e \<Rightarrow> Some e
     | Inr r \<Rightarrow> (case Equal expected r of Some e \<Rightarrow> Some (SchemaMismatch name e) | None \<Rightarrow> check_burrows pg expected names))"

text \<open>The zero value of \<^verbatim>\<open>schema.Registry\<close>, which a Proxy without Burrows keeps.\<close>

definition no_registry :: registry where
  "no_registry = \<lparr>reg_formatVersion = 0, reg_revision = 0, reg_tables = [], reg_shardKeyTypes = [], reg_generated = [],
     reg_vshards = [], reg_tableVShards = None, reg_allTables = []\<rparr>"

definition loadSchema :: "(string \<Rightarrow> burrow_rows) \<Rightarrow> string list \<Rightarrow> load_error + registry" where
  "loadSchema pg shards = (case shards of [] \<Rightarrow> Inr no_registry
     | name # names \<Rightarrow> (case load_burrow pg name of Inl e \<Rightarrow> Inl e
       | Inr expected \<Rightarrow> (case check_burrows pg expected names of Some e \<Rightarrow> Inl e | None \<Rightarrow> Inr expected)))"

section \<open>The Manager\<close>

record manager =
  mg_shards :: "string list"
  mg_names :: "string list"
  mg_schema :: registry
  mg_nest :: bool
  mg_registryKey :: string
  mg_topologyKey :: string
  mg_sequenceKey :: string
  mg_topologyRevision :: "64 word"
  mg_unshardedMode :: string
  mg_primaryBurrow :: string

text \<open>\<open>me_open name dsn\<close> is the failure to create the pool of a Burrow, \<open>me_clock\<close> the clock of \<open>ReconcileSchema\<close>.\<close>

record manager_env =
  me_rows :: "string \<Rightarrow> burrow_rows"
  me_open :: "string \<Rightarrow> string \<Rightarrow> string option"
  me_snapshots :: snapshot_codec
  me_catalogs :: catalog_codec
  me_sha :: sha_hex
  me_url :: url_parse
  me_digest :: fingerprinter
  me_now :: int
  me_clock :: "nat \<Rightarrow> int"

datatype manager_error =
    PoolFailed string string
  | NestFailed nest_error
  | TopologyRefused topology_error
  | UnconfiguredRoutable "string list"
  | LoadFailed load_error
  | PrimaryNotRoutable string "64 word"
  | NestRequired

text \<open>The settings every pooled connection starts with, on top of those of its DSN, and the check before a connection goes
  back to its pool.\<close>

definition pool_params :: "Config \<Rightarrow> (string, string) gomap \<Rightarrow> (string, string) gomap" where
  "pool_params cfg ps = foldl (\<lambda>m (k, v). AList.update k v m) ps
     [(''DateStyle'', ''ISO, MDY''), (''IntervalStyle'', ''postgres''), (''TimeZone'', ''UTC''), (''standard_conforming_strings'', ''on''),
      (''lock_timeout'', TransactionLockTimeout cfg)]"

definition after_release :: "bool \<Rightarrow> string \<Rightarrow> bool" where
  "after_release previous standard_conforming_strings = (previous \<and> standard_conforming_strings = ''on'')"

definition configuredDSNs :: "Config \<Rightarrow> (string, string) gomap" where
  "configuredDSNs cfg = map (\<lambda>(name, shard). (name, sh_DSN shard)) (cf_PhysicalShards cfg)"

definition dsn_of :: "Config \<Rightarrow> string \<Rightarrow> string" where
  "dsn_of cfg name = (case map_of (cf_PhysicalShards cfg) name of None \<Rightarrow> [] | Some shard \<Rightarrow> sh_DSN shard)"

definition open_pools :: "manager_env \<Rightarrow> Config \<Rightarrow> manager_error option" where
  "open_pools env cfg = first_error (\<lambda>name. map_option (PoolFailed name) (me_open env name (dsn_of cfg name))) (ShardNames cfg)"

definition new_manager :: "Config \<Rightarrow> manager" where
  "new_manager cfg =
     (let names = ShardNames cfg in
      \<lparr>mg_shards = names, mg_names = names, mg_schema = no_registry, mg_nest = (cf_NestEndpoint cfg \<noteq> []),
       mg_registryKey = cf_RegistryKey cfg, mg_topologyKey = or_default (cf_TopologyKey cfg) DefaultTopologyKey,
       mg_sequenceKey = cf_SequenceKey cfg, mg_topologyRevision = 0, mg_unshardedMode = or_default (cf_UnshardedMode cfg) ''primary'',
       mg_primaryBurrow = (if cf_PrimaryBurrow cfg = [] \<and> names \<noteq> [] then hd names else cf_PrimaryBurrow cfg)\<rparr>)"

text \<open>The pools that stay open, and the names no pool was found for.\<close>

fun keep_active :: "string list \<Rightarrow> string list \<Rightarrow> string list \<times> string list" where
  "keep_active active [] = ([], active)"
| "keep_active active (burrow # burrows) =
     (if burrow \<in> set active
      then (case keep_active (removeAll burrow active) burrows of (kept, missing) \<Rightarrow> (burrow # kept, missing))
      else keep_active active burrows)"

definition retainActiveBurrows :: "string list \<Rightarrow> manager \<Rightarrow> manager_error + manager" where
  "retainActiveBurrows names m = (case keep_active names (mg_shards m) of (kept, missing) \<Rightarrow>
     if missing \<noteq> [] then Inl (UnconfiguredRoutable (sort (remdups missing))) else Inr (m\<lparr>mg_shards := kept, mg_names := names\<rparr>))"

definition admit_topology :: "manager_env \<Rightarrow> Config \<Rightarrow> Catalog \<Rightarrow> manager \<Rightarrow> manager_error + manager" where
  "admit_topology env cfg c m = (case ValidateConfigured (me_sha env) (me_url env) c (configuredDSNs cfg) of
       Some e \<Rightarrow> Inl (TopologyRefused e) | None \<Rightarrow> retainActiveBurrows (RoutableBurrowNames c) m)"

definition finish_start :: "manager \<Rightarrow> manager_error + manager" where
  "finish_start m = (if mg_unshardedMode m = ''primary'' \<and> mg_primaryBurrow m \<notin> set (mg_names m)
     then Inl (PrimaryNotRoutable (mg_primaryBurrow m) (mg_topologyRevision m)) else Inr m)"

definition nest_check :: "(nest_error + 'a) prog \<Rightarrow> ('a \<Rightarrow> (manager_error + 'b) prog) \<Rightarrow> (manager_error + 'b) prog" where
  "nest_check p f = bind p (\<lambda>r. case r of Inl e \<Rightarrow> Return (Inl (NestFailed e)) | Inr a \<Rightarrow> f a)"

text \<open>The catalog decides which Burrows take part and where the rows of every table are.\<close>

definition place_tables :: "manager_env \<Rightarrow> Config \<Rightarrow> Catalog \<Rightarrow> registry \<Rightarrow> manager \<Rightarrow> manager_error + manager" where
  "place_tables env cfg c r m = (case ValidateSchema (me_digest env) c r of Some e \<Rightarrow> Inl (TopologyRefused e)
     | None \<Rightarrow> (case admit_topology env cfg c m of Inl e \<Rightarrow> Inl e
       | Inr m1 \<Rightarrow> (case TablePlacements c of Inl e \<Rightarrow> Inl (TopologyRefused e)
         | Inr placements \<Rightarrow> Inr (m1\<lparr>mg_schema := WithTableVShards r placements, mg_topologyRevision := c_Revision c\<rparr>))))"

definition start_placed :: "manager_env \<Rightarrow> Config \<Rightarrow> VerifiedRegistry \<Rightarrow> manager \<Rightarrow> Catalog \<Rightarrow> (manager_error + manager) prog" where
  "start_placed env cfg verified m c = (case place_tables env cfg c (vr_Registry verified) m of Inl e \<Rightarrow> Return (Inl e)
     | Inr m1 \<Rightarrow>
         if vr_LegacyVShardOwners verified \<noteq> []
         then nest_check (PersistVerified (me_snapshots env) (mg_registryKey m1) (mg_schema m1)) (\<lambda>u. Return (finish_start m1))
         else Return (finish_start m1))"

definition start_nest :: "manager_env \<Rightarrow> Config \<Rightarrow> StoredTopology option \<Rightarrow> manager \<Rightarrow> (manager_error + manager) prog" where
  "start_nest env cfg found m = (case loadSchema (me_rows env) (mg_shards m) of Inl e \<Rightarrow> Return (Inl (LoadFailed e))
     | Inr live \<Rightarrow>
         nest_check (VerifyOrSeedVersioned (me_snapshots env) (mg_registryKey m) live) (\<lambda>verified.
           case found of
             Some st \<Rightarrow> start_placed env cfg verified m (sto_Catalog st)
           | None \<Rightarrow>
               (case Bootstrap (me_sha env) (me_url env) (me_digest env) (vr_Registry verified)
                       (map (\<lambda>name. \<lparr>bb_Name = name, bb_DSN = dsn_of cfg name\<rparr>) (ShardNames cfg)) (vr_LegacyVShardOwners verified) (me_now env) of
                  Inl e \<Rightarrow> Return (Inl (TopologyRefused e))
                | Inr bootstrap \<Rightarrow>
                    nest_check (VerifyOrBootstrap (me_catalogs env) (mg_topologyKey m) bootstrap)
                      (\<lambda>st. start_placed env cfg verified m (sto_Catalog st)))))"

definition New :: "manager_env \<Rightarrow> Config \<Rightarrow> (manager_error + manager) prog" where
  "New env cfg = (case open_pools env cfg of Some e \<Rightarrow> Return (Inl e)
     | None \<Rightarrow>
         (let m = new_manager cfg in
          if mg_nest m
          then nest_check (topology_Get (me_catalogs env) (mg_topologyKey m)) (\<lambda>found. case found of
              None \<Rightarrow> start_nest env cfg None m
            | Some st \<Rightarrow> (case admit_topology env cfg (sto_Catalog st) m of Inl e \<Rightarrow> Return (Inl e) | Inr m1 \<Rightarrow> start_nest env cfg (Some st) m1))
          else Return (case loadSchema (me_rows env) (mg_shards m) of Inl e \<Rightarrow> Inl (LoadFailed e)
            | Inr r \<Rightarrow> finish_start (m\<lparr>mg_schema := WithVShards r (LegacyModuloOwners (mg_names m) DefaultVShardCount)\<rparr>))))"

section \<open>Refreshing the schema and allocating keys\<close>

definition schemaUnchanged :: "registry \<Rightarrow> manager \<Rightarrow> bool" where
  "schemaUnchanged r m = (EqualSchema (mg_schema m) r = None)"

text \<open>The error, if any, and the Manager; an error leaves it as it was.\<close>

definition refreshed :: "manager_env \<Rightarrow> registry \<Rightarrow> manager \<Rightarrow> StoredTopology \<Rightarrow> manager_error option \<times> manager" where
  "refreshed env r m updated = (case ValidateSchema (me_digest env) (sto_Catalog updated) r of Some e \<Rightarrow> (Some (TopologyRefused e), m)
     | None \<Rightarrow> (case TablePlacements (sto_Catalog updated) of Inl e \<Rightarrow> (Some (TopologyRefused e), m)
       | Inr placements \<Rightarrow> (None, m\<lparr>mg_schema := WithTableVShards r placements, mg_topologyRevision := c_Revision (sto_Catalog updated)\<rparr>)))"

definition RefreshSchema :: "manager_env \<Rightarrow> manager \<Rightarrow> (manager_error option \<times> manager) prog" where
  "RefreshSchema env m = (case loadSchema (me_rows env) (mg_shards m) of Inl e \<Rightarrow> Return (Some (LoadFailed e), m)
     | Inr live \<Rightarrow>
         if schemaUnchanged live m then Return (None, m)
         else if \<not> mg_nest m
         then Return (None, m\<lparr>mg_schema := WithVShards live (LegacyModuloOwners (mg_names m) DefaultVShardCount)\<rparr>)
         else bind (ReplaceVersioned (me_snapshots env) (mg_registryKey m) live) (\<lambda>r. case r of
             Inl e \<Rightarrow> Return (Some (NestFailed e), m)
           | Inr registry \<Rightarrow>
               bind (ReconcileSchema (me_catalogs env) (mg_topologyKey m) (me_digest env) registry (me_clock env)) (\<lambda>r'. case r' of
                   Inl e \<Rightarrow> Return (Some (NestFailed e), m)
                 | Inr updated \<Rightarrow> Return (refreshed env registry m updated))))"

definition NextGlobalID :: "manager \<Rightarrow> (manager_error + int) prog" where
  "NextGlobalID m = (if \<not> mg_nest m then Return (Inl NestRequired) else nest_check (Next (mg_sequenceKey m)) (\<lambda>n. Return (Inr n)))"

record ShardingInventory =
  si_Source :: string
  si_SchemaRevision :: "64 word"
  si_TopologyRevision :: "64 word"
  si_UnshardedMode :: string
  si_PrimaryBurrow :: string
  si_VirtualShards :: nat
  si_Tables :: "TableInventory list"

definition manager_inventory :: "manager \<Rightarrow> ShardingInventory" where
  "manager_inventory m = \<lparr>si_Source = ''hamstergres-nest'', si_SchemaRevision = Revision (mg_schema m), si_TopologyRevision = mg_topologyRevision m,
     si_UnshardedMode = mg_unshardedMode m, si_PrimaryBurrow = mg_primaryBurrow m, si_VirtualShards = MaximumVShardCount (mg_schema m),
     si_Tables = Inventory (mg_schema m)\<rparr>"

section \<open>The schema of the fleet\<close>

lemma map_ok_append_key [simp]: "map_ok m \<Longrightarrow> map_ok (append_key k v m)"
  by (simp add: append_key_def)

lemma map_ok_filter [simp]: "map_ok m \<Longrightarrow> map_ok (filter P m)"
  by (simp add: map_ok_def distinct_map_filter)

lemma foldl_add_primary_ok: "map_ok (fst acc) \<Longrightarrow> map_ok (snd acc) \<Longrightarrow> map_ok (fst (foldl add_primary acc rows)) \<and> map_ok (snd (foldl add_primary acc rows))"
  by (induction rows arbitrary: acc) (auto simp: add_primary_def Let_def split: prod.split)

lemma foldl_appendShardKey_ok: "map_ok (fst acc) \<Longrightarrow> map_ok (snd acc) \<Longrightarrow> map_ok (fst (foldl appendShardKey acc rows)) \<and> map_ok (snd (foldl appendShardKey acc rows))"
  by (induction rows arbitrary: acc) (auto simp: appendShardKey_def Let_def split: prod.split)

lemma burrow_registry_ok:
  "map_ok (reg_tables (burrow_registry p k ts)) \<and> map_ok (reg_shardKeyTypes (burrow_registry p k ts)) \<and> map_ok (reg_generated (burrow_registry p k ts))"
  using foldl_add_primary_ok [of "([], [])" p] foldl_appendShardKey_ok [of "([], [])" k]
  by (auto simp: burrow_registry_def registry_defs Let_def split: prod.split)

lemma EqualSchema_refl: "map_ok (reg_tables r) \<Longrightarrow> map_ok (reg_shardKeyTypes r) \<Longrightarrow> map_ok (reg_generated r) \<Longrightarrow> EqualSchema r r = None"
  unfolding EqualSchema_def chain_None columns_error_None generated_error_None by (auto simp: map_ok_def)

lemma EqualSchema_cong:
  assumes "reg_tables r = reg_tables s" "reg_shardKeyTypes r = reg_shardKeyTypes s" "reg_generated r = reg_generated s" "reg_allTables r = reg_allTables s"
  shows "EqualSchema r = EqualSchema s"
  unfolding EqualSchema_def fun_eq_iff assms by (rule allI) (rule refl)

lemma EqualSchema_same [simp]: "EqualSchema (WithRevision r n) = EqualSchema r" "EqualSchema (WithVShards r os) = EqualSchema r"
  "EqualSchema (WithTableVShards r p) = EqualSchema r"
  by (rule EqualSchema_cong; simp add: registry_defs)+

definition shared_schema :: "(string \<Rightarrow> burrow_rows) \<Rightarrow> string list \<Rightarrow> registry \<Rightarrow> bool" where
  "shared_schema pg names r = (\<forall>b \<in> set names. \<exists>r'. load_burrow pg b = Inr r' \<and> EqualSchema r r' = None)"

lemma burrow_registry_fresh: "reg_vshards (burrow_registry p k ts) = []" "reg_tableVShards (burrow_registry p k ts) = None"
  by (simp_all add: burrow_registry_def registry_defs Let_def split: prod.split)

lemma load_burrow_fresh:
  assumes "load_burrow pg b = Inr r"
  shows "EqualSchema r r = None" "reg_vshards r = []" "reg_tableVShards r = None"
proof -
  obtain p k ts where "r = burrow_registry p k ts" using assms by (auto simp: load_burrow_def split: sum.splits)
  then show "EqualSchema r r = None" "reg_vshards r = []" "reg_tableVShards r = None"
    using burrow_registry_ok by (simp_all add: EqualSchema_refl burrow_registry_fresh)
qed

lemma check_burrows_shared: "check_burrows pg r names = None \<Longrightarrow> shared_schema pg names r"
  by (induction names) (auto simp: shared_schema_def Equal_def split: sum.splits option.splits if_splits)

lemma loadSchema_shared:
  assumes "loadSchema pg names = Inr r"
  shows "shared_schema pg names r" "reg_vshards r = []" "reg_tableVShards r = None"
  using assms check_burrows_shared load_burrow_fresh
  by (auto simp: loadSchema_def no_registry_def split: list.splits sum.splits option.splits)
    (auto simp: shared_schema_def)

section \<open>Generated keys\<close>

text \<open>The rows that describe the primary key of a table under one of its names.\<close>

definition describes :: "string \<Rightarrow> primary_row \<Rightarrow> bool" where
  "describes t row = (qualified_name (pr_namespace row) (pr_table row) = t \<or> pr_namespace row = ''public'' \<and> pr_table row = t)"

lemma list_at_append_key: "list_at (append_key k v m) t = list_at m t @ (if t = k then [v] else [])"
  by (simp add: list_at_def append_key_def update_Some_unfold update_conv' split: option.split)

lemma qualified_differs: "qualified_name namespace table \<noteq> table"
  by (simp add: qualified_name_def)

lemma list_at_add_primary:
  "list_at (fst (foldl add_primary acc rows)) t = list_at (fst acc) t @ map pr_column (filter (describes t) rows)"
proof (induction rows arbitrary: acc)
  case (Cons row rows)
  have "list_at (fst (add_primary acc row)) t = list_at (fst acc) t @ (if describes t row then [pr_column row] else [])"
    using qualified_differs [of "pr_namespace row" "pr_table row"]
    by (cases acc) (auto simp: add_primary_def Let_def list_at_append_key describes_def)
  with Cons show ?case by simp
qed simp

lemma add_primary_generated:
  assumes "map_of (snd (foldl add_primary acc rows)) t = Some g"
  shows "map_of (snd acc) t = Some g \<or> gp_Column g \<in> pr_column ` set (filter (describes t) rows)"
  using assms
proof (induction rows arbitrary: acc)
  case (Cons row rows)
  have "map_of (snd (add_primary acc row)) t = Some g \<Longrightarrow> map_of (snd acc) t = Some g \<or> describes t row \<and> gp_Column g = pr_column row"
    by (cases acc) (auto simp: add_primary_def Let_def describes_def update_conv' split: if_splits)
  with Cons show ?case by fastforce
qed simp

text \<open>A key is generated only where the generated column is everything that identifies a row: it is the table's whole
  primary key and its whole shard key.\<close>

theorem generated_key_is_whole_key:
  assumes "load_burrow pg b = Inr r" and "br_primaryKeys (pg b) = Inr rows" and "GeneratedPrimaryKey r t = Some g"
  shows "ShardKey r t = Some [gp_Column g] \<and> map pr_column (filter (describes t) rows) = [gp_Column g]"
proof -
  obtain shard ts where r: "r = burrow_registry rows shard ts" using assms(1,2) by (auto simp: load_burrow_def split: sum.splits)
  obtain pks gen where p: "foldl add_primary ([], []) rows = (pks, gen)" by fastforce
  obtain ks kts where k: "foldl appendShardKey ([], []) shard = (ks, kts)" by fastforce
  have ok: "map_ok gen" using foldl_add_primary_ok [of "([], [])" rows] p by simp
  have "map_of (filter (\<lambda>(table, g). list_at ks table = [gp_Column g]) (filter (\<lambda>(table, g). length (list_at pks table) = 1) gen)) t = Some g"
    using assms(3) r p k by (simp add: burrow_registry_def registry_defs)
  from map_of_SomeD [OF this] have g: "(t, g) \<in> set gen" "length (list_at pks t) = 1" "list_at ks t = [gp_Column g]" by auto
  then have s: "ShardKey r t = Some [gp_Column g]" using r p k by (simp add: burrow_registry_def registry_defs list_at_def split: option.splits)
  have "map_of gen t = Some g" using ok g(1) by (simp add: map_ok_def)
  then have "gp_Column g \<in> set (map pr_column (filter (describes t) rows))" using add_primary_generated [of "([], [])" rows t g] p by auto
  moreover have "map pr_column (filter (describes t) rows) = list_at pks t" using list_at_add_primary [of "([], [])" rows t] p by (simp add: list_at_def)
  moreover obtain c where "list_at pks t = [c]" using g(2) by (auto simp: length_Suc_conv)
  ultimately have "map pr_column (filter (describes t) rows) = [gp_Column g]" by (metis empty_iff list.set(1) set_ConsD)
  with s show ?thesis by blast
qed

definition sample_rows :: "string \<Rightarrow> burrow_rows" where
  "sample_rows b = \<lparr>br_primaryKeys = Inr [\<lparr>pr_namespace = ''public'', pr_table = ''users'', pr_column = ''id'', pr_identity = ''a'', pr_default = [], pr_type = ''bigint''\<rparr>],
     br_shardKeys = Inr [\<lparr>kr_namespace = ''public'', kr_table = ''users'', kr_column = ''id'', kr_type = ''bigint''\<rparr>], br_tables = Inr [''public.users'']\<rparr>"

definition sample_loaded :: registry where
  "sample_loaded = (case load_burrow sample_rows ''a'' of Inl e \<Rightarrow> no_registry | Inr r \<Rightarrow> r)"

theorem generated_key_is_whole_key_witness:
  "GeneratedPrimaryKey sample_loaded ''users'' = Some \<lparr>gp_Column = ''id'', gp_Kind = ''identity''\<rparr> \<and> ShardKey sample_loaded ''users'' = Some [''id'']"
proof -
  have l: "load_burrow sample_rows ''a'' = Inr sample_loaded" "\<exists>rows. br_primaryKeys (sample_rows ''a'') = Inr rows"
    "GeneratedPrimaryKey sample_loaded ''users'' = Some \<lparr>gp_Column = ''id'', gp_Kind = ''identity''\<rparr>"
    by (simp add: sample_loaded_def load_burrow_def sample_rows_def) (simp add: sample_rows_def, code_simp)
  with generated_key_is_whole_key [OF l(1) _ l(3)] show ?thesis by auto
qed

section \<open>Start-up and refresh\<close>

text \<open>The contract of the catalog codec: a decoded table map has distinct keys.\<close>

definition decodes_maps :: "catalog_codec \<Rightarrow> bool" where
  "decodes_maps codec = (\<forall>v c. snd codec v = Some c \<longrightarrow> map_ok (c_TableDistributions c))"

definition sound_catalog :: "Catalog \<Rightarrow> bool" where
  "sound_catalog c = (Validate c = None \<and> map_ok (c_TableDistributions c))"

lemma yields_Get:
  assumes "decodes_maps codec"
  shows "yields (\<lambda>r. \<forall>found. r = Inr found \<longrightarrow> (\<forall>st. found = Some st \<longrightarrow> sound_catalog (sto_Catalog st))) (topology_Get codec key)"
  unfolding topology_Get_def
  by (rule yields_check [where P = "\<lambda>_. True"])
    (use assms in \<open>auto simp: yields_any decodes_maps_def sound_catalog_def split: option.split list.split\<close>)

lemma yields_read_back:
  assumes "decodes_maps codec"
  shows "yields (\<lambda>r. \<forall>st. r = Inr st \<longrightarrow> sound_catalog (sto_Catalog st)) (read_back codec key missing)"
  unfolding read_back_def by (rule yields_check [OF yields_Get [OF assms]]) (auto split: option.split)

lemma yields_VerifyOrBootstrap:
  assumes "decodes_maps codec"
  shows "yields (\<lambda>r. \<forall>st. r = Inr st \<longrightarrow> sound_catalog (sto_Catalog st)) (VerifyOrBootstrap codec key c)"
  unfolding VerifyOrBootstrap_def
proof (rule yields_check [OF yields_Get [OF assms]])
  fix found :: "StoredTopology option" assume f: "\<forall>st. found = Some st \<longrightarrow> sound_catalog (sto_Catalog st)"
  have "yields (\<lambda>r. \<forall>st. r = Inr st \<longrightarrow> sound_catalog (sto_Catalog st)) (bind (compareAndSwap codec key 0 c)
      (\<lambda>r. case r of Inl e \<Rightarrow> if e \<noteq> TopologyConflict then Return (Inl e) else read_back codec key LostButNoWinner
        | Inr u \<Rightarrow> read_back codec key CreatedButMissing))"
    by (rule yields_bind [where P = "\<lambda>_. True"]) (auto simp: yields_any yields_read_back [OF assms] split: sum.split)
  with f show "yields (\<lambda>r. \<forall>st. r = Inr st \<longrightarrow> sound_catalog (sto_Catalog st))
      (case found of Some st \<Rightarrow> Return (Inr st)
       | None \<Rightarrow> (case Validate c of Some e \<Rightarrow> Return (Inl InvalidTopology)
         | None \<Rightarrow> bind (compareAndSwap codec key 0 c) (\<lambda>r. case r of Inl e \<Rightarrow> if e \<noteq> TopologyConflict then Return (Inl e)
             else read_back codec key LostButNoWinner | Inr u \<Rightarrow> read_back codec key CreatedButMissing)))"
    by (auto split: option.split)
qed simp

lemma yields_Update:
  assumes "decodes_maps codec"
  shows "yields (\<lambda>r. \<forall>st. r = Inr st \<longrightarrow> sound_catalog (sto_Catalog st)) (topology_Update codec key current c)"
  unfolding topology_Update_def
  by (auto intro!: yields_check [where P = "\<lambda>_. True"] simp: yields_any yields_read_back [OF assms] split: option.split)

lemma yields_reconcile:
  assumes "decodes_maps codec"
  shows "yields (\<lambda>r. \<forall>st. r = Inr st \<longrightarrow> sound_catalog (sto_Catalog st)) (reconcile_loop codec key digest r now n)"
proof (induction n)
  case (Suc n)
  show ?case unfolding reconcile_loop.simps
  proof (rule yields_check [where P = "\<lambda>_. True"])
    fix found :: "StoredTopology option"
    show "yields (\<lambda>r. \<forall>st. r = Inr st \<longrightarrow> sound_catalog (sto_Catalog st)) (case found of None \<Rightarrow> Return (Inl NoTopology)
        | Some current \<Rightarrow> (case cloneCatalog codec (sto_Catalog current) of Inl e \<Rightarrow> Return (Inl e)
          | Inr copy \<Rightarrow> bind (topology_Update codec key current (reconciled digest r (now n) copy)) (\<lambda>r'.
              if r' = Inl TopologyConflict then reconcile_loop codec key digest r now n else Return r')))"
      by (auto intro!: yields_bind [OF yields_Update [OF assms]] simp: Suc.IH split: option.split sum.split)
  qed (simp_all add: yields_any)
qed simp

lemma yields_VerifyOrSeed:
  "yields (\<lambda>r. \<forall>v. r = Inr v \<longrightarrow> (\<exists>n. vr_Registry v = WithRevision live n)) (VerifyOrSeedVersioned codec key live)"
  unfolding VerifyOrSeedVersioned_def
  by (rule yields_check [where P = "\<lambda>_. True"])
    (auto intro!: yields_check [where P = "\<lambda>_. True"] simp: yields_any verify_found_def Let_def split: option.split)

lemma yields_Replace:
  "yields (\<lambda>r. \<forall>v. r = Inr v \<longrightarrow> (\<exists>n. v = WithRevision live n)) (ReplaceVersioned codec key live)"
  unfolding ReplaceVersioned_def
  by (rule yields_check [where P = "\<lambda>_. True"])
    (auto intro!: yields_check [where P = "\<lambda>_. True"] simp: yields_any replace_found_def put_revision_def Let_def split: option.split)

lemma keep_active_sets:
  "keep_active active bs = (kept, missing) \<Longrightarrow> set kept = set active \<inter> set bs \<and> set missing = set active - set bs"
  by (induction bs arbitrary: active kept missing) (auto split: if_splits prod.splits)

lemma retainActive:
  assumes "retainActiveBurrows names m = Inr m'"
  shows "set (mg_shards m') = set names" "set (mg_shards m') \<subseteq> set (mg_shards m)" "mg_names m' = names"
    "mg_nest m' = mg_nest m" "mg_schema m' = mg_schema m"
  using assms keep_active_sets [of names "mg_shards m"]
  by (auto simp: retainActiveBurrows_def split: prod.splits if_splits)

text \<open>Keys are only routed to the given Burrows.\<close>

definition routes_within :: "registry \<Rightarrow> string list \<Rightarrow> bool" where
  "routes_within r names = (\<forall>ft t vs ts b. TargetForTableShardKey ft t vs ts r names = Some b \<longrightarrow> b \<in> set names)"

lemma legacy_routes_within:
  assumes "reg_tableVShards r = None"
  shows "routes_within (WithVShards r (LegacyModuloOwners names DefaultVShardCount)) names"
  unfolding routes_within_def
proof (intro allI impI)
  fix ft t vs ts b
  assume t: "TargetForTableShardKey ft t vs ts (WithVShards r (LegacyModuloOwners names DefaultVShardCount)) names = Some b"
  then have n: "names \<noteq> []" by (auto simp: TargetForTableShardKey_def)
  have "b \<in> set (LegacyModuloOwners names DefaultVShardCount)"
    using t assms vshard_bound
    by (auto simp: TargetForTableShardKey_def VShardCountFor_def VShardOwnerFor_def VShardOwner_def TableVShardOwners_def Let_def
        WithVShards_def VirtualShards_def DefaultVShardCount_def split: if_splits option.splits)
  with LegacyModuloOwners_set [OF n] show "b \<in> set names" by blast
qed

definition manager_ok :: "manager_env \<Rightarrow> manager \<Rightarrow> bool" where
  "manager_ok env m = (set (mg_shards m) = set (mg_names m) \<and> shared_schema (me_rows env) (mg_shards m) (mg_schema m)
     \<and> routes_within (mg_schema m) (mg_names m) \<and> (mg_unshardedMode m = ''primary'' \<longrightarrow> mg_primaryBurrow m \<in> set (mg_names m)))"

lemma shared_schema_mono: "shared_schema pg ns r \<Longrightarrow> set ms \<subseteq> set ns \<Longrightarrow> shared_schema pg ms r"
  by (auto simp: shared_schema_def)

lemma shared_schema_same [simp]: "shared_schema pg ns (WithRevision r n) = shared_schema pg ns r"
  "shared_schema pg ns (WithVShards r os) = shared_schema pg ns r" "shared_schema pg ns (WithTableVShards r p) = shared_schema pg ns r"
  by (simp_all add: shared_schema_def)

text \<open>What the schema, the catalog and the pools agree on before the check of the primary Burrow.\<close>

lemma place_tables_ok:
  assumes "place_tables env cfg c r m = Inr m'" and "sound_catalog c" and "reg_vshards r = []" and "shared_schema (me_rows env) (mg_shards m) r"
  shows "set (mg_shards m') = set (mg_names m') \<and> shared_schema (me_rows env) (mg_shards m') (mg_schema m') \<and> routes_within (mg_schema m') (mg_names m')"
proof -
  obtain m1 p where m1: "admit_topology env cfg c m = Inr m1" and p: "TablePlacements c = Inr p"
    and m': "m' = m1\<lparr>mg_schema := WithTableVShards r p, mg_topologyRevision := c_Revision c\<rparr>"
    using assms(1) by (auto simp: place_tables_def split: option.splits sum.splits)
  from m1 have "retainActiveBurrows (RoutableBurrowNames c) m = Inr m1" by (auto simp: admit_topology_def split: option.splits)
  note k = retainActive [OF this]
  have "routes_within (WithTableVShards r p) (RoutableBurrowNames c)"
    using assms(2) placed_routable [OF _ _ p assms(3)] by (auto simp: routes_within_def sound_catalog_def Validate_None)
  then show ?thesis using k m' shared_schema_mono [OF assms(4) k(2)] by simp
qed

lemma finish_start_ok: "finish_start m = Inr m' \<Longrightarrow> m' = m \<and> (mg_unshardedMode m = ''primary'' \<longrightarrow> mg_primaryBurrow m \<in> set (mg_names m))"
  by (auto simp: finish_start_def split: if_splits)

lemma yields_nest_check:
  assumes "yields (\<lambda>r. \<forall>a. r = Inr a \<longrightarrow> P a) p" and "\<And>a. P a \<Longrightarrow> yields Q (f a)" and "\<And>e. Q (Inl e)"
  shows "yields Q (nest_check p f)"
  unfolding nest_check_def by (rule yields_bind [OF assms(1)]) (use assms(2,3) in \<open>auto split: sum.split\<close>)

abbreviation started_ok :: "manager_env \<Rightarrow> manager_error + manager \<Rightarrow> bool" where
  "started_ok env r \<equiv> \<forall>m. r = Inr m \<longrightarrow> manager_ok env m"

lemma yields_start_placed:
  assumes "sound_catalog c" and "vr_Registry v = WithRevision live n" and "reg_vshards live = []"
    and "shared_schema (me_rows env) (mg_shards m) live"
  shows "yields (started_ok env) (start_placed env cfg v m c)"
proof (cases "place_tables env cfg c (vr_Registry v) m")
  case (Inl e)
  then show ?thesis by (simp add: start_placed_def)
next
  case (Inr m1)
  have "reg_vshards (vr_Registry v) = []" "shared_schema (me_rows env) (mg_shards m) (vr_Registry v)"
    using assms(2-4) by (simp_all add: WithRevision_def [of live]) (simp add: WithRevision_def [symmetric])
  note placed = place_tables_ok [OF Inr assms(1) this]
  have fin: "started_ok env (finish_start m1)" using placed by (auto simp: manager_ok_def dest!: finish_start_ok)
  have "yields (started_ok env) (nest_check (PersistVerified (me_snapshots env) (mg_registryKey m1) (mg_schema m1)) (\<lambda>u. Return (finish_start m1)))"
    by (rule yields_nest_check [where P = "\<lambda>_. True"]) (use fin in \<open>auto simp: yields_any\<close>)
  with fin Inr show ?thesis by (simp add: start_placed_def)
qed

lemma yields_start_nest:
  assumes "decodes_maps (me_catalogs env)" and "\<And>st. found = Some st \<Longrightarrow> sound_catalog (sto_Catalog st)"
  shows "yields (started_ok env) (start_nest env cfg found m)"
proof (cases "loadSchema (me_rows env) (mg_shards m)")
  case (Inl e)
  then show ?thesis by (simp add: start_nest_def)
next
  case (Inr live)
  note live = loadSchema_shared [OF Inr]
  have placed: "yields (started_ok env) (start_placed env cfg v m (sto_Catalog st))"
    if "\<exists>n. vr_Registry v = WithRevision live n" "sound_catalog (sto_Catalog st)" for v st
    using that yields_start_placed [OF that(2) _ live(2,1)] by blast
  have boot: "yields (started_ok env) (nest_check (VerifyOrBootstrap (me_catalogs env) (mg_topologyKey m) c) (\<lambda>st. start_placed env cfg v m (sto_Catalog st)))"
    if "\<exists>n. vr_Registry v = WithRevision live n" for v c
    by (rule yields_nest_check [OF yields_VerifyOrBootstrap [OF assms(1)]]) (use placed [OF that] in auto)
  show ?thesis unfolding start_nest_def Inr sum.case
    by (rule yields_nest_check [OF yields_VerifyOrSeed]) (use assms(2) placed boot in \<open>auto split: option.split sum.split\<close>)
qed

lemma yields_New:
  assumes "decodes_maps (me_catalogs env)"
  shows "yields (started_ok env) (New env cfg)"
proof (cases "open_pools env cfg")
  case None
  let ?m = "new_manager cfg"
  have nest: "yields (started_ok env) (nest_check (topology_Get (me_catalogs env) (mg_topologyKey ?m)) (\<lambda>found. case found of
      None \<Rightarrow> start_nest env cfg None ?m
    | Some st \<Rightarrow> (case admit_topology env cfg (sto_Catalog st) ?m of Inl e \<Rightarrow> Return (Inl e) | Inr m1 \<Rightarrow> start_nest env cfg (Some st) m1)))"
    by (rule yields_nest_check [OF yields_Get [OF assms]]) (use yields_start_nest [OF assms] in \<open>auto split: option.split sum.split\<close>)
  have plain: "manager_ok env m" if r: "loadSchema (me_rows env) (mg_shards ?m) = Inr r"
    and m: "finish_start (?m\<lparr>mg_schema := WithVShards r (LegacyModuloOwners (mg_names ?m) DefaultVShardCount)\<rparr>) = Inr m" for r m
    using finish_start_ok [OF m] loadSchema_shared [OF r] legacy_routes_within [of r "mg_names ?m"]
    by (auto simp: manager_ok_def new_manager_def Let_def)
  show ?thesis using None nest plain by (auto simp: New_def Let_def split: sum.split)
qed (simp add: New_def)

text \<open>C34. A Proxy that starts is consistent, whatever the Nest answers: there is a pool for exactly the Burrows it routes to,
  every one of them has the schema the router uses, no key is routed anywhere else, and the primary of the unsharded
  tables is among them.\<close>

theorem start_consistent:
  assumes "decodes_maps (me_catalogs env)" and "fst (run http (New env cfg) e) = Inr m"
  shows "set (mg_shards m) = set (mg_names m)
    \<and> (\<forall>b \<in> set (mg_shards m). \<exists>r. load_burrow (me_rows env) b = Inr r \<and> EqualSchema (mg_schema m) r = None)
    \<and> (\<forall>ft t vs ts b. TargetForTableShardKey ft t vs ts (mg_schema m) (mg_names m) = Some b \<longrightarrow> b \<in> set (mg_names m))
    \<and> (mg_unshardedMode m = ''primary'' \<longrightarrow> mg_primaryBurrow m \<in> set (mg_names m))"
  using yields_run [OF yields_New [OF assms(1)], of http cfg e] assms(2)
  by (auto simp: manager_ok_def routes_within_def shared_schema_def)

text \<open>A Nest that holds the catalog of two Burrows and the snapshot of their schema, and the configuration they were started with.\<close>

definition sample_env :: manager_env where
  "sample_env = \<lparr>me_rows = sample_rows, me_open = (\<lambda>name dsn. None),
     me_snapshots = (\<lambda>s. [], \<lambda>v. Some (Snapshot (WithRevision sample_loaded 3))), me_catalogs = (\<lambda>c. [], \<lambda>v. Some sample_catalog),
     me_sha = rev, me_url = (\<lambda>dsn. Some (dsn, ''/'')), me_digest = (\<lambda>t y. ''fp''), me_now = 7, me_clock = (\<lambda>n. 8)\<rparr>"

definition sample_nest :: "unit http" where
  "sample_nest u q = (HttpReply 200 (Some \<lparr>nb_kvs = [\<lparr>kv_value = Some [], kv_mod_revision = ''5''\<rparr>], nb_succeeded = True, nb_deleted = [], nb_revision = []\<rparr>) [], u)"

definition sample_cfg :: Config where
  "sample_cfg = \<lparr>cf_MaxProcs = 1, cf_ListenAddress = ''l'', cf_StatusAddress = ''s'', cf_Profiling = False, cf_NestEndpoint = ''n'',
     cf_RegistryKey = ''r'', cf_TopologyKey = ''t'', cf_SequenceKey = ''q'', cf_LogFile = [], cf_TwoPhaseCommit = None, cf_LockTimeout = ''1s'',
     cf_PhysicalShards = map (\<lambda>b. (bb_Name b, \<lparr>sh_DSN = bb_DSN b\<rparr>)) sample_configured, cf_MaxConnections = 4, cf_UnshardedMode = ''primary'',
     cf_PrimaryBurrow = ''a''\<rparr>"

lemma sample_env_decodes: "decodes_maps (me_catalogs sample_env)"
proof -
  have "map_ok (c_TableDistributions sample_catalog)" by code_simp
  then show ?thesis by (simp add: decodes_maps_def sample_env_def)
qed

lemma sample_start: "case fst (run sample_nest (New sample_env sample_cfg) ()) of Inl e \<Rightarrow> False | Inr m \<Rightarrow> mg_names m = [''a'', ''b'']"
  by code_simp

theorem start_consistent_witness:
  "\<exists>m. fst (run sample_nest (New sample_env sample_cfg) ()) = Inr m \<and> mg_names m = [''a'', ''b''] \<and> set (mg_shards m) = {''a'', ''b''}
     \<and> list_all (\<lambda>b. \<exists>r. load_burrow sample_rows b = Inr r \<and> EqualSchema (mg_schema m) r = None) [''a'', ''b'']"
proof -
  obtain m where m: "fst (run sample_nest (New sample_env sample_cfg) ()) = Inr m" "mg_names m = [''a'', ''b'']"
    using sample_start by (auto split: sum.splits)
  from start_consistent [OF sample_env_decodes m(1)] m show ?thesis by (auto simp: sample_env_def)
qed

lemma loadSchema_refl: "loadSchema pg names = Inr r \<Longrightarrow> EqualSchema r r = None"
  using load_burrow_fresh(1)
  by (auto simp: loadSchema_def no_registry_def EqualSchema_refl split: list.splits sum.splits option.splits)

text \<open>What a refresh leaves: an error changes nothing, and a success has the live schema in force, with an owner for every vshard of
  every sharded table.\<close>

definition refresh_ok :: "manager_env \<Rightarrow> manager \<Rightarrow> manager_error option \<times> manager \<Rightarrow> bool" where
  "refresh_ok env m r = (case r of (Some e, m') \<Rightarrow> m' = m
     | (None, m') \<Rightarrow> mg_names m' = mg_names m \<and> mg_shards m' = mg_shards m
         \<and> (\<exists>live. loadSchema (me_rows env) (mg_shards m) = Inr live \<and> EqualSchema (mg_schema m') live = None)
         \<and> (mg_nest m \<and> m' \<noteq> m \<longrightarrow> (\<exists>p. reg_tableVShards (mg_schema m') = Some p
              \<and> (\<forall>t \<in> set (CanonicalShardedTables (mg_schema m')). \<exists>owners. map_of p t = Some owners \<and> owners \<noteq> []))))"

lemma placement_total:
  assumes "sound_catalog c" and "TablePlacements c = Inr p" and "ValidateSchema digest c r = None" and "t \<in> set (CanonicalShardedTables r)"
  shows "\<exists>owners. map_of p t = Some owners \<and> owners \<noteq> []"
proof -
  have ok: "catalog_ok c" and m: "map_ok (c_TableDistributions c)" using assms(1) by (simp_all add: sound_catalog_def Validate_None)
  obtain did where did: "map_of (c_TableDistributions c) t = Some did"
    using assms(3,4) by (fastforce simp: ValidateSchema_def first_error_None split: if_splits option.splits)
  from ok map_of_SomeD [OF did] obtain d where "distribution_ok (c_Burrows c) d" "map_of (by_key d_ID (c_Distributions c)) did = Some d"
    by (rule distribution_lookup)
  with did TablePlacements_lookup [OF m assms(2)] owner_names_length show ?thesis by auto
qed

lemma CanonicalShardedTables_placed [simp]: "CanonicalShardedTables (WithTableVShards r p) = CanonicalShardedTables r"
  by (simp add: CanonicalShardedTables_def WithTableVShards_def IsSharded_def [abs_def] ShardKey_def PrimaryKey_def)

lemma refreshed_ok:
  assumes "sound_catalog (sto_Catalog updated)" and "loadSchema (me_rows env) (mg_shards m) = Inr live" and "r = WithRevision live n"
  shows "refresh_ok env m (refreshed env r m updated)"
  using assms loadSchema_refl [OF assms(2)] placement_total [OF assms(1), of _ "me_digest env" r]
  by (auto simp: refreshed_def refresh_ok_def split: option.split sum.split) (auto simp: WithTableVShards_def)

lemma yields_RefreshSchema:
  assumes "decodes_maps (me_catalogs env)"
  shows "yields (refresh_ok env m) (RefreshSchema env m)"
proof (cases "loadSchema (me_rows env) (mg_shards m)")
  case (Inr live)
  have replaced: "yields (refresh_ok env m) (bind (ReconcileSchema (me_catalogs env) (mg_topologyKey m) (me_digest env) r (me_clock env))
      (\<lambda>r'. case r' of Inl e \<Rightarrow> Return (Some (NestFailed e), m) | Inr updated \<Rightarrow> Return (refreshed env r m updated)))"
    if "r = WithRevision live n" for r n
    unfolding ReconcileSchema_def
    by (rule yields_bind [OF yields_reconcile [OF assms]]) (use refreshed_ok [OF _ Inr that] in \<open>auto simp: refresh_ok_def split: sum.split\<close>)
  have "yields (refresh_ok env m) (bind (ReplaceVersioned (me_snapshots env) (mg_registryKey m) live) (\<lambda>r. case r of
      Inl e \<Rightarrow> Return (Some (NestFailed e), m)
    | Inr registry \<Rightarrow> bind (ReconcileSchema (me_catalogs env) (mg_topologyKey m) (me_digest env) registry (me_clock env))
        (\<lambda>r'. case r' of Inl e \<Rightarrow> Return (Some (NestFailed e), m) | Inr updated \<Rightarrow> Return (refreshed env registry m updated))))"
    by (rule yields_bind [OF yields_Replace]) (use replaced in \<open>auto simp: refresh_ok_def split: sum.split\<close>)
  moreover have "refresh_ok env m (None, m)" if "schemaUnchanged live m" using that Inr by (auto simp: refresh_ok_def schemaUnchanged_def)
  moreover have "refresh_ok env m (None, m\<lparr>mg_schema := WithVShards live os\<rparr>)" if "\<not> mg_nest m" for os
    using that Inr loadSchema_refl [OF Inr] by (auto simp: refresh_ok_def)
  ultimately show ?thesis using Inr by (simp add: RefreshSchema_def)
qed (simp add: RefreshSchema_def refresh_ok_def)


text \<open>A Proxy that started before the table existed.\<close>

definition stale_manager :: manager where
  "stale_manager = \<lparr>mg_shards = [''a'', ''b''], mg_names = [''a'', ''b''], mg_schema = no_registry, mg_nest = True, mg_registryKey = ''r'',
     mg_topologyKey = ''t'', mg_sequenceKey = ''q'', mg_topologyRevision = 0, mg_unshardedMode = ''primary'', mg_primaryBurrow = ''a''\<rparr>"

lemma sample_refresh: "case fst (run sample_nest (RefreshSchema sample_env stale_manager) ()) of (err, m) \<Rightarrow> err = None \<and> reg_tables (mg_schema m) \<noteq> []"
  by code_simp


text \<open>The Burrows a Proxy routes to are only set when it starts: after a refresh the placement may name a Burrow the catalog has
  gained since, for which there is no pool.\<close>

lemma refresh_ignores_new_burrows:
  assumes "ValidateSchema (me_digest env) (sto_Catalog updated) r = None" and "TablePlacements (sto_Catalog updated) = Inr p"
  shows "\<exists>m'. refreshed env r m updated = (None, m') \<and> mg_names m' = mg_names m \<and> reg_tableVShards (mg_schema m') = Some p"
  using assms by (simp add: refreshed_def WithTableVShards_def)

text \<open>A Proxy that stops between the write of the registry and the update of the catalog leaves a catalog no Proxy starts with: start-up
  compares the fingerprints and never reconciles them.\<close>

lemma interrupted_refresh_blocks_start:
  assumes "Fingerprint (me_digest env) live \<noteq> sc_Fingerprint (c_Schema c)" and "vr_Registry v = WithRevision live n"
  shows "\<exists>err. start_placed env cfg v m c = Return (Inl (TopologyRefused err))"
  using assms by (auto simp: start_placed_def place_tables_def ValidateSchema_def Fingerprint_def WithRevision_def)

end
