(* ===== verification/Pg_Message.thy ===== *)
theory Pg_Message
  imports Go_Prelude
begin

text \<open>
  The PostgreSQL backend messages as \<^verbatim>\<open>internal/proxy/server.go\<close> reads and merges them: one
  constructor for every message type of \<^verbatim>\<open>pgproto3\<close> the Proxy distinguishes.
\<close>

record FieldDescription =
  fd_Name :: string
  fd_TableOID :: int
  fd_TableAttributeNumber :: int
  fd_DataTypeOID :: int
  fd_DataTypeSize :: int
  fd_TypeModifier :: int
  fd_Format :: int

record ErrorResponse =
  er_Severity :: string
  er_Code :: string
  er_Message :: string

datatype backend_message =
    RowDescription "FieldDescription list"
  | DataRow "bytes option list"
  | CommandComplete string
  | Error ErrorResponse
  | NoticeResponse ErrorResponse
  | ParameterStatus string string
  | NotificationResponse int string string
  | ParameterDescription "int list"
  | ReadyForQuery char
  | ParseComplete
  | BindComplete
  | CloseComplete
  | NoData
  | PortalSuspended
  | EmptyQueryResponse
  | CopyInResponse
  | CopyOutResponse
  | CopyBothResponse
  | CopyDataOut bytes
  | CopyDoneOut
  | OtherMessage string

type_synonym response = "backend_message list"

section \<open>Comparing responses\<close>

definition sameOIDs :: "int list \<Rightarrow> int list \<Rightarrow> bool" where
  "sameOIDs left right = (length left = length right \<and> list_all2 (=) left right)"

definition sameField :: "FieldDescription \<Rightarrow> FieldDescription \<Rightarrow> bool" where
  "sameField l r = (fd_Name l = fd_Name r \<and> fd_DataTypeOID l = fd_DataTypeOID r \<and> fd_DataTypeSize l = fd_DataTypeSize r
     \<and> fd_TypeModifier l = fd_TypeModifier r \<and> fd_Format l = fd_Format r)"

definition sameRowDescription :: "FieldDescription list \<Rightarrow> FieldDescription list \<Rightarrow> bool" where
  "sameRowDescription left right = (length left = length right \<and> list_all2 sameField left right)"

text \<open>\<^verbatim>\<open>reflect.TypeOf\<close>\<close>

fun message_type :: "backend_message \<Rightarrow> string" where
  "message_type (RowDescription _) = ''RowDescription''"
| "message_type (DataRow _) = ''DataRow''"
| "message_type (CommandComplete _) = ''CommandComplete''"
| "message_type (Error _) = ''ErrorResponse''"
| "message_type (NoticeResponse _) = ''NoticeResponse''"
| "message_type (ParameterStatus _ _) = ''ParameterStatus''"
| "message_type (NotificationResponse _ _ _) = ''NotificationResponse''"
| "message_type (ParameterDescription _) = ''ParameterDescription''"
| "message_type (ReadyForQuery _) = ''ReadyForQuery''"
| "message_type ParseComplete = ''ParseComplete''"
| "message_type BindComplete = ''BindComplete''"
| "message_type CloseComplete = ''CloseComplete''"
| "message_type NoData = ''NoData''"
| "message_type PortalSuspended = ''PortalSuspended''"
| "message_type EmptyQueryResponse = ''EmptyQueryResponse''"
| "message_type CopyInResponse = ''CopyInResponse''"
| "message_type CopyOutResponse = ''CopyOutResponse''"
| "message_type CopyBothResponse = ''CopyBothResponse''"
| "message_type (CopyDataOut _) = ''CopyData''"
| "message_type CopyDoneOut = ''CopyDone''"
| "message_type (OtherMessage t) = ''other:'' @ t"

fun same_message :: "backend_message \<Rightarrow> backend_message \<Rightarrow> bool" where
  "same_message (RowDescription l) m = (case m of RowDescription r \<Rightarrow> sameRowDescription l r | _ \<Rightarrow> False)"
| "same_message (ParameterDescription l) m = (case m of ParameterDescription r \<Rightarrow> sameOIDs l r | _ \<Rightarrow> False)"
| "same_message (ReadyForQuery l) m = (case m of ReadyForQuery r \<Rightarrow> l = r | _ \<Rightarrow> False)"
| "same_message l m = (message_type l = message_type m)"

definition sameProtocolMessages :: "response \<Rightarrow> response \<Rightarrow> bool" where
  "sameProtocolMessages left right = (length left = length right \<and> list_all2 same_message left right)"

definition protocolMessages :: "response \<Rightarrow> response" where
  "protocolMessages messages = filter (\<lambda>m. case m of NoticeResponse _ \<Rightarrow> False | ParameterStatus _ _ \<Rightarrow> False
     | NotificationResponse _ _ _ \<Rightarrow> False | _ \<Rightarrow> True) messages"

fun firstErrorIn :: "response \<Rightarrow> ErrorResponse option" where
  "firstErrorIn [] = None"
| "firstErrorIn (m # ms) = (case m of Error e \<Rightarrow> Some e | _ \<Rightarrow> firstErrorIn ms)"

fun firstError :: "response list \<Rightarrow> ErrorResponse option" where
  "firstError [] = None"
| "firstError (r # rs) = (case firstErrorIn r of Some e \<Rightarrow> Some e | None \<Rightarrow> firstError rs)"

section \<open>End of an exchange\<close>

definition isParseDone :: "backend_message \<Rightarrow> bool" where
  "isParseDone m = (case m of ParseComplete \<Rightarrow> True | Error _ \<Rightarrow> True | _ \<Rightarrow> False)"

definition isBindDone :: "backend_message \<Rightarrow> bool" where
  "isBindDone m = (case m of BindComplete \<Rightarrow> True | Error _ \<Rightarrow> True | _ \<Rightarrow> False)"

definition isDescribeDone :: "backend_message \<Rightarrow> bool" where
  "isDescribeDone m = (case m of RowDescription _ \<Rightarrow> True | NoData \<Rightarrow> True | Error _ \<Rightarrow> True | _ \<Rightarrow> False)"

definition isCloseDone :: "backend_message \<Rightarrow> bool" where
  "isCloseDone m = (case m of CloseComplete \<Rightarrow> True | Error _ \<Rightarrow> True | _ \<Rightarrow> False)"

definition isSyncDone :: "backend_message \<Rightarrow> bool" where
  "isSyncDone m = (case m of ReadyForQuery _ \<Rightarrow> True | _ \<Rightarrow> False)"

definition isQueryDone :: "backend_message \<Rightarrow> bool" where
  "isQueryDone m = (case m of ReadyForQuery _ \<Rightarrow> True | _ \<Rightarrow> False)"

definition isExecuteDone :: "backend_message \<Rightarrow> bool" where
  "isExecuteDone m = (case m of CommandComplete _ \<Rightarrow> True | PortalSuspended \<Rightarrow> True | EmptyQueryResponse \<Rightarrow> True
     | Error _ \<Rightarrow> True | CopyInResponse \<Rightarrow> True | _ \<Rightarrow> False)"

definition isCopyStarted :: "backend_message \<Rightarrow> bool" where
  "isCopyStarted m = (case m of CopyInResponse \<Rightarrow> True | CopyOutResponse \<Rightarrow> True | CopyBothResponse \<Rightarrow> True
     | ReadyForQuery _ \<Rightarrow> True | _ \<Rightarrow> False)"

section \<open>Replies to the client\<close>

definition sendExtendedError :: "string \<Rightarrow> string \<Rightarrow> response" where
  "sendExtendedError code message = [Error \<lparr>er_Severity = ''ERROR'', er_Code = code, er_Message = message\<rparr>]"

definition sendSessionError :: "char \<Rightarrow> string \<Rightarrow> string \<Rightarrow> response" where
  "sendSessionError status code message =
     [Error \<lparr>er_Severity = ''ERROR'', er_Code = code, er_Message = message\<rparr>, ReadyForQuery status]"

definition sendError :: "string \<Rightarrow> string \<Rightarrow> response" where
  "sendError code message = sendSessionError CHR ''I'' code message"

definition sendBackendError :: "char \<Rightarrow> ErrorResponse \<Rightarrow> response" where
  "sendBackendError status e = [Error e, ReadyForQuery status]"

text \<open>The responses of an exchange, or the text of a transport error, become what is sent to the
  client and whether the operation succeeded.\<close>

definition relayUniform :: "string + response list \<Rightarrow> string \<Rightarrow> response \<times> bool" where
  "relayUniform result operation = (case result of Inl err \<Rightarrow> (sendExtendedError ''08006'' err, False)
     | Inr responses \<Rightarrow>
         (case firstError responses of Some e \<Rightarrow> ([Error e], False)
          | None \<Rightarrow>
              (case responses of [] \<Rightarrow> (sendExtendedError ''XX000'' ''no Burrow responses'', False)
               | r # rest \<Rightarrow>
                   (let first = protocolMessages r in
                    if list_all (\<lambda>q. sameProtocolMessages first (protocolMessages q)) rest then (first, True)
                    else (sendExtendedError ''XX000'' (''incompatible '' @ operation @ '' responses from Burrows''), False)))))"

definition relaySync :: "response list \<Rightarrow> char \<Rightarrow> response \<times> bool" where
  "relaySync responses status =
     (if responses = [] \<or> hd responses = [] then (sendExtendedError ''XX000'' ''no Burrow responses'', False)
      else (case firstError responses of Some e \<Rightarrow> ([Error e], False) | None \<Rightarrow> ([ReadyForQuery status], True)))"

fun ready_status :: "char \<Rightarrow> backend_message list \<Rightarrow> char" where
  "ready_status status [] = status"
| "ready_status status (m # ms) = (case m of
       ReadyForQuery s \<Rightarrow> if status = CHR ''I'' then ready_status s ms else if s \<noteq> status then CHR ''E'' else ready_status status ms
     | _ \<Rightarrow> ready_status status ms)"

definition readyTxStatus :: "response list \<Rightarrow> char" where
  "readyTxStatus responses = ready_status CHR ''I'' (concat responses)"

section \<open>Command tags\<close>

definition wrap64 :: "int \<Rightarrow> int" where
  "wrap64 n = (n + 2 ^ 63) mod 2 ^ 64 - 2 ^ 63"

definition splitRowCountTag :: "string \<Rightarrow> (string \<times> int) option" where
  "splitRowCountTag tag =
     (let parts = split_fields tag in
      if length parts < 2 then None
      else (case parse_int64 (last parts) of None \<Rightarrow> None | Some rows \<Rightarrow> Some (join_with '' '' (butlast parts), rows)))"

fun add_row_counts :: "string \<Rightarrow> int \<Rightarrow> string list \<Rightarrow> int option" where
  "add_row_counts prefix rows [] = Some rows"
| "add_row_counts prefix rows (tag # tags) = (case splitRowCountTag tag of None \<Rightarrow> None
     | Some (nextPrefix, nextRows) \<Rightarrow>
         if nextPrefix \<noteq> prefix then None else add_row_counts prefix (wrap64 (rows + nextRows)) tags)"

definition mergeRowCountTags :: "string list \<Rightarrow> string option" where
  "mergeRowCountTags tags = (case tags of [] \<Rightarrow> None
     | tag # rest \<Rightarrow> (case splitRowCountTag tag of None \<Rightarrow> None
       | Some (prefix, rows) \<Rightarrow> map_option (\<lambda>n. prefix @ '' '' @ show_int n) (add_row_counts prefix rows rest)))"

definition mergedCommandTag :: "string list \<Rightarrow> nat \<Rightarrow> string" where
  "mergedCommandTag tags rowCount = (case tags of [] \<Rightarrow> []
     | tag # rest \<Rightarrow>
         if has_prefix tag ''SELECT'' then ''SELECT '' @ show_nat rowCount
         else (case mergeRowCountTags tags of Some t \<Rightarrow> t
           | None \<Rightarrow> if list_all (\<lambda>t. t = tag) rest then tag else ''FANOUT''))"

datatype copy_tag_error = NoCompletionTag | ReplicasDiffer "string list" | RowCountDiffers string string

definition mergedCopyFromTag :: "string list \<Rightarrow> bool \<Rightarrow> bool \<Rightarrow> int \<Rightarrow> copy_tag_error + string" where
  "mergedCopyFromTag tags sharded replicated expectedRows = (case tags of [] \<Rightarrow> Inl NoCompletionTag
     | tag # rest \<Rightarrow>
         if replicated then (if list_all (\<lambda>t. t = tag) rest then Inr tag else Inl (ReplicasDiffer tags))
         else (let merged = mergedCommandTag tags 0 in
           if sharded \<and> expectedRows \<ge> 0 \<and> merged \<noteq> ''COPY '' @ show_int expectedRows
           then Inl (RowCountDiffers merged (''COPY '' @ show_int expectedRows)) else Inr merged))"

definition postgresErrorCategory :: "string \<Rightarrow> string" where
  "postgresErrorCategory code =
     (if length code < 2 then ''postgres_error''
      else if take 2 code = ''08'' then ''burrow_transport''
      else if take 2 code \<in> set [''22'', ''23''] then ''data_error''
      else if take 2 code \<in> set [''25'', ''40''] then ''transaction_error''
      else if take 2 code = ''42'' then ''sql_error''
      else if take 2 code = ''53'' then ''resource_exhausted'' else ''postgres_error'')"

section \<open>Laws\<close>

lemma sameOIDs_iff: "sameOIDs l r \<longleftrightarrow> l = r"
  by (auto simp: sameOIDs_def list.rel_eq)

text \<open>What a field description contributes to the comparison, and the same of a whole message: two
  messages are the same for the Proxy exactly when their keys are equal.\<close>

definition field_key :: "FieldDescription \<Rightarrow> string \<times> int \<times> int \<times> int \<times> int" where
  "field_key f = (fd_Name f, fd_DataTypeOID f, fd_DataTypeSize f, fd_TypeModifier f, fd_Format f)"

definition message_key :: "backend_message \<Rightarrow> string \<times> (string \<times> int \<times> int \<times> int \<times> int) list \<times> int list \<times> char option" where
  "message_key m = (message_type m, (case m of RowDescription fs \<Rightarrow> map field_key fs | _ \<Rightarrow> []),
     (case m of ParameterDescription oids \<Rightarrow> oids | _ \<Rightarrow> []), (case m of ReadyForQuery s \<Rightarrow> Some s | _ \<Rightarrow> None))"

lemma sameField_key: "sameField l r \<longleftrightarrow> field_key l = field_key r"
  by (simp add: sameField_def field_key_def)

lemma sameRowDescription_key: "sameRowDescription l r \<longleftrightarrow> map field_key l = map field_key r"
  by (auto simp: sameRowDescription_def list_all2_conv_all_nth sameField_key list_eq_iff_nth_eq)

lemma same_message_key: "same_message l r \<longleftrightarrow> message_key l = message_key r"
  by (cases l; cases r; simp add: message_key_def sameRowDescription_key sameOIDs_iff)

lemma sameProtocolMessages_key: "sameProtocolMessages l r \<longleftrightarrow> map message_key l = map message_key r"
  by (auto simp: sameProtocolMessages_def list_all2_conv_all_nth same_message_key list_eq_iff_nth_eq)

lemma firstErrorIn_None: "firstErrorIn r = None \<longleftrightarrow> (\<forall>e. Error e \<notin> set r)"
  by (induction r rule: firstErrorIn.induct) (auto split: backend_message.splits)

lemma firstError_None: "firstError rs = None \<longleftrightarrow> (\<forall>r \<in> set rs. \<forall>e. Error e \<notin> set r)"
  by (induction rs rule: firstError.induct) (auto simp: firstErrorIn_None[symmetric] split: option.splits)

text \<open>Adding the row counts of the remaining tags, read off exactly, when no partial sum leaves the
  range of an \<^verbatim>\<open>int64\<close>.\<close>

lemma wrap64_id: "\<lbrakk>- (2 ^ 63) \<le> n; n < 2 ^ 63\<rbrakk> \<Longrightarrow> wrap64 n = n"
  by (simp add: wrap64_def)

lemma add_row_counts_sum:
  assumes "list_all (\<lambda>n. 0 \<le> n) ns" and "0 \<le> rows" and "rows + sum_list ns < 2 ^ 63"
    and "list_all2 (\<lambda>tag n. splitRowCountTag tag = Some (prefix, n)) tags ns"
  shows "add_row_counts prefix rows tags = Some (rows + sum_list ns)"
  using assms(4,1-3)
proof (induction tags ns arbitrary: rows rule: list_all2_induct)
  case (Cons tag tags n ns)
  have "0 \<le> sum_list ns" using Cons.prems by (auto simp: list_all_iff intro: sum_list_nonneg)
  then have "wrap64 (rows + n) = rows + n" using Cons.prems by (intro wrap64_id) auto
  moreover have "add_row_counts prefix (rows + n) tags = Some (rows + n + sum_list ns)"
    using Cons.prems by (intro Cons.IH) auto
  ultimately show ?case using Cons.hyps by (simp add: ac_simps)
qed simp

text \<open>The Proxy answers with one Burrow's messages only when no Burrow failed and the responses agree
  pairwise on everything a client can observe of a prepared exchange: the sequence of message types, the
  columns of each row description (name, type, size, modifier and format), the parameter types and the
  transaction status; notices, parameter changes and notifications are left out of the comparison and of
  the answer. In every other case the client gets exactly one error.\<close>

theorem uniform_relay_exact:
  "(snd (relayUniform (Inr responses) operation) \<longleftrightarrow>
      responses \<noteq> [] \<and> (\<forall>r \<in> set responses. \<forall>e. Error e \<notin> set r)
      \<and> (\<forall>l \<in> set responses. \<forall>r \<in> set responses.
            map message_key (protocolMessages l) = map message_key (protocolMessages r)))
   \<and> (snd (relayUniform (Inr responses) operation)
        \<longrightarrow> fst (relayUniform (Inr responses) operation) = protocolMessages (hd responses))
   \<and> (snd (relayUniform result operation) \<or> (\<exists>e. fst (relayUniform result operation) = [Error e]))"
proof (intro conjI)
  have same: "list_all (\<lambda>q. f q = f r) rest \<longleftrightarrow> (\<forall>l \<in> set (r # rest). \<forall>q \<in> set (r # rest). f l = f q)"
    for f :: "response \<Rightarrow> 'k" and r rest
    by (auto simp: list_all_iff)
  show "snd (relayUniform (Inr responses) operation) \<longleftrightarrow>
      responses \<noteq> [] \<and> (\<forall>r \<in> set responses. \<forall>e. Error e \<notin> set r)
      \<and> (\<forall>l \<in> set responses. \<forall>r \<in> set responses.
            map message_key (protocolMessages l) = map message_key (protocolMessages r))" (is "?ok \<longleftrightarrow> _ \<and> ?clean \<and> ?same")
  proof (cases "firstError responses")
    case None
    then have "?clean" by (simp add: firstError_None)
    moreover have "?ok \<longleftrightarrow> responses \<noteq> [] \<and> ?same"
    proof (cases responses)
      case (Cons r rest)
      have "?ok \<longleftrightarrow> list_all (\<lambda>q. map message_key (protocolMessages q) = map message_key (protocolMessages r)) rest"
        using None Cons
        by (auto simp: relayUniform_def Let_def sameProtocolMessages_key list_all_iff eq_commute[of "map message_key (protocolMessages r)"])
      then show ?thesis using Cons same[of "\<lambda>q. map message_key (protocolMessages q)" r rest] by blast
    qed (simp add: relayUniform_def)
    ultimately show ?thesis by blast
  next
    case (Some e)
    then have "\<not> ?clean" using firstError_None[of responses] by simp
    then show ?thesis using Some by (auto simp: relayUniform_def)
  qed
qed (auto simp: relayUniform_def sendExtendedError_def Let_def split: sum.splits option.splits list.splits)

text \<open>Two Burrows that differ in a notice and in the table a column comes from agree.\<close>

theorem uniform_relay_exact_witness:
  "relayUniform (Inr [[RowDescription [\<lparr>fd_Name = ''a'', fd_TableOID = 7, fd_TableAttributeNumber = 1,
        fd_DataTypeOID = 23, fd_DataTypeSize = 4, fd_TypeModifier = - 1, fd_Format = 0\<rparr>]],
     [ParameterStatus ''a'' ''b'', RowDescription [\<lparr>fd_Name = ''a'', fd_TableOID = 9, fd_TableAttributeNumber = 2,
        fd_DataTypeOID = 23, fd_DataTypeSize = 4, fd_TypeModifier = - 1, fd_Format = 0\<rparr>]]]) ''Describe''
   = ([RowDescription [\<lparr>fd_Name = ''a'', fd_TableOID = 7, fd_TableAttributeNumber = 1,
        fd_DataTypeOID = 23, fd_DataTypeSize = 4, fd_TypeModifier = - 1, fd_Format = 0\<rparr>]], True)"
  using uniform_relay_exact[of "[[RowDescription [\<lparr>fd_Name = ''a'', fd_TableOID = 7, fd_TableAttributeNumber = 1,
        fd_DataTypeOID = 23, fd_DataTypeSize = 4, fd_TypeModifier = - 1, fd_Format = 0\<rparr>]],
     [ParameterStatus ''a'' ''b'', RowDescription [\<lparr>fd_Name = ''a'', fd_TableOID = 9, fd_TableAttributeNumber = 2,
        fd_DataTypeOID = 23, fd_DataTypeSize = 4, fd_TypeModifier = - 1, fd_Format = 0\<rparr>]]]" "''Describe''" "Inr []"]
  by (simp add: protocolMessages_def message_key_def field_key_def prod_eq_iff)

text \<open>A statement run on several Burrows reports one row count: when every Burrow answers with the
  same command word and a count, the merged tag is that word with the sum of the counts, as long as the
  sum fits an \<^verbatim>\<open>int64\<close>.\<close>

theorem merged_row_count_exact:
  assumes "list_all2 (\<lambda>tag n. splitRowCountTag tag = Some (prefix, n)) tags ns" and "tags \<noteq> []"
    and "list_all (\<lambda>n. 0 \<le> n) ns" and "sum_list ns < 2 ^ 63" and "\<not> has_prefix (hd tags) ''SELECT''"
  shows "mergedCommandTag tags rowCount = prefix @ '' '' @ show_int (sum_list ns)"
proof -
  obtain tag rest where tags: "tags = tag # rest" using assms(2) by (cases tags) auto
  obtain n ns' where ns: "ns = n # ns'" using assms(1) tags by (cases ns) auto
  have "add_row_counts prefix n rest = Some (n + sum_list ns')"
    by (rule add_row_counts_sum) (use assms tags ns in auto)
  then show ?thesis using assms tags ns by (simp add: mergedCommandTag_def mergeRowCountTags_def)
qed

theorem merged_row_count_exact_witness:
  "mergedCommandTag [''INSERT 0 2'', ''INSERT 0 3''] 0 = ''INSERT 0 5''"
proof -
  have "splitRowCountTag ''INSERT 0 2'' = Some (''INSERT 0'', 2)" "splitRowCountTag ''INSERT 0 3'' = Some (''INSERT 0'', 3)"
    by code_simp+
  moreover have "show_int 5 = ''5''" "\<not> has_prefix ''INSERT 0 2'' ''SELECT''" by code_simp+
  ultimately show ?thesis
    using merged_row_count_exact[of "''INSERT 0''" "[''INSERT 0 2'', ''INSERT 0 3'']" "[2, 3]" 0] by simp
qed

text \<open>The transaction status of a fan-out depends on the order of the Burrows: an idle Burrow before
  one in a transaction is overlooked, after it is a failed transaction.\<close>

lemma ready_status_order:
  "readyTxStatus [[ReadyForQuery CHR ''I''], [ReadyForQuery CHR ''T'']] = CHR ''T''"
  "readyTxStatus [[ReadyForQuery CHR ''T''], [ReadyForQuery CHR ''I'']] = CHR ''E''"
  by (simp_all add: readyTxStatus_def)

end
