(* ===== verification/Backend_Session.thy ===== *)
theory Backend_Session
  imports Pg_Message Schema_Registry
begin

text \<open>
  The parts of \<^verbatim>\<open>internal/backend/backend.go\<close> between the Proxy and the connection pools: copying and
  merging of results, the exchange of one message with several Burrows, the parameters of pooled
  connections, the cache of prepared statements and the fleet-write gate.  Pools, sockets and
  PostgreSQL itself are parameters.
\<close>

section \<open>Copies and merged results\<close>

text \<open>\<^verbatim>\<open>append([]byte(nil), value...)\<close>: a nil slice (SQL NULL) and an empty one both copy to nil.\<close>

definition append_nil :: "bytes option \<Rightarrow> bytes option" where
  "append_nil v = (case v of None \<Rightarrow> None | Some b \<Rightarrow> if b = [] then None else Some b)"

definition cloneBackendMessage :: "backend_message \<Rightarrow> backend_message" where
  "cloneBackendMessage message = (case message of DataRow vs \<Rightarrow> DataRow (map append_nil vs) | m \<Rightarrow> m)"

record Result =
  rs_Fields :: "FieldDescription list"
  rs_Rows :: "bytes option list list"
  rs_CommandTag :: string

definition sameFields :: "FieldDescription list \<Rightarrow> FieldDescription list \<Rightarrow> bool" where
  "sameFields left right = (length left = length right
     \<and> list_all2 (\<lambda>l r. fd_Name l = fd_Name r \<and> fd_DataTypeOID l = fd_DataTypeOID r \<and> fd_Format l = fd_Format r) left right)"

definition resultTags :: "Result list \<Rightarrow> string list" where
  "resultTags results = map rs_CommandTag results"

definition mergedTag :: "Result list \<Rightarrow> nat \<Rightarrow> string" where
  "mergedTag results rowCount =
     (if results \<noteq> [] \<and> has_prefix (rs_CommandTag (hd results)) ''SELECT'' then ''SELECT '' @ show_nat rowCount
      else (case mergeRowCountTags (resultTags results) of Some tag \<Rightarrow> tag
        | None \<Rightarrow> if list_all (\<lambda>r. rs_CommandTag r = rs_CommandTag (hd results)) (tl results)
                  then rs_CommandTag (hd results) else ''FANOUT''))"

datatype merge_error = NoShards | IncompatibleRows nat

fun merge_rows :: "FieldDescription list \<Rightarrow> nat \<Rightarrow> Result list \<Rightarrow> merge_error + bytes option list list" where
  "merge_rows fs index [] = Inr []"
| "merge_rows fs index (r # results) =
     (if \<not> sameFields fs (rs_Fields r) then Inl (IncompatibleRows (index + 1))
      else (case merge_rows fs (index + 1) results of Inl e \<Rightarrow> Inl e | Inr rows \<Rightarrow> Inr (rs_Rows r @ rows)))"

definition merge :: "Result list \<Rightarrow> merge_error + Result" where
  "merge results = (case results of [] \<Rightarrow> Inl NoShards
     | first # _ \<Rightarrow> (case merge_rows (rs_Fields first) 0 results of Inl e \<Rightarrow> Inl e
         | Inr rows \<Rightarrow> Inr \<lparr>rs_Fields = rs_Fields first, rs_Rows = rows, rs_CommandTag = mergedTag results (length rows)\<rparr>))"

text \<open>\<open>query\<close>: the outcome of running the statement on one Burrow; the goroutines finish in the order
  \<open>finished\<close>, some arrangement of the Burrows.\<close>

datatype query_error = ShardFailed string string | MergeFailed merge_error | UnknownBurrow string

definition QueryAll :: "(string \<Rightarrow> string + Result) \<Rightarrow> string list \<Rightarrow> query_error + Result" where
  "QueryAll query finished =
     (case List.find (\<lambda>name. isl (query name)) finished of
        Some name \<Rightarrow> Inl (ShardFailed name (projl (query name)))
      | None \<Rightarrow> (case merge (map (\<lambda>name. projr (query name)) (sort (remdups finished))) of Inl e \<Rightarrow> Inl (MergeFailed e) | Inr r \<Rightarrow> Inr r))"

definition QueryOne :: "(string \<Rightarrow> string + Result) \<Rightarrow> string list \<Rightarrow> string \<Rightarrow> query_error + Result" where
  "QueryOne query shards name = (if name \<notin> set shards then Inl (UnknownBurrow name)
     else (case query name of Inl e \<Rightarrow> Inl (ShardFailed name e) | Inr r \<Rightarrow> Inr r))"

section \<open>Exchanges\<close>

text \<open>\<open>send\<close> is \<^verbatim>\<open>Session.SendTo\<close> (acquiring the connection and flushing), \<open>recv\<close> the reading of messages up
  to the one that completes the exchange.\<close>

type_synonym ('m, 's) sender = "string \<Rightarrow> 'm \<Rightarrow> 's \<Rightarrow> string option \<times> 's"
type_synonym 's receiver = "string \<Rightarrow> 's \<Rightarrow> (string + response) \<times> 's"

definition receiveUntil :: "'s receiver \<Rightarrow> string \<Rightarrow> 's \<Rightarrow> (string + response) \<times> 's" where
  "receiveUntil recv name w = (case recv name w of (reply, w1) \<Rightarrow> (map_sum (\<lambda>e. e) (map cloneBackendMessage) reply, w1))"

fun ReceiveUntilFromMany :: "'s receiver \<Rightarrow> string list \<Rightarrow> 's \<Rightarrow> (string + response list) \<times> 's" where
  "ReceiveUntilFromMany recv [] w = (Inr [], w)"
| "ReceiveUntilFromMany recv (name # names) w = (case receiveUntil recv name w of
       (Inl e, w1) \<Rightarrow> (Inl e, w1)
     | (Inr r, w1) \<Rightarrow> (case ReceiveUntilFromMany recv names w1 of (rest, w2) \<Rightarrow> (map_sum (\<lambda>e. e) (\<lambda>rs. r # rs) rest, w2)))"

fun send_targets :: "('m, 's) sender \<Rightarrow> string list \<Rightarrow> 'm \<Rightarrow> 's \<Rightarrow> string option \<times> 's" where
  "send_targets send [] m w = (None, w)"
| "send_targets send (t # ts) m w = (case send t m w of (Some e, w1) \<Rightarrow> (Some e, w1) | (None, w1) \<Rightarrow> send_targets send ts m w1)"

definition exchange :: "('m, 's) sender \<Rightarrow> 's receiver \<Rightarrow> string list \<Rightarrow> 'm \<Rightarrow> 's \<Rightarrow> (string + response list) \<times> 's" where
  "exchange send recv targets message w = (case send_targets send targets message w of
       (Some e, w1) \<Rightarrow> (Inl e, w1) | (None, w1) \<Rightarrow> ReceiveUntilFromMany recv targets w1)"

definition exchangeOne :: "('m, 's) sender \<Rightarrow> 's receiver \<Rightarrow> string \<Rightarrow> 'm \<Rightarrow> 's \<Rightarrow> (string + response list) \<times> 's" where
  "exchangeOne send recv target message w = exchange send recv [target] message w"


section \<open>Parameters of pooled connections\<close>

text \<open>What the manager remembers of a pooled connection: the value each parameter had when it was first
  changed, and its current value.  \<open>getp\<close> and \<open>setp\<close> are \<^verbatim>\<open>current_setting\<close> and \<^verbatim>\<open>set_config\<close> on the
  connection at hand, whose state is part of the world \<open>'s\<close>.\<close>

record runtimeParamState =
  rp_baseline :: "(string, string) gomap"
  rp_current :: "(string, string) gomap"

type_synonym runtime_params = "(string, runtimeParamState) gomap"
type_synonym 's setting_reader = "string \<Rightarrow> 's \<Rightarrow> string + string"
type_synonym 's setting_writer = "string \<Rightarrow> string \<Rightarrow> 's \<Rightarrow> string option \<times> 's"

definition no_params :: runtimeParamState where
  "no_params = \<lparr>rp_baseline = [], rp_current = []\<rparr>"

definition params_of :: "runtime_params \<Rightarrow> string \<Rightarrow> runtimeParamState" where
  "params_of m key = (case map_of m key of None \<Rightarrow> no_params | Some st \<Rightarrow> st)"

definition rememberRuntimeParamBaseline :: "string \<Rightarrow> string \<Rightarrow> string \<Rightarrow> runtime_params \<Rightarrow> runtime_params" where
  "rememberRuntimeParamBaseline key name value m = (let st = params_of m key in
     AList.update key (if map_of (rp_baseline st) name = None
       then st\<lparr>rp_baseline := AList.update name value (rp_baseline st), rp_current := AList.update name value (rp_current st)\<rparr>
       else st) m)"

definition rememberRuntimeParam :: "string \<Rightarrow> string \<Rightarrow> string \<Rightarrow> runtime_params \<Rightarrow> runtime_params" where
  "rememberRuntimeParam key name value m = (let st = params_of m key in
     AList.update key (st\<lparr>rp_current := AList.update name value (rp_current st)\<rparr>) m)"

definition forgetRuntimeParams :: "string \<Rightarrow> runtime_params \<Rightarrow> runtime_params" where
  "forgetRuntimeParams key m = AList.delete key m"

fun read_baselines :: "'s setting_reader \<Rightarrow> string \<Rightarrow> string list \<Rightarrow> 's \<Rightarrow> runtime_params \<Rightarrow> (string \<times> string) option \<times> runtime_params" where
  "read_baselines getp key [] w m = (None, m)"
| "read_baselines getp key (name # names) w m = (case getp name w of Inl e \<Rightarrow> (Some (name, e), m)
     | Inr value \<Rightarrow> read_baselines getp key names w (rememberRuntimeParamBaseline key name value m))"

definition ensureRuntimeParamBaselines :: "'s setting_reader \<Rightarrow> string \<Rightarrow> (string, string) gomap \<Rightarrow> 's \<Rightarrow> runtime_params
    \<Rightarrow> (string \<times> string) option \<times> runtime_params" where
  "ensureRuntimeParamBaselines getp key desired w m =
     (let missing = filter (\<lambda>name. map_of (rp_baseline (params_of m key)) name = None) (keys desired) in
      read_baselines getp key (sort missing) w m)"

definition changedRuntimeParams :: "string \<Rightarrow> (string, string) gomap \<Rightarrow> runtime_params \<Rightarrow> (string, string) gomap" where
  "changedRuntimeParams key desired m = (let st = params_of m key; effective = AList.merge (rp_baseline st) desired in
     filter (\<lambda>(name, value). (case map_of (rp_current st) name of None \<Rightarrow> [] | Some c \<Rightarrow> c) \<noteq> value) (AList.clearjunk effective))"

datatype param_error = InspectFailed string string | ApplyFailed string string

fun apply_changed :: "'s setting_writer \<Rightarrow> string \<Rightarrow> (string, string) gomap \<Rightarrow> string list \<Rightarrow> 's \<Rightarrow> runtime_params
    \<Rightarrow> param_error option \<times> 's \<times> runtime_params" where
  "apply_changed setp key changed [] w m = (None, w, m)"
| "apply_changed setp key changed (name # names) w m =
     (let value = the (map_of changed name) in
      case setp name value w of (Some e, w1) \<Rightarrow> (Some (ApplyFailed name e), w1, forgetRuntimeParams key m)
      | (None, w1) \<Rightarrow> apply_changed setp key changed names w1 (rememberRuntimeParam key name value m))"

definition applyRuntimeParams :: "'s setting_reader \<Rightarrow> 's setting_writer \<Rightarrow> string \<Rightarrow> (string, string) gomap \<Rightarrow> 's \<Rightarrow> runtime_params
    \<Rightarrow> param_error option \<times> 's \<times> runtime_params" where
  "applyRuntimeParams getp setp key desired w m = (case ensureRuntimeParamBaselines getp key desired w m of
       (Some (name, e), m1) \<Rightarrow> (Some (InspectFailed name e), w, forgetRuntimeParams key m1)
     | (None, m1) \<Rightarrow> (let changed = changedRuntimeParams key desired m1 in apply_changed setp key changed (sort (keys changed)) w m1))"

section \<open>The fleet-write gate\<close>

text \<open>A channel of capacity one that holds the token when nobody writes: \<open>gate_free\<close> says the token is in
  the channel, \<open>gate_locked s\<close> that session \<open>s\<close> believes it holds it.\<close>

record gate =
  gate_free :: bool
  gate_locked :: "string list"

definition newFleetWriteGate :: gate where
  "newFleetWriteGate = \<lparr>gate_free = True, gate_locked = []\<rparr>"

text \<open>A lock that cannot proceed blocks (None) unless the session's context is cancelled, when it returns
  false.\<close>

definition LockFleetWritesContext :: "string \<Rightarrow> bool \<Rightarrow> gate \<Rightarrow> (bool \<times> gate) option" where
  "LockFleetWritesContext s cancelled g =
     (if s \<in> set (gate_locked g) then Some (True, g)
      else if gate_free g then Some (True, g\<lparr>gate_free := False, gate_locked := s # gate_locked g\<rparr>)
      else if cancelled then Some (False, g) else None)"

definition UnlockFleetWrites :: "string \<Rightarrow> gate \<Rightarrow> gate" where
  "UnlockFleetWrites s g = (if s \<notin> set (gate_locked g) then g
     else g\<lparr>gate_free := True, gate_locked := removeAll s (gate_locked g)\<rparr>)"

inductive gate_step :: "gate \<Rightarrow> gate \<Rightarrow> bool" where
  lock: "LockFleetWritesContext s cancelled g = Some (ok, g') \<Longrightarrow> gate_step g g'"
| unlock: "gate_step g (UnlockFleetWrites s g)"

text \<open>At most one session holds the gate, and the token is in the channel exactly when none does.\<close>

lemma gate_exclusive:
  assumes "gate_step\<^sup>*\<^sup>* newFleetWriteGate g"
  shows "length (gate_locked g) = (if gate_free g then 0 else 1)"
  using assms
proof (induction rule: rtranclp_induct)
  case (step g g')
  from step.hyps(2) show ?case
  proof cases
    case (lock s cancelled ok)
    then show ?thesis using step.IH by (auto simp: LockFleetWritesContext_def split: if_splits)
  next
    case (unlock s)
    obtain t where "gate_locked g = [] \<and> gate_free g \<or> gate_locked g = [t] \<and> \<not> gate_free g"
      using step.IH by (auto simp: length_Suc_conv split: if_splits)
    then show ?thesis using unlock by (auto simp: UnlockFleetWrites_def)
  qed
qed (simp add: newFleetWriteGate_def)


section \<open>Isolation of pooled connections\<close>

text \<open>PostgreSQL's side: parameter names are compared without case; setting a parameter changes that
  parameter only, to the meaning \<open>norm\<close> of the text given; reading it gives a text of that meaning.  \<open>view\<close> is the
  meaning of every parameter on the connection.\<close>

definition guc_contract :: "'s setting_reader \<Rightarrow> 's setting_writer \<Rightarrow> (string \<Rightarrow> string \<Rightarrow> 'v) \<Rightarrow> ('s \<Rightarrow> string \<Rightarrow> 'v) \<Rightarrow> bool" where
  "guc_contract getp setp norm view =
     ((\<forall>name w v. getp name w = Inr v \<longrightarrow> norm (to_lower name) v = view w (to_lower name))
      \<and> (\<forall>name v w w'. setp name v w = (None, w') \<longrightarrow> view w' = (view w)(to_lower name := norm (to_lower name) v)))"

definition tracks :: "(string \<Rightarrow> string \<Rightarrow> 'v) \<Rightarrow> (string \<Rightarrow> 'v) \<Rightarrow> runtimeParamState \<Rightarrow> bool" where
  "tracks norm settings st = (dom (map_of (rp_current st)) = dom (map_of (rp_baseline st))
     \<and> (\<forall>name v. map_of (rp_current st) name = Some v \<longrightarrow> settings (to_lower name) = norm (to_lower name) v))"

lemma params_of_update [simp]: "params_of (AList.update key st m) key = st"
  by (simp add: params_of_def update_conv')

lemma remember_baseline:
  fixes m key
  defines "st \<equiv> params_of m key"
  shows "map_of (rp_baseline (params_of (rememberRuntimeParamBaseline key name value m) key))
      = (if map_of (rp_baseline st) name = None then (map_of (rp_baseline st))(name \<mapsto> value) else map_of (rp_baseline st))"
    and "map_of (rp_current (params_of (rememberRuntimeParamBaseline key name value m) key))
      = (if map_of (rp_baseline st) name = None then (map_of (rp_current st))(name \<mapsto> value) else map_of (rp_current st))"
  by (simp_all add: rememberRuntimeParamBaseline_def st_def Let_def update_conv')

lemma read_baselines_tracks:
  assumes "guc_contract getp setp norm view" and "tracks norm (view w) (params_of m key)"
    and "read_baselines getp key names w m = (None, m')"
  shows "tracks norm (view w) (params_of m' key)
    \<and> dom (map_of (rp_baseline (params_of m' key))) = dom (map_of (rp_baseline (params_of m key))) \<union> set names
    \<and> map_of (rp_baseline (params_of m key)) \<subseteq>\<^sub>m map_of (rp_baseline (params_of m' key))"
  using assms(2,3)
proof (induction names arbitrary: m)
  case (Cons name names)
  obtain val where v: "getp name w = Inr val"
    and rest: "read_baselines getp key names w (rememberRuntimeParamBaseline key name val m) = (None, m')"
    using Cons.prems(2) by (auto split: sum.splits)
  let ?m = "rememberRuntimeParamBaseline key name val m"
  have "tracks norm (view w) (params_of ?m key)"
    using Cons.prems(1) v assms(1) by (auto simp: tracks_def guc_contract_def remember_baseline split: if_splits)
  note IH = Cons.IH[OF this rest]
  have "dom (map_of (rp_baseline (params_of ?m key))) = insert name (dom (map_of (rp_baseline (params_of m key))))"
    by (auto simp: remember_baseline)
  moreover have "map_of (rp_baseline (params_of m key)) \<subseteq>\<^sub>m map_of (rp_baseline (params_of ?m key))"
    by (auto simp: remember_baseline map_le_def)
  ultimately show ?case using IH by (auto intro: map_le_trans)
qed (use assms in \<open>auto simp: map_le_def\<close>)

lemma apply_changed_settings:
  assumes "guc_contract getp setp norm view" and "distinct names" and "inj_on to_lower (T \<union> set names)"
    and "apply_changed setp key changed names w m = (None, w', m')"
  shows "rp_baseline (params_of m' key) = rp_baseline (params_of m key)
    \<and> (\<forall>name. map_of (rp_current (params_of m' key)) name
        = (if name \<in> set names then Some (the (map_of changed name)) else map_of (rp_current (params_of m key)) name))
    \<and> (\<forall>name \<in> set names. view w' (to_lower name) = norm (to_lower name) (the (map_of changed name)))
    \<and> (\<forall>p. p \<notin> to_lower ` set names \<longrightarrow> view w' p = view w p)"
  using assms(2-4)
proof (induction names arbitrary: w m)
  case (Cons name names)
  let ?v = "the (map_of changed name)" and ?m = "rememberRuntimeParam key name (the (map_of changed name)) m"
  obtain w1 where w1: "setp name ?v w = (None, w1)" and rest: "apply_changed setp key changed names w1 ?m = (None, w', m')"
    using Cons.prems(3) by (auto simp: Let_def split: prod.splits option.splits)
  have set: "view w1 = (view w)(to_lower name := norm (to_lower name) ?v)"
    using assms(1) w1 by (auto simp: guc_contract_def)
  have remember: "rp_baseline (params_of ?m key) = rp_baseline (params_of m key)"
    "map_of (rp_current (params_of ?m key)) = (map_of (rp_current (params_of m key)))(name \<mapsto> ?v)"
    by (simp_all add: rememberRuntimeParam_def Let_def update_conv')
  have "inj_on to_lower (T \<union> set names)" using Cons.prems(2) by (rule inj_on_subset) auto
  from Cons.IH[OF _ this rest] Cons.prems(1)
  have IH: "rp_baseline (params_of m' key) = rp_baseline (params_of ?m key)"
    "\<forall>nm. map_of (rp_current (params_of m' key)) nm
        = (if nm \<in> set names then Some (the (map_of changed nm)) else map_of (rp_current (params_of ?m key)) nm)"
    "\<forall>nm \<in> set names. view w' (to_lower nm) = norm (to_lower nm) (the (map_of changed nm))"
    "\<forall>p. p \<notin> to_lower ` set names \<longrightarrow> view w' p = view w1 p" by simp_all
  have "to_lower name \<notin> to_lower ` set names"
  proof
    assume "to_lower name \<in> to_lower ` set names"
    then obtain nm where "nm \<in> set names" "to_lower name = to_lower nm" by auto
    then have "name = nm" using inj_onD[OF Cons.prems(2), of name nm] by simp
    then show False using \<open>nm \<in> set names\<close> Cons.prems(1) by simp
  qed
  then show ?case using IH set remember by auto
qed simp


lemma map_of_filter_distinct:
  "distinct (map fst xs) \<Longrightarrow> map_of (filter P xs) k = (case map_of xs k of None \<Rightarrow> None | Some v \<Rightarrow> if P (k, v) then Some v else None)"
proof (induction xs)
  case (Cons a xs)
  then have "fst a = k \<Longrightarrow> map_of xs k = None" by (auto simp: map_of_eq_None_iff)
  then show ?case using Cons by (cases a) auto
qed simp

lemma changedRuntimeParams_map:
  fixes m key
  defines "st \<equiv> params_of m key"
  shows "map_of (changedRuntimeParams key desired m) name = (case (map_of (rp_baseline st) ++ map_of desired) name of None \<Rightarrow> None
      | Some v \<Rightarrow> if (case map_of (rp_current st) name of None \<Rightarrow> [] | Some c \<Rightarrow> c) \<noteq> v then Some v else None)"
    and "distinct (keys (changedRuntimeParams key desired m))"
proof -
  have d: "distinct (map fst (AList.clearjunk (AList.merge (rp_baseline st) desired)))" by (rule distinct_clearjunk)
  show "map_of (changedRuntimeParams key desired m) name = (case (map_of (rp_baseline st) ++ map_of desired) name of None \<Rightarrow> None
      | Some v \<Rightarrow> if (case map_of (rp_current st) name of None \<Rightarrow> [] | Some c \<Rightarrow> c) \<noteq> v then Some v else None)"
    unfolding changedRuntimeParams_def Let_def st_def[symmetric]
    by (subst map_of_filter_distinct[OF d]) (auto simp: map_of_clearjunk merge_conv' split: option.splits)
  show "distinct (keys (changedRuntimeParams key desired m))"
    using d by (simp add: changedRuntimeParams_def st_def Let_def distinct_map_filter)
qed

text \<open>The second half, once the first values of all parameters in use are known.\<close>

lemma changed_settings_settle:
  assumes contract: "guc_contract getp setp norm view" and known: "tracks norm (view w) (params_of m key)"
    and names: "inj_on to_lower (dom (map_of (rp_baseline (params_of m key))))"
    and wanted: "set (keys desired) \<subseteq> dom (map_of (rp_baseline (params_of m key)))"
    and run: "apply_changed setp key (changedRuntimeParams key desired m) (sort (keys (changedRuntimeParams key desired m))) w m = (None, w', m')"
  shows "rp_baseline (params_of m' key) = rp_baseline (params_of m key)"
    and "map_of (rp_baseline (params_of m key)) name = Some b \<Longrightarrow>
      view w' (to_lower name) = norm (to_lower name) (case map_of desired name of None \<Rightarrow> b | Some v \<Rightarrow> v)
      \<and> map_of (rp_current (params_of m' key)) name = Some (case map_of desired name of None \<Rightarrow> b | Some v \<Rightarrow> v)"
    and "dom (map_of (rp_current (params_of m' key))) = dom (map_of (rp_baseline (params_of m key)))"
    and "p \<notin> to_lower ` dom (map_of (rp_baseline (params_of m key))) \<Longrightarrow> view w' p = view w p"
proof -
  let ?st = "params_of m key" and ?changed = "changedRuntimeParams key desired m"
  note ch = changedRuntimeParams_map[of key desired m]
  have sub: "set (keys ?changed) \<subseteq> dom (map_of (rp_baseline ?st))"
  proof
    fix name assume "name \<in> set (keys ?changed)"
    then have "map_of ?changed name \<noteq> None" by (simp add: map_of_eq_None_iff)
    then have "(map_of (rp_baseline ?st) ++ map_of desired) name \<noteq> None" using ch(1) by (auto split: option.splits)
    then have "name \<in> dom (map_of (rp_baseline ?st)) \<union> dom (map_of desired)" by auto
    then show "name \<in> dom (map_of (rp_baseline ?st))" using wanted by (auto simp: dom_map_of_conv_image_fst)
  qed
  then have "dom (map_of (rp_baseline ?st)) \<union> set (sort (keys ?changed)) = dom (map_of (rp_baseline ?st))" by auto
  then have "inj_on to_lower (dom (map_of (rp_baseline ?st)) \<union> set (sort (keys ?changed)))" using names by metis
  note all = apply_changed_settings[OF contract _ this run, unfolded set_sort distinct_sort, OF ch(2)]
  note r = all[THEN conjunct1] all[THEN conjunct2, THEN conjunct1, rule_format]
    all[THEN conjunct2, THEN conjunct2, THEN conjunct1, rule_format]
    all[THEN conjunct2, THEN conjunct2, THEN conjunct2, rule_format]
  have in_changed: "name \<in> set (keys ?changed) \<longleftrightarrow> map_of ?changed name \<noteq> None" for name
    by (simp add: map_of_eq_None_iff)
  show "rp_baseline (params_of m' key) = rp_baseline ?st" by (rule r(1))
  show "dom (map_of (rp_current (params_of m' key))) = dom (map_of (rp_baseline ?st))"
    using known r(2) sub by (auto simp: tracks_def dom_def)
  show "view w' p = view w p" if "p \<notin> to_lower ` dom (map_of (rp_baseline ?st))"
    using that sub by (intro r(4)) blast
  show "view w' (to_lower name) = norm (to_lower name) (case map_of desired name of None \<Rightarrow> b | Some v \<Rightarrow> v)
      \<and> map_of (rp_current (params_of m' key)) name = Some (case map_of desired name of None \<Rightarrow> b | Some v \<Rightarrow> v)"
    if b: "map_of (rp_baseline ?st) name = Some b"
  proof -
    let ?v = "case map_of desired name of None \<Rightarrow> b | Some v \<Rightarrow> v"
    have eff: "(map_of (rp_baseline ?st) ++ map_of desired) name = Some ?v" using b by (simp add: map_add_def split: option.splits)
    have dom: "name \<in> dom (map_of (rp_baseline ?st))" using b by blast
    then have "name \<in> dom (map_of (rp_current ?st))" using known by (simp add: tracks_def)
    then obtain c where c: "map_of (rp_current ?st) name = Some c" by blast
    show ?thesis
    proof (cases "c = ?v")
      case True
      then have out: "name \<notin> set (keys ?changed)" using ch(1) eff c in_changed by simp
      have "to_lower name \<notin> to_lower ` set (keys ?changed)"
        using inj_on_image_mem_iff[OF names dom sub] out by simp
      then have "view w' (to_lower name) = norm (to_lower name) ?v" using r(4) c True known by (simp add: tracks_def)
      moreover have "map_of (rp_current (params_of m' key)) name = Some ?v" using r(2)[of name] out c True by simp
      ultimately show ?thesis by blast
    next
      case False
      then have "map_of ?changed name = Some ?v" using ch(1) eff c by simp
      then show ?thesis using r(2,3) in_changed by (metis option.distinct(1) option.sel)
    qed
  qed
qed

text \<open>C37. A pooled connection handed to a frontend carries no parameter of its predecessor: when the
  frontend's settings have been applied, every parameter the Proxy has ever changed on that connection has
  the frontend's value, or the value it had before the Proxy first changed it; the remembered first values are kept,
  all other parameters are as PostgreSQL had them, and what the manager remembers is what the connection has.
  Parameter names in use differ in more than letter case.\<close>

theorem pooled_parameters_isolated:
  assumes contract: "guc_contract getp setp norm view" and known: "tracks norm (view w) (params_of m key)"
    and names: "inj_on to_lower (dom (map_of (rp_baseline (params_of m key))) \<union> set (keys desired))"
    and applied: "applyRuntimeParams getp setp key desired w m = (None, w', m')"
  shows "tracks norm (view w') (params_of m' key)
    \<and> map_of (rp_baseline (params_of m key)) \<subseteq>\<^sub>m map_of (rp_baseline (params_of m' key))
    \<and> (\<forall>name b. map_of (rp_baseline (params_of m' key)) name = Some b \<longrightarrow>
         view w' (to_lower name) = norm (to_lower name) (case map_of desired name of None \<Rightarrow> b | Some v \<Rightarrow> v))
    \<and> (\<forall>p. p \<notin> to_lower ` (dom (map_of (rp_baseline (params_of m key))) \<union> set (keys desired)) \<longrightarrow> view w' p = view w p)"
proof -
  obtain m1 where m1: "ensureRuntimeParamBaselines getp key desired w m = (None, m1)"
    and run: "apply_changed setp key (changedRuntimeParams key desired m1) (sort (keys (changedRuntimeParams key desired m1))) w m1 = (None, w', m')"
    using applied by (auto simp: applyRuntimeParams_def Let_def split: prod.splits option.splits)
  have base: "tracks norm (view w) (params_of m1 key)" "map_of (rp_baseline (params_of m key)) \<subseteq>\<^sub>m map_of (rp_baseline (params_of m1 key))"
    and dom: "dom (map_of (rp_baseline (params_of m1 key))) = dom (map_of (rp_baseline (params_of m key))) \<union> set (keys desired)"
    using read_baselines_tracks[OF contract known m1[unfolded ensureRuntimeParamBaselines_def Let_def]]
    by (auto simp: map_of_eq_None_iff dom_map_of_conv_image_fst)
  note settle = changed_settings_settle[OF contract base(1) names[folded dom] _ run, unfolded dom, simplified]
  have "tracks norm (view w') (params_of m' key)"
    unfolding tracks_def
  proof (intro conjI allI impI)
    show eq: "dom (map_of (rp_current (params_of m' key))) = dom (map_of (rp_baseline (params_of m' key)))"
      using settle(1,3) dom by simp
    fix name v assume v: "map_of (rp_current (params_of m' key)) name = Some v"
    then obtain b where "map_of (rp_baseline (params_of m1 key)) name = Some b" using eq settle(1) by (metis domD domI)
    then show "view w' (to_lower name) = norm (to_lower name) v" using settle(2) v by fastforce
  qed
  moreover have "view w' p = view w p" if "p \<notin> to_lower ` (dom (map_of (rp_baseline (params_of m key))) \<union> set (keys desired))" for p
    using settle(4) that by simp
  ultimately show ?thesis using base(2) settle(1,2) by auto
qed

text \<open>A connection whose settings are a list of parameters: a frontend that asks for \<^verbatim>\<open>b\<close> is given a connection on
  which a predecessor had changed \<^verbatim>\<open>a\<close> from \<^verbatim>\<open>1\<close> to \<^verbatim>\<open>2\<close>.\<close>

definition list_reader :: "(string, string) gomap setting_reader" where
  "list_reader name w = (case map_of w (to_lower name) of None \<Rightarrow> Inl ''unrecognized parameter'' | Some v \<Rightarrow> Inr v)"

definition list_writer :: "(string, string) gomap setting_writer" where
  "list_writer name value w = (None, AList.update (to_lower name) value w)"

definition used_params :: runtime_params where
  "used_params = [(''c'', \<lparr>rp_baseline = [(''a'', ''1'')], rp_current = [(''a'', ''2'')]\<rparr>)]"

theorem pooled_parameters_isolated_witness:
  "\<exists>m. applyRuntimeParams list_reader list_writer ''c'' [(''b'', ''7'')] [(''a'', ''2''), (''b'', ''0'')] used_params
     = (None, [(''a'', ''1''), (''b'', ''7'')], m) \<and> tracks (\<lambda>_ v. Some v) (map_of [(''a'', ''1''), (''b'', ''7'')]) (params_of m ''c'')"
proof -
  let ?m = "[(''c'', \<lparr>rp_baseline = [(''a'', ''1''), (''b'', ''0'')], rp_current = [(''a'', ''1''), (''b'', ''7'')]\<rparr>)]"
  have run: "applyRuntimeParams list_reader list_writer ''c'' [(''b'', ''7'')] [(''a'', ''2''), (''b'', ''0'')] used_params
     = (None, [(''a'', ''1''), (''b'', ''7'')], ?m)"
    by code_simp
  have contract: "guc_contract list_reader list_writer (\<lambda>_ v. Some v) map_of"
    by (auto simp: guc_contract_def list_reader_def list_writer_def update_conv' split: option.splits)
  have lower: "lower_char CHR ''a'' = CHR ''a''" "lower_char CHR ''b'' = CHR ''b''" by code_simp+
  have "tracks (\<lambda>_ v. Some v) (map_of [(''a'', ''2''), (''b'', ''0'')]) (params_of used_params ''c'')"
    by (auto simp: tracks_def params_of_def used_params_def lower split: if_splits)
  moreover have "inj_on to_lower (dom (map_of (rp_baseline (params_of used_params ''c''))) \<union> set (keys [(''b'', ''7'')]))"
    by (simp add: params_of_def used_params_def lower)
  ultimately show ?thesis using pooled_parameters_isolated[OF contract _ _ run] run by blast
qed

section \<open>Fan-out\<close>

text \<open>The merged result of a fan-out does not depend on the order in which the Burrows answer.\<close>

lemma QueryAll_order:
  assumes "set finished = set finished'" and "\<forall>name \<in> set finished. \<not> isl (query name)"
  shows "QueryAll query finished = QueryAll query finished'"
proof -
  have "List.find (\<lambda>name. isl (query name)) finished = None" "List.find (\<lambda>name. isl (query name)) finished' = None"
    using assms by (auto simp: find_None_iff)
  moreover have "sort (remdups finished) = sort (remdups finished')"
    using assms(1) by (intro sorted_distinct_set_unique) auto
  ultimately show ?thesis by (simp add: QueryAll_def)
qed

text \<open>Copying a row turns an empty value into SQL NULL.\<close>

lemma empty_value_becomes_null:
  "cloneBackendMessage (DataRow [Some [], Some ''x'', None]) = DataRow [None, Some ''x'', None]"
  by (simp add: cloneBackendMessage_def append_nil_def)

end
