(* ===== verification/Pg_Ast.thy ===== *)
theory Pg_Ast
  imports Go_Prelude
begin

text \<open>
  The PostgreSQL syntax tree as the Proxy reads it.  The tree is built by the third-party
  package \<^verbatim>\<open>pg_query_go\<close>, whose parser and deparser are parameters of the definitions that
  use them; the datatype below fixes the shape of its messages, with one constructor for
  every message whose fields the Proxy inspects and \<open>Node_Other\<close> (message name and
  sub-messages) for all others.  \<open>walk\<close> is the reflective traversal that
  \<^verbatim>\<open>internal/router\<close> and \<^verbatim>\<open>internal/proxy\<close> perform over every sub-message.
\<close>

datatype set_operation = SETOP_NONE | SETOP_UNION | SETOP_INTERSECT | SETOP_EXCEPT

datatype limit_option = LIMIT_OPTION_DEFAULT | LIMIT_OPTION_COUNT | LIMIT_OPTION_WITH_TIES

datatype bool_expr_type = AND_EXPR | OR_EXPR | NOT_EXPR

datatype a_expr_kind = AEXPR_OP | AEXPR_Other nat

datatype a_const = A_Null | A_Ival int | A_Fval string | A_Boolval bool | A_Sval string | A_Bsval string

datatype on_commit = ONCOMMIT_NOOP | ONCOMMIT_PRESERVE_ROWS | ONCOMMIT_DELETE_ROWS | ONCOMMIT_DROP

datatype object_type = OBJECT_TABLE | OBJECT_INDEX | OBJECT_SEQUENCE | OBJECT_VIEW | OBJECT_MATVIEW
  | OBJECT_FOREIGN_TABLE | OBJECT_OTHER nat

datatype alter_table_type = AT_AddColumn | AT_AddIdentity | AT_SetIdentity | AT_Other nat

datatype constr_type = CONSTR_IDENTITY | CONSTR_OTHER nat

datatype discard_mode = DISCARD_ALL | DISCARD_PLANS | DISCARD_SEQUENCES | DISCARD_TEMP

datatype variable_set_kind = VAR_SET_VALUE | VAR_SET_DEFAULT | VAR_SET_CURRENT | VAR_SET_MULTI
  | VAR_RESET | VAR_RESET_ALL

datatype transaction_kind = TRANS_BEGIN | TRANS_START | TRANS_COMMIT | TRANS_ROLLBACK
  | TRANS_SAVEPOINT | TRANS_RELEASE | TRANS_ROLLBACK_TO | TRANS_PREPARE
  | TRANS_COMMIT_PREPARED | TRANS_ROLLBACK_PREPARED

record range_var =
  rv_schemaname :: string
  rv_relname :: string
  rv_relpersistence :: string
  rv_alias :: "string option"

record into_clause =
  into_rel :: "range_var option"
  into_onCommit :: on_commit

record transaction_stmt =
  ts_kind :: transaction_kind
  ts_savepoint :: string
  ts_chain :: bool

datatype 'n type_name =
  TypeName (tn_names: "'n list") (tn_arrayBounds: "'n list") (tn_typmods: "'n list")

datatype 'n func_call =
  FuncCall (fc_funcname: "'n list") (fc_args: "'n list") (fc_aggOrder: "'n list")
    (fc_aggFilter: "'n option") (fc_over: "'n option")
    (fc_aggWithinGroup: bool) (fc_aggStar: bool) (fc_aggDistinct: bool)

datatype 'n select_stmt =
  SelectStmt (sel_op: set_operation) (sel_into: "into_clause option") (sel_with: "'n list option")
    (sel_targetList: "'n list") (sel_fromClause: "'n list") (sel_whereClause: "'n option")
    (sel_valuesLists: "'n list") (sel_distinctClause: "'n list") (sel_groupClause: "'n list")
    (sel_groupDistinct: bool) (sel_havingClause: "'n option") (sel_windowClause: "'n list")
    (sel_sortClause: "'n list") (sel_limitOffset: "'n option") (sel_limitCount: "'n option")
    (sel_limitOption: limit_option) (sel_lockingClause: "'n list") (sel_args: "'n list")

datatype 'n insert_stmt =
  InsertStmt (ins_relation: "range_var option") (ins_cols: "'n list") (ins_select: "'n option")
    (ins_onConflict: "'n option") (ins_returning: "'n list") (ins_with: "'n list option")

datatype 'n update_stmt =
  UpdateStmt (upd_relation: "range_var option") (upd_targetList: "'n list")
    (upd_whereClause: "'n option") (upd_fromClause: "'n list") (upd_returning: "'n list")
    (upd_with: "'n list option")

datatype 'n delete_stmt =
  DeleteStmt (del_relation: "range_var option") (del_usingClause: "'n list")
    (del_whereClause: "'n option") (del_returning: "'n list") (del_with: "'n list option")

datatype 'n copy_stmt =
  CopyStmt (cp_relation: "range_var option") (cp_query: "'n option") (cp_attlist: "'n list")
    (cp_isFrom: bool) (cp_isProgram: bool) (cp_filename: string) (cp_options: "'n list")
    (cp_whereClause: "'n option")

datatype (plugins only: code size) node =
    Node_String string
  | Node_Integer int
  | Node_Boolean bool
  | Node_AConst a_const
  | Node_ParamRef int
  | Node_TypeName "node type_name"
  | Node_TypeCast "node option" "node type_name option"
  | Node_CollateClause "node option"
  | Node_ColumnRef "node list"
  | Node_AExpr a_expr_kind "node list" "node option" "node option"
  | Node_BoolExpr bool_expr_type "node list"
  | Node_RowExpr "node list"
  | Node_List "node list"
  | Node_ResTarget string "node list" "node option"
  | Node_SetToDefault
  | Node_DefElem string "node option"
  | Node_FuncCall "node func_call"
  | Node_RangeVar range_var
  | Node_ColumnDef "node type_name option" "node list"
  | Node_Constraint constr_type string "node list"
  | Node_SelectStmt "node select_stmt"
  | Node_InsertStmt "node insert_stmt"
  | Node_UpdateStmt "node update_stmt"
  | Node_DeleteStmt "node delete_stmt"
  | Node_MergeStmt "range_var option" "node list"
  | Node_CopyStmt "node copy_stmt"
  | Node_ExplainStmt "node option" "node list"
  | Node_VariableSetStmt variable_set_kind string bool "node list"
  | Node_DiscardStmt discard_mode
  | Node_TransactionStmt transaction_stmt
  | Node_CreateStmt "range_var option" "node list" on_commit "node list"
  | Node_CreateTableAsStmt "into_clause option" "node list"
  | Node_ViewStmt "range_var option" "node list"
  | Node_IndexStmt "range_var option" string bool "node list"
  | Node_RenameStmt object_type "range_var option" string "node list"
  | Node_DropStmt object_type "node list" bool
  | Node_AlterTableStmt "range_var option" "node list"
  | Node_AlterTableCmd alter_table_type "node option"
  | Node_Other string "node list"

text \<open>A parsed script: one entry per \<^verbatim>\<open>RawStmt\<close>, whose \<^verbatim>\<open>Stmt\<close> may be nil.\<close>

type_synonym parse_result = "node option list"
type_synonym parser = "string \<Rightarrow> parse_result option"

section \<open>Reflective traversal\<close>

definition opt_list :: "'a option \<Rightarrow> 'a list" where
  "opt_list x = (case x of None \<Rightarrow> [] | Some a \<Rightarrow> [a])"

definition opt_lists :: "'a list option \<Rightarrow> 'a list" where
  "opt_lists x = (case x of None \<Rightarrow> [] | Some xs \<Rightarrow> xs)"

definition rv_nodes :: "range_var option \<Rightarrow> node list" where
  "rv_nodes r = map Node_RangeVar (opt_list r)"

definition into_nodes :: "into_clause option \<Rightarrow> node list" where
  "into_nodes i = (case i of None \<Rightarrow> [] | Some c \<Rightarrow> rv_nodes (into_rel c))"

definition type_name_nodes :: "node type_name \<Rightarrow> node list" where
  "type_name_nodes t = tn_names t @ tn_arrayBounds t @ tn_typmods t"

definition func_call_nodes :: "node func_call \<Rightarrow> node list" where
  "func_call_nodes f = fc_funcname f @ fc_args f @ fc_aggOrder f
     @ opt_list (fc_aggFilter f) @ opt_list (fc_over f)"

definition select_nodes :: "node select_stmt \<Rightarrow> node list" where
  "select_nodes s = into_nodes (sel_into s) @ opt_lists (sel_with s) @ sel_targetList s
     @ sel_fromClause s @ opt_list (sel_whereClause s) @ sel_valuesLists s
     @ sel_distinctClause s @ sel_groupClause s @ opt_list (sel_havingClause s)
     @ sel_windowClause s @ sel_sortClause s @ opt_list (sel_limitOffset s)
     @ opt_list (sel_limitCount s) @ sel_lockingClause s @ sel_args s"

definition insert_nodes :: "node insert_stmt \<Rightarrow> node list" where
  "insert_nodes s = rv_nodes (ins_relation s) @ ins_cols s @ opt_list (ins_select s)
     @ opt_list (ins_onConflict s) @ ins_returning s @ opt_lists (ins_with s)"

definition update_nodes :: "node update_stmt \<Rightarrow> node list" where
  "update_nodes s = rv_nodes (upd_relation s) @ upd_targetList s @ opt_list (upd_whereClause s)
     @ upd_fromClause s @ upd_returning s @ opt_lists (upd_with s)"

definition delete_nodes :: "node delete_stmt \<Rightarrow> node list" where
  "delete_nodes s = rv_nodes (del_relation s) @ del_usingClause s @ opt_list (del_whereClause s)
     @ del_returning s @ opt_lists (del_with s)"

definition copy_nodes :: "node copy_stmt \<Rightarrow> node list" where
  "copy_nodes s = rv_nodes (cp_relation s) @ opt_list (cp_query s) @ cp_attlist s
     @ cp_options s @ opt_list (cp_whereClause s)"

lemmas node_lists_def =
  opt_list_def opt_lists_def rv_nodes_def into_nodes_def type_name_nodes_def func_call_nodes_def
  select_nodes_def insert_nodes_def update_nodes_def delete_nodes_def copy_nodes_def

text \<open>The sub-messages that reflection visits below a message.\<close>

fun subnodes :: "node \<Rightarrow> node list" where
  "subnodes (Node_String _) = []"
| "subnodes (Node_Integer _) = []"
| "subnodes (Node_Boolean _) = []"
| "subnodes (Node_AConst _) = []"
| "subnodes (Node_ParamRef _) = []"
| "subnodes (Node_TypeName t) = type_name_nodes t"
| "subnodes (Node_TypeCast a t) =
     opt_list a @ (case t of None \<Rightarrow> [] | Some tn \<Rightarrow> type_name_nodes tn)"
| "subnodes (Node_CollateClause a) = opt_list a"
| "subnodes (Node_ColumnRef fs) = fs"
| "subnodes (Node_AExpr _ ns l r) = ns @ opt_list l @ opt_list r"
| "subnodes (Node_BoolExpr _ as) = as"
| "subnodes (Node_RowExpr as) = as"
| "subnodes (Node_List as) = as"
| "subnodes (Node_ResTarget _ ind v) = ind @ opt_list v"
| "subnodes Node_SetToDefault = []"
| "subnodes (Node_DefElem _ a) = opt_list a"
| "subnodes (Node_FuncCall f) = func_call_nodes f"
| "subnodes (Node_RangeVar _) = []"
| "subnodes (Node_ColumnDef t cs) =
     (case t of None \<Rightarrow> [] | Some tn \<Rightarrow> type_name_nodes tn) @ cs"
| "subnodes (Node_Constraint _ _ cs) = cs"
| "subnodes (Node_SelectStmt s) = select_nodes s"
| "subnodes (Node_InsertStmt s) = insert_nodes s"
| "subnodes (Node_UpdateStmt s) = update_nodes s"
| "subnodes (Node_DeleteStmt s) = delete_nodes s"
| "subnodes (Node_MergeStmt r cs) = rv_nodes r @ cs"
| "subnodes (Node_CopyStmt s) = copy_nodes s"
| "subnodes (Node_ExplainStmt q os) = opt_list q @ os"
| "subnodes (Node_VariableSetStmt _ _ _ as) = as"
| "subnodes (Node_DiscardStmt _) = []"
| "subnodes (Node_TransactionStmt _) = []"
| "subnodes (Node_CreateStmt r es _ cs) = rv_nodes r @ es @ cs"
| "subnodes (Node_CreateTableAsStmt i cs) = into_nodes i @ cs"
| "subnodes (Node_ViewStmt r cs) = rv_nodes r @ cs"
| "subnodes (Node_IndexStmt r _ _ cs) = rv_nodes r @ cs"
| "subnodes (Node_RenameStmt _ r _ cs) = rv_nodes r @ cs"
| "subnodes (Node_DropStmt _ os _) = os"
| "subnodes (Node_AlterTableStmt r cs) = rv_nodes r @ cs"
| "subnodes (Node_AlterTableCmd _ d) = opt_list d"
| "subnodes (Node_Other _ cs) = cs"

text \<open>Every sub-message is smaller than its message, so the traversal terminates.\<close>

lemma in_list_size: "x \<in> set xs \<Longrightarrow> size x \<le> size_list size xs"
  by (rule size_list_estimation') auto

lemma opt_list_size: "x \<in> set (opt_list v) \<Longrightarrow> size x \<le> size_option size v"
  by (auto simp: opt_list_def split: option.splits)

lemma opt_lists_size: "x \<in> set (opt_lists v) \<Longrightarrow> size x \<le> size_option (size_list size) v"
  using in_list_size by (fastforce simp: opt_lists_def split: option.splits)

lemma rv_nodes_size: "x \<in> set (rv_nodes v) \<Longrightarrow> size x = 0" 
  by (auto simp: rv_nodes_def opt_list_def split: option.splits)

lemma into_nodes_size: "x \<in> set (into_nodes v) \<Longrightarrow> size x = 0" 
  by (auto simp: into_nodes_def rv_nodes_size split: option.splits)

lemmas field_sizes = in_list_size opt_list_size opt_lists_size 

lemma type_name_size: "x \<in> set (type_name_nodes t) \<Longrightarrow> size x < size_type_name size t"
  by (cases t) (auto simp: type_name_nodes_def dest!: field_sizes)

lemma func_call_size: "x \<in> set (func_call_nodes t) \<Longrightarrow> size x < size_func_call size t"
  by (cases t) (auto simp: func_call_nodes_def dest!: field_sizes)

lemma select_size: "x \<in> set (select_nodes t) \<Longrightarrow> size x < size_select_stmt size t"
  by (cases t) (auto simp: select_nodes_def dest!: field_sizes into_nodes_size)

lemma insert_size: "x \<in> set (insert_nodes t) \<Longrightarrow> size x < size_insert_stmt size t"
  by (cases t) (auto simp: insert_nodes_def dest!: field_sizes rv_nodes_size)

lemma update_size: "x \<in> set (update_nodes t) \<Longrightarrow> size x < size_update_stmt size t"
  by (cases t) (auto simp: update_nodes_def dest!: field_sizes rv_nodes_size)

lemma delete_size: "x \<in> set (delete_nodes t) \<Longrightarrow> size x < size_delete_stmt size t"
  by (cases t) (auto simp: delete_nodes_def dest!: field_sizes rv_nodes_size)

lemma copy_size: "x \<in> set (copy_nodes t) \<Longrightarrow> size x < size_copy_stmt size t"
  by (cases t) (auto simp: copy_nodes_def dest!: field_sizes rv_nodes_size)

lemmas node_sizes = field_sizes type_name_size func_call_size select_size insert_size update_size
  delete_size copy_size rv_nodes_size into_nodes_size

lemma subnodes_smaller [go_len]: "m \<in> set (subnodes n) \<Longrightarrow> size m < size n"
  by (cases n) (auto dest!: node_sizes split: option.splits)

function walk :: "node \<Rightarrow> node list" where
  "walk n = n # concat (map walk (subnodes n))"
  by pat_completeness auto
termination
  by (relation "measure size") (auto dest: subnodes_smaller)

declare walk.simps [simp del]

lemma walk_self [simp]: "n \<in> set (walk n)"
  by (subst walk.simps) simp

lemma walk_trans: "m \<in> set (walk n) \<Longrightarrow> k \<in> set (walk m) \<Longrightarrow> k \<in> set (walk n)"
proof (induction n rule: walk.induct)
  case (1 n)
  then show ?case
    by (subst walk.simps) (auto simp: walk.simps [of n])
qed

lemma walk_subnode: "m \<in> set (subnodes n) \<Longrightarrow> k \<in> set (walk m) \<Longrightarrow> k \<in> set (walk n)"
  by (auto simp: walk.simps [of n])

definition walk_tree :: "parse_result \<Rightarrow> node list" where
  "walk_tree tree = concat (map (\<lambda>raw. concat (map walk (opt_list raw))) tree)"

section \<open>Accessors of the generated package\<close>

text \<open>The \<^verbatim>\<open>GetX\<close> methods return nil when the receiver is nil or holds another message.\<close>

definition get_string :: "node \<Rightarrow> string option" where
  "get_string n = (case n of Node_String s \<Rightarrow> Some s | _ \<Rightarrow> None)"

definition get_list :: "node option \<Rightarrow> node list option" where
  "get_list n = (case n of Some (Node_List xs) \<Rightarrow> Some xs | _ \<Rightarrow> None)"

definition get_select :: "node option \<Rightarrow> node select_stmt option" where
  "get_select n = (case n of Some (Node_SelectStmt s) \<Rightarrow> Some s | _ \<Rightarrow> None)"

definition get_insert :: "node option \<Rightarrow> node insert_stmt option" where
  "get_insert n = (case n of Some (Node_InsertStmt s) \<Rightarrow> Some s | _ \<Rightarrow> None)"

definition get_copy :: "node option \<Rightarrow> node copy_stmt option" where
  "get_copy n = (case n of Some (Node_CopyStmt s) \<Rightarrow> Some s | _ \<Rightarrow> None)"

definition get_def_elem :: "node \<Rightarrow> (string \<times> node option) option" where
  "get_def_elem n = (case n of Node_DefElem d a \<Rightarrow> Some (d, a) | _ \<Rightarrow> None)"

lemmas get_defs = get_string_def get_list_def get_select_def get_insert_def get_copy_def get_def_elem_def

end
