(* ===== verification/Query_Router.thy ===== *)
theory Query_Router
  imports Pg_Ast Shard_Key
begin

text \<open>
  The query half of \<^verbatim>\<open>internal/router/router.go\<close>: the routing structure a statement is parsed
  into once (\<^verbatim>\<open>Prepare\<close>), its resolution against bound parameters and the current registry
  (\<^verbatim>\<open>Analyze\<close>), the reasons a read cannot be scattered, and the rewriting of an INSERT
  whose generated key is missing.  The parser and the deparser are parameters.
\<close>

record Plan =
  pl_Table :: string
  pl_Write :: bool
  pl_Sharded :: bool
  pl_Target :: string
  pl_Routed :: bool
  pl_SingleBurrow :: bool
  pl_Deterministic :: bool
  pl_ScatterError :: string

definition empty_plan :: Plan where
  "empty_plan = \<lparr>pl_Table = [], pl_Write = False, pl_Sharded = False, pl_Target = [], pl_Routed = False,
     pl_SingleBurrow = False, pl_Deterministic = False, pl_ScatterError = []\<rparr>"

record Prepared =
  pr_plan :: Plan
  pr_relation :: "range_var option"
  pr_predicate :: "node option"
  pr_insert :: "node insert_stmt option"
  pr_update :: "node update_stmt option"
  pr_physicalRelations :: nat
  pr_maximumParameter :: int
  pr_read :: bool
  pr_relations :: "string list"
  pr_scatterError :: string

type_synonym parameters = "bytes option list"

section \<open>Names, operators and constants\<close>

definition relationName :: "range_var option \<Rightarrow> string" where
  "relationName relation = (case relation of None \<Rightarrow> []
     | Some rv \<Rightarrow> if rv_schemaname rv \<noteq> [] then rv_schemaname rv @ ''.'' @ rv_relname rv else rv_relname rv)"

definition operatorName :: "node list \<Rightarrow> string" where
  "operatorName nodes = (case nodes of [n] \<Rightarrow> (case get_string n of None \<Rightarrow> [] | Some s \<Rightarrow> s) | _ \<Rightarrow> [])"

definition rowItems :: "node option \<Rightarrow> node list" where
  "rowItems n = (case n of None \<Rightarrow> []
     | Some m \<Rightarrow> (case m of Node_RowExpr args \<Rightarrow> args | Node_List items \<Rightarrow> items | _ \<Rightarrow> []))"

definition functionName :: "node list \<Rightarrow> string" where
  "functionName nodes = (case those (map get_string nodes) of None \<Rightarrow> []
     | Some parts \<Rightarrow> if parts = [] then [] else last parts)"

definition typeName :: "node type_name option \<Rightarrow> string option" where
  "typeName name = (case name of None \<Rightarrow> None
     | Some tn \<Rightarrow>
         if length (tn_names tn) = 0 \<or> length (tn_arrayBounds tn) \<noteq> 0 then None
         else map_option (join_with ''.'') (those (map get_string (tn_names tn))))"

definition validQualifier :: "string list \<Rightarrow> range_var option \<Rightarrow> bool" where
  "validQualifier parts relation = (case relation of None \<Rightarrow> False
     | Some rv \<Rightarrow>
         (case (rv_alias rv, parts) of
            (Some alias, [q]) \<Rightarrow> q = alias
          | (None, [q]) \<Rightarrow> q = rv_relname rv
          | (_, [s, q]) \<Rightarrow> s = rv_schemaname rv \<and> q = rv_relname rv
          | _ \<Rightarrow> False))"

definition columnName :: "node option \<Rightarrow> range_var option \<Rightarrow> string option" where
  "columnName n relation = (case n of
       Some (Node_ColumnRef fs) \<Rightarrow>
         if length fs = 0 \<or> length fs > 3 then None
         else (case those (map get_string fs) of None \<Rightarrow> None
           | Some parts \<Rightarrow>
               if length parts > 1 \<and> \<not> validQualifier (butlast parts) relation then None
               else Some (last parts))
     | _ \<Rightarrow> None)"

text \<open>The text of a constant and the type of its outermost cast.\<close>

function rawScalarValue :: "float_codec \<Rightarrow> node option \<Rightarrow> parameters \<Rightarrow> (string \<times> string) option" where
  "rawScalarValue ft None ps = None"
| "rawScalarValue ft (Some n) ps = (case n of
       Node_TypeCast arg tn \<Rightarrow>
         (case typeName tn of None \<Rightarrow> None
          | Some dataType \<Rightarrow>
              (case rawScalarValue ft arg ps of None \<Rightarrow> None
               | Some (value, _) \<Rightarrow>
                   (case canonicalScalar ft value dataType of None \<Rightarrow> None
                    | Some value \<Rightarrow> Some (value, dataType))))
     | Node_CollateClause arg \<Rightarrow> rawScalarValue ft arg ps
     | Node_ParamRef number \<Rightarrow>
         (let index = number - 1 in
          if index < 0 \<or> index \<ge> int (length ps) then None
          else map_option (\<lambda>v. (v, [])) (ps ! nat index))
     | Node_AConst c \<Rightarrow>
         (case c of A_Sval s \<Rightarrow> Some (s, [])
          | A_Ival i \<Rightarrow> Some (show_int i, [])
          | A_Fval s \<Rightarrow> Some (s, [])
          | A_Boolval b \<Rightarrow> Some (format_bool b, [])
          | _ \<Rightarrow> None)
     | Node_AExpr kind name lexpr rexpr \<Rightarrow>
         (if kind = AEXPR_OP \<and> lexpr = None \<and> (operatorName name = ''+'' \<or> operatorName name = ''-'')
          then map_option (\<lambda>(value, dataType). (operatorName name @ value, dataType))
                 (rawScalarValue ft rexpr ps)
          else None)
     | _ \<Rightarrow> None)"
  by pat_completeness auto
termination
  by (relation "measure (\<lambda>(ft, n, ps). size_option size n)") auto

declare rawScalarValue.simps [simp del]

definition scalarValue :: "float_codec \<Rightarrow> node option \<Rightarrow> parameters \<Rightarrow> string \<Rightarrow> string option" where
  "scalarValue ft n ps targetType = (case rawScalarValue ft n ps of None \<Rightarrow> None
     | Some (value, explicitType) \<Rightarrow>
         canonicalScalar ft value (if explicitType \<noteq> [] then explicitType else targetType))"

section \<open>Shard-key values of a statement\<close>

definition column_types :: "string list \<Rightarrow> string list \<Rightarrow> string list" where
  "column_types columns types =
     (if length types = length columns then types else replicate (length columns) [])"

definition orderedValues :: "float_codec \<Rightarrow> (string, node option) gomap \<Rightarrow> parameters
    \<Rightarrow> string list \<Rightarrow> string list \<Rightarrow> string list option" where
  "orderedValues ft values ps columns types =
     those (map (\<lambda>(column, dataType). case map_of values column of None \<Rightarrow> None
              | Some n \<Rightarrow> scalarValue ft n ps dataType) (zip columns (column_types columns types)))"

fun columns_to_items :: "node list \<Rightarrow> node list \<Rightarrow> (string, node option) gomap
    \<Rightarrow> (string, node option) gomap option" where
  "columns_to_items (Node_ResTarget name indirection v # cols) (item # items) byColumn =
     (if name = [] \<or> length indirection \<noteq> 0 then None
      else if map_of byColumn name \<noteq> None then None
      else columns_to_items cols items (AList.update name (Some item) byColumn))"
| "columns_to_items [] items byColumn = Some byColumn"
| "columns_to_items _ _ byColumn = None"

definition insertKeyValues :: "float_codec \<Rightarrow> node insert_stmt \<Rightarrow> parameters \<Rightarrow> string list
    \<Rightarrow> string list \<Rightarrow> string list option" where
  "insertKeyValues ft statement ps columns types =
     (if ins_select statement = None \<or> ins_with statement \<noteq> None then None
      else case get_select (ins_select statement) of None \<Rightarrow> None
      | Some valuesStatement \<Rightarrow>
          (case sel_valuesLists valuesStatement of
             [lst] \<Rightarrow>
               (case get_list (Some lst) of None \<Rightarrow> None
                | Some items \<Rightarrow>
                    if length items \<noteq> length (ins_cols statement) then None
                    else (case columns_to_items (ins_cols statement) items [] of None \<Rightarrow> None
                      | Some byColumn \<Rightarrow> orderedValues ft byColumn ps columns types))
           | _ \<Rightarrow> None))"

definition updatesShardKey :: "node update_stmt \<Rightarrow> string list \<Rightarrow> bool" where
  "updatesShardKey statement columns = (\<exists>n \<in> set (upd_targetList statement).
     case n of Node_ResTarget name indirection v \<Rightarrow> length indirection = 0 \<and> name \<in> set columns
     | _ \<Rightarrow> False)"

definition collectEquality :: "node option \<Rightarrow> node option \<Rightarrow> range_var option
    \<Rightarrow> (string, node option) gomap \<Rightarrow> (string, node option) gomap option" where
  "collectEquality left right relation values =
     (case (case columnName left relation of Some c \<Rightarrow> Some (c, right)
        | None \<Rightarrow> map_option (\<lambda>c. (c, left)) (columnName right relation)) of
        None \<Rightarrow> Some values
      | Some (column, value) \<Rightarrow>
          if map_of values column \<noteq> None then None
          else Some (AList.update column value values))"

fun collect_pairs :: "node list \<Rightarrow> node list \<Rightarrow> range_var option
    \<Rightarrow> (string, node option) gomap \<Rightarrow> (string, node option) gomap option" where
  "collect_pairs (l # ls) (r # rs) relation values =
     (case collectEquality (Some l) (Some r) relation values of None \<Rightarrow> None
      | Some values \<Rightarrow> collect_pairs ls rs relation values)"
| "collect_pairs _ _ relation values = Some values"

text \<open>
  \<open>None\<close> is the result \<^verbatim>\<open>false\<close>; \<open>Some\<close> carries the map that the Go code updates in
  place.
\<close>

function collectEqualities :: "node \<Rightarrow> range_var option \<Rightarrow> (string, node option) gomap
    \<Rightarrow> (string, node option) gomap option"
  and collect_items :: "node list \<Rightarrow> range_var option \<Rightarrow> (string, node option) gomap
    \<Rightarrow> (string, node option) gomap option" where
  "collectEqualities n relation values = (case n of
       Node_BoolExpr boolop args \<Rightarrow>
         (if boolop \<noteq> AND_EXPR then None else collect_items args relation values)
     | Node_AExpr kind name left right \<Rightarrow>
         (if kind \<noteq> AEXPR_OP \<or> operatorName name \<noteq> ''='' then Some values
          else (let leftRow = rowItems left; rightRow = rowItems right in
            if length leftRow \<noteq> 0 \<or> length rightRow \<noteq> 0
            then (if length leftRow = 0 \<or> length leftRow \<noteq> length rightRow then None
                  else collect_pairs leftRow rightRow relation values)
            else collectEquality left right relation values))
     | _ \<Rightarrow> Some values)"
| "collect_items [] relation values = Some values"
| "collect_items (item # items) relation values =
     (case collectEqualities item relation values of None \<Rightarrow> None
      | Some values \<Rightarrow> collect_items items relation values)"
  by pat_completeness auto
termination
  by (relation "measure (\<lambda>x. case x of Inl (n, _) \<Rightarrow> size n | Inr (ns, _) \<Rightarrow> size_list size ns)") auto

declare collectEqualities.simps [simp del]

definition predicateKeyValues :: "float_codec \<Rightarrow> node option \<Rightarrow> parameters \<Rightarrow> string list
    \<Rightarrow> string list \<Rightarrow> range_var option \<Rightarrow> string list option" where
  "predicateKeyValues ft predicate ps columns types relation =
     (case predicate of None \<Rightarrow> None
      | Some n \<Rightarrow>
          (case collectEqualities n relation [] of None \<Rightarrow> None
           | Some byColumn \<Rightarrow> orderedValues ft byColumn ps columns types))"

section \<open>Inspecting the tree\<close>

definition is_write :: "node \<Rightarrow> bool" where
  "is_write n = (case n of Node_InsertStmt _ \<Rightarrow> True | Node_UpdateStmt _ \<Rightarrow> True
     | Node_DeleteStmt _ \<Rightarrow> True | Node_MergeStmt _ _ \<Rightarrow> True | _ \<Rightarrow> False)"

definition containsWrite :: "parse_result \<Rightarrow> bool" where
  "containsWrite tree = list_ex is_write (walk_tree tree)"

definition maxParameterInTree :: "parse_result \<Rightarrow> int" where
  "maxParameterInTree tree = foldl (\<lambda>maximum n. case n of
       Node_ParamRef number \<Rightarrow> if number > maximum then number else maximum
     | _ \<Rightarrow> maximum) 0 (walk_tree tree)"

definition physicalRelationNames :: "node \<Rightarrow> string list" where
  "physicalRelationNames statement = concat (map (\<lambda>n. case n of
       Node_RangeVar rv \<Rightarrow> [relationName (Some rv)] | _ \<Rightarrow> []) (walk statement))"

definition countSelectStatements :: "node select_stmt \<Rightarrow> nat" where
  "countSelectStatements statement = length (filter (\<lambda>n. case n of Node_SelectStmt _ \<Rightarrow> True | _ \<Rightarrow> False)
     (walk (Node_SelectStmt statement)))"

definition builtin_aggregates :: "string list" where
  "builtin_aggregates = [''any_value'', ''array_agg'', ''avg'', ''bit_and'', ''bit_or'', ''bit_xor'',
     ''bool_and'', ''bool_or'', ''count'', ''every'', ''json_agg'', ''json_agg_strict'',
     ''json_arrayagg'', ''json_objectagg'', ''jsonb_agg'', ''jsonb_agg_strict'',
     ''json_object_agg'', ''json_object_agg_strict'', ''json_object_agg_unique'',
     ''json_object_agg_unique_strict'', ''jsonb_object_agg'', ''jsonb_object_agg_strict'',
     ''jsonb_object_agg_unique'', ''jsonb_object_agg_unique_strict'', ''max'', ''min'',
     ''range_agg'', ''range_intersect_agg'', ''string_agg'', ''sum'', ''xmlagg'',
     ''corr'', ''covar_pop'', ''covar_samp'', ''regr_avgx'', ''regr_avgy'', ''regr_count'',
     ''regr_intercept'', ''regr_r2'', ''regr_slope'', ''regr_sxx'', ''regr_sxy'', ''regr_syy'',
     ''stddev'', ''stddev_pop'', ''stddev_samp'', ''variance'', ''var_pop'', ''var_samp'']"

definition isBuiltInAggregateName :: "string \<Rightarrow> bool" where
  "isBuiltInAggregateName name = (to_lower name \<in> set builtin_aggregates)"

definition aggregate_call :: "node \<Rightarrow> bool" where
  "aggregate_call n = (case n of Node_FuncCall call \<Rightarrow>
       fc_over call \<noteq> None \<or> fc_aggStar call \<or> fc_aggDistinct call \<or> fc_aggFilter call \<noteq> None
       \<or> length (fc_aggOrder call) > 0 \<or> fc_aggWithinGroup call
       \<or> isBuiltInAggregateName (functionName (fc_funcname call))
     | _ \<Rightarrow> False)"

definition hasAggregateOrWindow :: "node select_stmt \<Rightarrow> bool" where
  "hasAggregateOrWindow statement = list_ex aggregate_call (walk (Node_SelectStmt statement))"

definition unsafeScatterReason :: "node select_stmt \<Rightarrow> nat \<Rightarrow> string" where
  "unsafeScatterReason statement physicalRelations =
     (if sel_op statement \<noteq> SETOP_NONE
      then ''set operations over sharded tables require a PostgreSQL-equivalent global result merge''
      else if sel_with statement \<noteq> None \<or> countSelectStatements statement > 1
      then ''CTEs and subqueries over sharded tables require a PostgreSQL-equivalent global result merge''
      else if physicalRelations > 1
      then ''joins over sharded tables require a PostgreSQL-equivalent global result merge''
      else if length (sel_distinctClause statement) > 0 \<or> sel_groupDistinct statement
      then ''DISTINCT over sharded tables requires a PostgreSQL-equivalent global result merge''
      else if hasAggregateOrWindow statement \<or> length (sel_groupClause statement) > 0
           \<or> sel_havingClause statement \<noteq> None \<or> length (sel_windowClause statement) > 0
      then ''aggregates, grouping, and window functions over sharded tables require a PostgreSQL-equivalent global result merge''
      else if length (sel_sortClause statement) > 0
      then ''ORDER BY over sharded tables requires a PostgreSQL-equivalent global result merge''
      else if sel_limitCount statement \<noteq> None \<or> sel_limitOffset statement \<noteq> None
           \<or> sel_limitOption statement \<noteq> LIMIT_OPTION_DEFAULT
      then ''LIMIT and OFFSET over sharded tables require a PostgreSQL-equivalent global result merge''
      else if length (sel_lockingClause statement) > 0
      then ''row locking over sharded tables requires a PostgreSQL-equivalent global result merge''
      else [])"

section \<open>Prepare\<close>

text \<open>Whether an EXPLAIN executes the statement: the first \<^verbatim>\<open>analyze\<close> option decides.\<close>

fun explainAnalyze :: "node list \<Rightarrow> bool" where
  "explainAnalyze [] = False"
| "explainAnalyze (optionNode # options) =
     (case get_def_elem optionNode of None \<Rightarrow> explainAnalyze options
      | Some (defname, arg) \<Rightarrow>
          if \<not> equal_fold defname ''analyze'' then explainAnalyze options
          else (case arg of None \<Rightarrow> True
            | Some v \<Rightarrow> (case v of Node_Boolean b \<Rightarrow> b
                | Node_String s \<Rightarrow> to_lower s \<notin> set [''false'', ''off'', ''no'', ''0'']
                | _ \<Rightarrow> True)))"

definition prepare_update :: "Prepared \<Rightarrow> node update_stmt \<Rightarrow> Prepared" where
  "prepare_update p u = p\<lparr>pr_plan := (pr_plan p)\<lparr>pl_Write := True\<rparr>, pr_update := Some u,
     pr_relation := upd_relation u,
     pr_predicate := (if upd_with u \<noteq> None \<or> length (upd_fromClause u) \<noteq> 0 then None else upd_whereClause u)\<rparr>"

definition prepare_delete :: "Prepared \<Rightarrow> node delete_stmt \<Rightarrow> Prepared" where
  "prepare_delete p d = p\<lparr>pr_plan := (pr_plan p)\<lparr>pl_Write := True\<rparr>, pr_relation := del_relation d,
     pr_predicate := (if del_with d \<noteq> None \<or> length (del_usingClause d) \<noteq> 0 then None else del_whereClause d)\<rparr>"

definition prepare_insert :: "Prepared \<Rightarrow> node insert_stmt \<Rightarrow> Prepared" where
  "prepare_insert p i = p\<lparr>pr_plan := (pr_plan p)\<lparr>pl_Write := True\<rparr>, pr_insert := Some i,
     pr_relation := ins_relation i\<rparr>"

definition prepare_merge :: "Prepared \<Rightarrow> range_var option \<Rightarrow> Prepared" where
  "prepare_merge p rel = p\<lparr>pr_plan := (pr_plan p)\<lparr>pl_Write := True\<rparr>, pr_relation := rel\<rparr>"

definition prepareExplainWrite :: "Prepared \<Rightarrow> node option \<Rightarrow> Prepared" where
  "prepareExplainWrite p statement = (case statement of None \<Rightarrow> p
     | Some n \<Rightarrow> (case n of Node_InsertStmt i \<Rightarrow> prepare_insert p i
         | Node_UpdateStmt u \<Rightarrow> prepare_update p u
         | Node_DeleteStmt d \<Rightarrow> prepare_delete p d
         | Node_MergeStmt rel _ \<Rightarrow> prepare_merge p rel
         | _ \<Rightarrow> p))"

definition prepare_select :: "Prepared \<Rightarrow> node select_stmt \<Rightarrow> Prepared" where
  "prepare_select p sel =
     (let p = p\<lparr>pr_read := sel_into sel = None\<rparr> in
      if sel_with sel = None \<and> sel_op sel = SETOP_NONE \<and> length (sel_fromClause sel) = 1
      then p\<lparr>pr_relation := (case sel_fromClause sel of Node_RangeVar rv # _ \<Rightarrow> Some rv | _ \<Rightarrow> None),
             pr_predicate := sel_whereClause sel\<rparr>
      else p)"

definition prepare_statement :: "Prepared \<Rightarrow> node \<Rightarrow> Prepared" where
  "prepare_statement p statement = (case statement of
       Node_InsertStmt i \<Rightarrow> prepare_insert p i
     | Node_UpdateStmt u \<Rightarrow> prepare_update p u
     | Node_DeleteStmt d \<Rightarrow> prepare_delete p d
     | Node_CopyStmt c \<Rightarrow>
         p\<lparr>pr_plan := (pr_plan p)\<lparr>pl_Write := cp_isFrom c\<rparr>, pr_relation := cp_relation c\<rparr>
     | Node_MergeStmt rel _ \<Rightarrow> prepare_merge p rel
     | Node_SelectStmt sel \<Rightarrow> prepare_select p sel
     | Node_Other name _ \<Rightarrow> if name = ''VariableShowStmt'' then p\<lparr>pr_read := True\<rparr> else p
     | Node_ExplainStmt query options \<Rightarrow>
         if explainAnalyze options \<and> pl_Write (pr_plan p) then prepareExplainWrite p query
         else p\<lparr>pr_plan := (pr_plan p)\<lparr>pl_SingleBurrow := True\<rparr>\<rparr>
     | _ \<Rightarrow> p)"

definition Prepare :: "parser \<Rightarrow> string \<Rightarrow> Prepared option" where
  "Prepare parse sql = (case parse sql of None \<Rightarrow> None
     | Some tree \<Rightarrow>
         (let p = \<lparr>pr_plan = empty_plan\<lparr>pl_Write := containsWrite tree\<rparr>, pr_relation = None,
                pr_predicate = None, pr_insert = None, pr_update = None, pr_physicalRelations = 0,
                pr_maximumParameter = maxParameterInTree tree, pr_read = False, pr_relations = [],
                pr_scatterError = []\<rparr>
          in case tree of
            [Some statement] \<Rightarrow>
              (let p = prepare_statement p statement;
                   relations = physicalRelationNames statement;
                   p = p\<lparr>pr_relations := relations, pr_physicalRelations := length relations,
                          pr_scatterError := (case get_select (Some statement) of None \<Rightarrow> []
                            | Some sel \<Rightarrow> unsafeScatterReason sel (length relations))\<rparr>
               in Some (if pr_relation p = None then p
                        else p\<lparr>pr_plan := (pr_plan p)\<lparr>pl_Table := relationName (pr_relation p)\<rparr>\<rparr>))
          | _ \<Rightarrow> Some p))"

definition MaxParameter :: "Prepared option \<Rightarrow> int" where
  "MaxParameter p = (case p of None \<Rightarrow> 0 | Some p \<Rightarrow> pr_maximumParameter p)"

definition Table :: "Prepared option \<Rightarrow> string" where
  "Table p = (case p of None \<Rightarrow> [] | Some p \<Rightarrow> pl_Table (pr_plan p))"

section \<open>Analyze\<close>

text \<open>The part of \<^verbatim>\<open>Analyze\<close> after the classification of reads.\<close>

definition analyze_relation :: "float_codec \<Rightarrow> Prepared \<Rightarrow> parameters \<Rightarrow> registry \<Rightarrow> string list \<Rightarrow> Plan" where
  "analyze_relation ft p ps r burrows =
     (let plan = pr_plan p in
      if pr_relation p = None then plan
      else
       let columns = (case ShardKey r (pl_Table plan) of None \<Rightarrow> [] | Some cs \<Rightarrow> cs);
           types = (case ShardKeyTypes r (pl_Table plan) of None \<Rightarrow> [] | Some ts \<Rightarrow> ts);
           plan = plan\<lparr>pl_Sharded := IsSharded r (pl_Table plan)\<rparr>
       in if \<not> pl_Sharded plan \<or> length columns = 0 \<or> length burrows = 0 then plan
          else if pr_physicalRelations p \<noteq> 1 then plan
          else if (case pr_insert p of None \<Rightarrow> False | Some i \<Rightarrow> ins_onConflict i \<noteq> None) then plan
          else if (case pr_update p of None \<Rightarrow> False | Some u \<Rightarrow> updatesShardKey u columns) then plan
          else case (case pr_insert p of
              Some i \<Rightarrow> insertKeyValues ft i ps columns types
            | None \<Rightarrow> predicateKeyValues ft (pr_predicate p) ps columns types (pr_relation p)) of
            None \<Rightarrow> plan
          | Some values \<Rightarrow>
              (case TargetForTableShardKey ft (pl_Table plan) values types r burrows of
                 None \<Rightarrow> plan\<lparr>pl_Target := [], pl_Routed := False\<rparr>
               | Some target \<Rightarrow> plan\<lparr>pl_Target := target, pl_Routed := True\<rparr>))"

definition reads_sharded :: "Prepared \<Rightarrow> registry \<Rightarrow> bool" where
  "reads_sharded p r = list_ex (\<lambda>table. IsSharded r table \<or> IsSharded r (CanonicalTable r table)) (pr_relations p)"

definition Analyze_prepared :: "float_codec \<Rightarrow> Prepared option \<Rightarrow> parameters \<Rightarrow> registry \<Rightarrow> string list \<Rightarrow> Plan" where
  "Analyze_prepared ft prepared ps r burrows = (case prepared of None \<Rightarrow> empty_plan
     | Some p \<Rightarrow>
         if pr_read p \<and> \<not> reads_sharded p r
         then (pr_plan p)\<lparr>pl_SingleBurrow := True,
                pl_Deterministic := \<not> list_ex (HasTable r) (pr_relations p)\<rparr>
         else (let plan = analyze_relation ft p ps r burrows in
           if pr_read p \<and> \<not> pl_Routed plan \<and> pr_scatterError p \<noteq> []
           then plan\<lparr>pl_ScatterError := pr_scatterError p\<rparr> else plan))"

definition Analyze :: "float_codec \<Rightarrow> parser \<Rightarrow> string \<Rightarrow> parameters \<Rightarrow> registry \<Rightarrow> string list \<Rightarrow> Plan option" where
  "Analyze ft parse sql ps r burrows = (case Prepare parse sql of None \<Rightarrow> None
     | Some p \<Rightarrow> Some (Analyze_prepared ft (Some p) ps r burrows))"

definition TableForSQL :: "float_codec \<Rightarrow> parser \<Rightarrow> string \<Rightarrow> string option" where
  "TableForSQL ft parse sql =
     (case Analyze ft parse sql [] (NewWithGeneratedAndTypes [] [] []) [] of None \<Rightarrow> None
      | Some plan \<Rightarrow> if pl_Table plan \<noteq> [] then Some (pl_Table plan) else None)"

definition TargetForSchema :: "float_codec \<Rightarrow> parser \<Rightarrow> string \<Rightarrow> parameters \<Rightarrow> registry \<Rightarrow> string list \<Rightarrow> string option" where
  "TargetForSchema ft parse sql ps r burrows =
     (case Analyze ft parse sql ps r burrows of None \<Rightarrow> None
      | Some plan \<Rightarrow> if pl_Routed plan then Some (pl_Target plan) else None)"

section \<open>Generated keys\<close>

record GeneratedInsert =
  gi_SQL :: string
  gi_Table :: string
  gi_Column :: string

text \<open>The target of a parsed \<^verbatim>\<open>SELECT expression\<close> always has a value.\<close>

definition parseExpression :: "parser \<Rightarrow> string \<Rightarrow> node option" where
  "parseExpression parse expression = (case parse (''SELECT '' @ expression) of
       Some [Some (Node_SelectStmt sel)] \<Rightarrow>
         (case sel_targetList sel of [Node_ResTarget _ _ v] \<Rightarrow> v | _ \<Rightarrow> None)
     | _ \<Rightarrow> None)"

definition names_column :: "string \<Rightarrow> node \<Rightarrow> bool" where
  "names_column column n = (case n of Node_ResTarget name _ _ \<Rightarrow> name = column | _ \<Rightarrow> False)"

definition rewrite_row :: "string \<Rightarrow> node list \<Rightarrow> node list \<Rightarrow> node \<Rightarrow> (node list \<times> node list) option" where
  "rewrite_row column cols items replacement =
     (let index = length (takeWhile (\<lambda>n. \<not> names_column column n) cols) in
      if index < length cols
      then (if items ! index = Node_SetToDefault then Some (cols, items[index := replacement]) else None)
      else Some (cols @ [Node_ResTarget column [] None], items @ [replacement]))"

definition with_row :: "node insert_stmt \<Rightarrow> node select_stmt \<Rightarrow> node list \<Rightarrow> node list \<Rightarrow> node insert_stmt" where
  "with_row ins sel cols items = (case (ins, sel) of
     (InsertStmt rel _ _ oc ret w,
      SelectStmt op' into wi tgt fr wh _ dc gc gd hc wc sc lo lc lopt lk args) \<Rightarrow>
       InsertStmt rel cols (Some (Node_SelectStmt
         (SelectStmt op' into wi tgt fr wh [Node_List items] dc gc gd hc wc sc lo lc lopt lk args))) oc ret w)"

definition RewriteGeneratedInsert :: "parser \<Rightarrow> (parse_result \<Rightarrow> string option) \<Rightarrow> string \<Rightarrow> registry
    \<Rightarrow> string \<Rightarrow> GeneratedInsert option" where
  "RewriteGeneratedInsert parse deparse sql r valueExpression = (case parse sql of
       Some [Some statement] \<Rightarrow>
         (case get_insert (Some statement) of None \<Rightarrow> None
          | Some ins \<Rightarrow>
              if ins_relation ins = None \<or> ins_with ins \<noteq> None then None
              else (case GeneratedPrimaryKey r (relationName (ins_relation ins)) of None \<Rightarrow> None
                | Some generated \<Rightarrow>
              (case get_select (ins_select ins) of None \<Rightarrow> None
                | Some sel \<Rightarrow>
              (case sel_valuesLists sel of [lst] \<Rightarrow>
                (case get_list (Some lst) of None \<Rightarrow> None
                 | Some items \<Rightarrow>
                     if length items \<noteq> length (ins_cols ins) then None
                     else (case parseExpression parse valueExpression of None \<Rightarrow> None
                       | Some replacement \<Rightarrow>
                     (case rewrite_row (gp_Column generated) (ins_cols ins) items replacement of None \<Rightarrow> None
                       | Some (cols, items) \<Rightarrow>
                     (case deparse [Some (Node_InsertStmt (with_row ins sel cols items))] of None \<Rightarrow> None
                       | Some rewritten \<Rightarrow> Some \<lparr>gi_SQL = rewritten,
                           gi_Table = relationName (ins_relation ins), gi_Column = gp_Column generated\<rparr>))))
               | _ \<Rightarrow> None))))
     | _ \<Rightarrow> None)"

section \<open>What a routed plan guarantees\<close>

lemma those_Some: "those xs = Some ys \<longleftrightarrow> xs = map Some ys"
proof (induction xs arbitrary: ys)
  case (Cons x xs)
  then show ?case by (cases x; cases ys) auto
qed auto

lemma orderedValues_Some:
  assumes "orderedValues ft m ps columns types = Some vs"
  shows "length vs = length columns \<and> (\<forall>i < length columns. \<exists>n. map_of m (columns ! i) = Some n
    \<and> scalarValue ft n ps (column_types columns types ! i) = Some (vs ! i))"
proof -
  let ?f = "\<lambda>(column, dataType). case map_of m column of None \<Rightarrow> None | Some n \<Rightarrow> scalarValue ft n ps dataType"
  let ?z = "zip columns (column_types columns types)"
  from assms have eq: "map ?f ?z = map Some vs" by (simp add: orderedValues_def those_Some)
  have lz: "length ?z = length columns" by (simp add: column_types_def)
  with eq have len: "length vs = length columns" by (metis length_map)
  have "\<exists>n. map_of m (columns ! i) = Some n \<and> scalarValue ft n ps (column_types columns types ! i) = Some (vs ! i)"
    if i: "i < length columns" for i
  proof -
    from i len have "Some (vs ! i) = map Some vs ! i" by simp
    also have "\<dots> = ?f (?z ! i)" using i lz by (simp flip: eq)
    also have "?z ! i = (columns ! i, column_types columns types ! i)"
      using i by (simp add: column_types_def)
    finally show ?thesis by (auto split: option.splits)
  qed
  with len show ?thesis by blast
qed

definition key_of :: "registry \<Rightarrow> string \<Rightarrow> string list" where
  "key_of r t = (case ShardKey r t of None \<Rightarrow> [] | Some cs \<Rightarrow> cs)"

definition key_types :: "registry \<Rightarrow> string \<Rightarrow> string list" where
  "key_types r t = (case ShardKeyTypes r t of None \<Rightarrow> [] | Some ts \<Rightarrow> ts)"

definition key_values :: "float_codec \<Rightarrow> Prepared \<Rightarrow> parameters \<Rightarrow> registry \<Rightarrow> string list option" where
  "key_values ft p ps r = (case pr_insert p of
       Some i \<Rightarrow> insertKeyValues ft i ps (key_of r (pl_Table (pr_plan p))) (key_types r (pl_Table (pr_plan p)))
     | None \<Rightarrow> predicateKeyValues ft (pr_predicate p) ps (key_of r (pl_Table (pr_plan p)))
                 (key_types r (pl_Table (pr_plan p))) (pr_relation p))"

definition fresh_plan :: "Prepared \<Rightarrow> bool" where
  "fresh_plan p \<longleftrightarrow> \<not> pl_Routed (pr_plan p) \<and> pl_ScatterError (pr_plan p) = [] \<and> \<not> pl_Sharded (pr_plan p)
     \<and> \<not> pl_Deterministic (pr_plan p)"

lemma prepare_statement_fresh: "fresh_plan p \<Longrightarrow> fresh_plan (prepare_statement p n)"
  by (cases n) (auto simp: prepare_statement_def prepare_insert_def prepare_update_def prepare_delete_def
      prepare_merge_def prepare_select_def prepareExplainWrite_def fresh_plan_def Let_def
      split: option.splits node.splits)

lemma Prepare_fresh: "Prepare parse sql = Some p \<Longrightarrow> fresh_plan p"
  using prepare_statement_fresh
  by (fastforce simp: Prepare_def Let_def fresh_plan_def empty_plan_def
      split: option.splits list.splits if_splits)

lemma analyze_relation_routed:
  assumes "fresh_plan p" and "pl_Routed (analyze_relation ft p ps r burrows)"
  shows "IsSharded r (pl_Table (pr_plan p)) \<and> key_of r (pl_Table (pr_plan p)) \<noteq> [] \<and> burrows \<noteq> []
    \<and> pr_physicalRelations p = 1 \<and> pr_relation p \<noteq> None
    \<and> (\<forall>i. pr_insert p = Some i \<longrightarrow> ins_onConflict i = None)
    \<and> (\<forall>u. pr_update p = Some u \<longrightarrow> \<not> updatesShardKey u (key_of r (pl_Table (pr_plan p))))
    \<and> (\<exists>vs. key_values ft p ps r = Some vs
         \<and> TargetForTableShardKey ft (pl_Table (pr_plan p)) vs (key_types r (pl_Table (pr_plan p))) r burrows
           = Some (pl_Target (analyze_relation ft p ps r burrows)))"
  using assms
  unfolding analyze_relation_def Let_def key_of_def [symmetric] key_types_def [symmetric]
  by (auto simp: fresh_plan_def key_values_def split: if_splits option.splits)

section \<open>Soundness of the collected equalities\<close>

text \<open>
  \<open>holds n\<close> says that one row satisfies the condition \<open>n\<close>, \<open>same a b\<close> that two expressions
  are equal on that row.  What PostgreSQL guarantees of them: a conjunction implies its parts,
  and an equality (of rows, component by component) implies that its sides are equal.
\<close>

definition predicate_semantics :: "(node \<Rightarrow> bool) \<Rightarrow> (node option \<Rightarrow> node option \<Rightarrow> bool) \<Rightarrow> bool" where
  "predicate_semantics holds same \<longleftrightarrow>
     (\<forall>args. holds (Node_BoolExpr AND_EXPR args) \<longrightarrow> (\<forall>a \<in> set args. holds a))
     \<and> (\<forall>name l r. operatorName name = ''='' \<and> holds (Node_AExpr AEXPR_OP name l r) \<longrightarrow>
          (if rowItems l = [] \<and> rowItems r = [] then same l r
           else length (rowItems l) = length (rowItems r) \<longrightarrow>
             list_all2 (\<lambda>a b. same (Some a) (Some b)) (rowItems l) (rowItems r)))"

definition collected_ok :: "(node option \<Rightarrow> node option \<Rightarrow> bool) \<Rightarrow> range_var option
    \<Rightarrow> (string, node option) gomap \<Rightarrow> bool" where
  "collected_ok same rel m \<longleftrightarrow> (\<forall>c v. map_of m c = Some v \<longrightarrow>
     (\<exists>n. columnName n rel = Some c \<and> (same n v \<or> same v n)))"

lemma collected_ok_empty: "collected_ok same rel []"
  by (simp add: collected_ok_def)

lemma collectEquality_ok:
  assumes "collectEquality l r rel m = Some m'" and "same l r" and "collected_ok same rel m"
  shows "collected_ok same rel m'"
  using assms
  by (auto simp: collectEquality_def collected_ok_def split: option.splits if_splits) blast+

lemma collect_pairs_ok:
  assumes "collect_pairs ls rs rel m = Some m'" and "list_all2 (\<lambda>a b. same (Some a) (Some b)) ls rs"
    and "collected_ok same rel m"
  shows "collected_ok same rel m'"
  using assms
proof (induction ls rs rel m rule: collect_pairs.induct)
  case (1 l ls r rs rel m)
  then show ?case by (auto split: option.splits intro: collectEquality_ok)
qed auto

lemma collect_ok:
  assumes sem: "predicate_semantics holds same"
  shows "collectEqualities n rel m = Some m' \<Longrightarrow> holds n \<Longrightarrow> collected_ok same rel m \<Longrightarrow> collected_ok same rel m'"
    and "collect_items ns rel m = Some m' \<Longrightarrow> \<forall>x \<in> set ns. holds x \<Longrightarrow> collected_ok same rel m
      \<Longrightarrow> collected_ok same rel m'"
proof (induction n rel m and ns rel m arbitrary: m' and m' rule: collectEqualities_collect_items.induct)
  case (1 n rel m)
  show ?case
  proof (cases "\<exists>b args. n = Node_BoolExpr b args")
    case True
    with 1 sem show ?thesis
      by (auto simp: collectEqualities.simps [of n] predicate_semantics_def split: if_splits)
  next
    case nb: False
    show ?thesis
    proof (cases "\<exists>name l r. n = Node_AExpr AEXPR_OP name l r \<and> operatorName name = ''=''")
      case True
      then obtain name l r where n: "n = Node_AExpr AEXPR_OP name l r" "operatorName name = ''=''" by blast
      with 1(3) sem have h: "if rowItems l = [] \<and> rowItems r = [] then same l r
          else length (rowItems l) = length (rowItems r) \<longrightarrow>
             list_all2 (\<lambda>a b. same (Some a) (Some b)) (rowItems l) (rowItems r)"
        unfolding predicate_semantics_def by blast
      from 1(2) n have "(if rowItems l = [] \<and> rowItems r = [] then collectEquality l r rel m
          else if rowItems l = [] \<or> length (rowItems l) \<noteq> length (rowItems r) then None
          else collect_pairs (rowItems l) (rowItems r) rel m) = Some m'"
        by (auto simp: collectEqualities.simps [of "Node_AExpr AEXPR_OP name l r"] Let_def split: if_splits)
      with h 1(4) show ?thesis
        by (auto split: if_splits intro: collectEquality_ok collect_pairs_ok)
    next
      case False
      with nb 1(2) [unfolded collectEqualities.simps [of n]] have "m' = m"
        by (cases n) (auto split: if_splits)
      with 1(4) show ?thesis by simp
    qed
  qed
next
  case (3 n ns rel m)
  then show ?case by (auto split: option.splits)
qed auto

text \<open>
  \<open>row c\<close> is the text of column \<open>c\<close> in the row.  Equality on a key column is equality of
  canonical texts for the column's type.
\<close>

definition key_semantics :: "float_codec \<Rightarrow> parameters \<Rightarrow> (node option \<Rightarrow> node option \<Rightarrow> bool)
    \<Rightarrow> range_var option \<Rightarrow> string list \<Rightarrow> string list \<Rightarrow> (string \<Rightarrow> string) \<Rightarrow> bool" where
  "key_semantics ft ps same rel columns types row \<longleftrightarrow> (\<forall>n v c ty x.
     (c, ty) \<in> set (zip columns (column_types columns types))
     \<and> columnName n rel = Some c \<and> (same n v \<or> same v n) \<and> scalarValue ft v ps ty = Some x
     \<longrightarrow> canonicalScalar ft (row c) ty = canonicalScalar ft x ty)"

lemma canonical_tuple_cong:
  assumes "length as = length bs"
    and "\<forall>i < length as. canonicalScalar ft (as ! i) (if i < length ts then ts ! i else [])
      = canonicalScalar ft (bs ! i) (if i < length ts then ts ! i else [])"
  shows "canonical_tuple ft as ts = canonical_tuple ft bs ts"
  using assms
proof (induction as bs arbitrary: ts rule: list_induct2)
  case (Cons a as b bs)
  have hd: "canonicalScalar ft a (case ts of [] \<Rightarrow> [] | ty # _ \<Rightarrow> ty)
      = canonicalScalar ft b (case ts of [] \<Rightarrow> [] | ty # _ \<Rightarrow> ty)"
    using Cons.prems [THEN spec, of 0] by (cases ts) auto
  have "\<forall>i < length as. canonicalScalar ft (as ! i) (if i < length (tl ts) then tl ts ! i else [])
      = canonicalScalar ft (bs ! i) (if i < length (tl ts) then tl ts ! i else [])"
  proof (intro allI impI)
    fix i assume "i < length as"
    with Cons.prems [THEN spec, of "Suc i"]
    show "canonicalScalar ft (as ! i) (if i < length (tl ts) then tl ts ! i else [])
      = canonicalScalar ft (bs ! i) (if i < length (tl ts) then tl ts ! i else [])"
      by (cases ts) auto
  qed
  from Cons.IH [OF this] hd show ?case by (simp split: option.split)
qed simp

lemma predicate_target:
  assumes sem: "predicate_semantics holds same" "key_semantics ft ps same rel columns types row"
    and "predicateKeyValues ft (Some w) ps columns types rel = Some vs" and "holds w"
    and t: "TargetForTableShardKey ft t vs types r burrows = Some b"
  shows "TargetForTableShardKey ft t (map row columns) types r burrows = Some b"
proof -
  from assms(3) obtain m where m: "collectEqualities w rel [] = Some m"
    and o: "orderedValues ft m ps columns types = Some vs"
    by (auto simp: predicateKeyValues_def split: option.splits)
  have ok: "collected_ok same rel m"
    using collect_ok(1) [OF sem(1) m assms(4)] by (simp add: collected_ok_empty)
  note ov = orderedValues_Some [OF o]
  from t have len: "types = [] \<or> length vs = length types"
    by (auto simp: TargetForTableShardKey_def split: if_splits)
  have "canonicalScalar ft (row (columns ! i)) (if i < length types then types ! i else [])
      = canonicalScalar ft (vs ! i) (if i < length types then types ! i else [])"
    if i: "i < length columns" for i
  proof -
    have ty: "(if i < length types then types ! i else []) = column_types columns types ! i"
      using len ov i by (auto simp: column_types_def)
    from ov i obtain v where "map_of m (columns ! i) = Some v"
      and s: "scalarValue ft v ps (column_types columns types ! i) = Some (vs ! i)" by blast
    with ok obtain n where "columnName n rel = Some (columns ! i)" "same n v \<or> same v n"
      unfolding collected_ok_def by blast
    moreover have "(columns ! i, column_types columns types ! i) \<in> set (zip columns (column_types columns types))"
      using i by (auto simp: set_zip column_types_def)
    ultimately have "canonicalScalar ft (row (columns ! i)) (column_types columns types ! i)
        = canonicalScalar ft (vs ! i) (column_types columns types ! i)"
      using s sem(2) unfolding key_semantics_def by blast
    then show ?thesis by (simp only: ty)
  qed
  with ov have "canonical_tuple ft (map row columns) types = canonical_tuple ft vs types"
    by (intro canonical_tuple_cong) auto
  moreover from ov have "length (map row columns) = length vs" by simp
  ultimately show ?thesis using t unfolding TargetForTableShardKey_def by (simp only:)
qed

lemma rewrite_row_spec:
  assumes "length cols = length items" and "rewrite_row column cols items replacement = Some (cols', items')"
  shows "length cols' = length items'
    \<and> (\<exists>i < length cols'. names_column column (cols' ! i) \<and> items' ! i = replacement)
    \<and> (\<forall>i < length cols. cols' ! i = cols ! i \<and> (\<not> names_column column (cols ! i) \<longrightarrow> items' ! i = items ! i))"
proof -
  let ?k = "length (takeWhile (\<lambda>n. \<not> names_column column n) cols)"
  show ?thesis
  proof (cases "?k < length cols")
    case True
    then have "names_column column (cols ! ?k)" using nth_length_takeWhile by blast
    with True assms show ?thesis
      by (auto simp: rewrite_row_def Let_def nth_list_update split: if_splits)
  next
    case False
    with assms show ?thesis
      by (auto simp: rewrite_row_def Let_def nth_append names_column_def split: if_splits)
  qed
qed

section \<open>Properties\<close>

text \<open>C2. A plan is routed only when the statement touches exactly one physical relation, that
  relation is sharded, an INSERT has no ON CONFLICT clause, an UPDATE assigns no shard-key
  column, and a constant was found for every key column; the target is then the owner of that
  tuple.\<close>

theorem routed_plan_is_safe:
  assumes "Prepare parse sql = Some p" and "plan = Analyze_prepared ft (Some p) ps r burrows"
    and "pl_Routed plan"
  shows "IsSharded r (pl_Table plan) \<and> pr_physicalRelations p = 1 \<and> pl_ScatterError plan = []
    \<and> (\<forall>i. pr_insert p = Some i \<longrightarrow> ins_onConflict i = None)
    \<and> (\<forall>u. pr_update p = Some u \<longrightarrow> \<not> updatesShardKey u (key_of r (pl_Table plan)))
    \<and> (\<exists>vs. key_values ft p ps r = Some vs \<and> length vs = length (key_of r (pl_Table plan))
         \<and> TargetForTableShardKey ft (pl_Table plan) vs (key_types r (pl_Table plan)) r burrows
           = Some (pl_Target plan))"
proof -
  have fresh: "fresh_plan p" by (rule Prepare_fresh [OF assms(1)])
  have plan: "plan = analyze_relation ft p ps r burrows"
    using assms(2,3) fresh by (auto simp: Analyze_prepared_def Let_def fresh_plan_def split: if_splits)
  have keep: "pl_Table plan = pl_Table (pr_plan p)" "pl_ScatterError plan = []"
    using fresh by (auto simp: plan analyze_relation_def Let_def fresh_plan_def split: option.splits)
  have "pl_Routed (analyze_relation ft p ps r burrows)" using assms(3) plan by simp
  note ar = analyze_relation_routed [OF fresh this, folded plan]
  moreover have "length vs = length (key_of r (pl_Table (pr_plan p)))" if "key_values ft p ps r = Some vs" for vs
    using that orderedValues_Some
    by (fastforce simp: key_values_def insertKeyValues_def predicateKeyValues_def
        split: option.splits if_splits list.splits)
  ultimately show ?thesis using keep by auto
qed

definition sample_insert :: node where
  "sample_insert = Node_InsertStmt (InsertStmt
     (Some \<lparr>rv_schemaname = ''public'', rv_relname = ''users'', rv_relpersistence = ''p'', rv_alias = None\<rparr>)
     [Node_ResTarget ''name'' [] None, Node_ResTarget ''id'' [] None]
     (Some (Node_SelectStmt (SelectStmt SETOP_NONE None None [] [] None
        [Node_List [Node_AConst (A_Sval ''x''), Node_ParamRef 1]] [] [] False None [] [] None None
        LIMIT_OPTION_DEFAULT [] []))) None [] None)"

definition sample_delete :: node where
  "sample_delete = Node_DeleteStmt (DeleteStmt
     (Some \<lparr>rv_schemaname = ''public'', rv_relname = ''users'', rv_relpersistence = ''p'', rv_alias = Some ''u''\<rparr>)
     [] (Some (Node_BoolExpr AND_EXPR
       [Node_AExpr AEXPR_OP [Node_String ''=''] (Some (Node_ColumnRef [Node_String ''u'', Node_String ''id'']))
          (Some (Node_AConst (A_Ival 7))),
        Node_ColumnRef [Node_String ''active'']])) [] None)"

definition sample_parser :: parser where
  "sample_parser sql = (if sql = ''i'' then Some [Some sample_insert]
     else if sql = ''d'' then Some [Some sample_delete] else None)"

definition sample_prepared :: "string \<Rightarrow> Prepared" where
  "sample_prepared sql = the (Prepare sample_parser sql)"

theorem routed_plan_is_safe_witness:
  "\<exists>plan. plan = Analyze_prepared (\<lambda>b s. None) (Some (sample_prepared ''i'')) [Some ''07''] sample_registry [''a'', ''b'']
    \<and> pl_Routed plan \<and> IsSharded sample_registry (pl_Table plan)"
proof -
  let ?plan = "Analyze_prepared (\<lambda>b s. None) (Some (sample_prepared ''i'')) [Some ''07''] sample_registry [''a'', ''b'']"
  have p: "Prepare sample_parser ''i'' = Some (sample_prepared ''i'')" and r: "pl_Routed ?plan" by code_simp+
  from routed_plan_is_safe [OF p refl r] r show ?thesis by blast
qed



text \<open>C3. A read of a sharded table that is neither routed nor refused is safe to send to every
  Burrow and concatenate: it is a single plain SELECT over at most one relation, without set
  operation, CTE, subquery, DISTINCT, grouping, aggregate, window, ordering, limit or lock.\<close>

theorem scattered_read_is_plain:
  assumes "parse sql = Some [Some (Node_SelectStmt sel)]" and "Prepare parse sql = Some p"
    and "plan = Analyze_prepared ft (Some p) ps r burrows"
    and "sel_into sel = None" and "reads_sharded p r" and "\<not> pl_Routed plan" and "pl_ScatterError plan = []"
  shows "sel_op sel = SETOP_NONE \<and> sel_with sel = None \<and> countSelectStatements sel \<le> 1
    \<and> length (physicalRelationNames (Node_SelectStmt sel)) \<le> 1
    \<and> sel_distinctClause sel = [] \<and> \<not> sel_groupDistinct sel \<and> sel_groupClause sel = []
    \<and> sel_havingClause sel = None \<and> sel_windowClause sel = [] \<and> sel_sortClause sel = []
    \<and> sel_limitCount sel = None \<and> sel_limitOffset sel = None \<and> sel_limitOption sel = LIMIT_OPTION_DEFAULT
    \<and> sel_lockingClause sel = []
    \<and> (\<forall>n \<in> set (walk (Node_SelectStmt sel)). \<not> aggregate_call n)"
proof -
  have p: "pr_read p" "pr_scatterError p = unsafeScatterReason sel (length (physicalRelationNames (Node_SelectStmt sel)))"
    using assms(1,2,4)
    by (auto simp: Prepare_def Let_def prepare_statement_def prepare_select_def get_select_def split: if_splits)
  with assms(3,5-7) have "pr_scatterError p = []"
    by (auto simp: Analyze_prepared_def Let_def split: if_splits)
  with p(2) show ?thesis
    by (auto simp: unsafeScatterReason_def hasAggregateOrWindow_def list_ex_iff not_less split: if_splits)
qed

definition sample_scan :: "node select_stmt" where
  "sample_scan = SelectStmt SETOP_NONE None None [Node_ResTarget [] [] (Some (Node_ColumnRef [Node_String ''id'']))]
     [Node_RangeVar \<lparr>rv_schemaname = [], rv_relname = ''users'', rv_relpersistence = ''p'', rv_alias = None\<rparr>]
     None [] [] [] False None [] [] None None LIMIT_OPTION_DEFAULT [] []"

theorem scattered_read_is_plain_witness:
  "sel_sortClause sample_scan = [] \<and> \<not> pl_Routed (Analyze_prepared (\<lambda>b s. None)
     (Prepare (\<lambda>s. Some [Some (Node_SelectStmt sample_scan)]) ''s'') [] sample_registry [''a''])"
proof -
  let ?parse = "\<lambda>s. Some [Some (Node_SelectStmt sample_scan)]"
  let ?p = "the (Prepare ?parse ''s'')"
  let ?plan = "Analyze_prepared (\<lambda>b s. None) (Some ?p) [] sample_registry [''a'']"
  have p: "Prepare ?parse ''s'' = Some ?p" by code_simp
  have h: "sel_into sample_scan = None" "reads_sharded ?p sample_registry" "\<not> pl_Routed ?plan"
    "pl_ScatterError ?plan = []" by code_simp+
  have "sel_sortClause sample_scan = []"
    using scattered_read_is_plain [OF refl p refl h] by blast
  with h(3) p show ?thesis by simp
qed

text \<open>Supplying a generated key changes nothing else of the INSERT: the new column list and row
  are aligned, the generated column holds exactly the supplied expression, and every other
  column keeps its expression; a row that already has a value for it is not rewritten.\<close>

theorem rewrite_keeps_other_columns:
  assumes "length cols = length items" and "rewrite_row column cols items replacement = Some (cols', items')"
  shows "length cols' = length items'
    \<and> (\<exists>i < length cols'. names_column column (cols' ! i) \<and> items' ! i = replacement)
    \<and> (\<forall>i < length cols. cols' ! i = cols ! i \<and> (\<not> names_column column (cols ! i) \<longrightarrow> items' ! i = items ! i))"
  using assms by (rule rewrite_row_spec)

theorem rewrite_keeps_other_columns_witness:
  "\<exists>cols' items'. rewrite_row ''id'' [Node_ResTarget ''n'' [] None] [Node_AConst (A_Ival 1)] (Node_ParamRef 2) = Some (cols', items')
     \<and> length cols' = length items' \<and> items' ! 0 = Node_AConst (A_Ival 1)"
proof -
  obtain cols' items' where rw: "rewrite_row ''id'' [Node_ResTarget ''n'' [] None] [Node_AConst (A_Ival 1)]
      (Node_ParamRef 2) = Some (cols', items')"
    by (simp add: rewrite_row_def names_column_def)
  from rewrite_keeps_other_columns [OF _ rw] rw show ?thesis by (auto simp: names_column_def)
qed

end
