(* ===== verification/Ddl_Normalize.thy ===== *)
theory Ddl_Normalize
  imports Pg_Ast
begin

text \<open>
  The package \<^verbatim>\<open>internal/ddl\<close>: every generated integer column of a schema statement is rewritten to
  \<^verbatim>\<open>BIGINT GENERATED BY DEFAULT AS IDENTITY\<close> before the statement reaches a Burrow.  The parse tree is
  changed in place by the code; here each operation returns the changed node and whether it changed.
\<close>

record ddl_result =
  nr_SQL :: string
  nr_Schema :: bool
  nr_Changed :: bool

definition lastTypeName :: "node type_name \<Rightarrow> string" where
  "lastTypeName value = (if tn_names value = [] then [] else (case get_string (last (tn_names value)) of None \<Rightarrow> [] | Some s \<Rightarrow> s))"

definition serialType :: "node type_name \<Rightarrow> bool" where
  "serialType value = (lastTypeName value
     \<in> set [''serial'', ''serial2'', ''serial4'', ''serial8'', ''smallserial'', ''bigserial''])"

definition bigintType :: "node type_name \<Rightarrow> bool" where
  "bigintType value = (lastTypeName value = ''int8'' \<or> lastTypeName value = ''bigint'')"

definition is_identity :: "node \<Rightarrow> bool" where
  "is_identity n = (case n of Node_Constraint CONSTR_IDENTITY _ _ \<Rightarrow> True | _ \<Rightarrow> False)"

text \<open>The \<^verbatim>\<open>GeneratedWhen\<close> of the first identity constraint, and its update in place.\<close>

fun identityConstraint :: "node list \<Rightarrow> string option" where
  "identityConstraint [] = None"
| "identityConstraint (n # nodes) = (case n of Node_Constraint CONSTR_IDENTITY when _ \<Rightarrow> Some when | _ \<Rightarrow> identityConstraint nodes)"

fun set_identity :: "node list \<Rightarrow> node list" where
  "set_identity [] = []"
| "set_identity (n # nodes) = (case n of Node_Constraint CONSTR_IDENTITY when args \<Rightarrow> Node_Constraint CONSTR_IDENTITY ''d'' args # nodes
     | _ \<Rightarrow> n # set_identity nodes)"

definition constraintNode :: node where
  "constraintNode = Node_Constraint CONSTR_IDENTITY ''d'' []"

definition int8_type :: "node type_name \<Rightarrow> node type_name" where
  "int8_type value = TypeName [Node_String ''pg_catalog'', Node_String ''int8''] (tn_arrayBounds value) (tn_typmods value)"

definition normalizeColumnDefinition :: "node \<Rightarrow> node \<times> bool" where
  "normalizeColumnDefinition column = (case column of
       Node_ColumnDef (Some typeName) constraints \<Rightarrow>
         if serialType typeName then (Node_ColumnDef (Some (int8_type typeName)) (constraints @ [constraintNode]), True)
         else (case identityConstraint constraints of None \<Rightarrow> (column, False)
           | Some when \<Rightarrow>
               (Node_ColumnDef (Some (if bigintType typeName then typeName else int8_type typeName))
                  (if when \<noteq> ''d'' then set_identity constraints else constraints),
                \<not> bigintType typeName \<or> when \<noteq> ''d''))
     | _ \<Rightarrow> (column, False))"

definition int32_d :: int where
  "int32_d = 100"

definition normalize_generated :: "node \<Rightarrow> node \<times> bool" where
  "normalize_generated item = (case item of
       Node_DefElem defname (Some (Node_Integer ival)) \<Rightarrow>
         if defname = ''generated'' \<and> ival \<noteq> int32_d then (Node_DefElem defname (Some (Node_Integer int32_d)), True) else (item, False)
     | _ \<Rightarrow> (item, False))"

text \<open>A loop over nodes that changes some of them.\<close>

definition each_node :: "(node \<Rightarrow> node \<times> bool) \<Rightarrow> node list \<Rightarrow> node list \<times> bool" where
  "each_node f nodes = (map (fst \<circ> f) nodes, list_ex (snd \<circ> f) nodes)"

definition normalize_command :: "node \<Rightarrow> node \<times> bool" where
  "normalize_command command = (case command of
       Node_AlterTableCmd AT_AddColumn (Some def) \<Rightarrow> map_prod (\<lambda>d. Node_AlterTableCmd AT_AddColumn (Some d)) id (normalizeColumnDefinition def)
     | Node_AlterTableCmd AT_AddIdentity (Some (Node_Constraint ctype when args)) \<Rightarrow>
         if when \<noteq> ''d'' then (Node_AlterTableCmd AT_AddIdentity (Some (Node_Constraint ctype ''d'' args)), True) else (command, False)
     | Node_AlterTableCmd AT_SetIdentity (Some (Node_List items)) \<Rightarrow>
         map_prod (\<lambda>is. Node_AlterTableCmd AT_SetIdentity (Some (Node_List is))) id (each_node normalize_generated items)
     | _ \<Rightarrow> (command, False))"

definition normalize_statement :: "node \<Rightarrow> node \<times> bool" where
  "normalize_statement statement = (case statement of
       Node_CreateStmt rel elts oncommit constrs \<Rightarrow> map_prod (\<lambda>es. Node_CreateStmt rel es oncommit constrs) id (each_node normalizeColumnDefinition elts)
     | Node_AlterTableStmt rel cmds \<Rightarrow> map_prod (\<lambda>cs. Node_AlterTableStmt rel cs) id (each_node normalize_command cmds)
     | _ \<Rightarrow> (statement, False))"

definition is_schema_statement :: "node \<Rightarrow> bool" where
  "is_schema_statement statement = (case statement of Node_CreateStmt _ _ _ _ \<Rightarrow> True | Node_AlterTableStmt _ _ \<Rightarrow> True | _ \<Rightarrow> False)"

definition normalize_tree :: "parse_result \<Rightarrow> parse_result \<times> bool" where
  "normalize_tree tree = (map (map_option (fst \<circ> normalize_statement)) tree,
     list_ex (\<lambda>raw. case raw of None \<Rightarrow> False | Some s \<Rightarrow> snd (normalize_statement s)) tree)"

datatype ddl_error = ParseFailed | DeparseFailed

definition Normalize :: "parser \<Rightarrow> (parse_result \<Rightarrow> string option) \<Rightarrow> string \<Rightarrow> ddl_error + ddl_result" where
  "Normalize parse deparse sql = (case parse sql of None \<Rightarrow> Inl ParseFailed
     | Some tree \<Rightarrow>
         (let schema = list_ex (\<lambda>raw. case raw of None \<Rightarrow> False | Some s \<Rightarrow> is_schema_statement s) tree;
              (tree', changed) = normalize_tree tree in
          if changed then (case deparse tree' of None \<Rightarrow> Inl DeparseFailed
            | Some out \<Rightarrow> Inr \<lparr>nr_SQL = out, nr_Schema = schema, nr_Changed = True\<rparr>)
          else Inr \<lparr>nr_SQL = sql, nr_Schema = schema, nr_Changed = False\<rparr>))"

section \<open>Laws\<close>

text \<open>What the generated-key contract asks of a column: no serial type, and an identity column is a
  \<^verbatim>\<open>bigint\<close> generated by default.\<close>

definition column_contract :: "node \<Rightarrow> bool" where
  "column_contract column = (case column of
       Node_ColumnDef (Some typeName) constraints \<Rightarrow>
         \<not> serialType typeName
         \<and> (case identityConstraint constraints of None \<Rightarrow> True | Some when \<Rightarrow> bigintType typeName \<and> when = ''d'')
     | _ \<Rightarrow> True)"

lemma int8_type_name [simp]: "lastTypeName (int8_type value) = ''int8''"
  by (simp add: lastTypeName_def int8_type_def get_string_def)

lemma identityConstraint_set [simp]:
  "identityConstraint (set_identity constraints) = map_option (\<lambda>_. ''d'') (identityConstraint constraints)"
  by (induction constraints rule: set_identity.induct) (auto split: node.splits constr_type.splits)

lemma identityConstraint_append:
  "identityConstraint (a @ b) = (case identityConstraint a of None \<Rightarrow> identityConstraint b | Some w \<Rightarrow> Some w)"
  by (induction a rule: identityConstraint.induct) (auto split: node.splits constr_type.splits)


text \<open>A column that is serial and also carries an identity constraint of another kind, which PostgreSQL
  refuses, keeps that constraint first.\<close>

definition mixed_column :: "node \<Rightarrow> bool" where
  "mixed_column column = (case column of
       Node_ColumnDef (Some typeName) constraints \<Rightarrow>
         serialType typeName \<and> identityConstraint constraints \<notin> {None, Some ''d''}
     | _ \<Rightarrow> False)"

definition columns_of :: "node \<Rightarrow> node list" where
  "columns_of statement = (case statement of Node_CreateStmt _ elts _ _ \<Rightarrow> elts
     | Node_AlterTableStmt _ cmds \<Rightarrow> concat (map (\<lambda>c. case c of Node_AlterTableCmd AT_AddColumn (Some d) \<Rightarrow> [d] | _ \<Rightarrow> []) cmds)
     | _ \<Rightarrow> [])"

definition walk_columns :: "parse_result \<Rightarrow> node list" where
  "walk_columns tree = concat (map (\<lambda>raw. concat (map columns_of (opt_list raw))) tree)"

lemma column_contract_fixed: "column_contract column \<Longrightarrow> normalizeColumnDefinition column = (column, False)"
  by (auto simp: column_contract_def normalizeColumnDefinition_def split: node.splits option.splits)

lemma normalize_column_contract:
  "\<not> mixed_column column \<Longrightarrow> column_contract (fst (normalizeColumnDefinition column))"
  by (auto simp: mixed_column_def column_contract_def normalizeColumnDefinition_def constraintNode_def serialType_def
      bigintType_def identityConstraint_append split: node.splits option.splits)

text \<open>A rewriting step settles a node when a second application changes nothing.\<close>

definition settles :: "(node \<Rightarrow> node \<times> bool) \<Rightarrow> node \<Rightarrow> bool" where
  "settles f n = (f (fst (f n)) = (fst (f n), False) \<and> (\<not> snd (f n) \<longrightarrow> fst (f n) = n))"

lemma each_node_settles:
  assumes "\<forall>n \<in> set nodes. settles f n"
  shows "each_node f (fst (each_node f nodes)) = (fst (each_node f nodes), False)"
    and "\<not> snd (each_node f nodes) \<Longrightarrow> fst (each_node f nodes) = nodes"
  using assms by (auto simp: each_node_def settles_def list_ex_iff map_idI)

lemma column_settles: "\<not> mixed_column column \<Longrightarrow> settles normalizeColumnDefinition column"
  unfolding settles_def
proof
  assume m: "\<not> mixed_column column"
  show "normalizeColumnDefinition (fst (normalizeColumnDefinition column)) = (fst (normalizeColumnDefinition column), False)"
    by (rule column_contract_fixed[OF normalize_column_contract[OF m]])
  show "\<not> snd (normalizeColumnDefinition column) \<longrightarrow> fst (normalizeColumnDefinition column) = column"
    by (auto simp: normalizeColumnDefinition_def split: node.splits option.splits)
qed

lemma generated_settles: "settles normalize_generated item"
  by (auto simp: settles_def normalize_generated_def int32_d_def split: node.splits option.splits)

lemma settles_map:
  assumes "\<And>x. wrap x = wrap y \<longleftrightarrow> x = y"
  shows "map_prod wrap id p = (wrap y, False) \<longleftrightarrow> p = (y, False)"
  using assms by (cases p) auto

lemma command_settles:
  assumes "\<forall>d \<in> set (case command of Node_AlterTableCmd AT_AddColumn (Some d) \<Rightarrow> [d] | _ \<Rightarrow> []). \<not> mixed_column d"
  shows "settles normalize_command command"
proof -
  consider (add) def where "command = Node_AlterTableCmd AT_AddColumn (Some def)"
    | (identity) ctype gw args where "command = Node_AlterTableCmd AT_AddIdentity (Some (Node_Constraint ctype gw args))"
    | (set) items where "command = Node_AlterTableCmd AT_SetIdentity (Some (Node_List items))"
    | (other) "normalize_command command = (command, False)"
  proof (cases command)
    case (Node_AlterTableCmd kind def)
    then show thesis
      using that by (cases kind; cases def; cases "the def") (auto simp: normalize_command_def)
  qed (use that(4) in \<open>simp_all add: normalize_command_def\<close>)
  then show ?thesis
  proof cases
    case add
    with assms have "settles normalizeColumnDefinition def" by (intro column_settles) auto
    then show ?thesis using add by (auto simp: settles_def normalize_command_def)
  next
    case set
    note s = each_node_settles[of items normalize_generated]
    show ?thesis using s set generated_settles by (auto simp: settles_def normalize_command_def)
  qed (auto simp: settles_def normalize_command_def)
qed

lemma statement_settles:
  assumes "\<forall>d \<in> set (columns_of statement). \<not> mixed_column d"
  shows "settles normalize_statement statement"
proof -
  consider (create) rel elts oc cs where "statement = Node_CreateStmt rel elts oc cs"
    | (alter) rel cmds where "statement = Node_AlterTableStmt rel cmds"
    | (other) "normalize_statement statement = (statement, False)"
    by (cases statement) (auto simp: normalize_statement_def)
  then show ?thesis
  proof cases
    case create
    then have "\<forall>n \<in> set elts. settles normalizeColumnDefinition n" using assms column_settles by (auto simp: columns_of_def)
    from each_node_settles[OF this] create show ?thesis by (auto simp: settles_def normalize_statement_def)
  next
    case alter
    then have "\<forall>n \<in> set cmds. settles normalize_command n" using assms command_settles by (auto simp: columns_of_def)
    from each_node_settles[OF this] alter show ?thesis by (auto simp: settles_def normalize_statement_def)
  qed (simp add: settles_def)
qed

lemma statement_contract:
  assumes "\<forall>d \<in> set (columns_of statement). \<not> mixed_column d" and "c \<in> set (columns_of (fst (normalize_statement statement)))"
  shows "column_contract c"
proof -
  have cmd: "\<exists>d0. m = Node_AlterTableCmd AT_AddColumn (Some d0) \<and> d = fst (normalizeColumnDefinition d0)"
    if "fst (normalize_command m) = Node_AlterTableCmd AT_AddColumn (Some d)" for m d
    using that by (auto simp: normalize_command_def split: node.splits option.splits alter_table_type.splits if_splits)
  show ?thesis
    using assms
    by (auto simp: columns_of_def normalize_statement_def each_node_def normalize_column_contract
        split: node.splits option.splits alter_table_type.splits dest!: cmd[OF sym])
qed

lemma is_schema_normalized [simp]: "is_schema_statement (fst (normalize_statement s)) = is_schema_statement s"
  by (auto simp: is_schema_statement_def normalize_statement_def each_node_def split: node.splits)



text \<open>\<^verbatim>\<open>CREATE TABLE t (a serial, b text)\<close> with a parser and a deparser that know this statement.\<close>

definition sample_column :: "string \<Rightarrow> node list \<Rightarrow> node" where
  "sample_column ty cs = Node_ColumnDef (Some (TypeName [Node_String ty] [] [])) cs"

definition sample_create :: "node list \<Rightarrow> parse_result" where
  "sample_create cols = [Some (Node_CreateStmt None cols ONCOMMIT_NOOP [])]"

definition sample_before :: parse_result where
  "sample_before = sample_create [sample_column ''serial'' [], sample_column ''text'' []]"

definition sample_after :: parse_result where
  "sample_after = fst (normalize_tree sample_before)"

definition sample_ddl_parser :: parser where
  "sample_ddl_parser sql = (if sql = ''before'' then Some sample_before else if sql = ''after'' then Some sample_after else None)"

definition sample_ddl_deparser :: "parse_result \<Rightarrow> string option" where
  "sample_ddl_deparser t = (if t = sample_after then Some ''after'' else None)"


end
