(* ===== verification/Proxy_Route.thy ===== *)
theory Proxy_Route
  imports Query_Router Ddl_Normalize "HOL-Library.Word" "HOL-Library.Multiset"
begin

text \<open>
  The decisions of \<^verbatim>\<open>internal/proxy/server.go\<close> that depend on a statement alone: its keyword, its
  classification as fleet-wide, server-local or temporary DDL, the checks of atomic fleet DDL, and the
  routing decision made of the router's plan.  \<open>explainAnalyze\<close> is the router's, which the Proxy repeats
  word for word.  The random bytes of \<^verbatim>\<open>randomBurrow\<close> are a parameter.
\<close>

section \<open>Keywords\<close>

fun index_sub :: "string \<Rightarrow> string \<Rightarrow> nat option" where
  "index_sub [] p = (if p = [] then Some 0 else None)"
| "index_sub (c # s) p = (if has_prefix (c # s) p then Some 0 else map_option Suc (index_sub s p))"

lemma trim_with_length: "length (trim_with f s) \<le> length s"
  by (induction f s rule: trim_with.induct) (subst trim_with.simps, auto split: option.splits)

lemma trim_space_length: "length (trim_space s) \<le> length s"
  using trim_with_length[of eat_space s] trim_with_length[of eat_space_rev "rev (trim_with eat_space s)"]
  by (simp add: trim_space_def trim_left_space_def trim_right_space_def)

definition is_letter :: "char \<Rightarrow> bool" where
  "is_letter c = (let n = byte_val c in \<not> (n < 65 \<or> (n > 90 \<and> n < 97) \<or> n > 122))"

function skip_comments :: "string \<Rightarrow> string option" where
  "skip_comments trimmed =
     (if has_prefix trimmed ''--'' then
        (case index_byte trimmed LF of None \<Rightarrow> None
         | Some index \<Rightarrow> skip_comments (trim_space (drop (index + 1) trimmed)))
      else if has_prefix trimmed ''/*'' then
        (case index_sub trimmed ''*/'' of None \<Rightarrow> None
         | Some index \<Rightarrow> skip_comments (trim_space (drop (index + 2) trimmed)))
      else Some trimmed)"
  by pat_completeness auto
termination
proof (relation "measure length")
  have short: "length (trim_space (drop (Suc n) s)) < length s" if "s \<noteq> []" for n s
  proof -
    have "length (trim_space (drop (Suc n) s)) \<le> length (drop (Suc n) s)" by (rule trim_space_length)
    also have "\<dots> < length s" using that by (cases s) auto
    finally show ?thesis .
  qed
  show "(trim_space (drop (index + 1) trimmed), trimmed) \<in> measure length" if "has_prefix trimmed ''--''" for trimmed index
    using that short[of trimmed index] by (cases trimmed) (auto simp: has_prefix_def)
  show "(trim_space (drop (index + 2) trimmed), trimmed) \<in> measure length" if "has_prefix trimmed ''/*''" for trimmed index
    using that short[of trimmed "Suc index"] by (cases trimmed) (auto simp: has_prefix_def)
qed simp

declare skip_comments.simps [simp del]

definition firstSQLKeyword :: "string \<Rightarrow> string" where
  "firstSQLKeyword sql = (case skip_comments (trim_space sql) of None \<Rightarrow> []
     | Some trimmed \<Rightarrow> to_upper (takeWhile is_letter trimmed))"

definition requiresRoutedWrite :: "string \<Rightarrow> bool" where
  "requiresRoutedWrite sql = (firstSQLKeyword sql \<in> set [''INSERT'', ''UPDATE'', ''DELETE'', ''MERGE''])"

definition invalidatesPreparedStatements :: "string \<Rightarrow> bool" where
  "invalidatesPreparedStatements sql = (firstSQLKeyword sql \<in> set [''DEALLOCATE'', ''DISCARD''])"

definition isTransactionControl :: "string \<Rightarrow> bool" where
  "isTransactionControl sql = (firstSQLKeyword sql \<in> set [''BEGIN'', ''START'', ''COMMIT'', ''END'', ''ROLLBACK'', ''ABORT''])"

definition isTransactionCommit :: "string \<Rightarrow> bool" where
  "isTransactionCommit sql = (firstSQLKeyword sql = ''COMMIT'' \<or> firstSQLKeyword sql = ''END'')"

section \<open>Classification of DDL\<close>

definition any_statement :: "parser \<Rightarrow> (node \<Rightarrow> bool) \<Rightarrow> string \<Rightarrow> bool" where
  "any_statement parse P sql = (case parse sql of None \<Rightarrow> False
     | Some tree \<Rightarrow> list_ex (\<lambda>raw. case raw of None \<Rightarrow> False | Some s \<Rightarrow> P s) tree)"

definition not_ddl_messages :: "string list" where
  "not_ddl_messages = [''VariableShowStmt'', ''DeclareCursorStmt'', ''ClosePortalStmt'', ''FetchStmt'', ''NotifyStmt'',
     ''ListenStmt'', ''UnlistenStmt'', ''VacuumStmt'', ''CheckPointStmt'', ''LockStmt'', ''ConstraintsSetStmt'', ''PrepareStmt'',
     ''ExecuteStmt'', ''DeallocateStmt'', ''CallStmt'']"

fun isFleetDDLStatement :: "node \<Rightarrow> bool" where
  "isFleetDDLStatement (Node_SelectStmt s) = (sel_into s \<noteq> None)"
| "isFleetDDLStatement (Node_ExplainStmt query options) = (explainAnalyze options
     \<and> (case query of None \<Rightarrow> False | Some q \<Rightarrow> isFleetDDLStatement q))"
| "isFleetDDLStatement (Node_InsertStmt _) = False"
| "isFleetDDLStatement (Node_UpdateStmt _) = False"
| "isFleetDDLStatement (Node_DeleteStmt _) = False"
| "isFleetDDLStatement (Node_MergeStmt _ _) = False"
| "isFleetDDLStatement (Node_CopyStmt _) = False"
| "isFleetDDLStatement (Node_VariableSetStmt _ _ _ _) = False"
| "isFleetDDLStatement (Node_TransactionStmt _) = False"
| "isFleetDDLStatement (Node_DiscardStmt _) = False"
| "isFleetDDLStatement (Node_Other name _) = (name \<notin> set not_ddl_messages)"
| "isFleetDDLStatement _ = True"

definition containsFleetDDL :: "parser \<Rightarrow> string \<Rightarrow> bool" where
  "containsFleetDDL parse sql = any_statement parse isFleetDDLStatement sql"

definition isServerLocalDDLStatement :: "node \<Rightarrow> bool" where
  "isServerLocalDDLStatement statement = (case statement of
       Node_Other name _ \<Rightarrow> name \<in> set [''CreatedbStmt'', ''DropdbStmt'', ''CreateTableSpaceStmt'', ''DropTableSpaceStmt'', ''AlterSystemStmt'']
     | _ \<Rightarrow> False)"

definition isServerLocalDDL :: "parser \<Rightarrow> string \<Rightarrow> bool" where
  "isServerLocalDDL parse sql = any_statement parse isServerLocalDDLStatement sql"

definition temporary_range :: "node \<Rightarrow> bool" where
  "temporary_range n = (case n of Node_RangeVar rv \<Rightarrow> rv_relpersistence rv = ''t'' | _ \<Rightarrow> False)"

definition protobufContainsTemporaryRelation :: "node \<Rightarrow> bool" where
  "protobufContainsTemporaryRelation statement = list_ex temporary_range (walk statement)"

definition isTemporaryDDL :: "parser \<Rightarrow> string \<Rightarrow> bool" where
  "isTemporaryDDL parse sql = any_statement parse protobufContainsTemporaryRelation sql"

definition containsCopyStatement :: "parser \<Rightarrow> string \<Rightarrow> bool" where
  "containsCopyStatement parse sql = any_statement parse (\<lambda>s. get_copy (Some s) \<noteq> None) sql"

definition requiresFleetWriteOrder :: "parser \<Rightarrow> string \<Rightarrow> nat \<Rightarrow> bool" where
  "requiresFleetWriteOrder parse sql targetCount = (\<not> targetCount < 2
     \<and> any_statement parse (\<lambda>s. isFleetDDLStatement s \<and> \<not> protobufContainsTemporaryRelation s \<and> \<not> isServerLocalDDLStatement s) sql)"

datatype fleet_ddl_error = ParseError | TransactionInBatch | NonTransactional | FunctionDefinition | ConcurrentIndex
  | NeedsTwoPhase | MixedTemporary

definition is_create_function :: "node \<Rightarrow> bool" where
  "is_create_function s = (case s of Node_Other name _ \<Rightarrow> name = ''CreateFunctionStmt'' | _ \<Rightarrow> False)"

definition transactional_error :: "node \<Rightarrow> fleet_ddl_error option" where
  "transactional_error s =
     (if (case s of Node_TransactionStmt _ \<Rightarrow> True | _ \<Rightarrow> False) then Some TransactionInBatch
      else if isServerLocalDDLStatement s then Some NonTransactional
      else if is_create_function s then Some FunctionDefinition
      else if (case s of Node_IndexStmt _ _ concurrent _ \<Rightarrow> concurrent | _ \<Rightarrow> False) then Some ConcurrentIndex
      else if (case s of Node_DropStmt _ _ concurrent \<Rightarrow> concurrent | _ \<Rightarrow> False) then Some ConcurrentIndex
      else None)"

definition validateTransactionalFleetDDL :: "parser \<Rightarrow> string \<Rightarrow> fleet_ddl_error option" where
  "validateTransactionalFleetDDL parse sql = (case parse sql of None \<Rightarrow> Some ParseError
     | Some tree \<Rightarrow> first_error (\<lambda>raw. case raw of None \<Rightarrow> None | Some s \<Rightarrow> transactional_error s) tree)"

definition validateAtomicFleetDDL :: "parser \<Rightarrow> bool \<Rightarrow> string \<Rightarrow> nat \<Rightarrow> fleet_ddl_error option" where
  "validateAtomicFleetDDL parse twoPhaseCommit sql targetCount =
     (if any_statement parse is_create_function sql then Some FunctionDefinition
      else if isServerLocalDDL parse sql then validateTransactionalFleetDDL parse sql
      else if \<not> requiresFleetWriteOrder parse sql targetCount then None
      else (case validateTransactionalFleetDDL parse sql of Some e \<Rightarrow> Some e
        | None \<Rightarrow> if \<not> twoPhaseCommit then Some NeedsTwoPhase else None))"

record normalizedSQL =
  ns_sql :: string
  ns_schema :: bool

definition normalizeDDL :: "parser \<Rightarrow> (parse_result \<Rightarrow> string option) \<Rightarrow> string \<Rightarrow> ddl_error + normalizedSQL" where
  "normalizeDDL parse deparse sql = (let keyword = firstSQLKeyword sql in
     if keyword = ''COMMENT'' \<or> keyword = ''DROP'' then Inr \<lparr>ns_sql = sql, ns_schema = True\<rparr>
     else if keyword \<noteq> ''CREATE'' \<and> keyword \<noteq> ''ALTER'' then Inr \<lparr>ns_sql = sql, ns_schema = containsFleetDDL parse sql\<rparr>
     else (case Normalize parse deparse sql of Inl e \<Rightarrow> Inl e
       | Inr r \<Rightarrow> Inr \<lparr>ns_sql = nr_SQL r, ns_schema = nr_Schema r\<rparr>))"

section \<open>Routing decisions\<close>

text \<open>The part of the server and its backends that routing reads; \<open>sv_topologyReadIndex\<close> is the shared
  counter of balanced reads.\<close>

record server_state =
  sv_schema :: registry
  sv_shardNames :: "string list"
  sv_unshardedMode :: string
  sv_primaryBurrow :: string
  sv_twoPhaseCommit :: bool
  sv_topologyReadIndex :: "64 word"

record routeDecision =
  rd_target :: string
  rd_routed :: bool
  rd_keyedWrite :: bool
  rd_scatterError :: string

definition balancedBurrow :: "server_state \<Rightarrow> string list \<Rightarrow> string \<times> server_state" where
  "balancedBurrow sv burrows = (if burrows = [] then ([], sv)
     else (let index = sv_topologyReadIndex sv in
       (sort burrows ! (unat index mod length burrows), sv\<lparr>sv_topologyReadIndex := index + 1\<rparr>)))"

text \<open>\<open>rnd\<close>: the eight random bytes as a number, or None when the source of randomness failed.\<close>

definition randomBurrow :: "nat option \<Rightarrow> string list \<Rightarrow> string" where
  "randomBurrow rnd burrows = (case burrows of [] \<Rightarrow> []
     | b # _ \<Rightarrow> (case rnd of None \<Rightarrow> b | Some value \<Rightarrow> burrows ! (value mod length burrows)))"

definition parserFallbackBurrow :: "server_state \<Rightarrow> string list \<Rightarrow> string" where
  "parserFallbackBurrow sv burrows =
     (if burrows = [] then [] else if sv_primaryBurrow sv \<noteq> [] \<and> sv_primaryBurrow sv \<in> set burrows then sv_primaryBurrow sv
      else hd (sort burrows))"

definition routePlan :: "nat option \<Rightarrow> server_state \<Rightarrow> Plan \<Rightarrow> string list \<Rightarrow> routeDecision \<times> server_state" where
  "routePlan rnd sv plan burrows =
     (let decision = \<lparr>rd_target = pl_Target plan, rd_routed = pl_Routed plan,
            rd_keyedWrite = pl_Write plan \<and> (pl_Table plan = [] \<or> pl_Sharded plan), rd_scatterError = pl_ScatterError plan\<rparr> in
      if pl_SingleBurrow plan then
        if burrows = [] then (decision, sv)
        else (let (target, sv') =
            (if sv_unshardedMode sv = ''primary'' then (sv_primaryBurrow sv, sv)
             else if pl_Deterministic plan then balancedBurrow sv burrows
             else (randomBurrow rnd burrows, sv)) in
          (decision\<lparr>rd_target := target, rd_routed := (target \<noteq> [])\<rparr>, sv'))
      else if pl_Routed plan \<or> pl_Table plan = [] \<or> pl_Sharded plan then (decision, sv)
      else if sv_unshardedMode sv = ''primary'' then (decision\<lparr>rd_target := sv_primaryBurrow sv, rd_routed := True\<rparr>, sv)
      else if pl_Write plan then (decision, sv)
      else if burrows = [] then (decision, sv)
      else (decision\<lparr>rd_target := randomBurrow rnd burrows, rd_routed := True\<rparr>, sv))"

definition routeSQL :: "float_codec \<Rightarrow> parser \<Rightarrow> nat option \<Rightarrow> server_state \<Rightarrow> string \<Rightarrow> string list \<Rightarrow> (routeDecision \<times> server_state) option" where
  "routeSQL ft parse rnd sv sql burrows = (case Analyze ft parse sql [] (sv_schema sv) burrows of None \<Rightarrow> None
     | Some plan \<Rightarrow> Some (routePlan rnd sv plan burrows))"

definition routePortal :: "float_codec \<Rightarrow> nat option \<Rightarrow> server_state \<Rightarrow> Prepared option \<Rightarrow> parameters \<Rightarrow> string list \<Rightarrow> routeDecision \<times> server_state" where
  "routePortal ft rnd sv prepared ps burrows = (case prepared of None \<Rightarrow> routePlan rnd sv empty_plan burrows
     | Some p \<Rightarrow> routePlan rnd sv (Analyze_prepared ft (Some p) ps (sv_schema sv) burrows) burrows)"

text \<open>\<open>prepared\<close> is None when \<^verbatim>\<open>router.Prepare\<close> failed.\<close>

definition resolveRouteDecision :: "float_codec \<Rightarrow> nat option \<Rightarrow> server_state \<Rightarrow> Prepared option \<Rightarrow> string list \<Rightarrow> routeDecision \<times> server_state" where
  "resolveRouteDecision ft rnd sv prepared burrows = (case prepared of
       None \<Rightarrow> (let target = parserFallbackBurrow sv burrows in
         (\<lparr>rd_target = target, rd_routed = (target \<noteq> []), rd_keyedWrite = False, rd_scatterError = []\<rparr>, sv))
     | Some p \<Rightarrow> routePortal ft rnd sv (Some p) [] burrows)"


section \<open>Laws\<close>

text \<open>The two checks every handler makes of a decision before it runs the statement.\<close>

definition accepted :: "routeDecision \<Rightarrow> bool" where
  "accepted d = (rd_scatterError d = [] \<and> \<not> (rd_keyedWrite d \<and> \<not> rd_routed d))"

lemma randomBurrow_member: "burrows \<noteq> [] \<Longrightarrow> randomBurrow rnd burrows \<in> set burrows"
  by (cases burrows; cases rnd)
    (simp add: randomBurrow_def, simp add: randomBurrow_def, simp add: randomBurrow_def,
     metis (no_types, lifting) length_greater_0_conv list.distinct(1) list.simps(5) mod_less_divisor nth_mem option.simps(5) randomBurrow_def)

lemma balancedBurrow_member: "burrows \<noteq> [] \<Longrightarrow> fst (balancedBurrow sv burrows) \<in> set burrows"
  by (auto simp: balancedBurrow_def Let_def) (metis length_greater_0_conv length_sort mod_less_divisor nth_mem set_sort)

text \<open>\<open>single_target\<close>: the Burrow a statement on unsharded data runs on.\<close>

definition single_target :: "server_state \<Rightarrow> string list \<Rightarrow> string \<Rightarrow> bool" where
  "single_target sv burrows target = (if sv_unshardedMode sv = ''primary'' then target = sv_primaryBurrow sv else target \<in> set burrows)"

text \<open>C24. What a handler runs is decided by the plan: a statement that passes the handler's two checks and
  writes a sharded table is routed to the owner the router found, never scattered; a write to an unsharded table
  goes to the primary Burrow, or to every Burrow when unsharded tables are replicated; a read of unsharded
  data runs on one Burrow, the primary in primary mode and otherwise one of the Burrows offered; and a
  refused cross-Burrow read is never executed.\<close>

theorem accepted_route_exact:
  assumes "routePlan rnd sv plan burrows = (d, sv')" and "accepted d"
    and "burrows \<noteq> []" and "[] \<notin> set burrows" and "sv_primaryBurrow sv \<noteq> []"
  shows "pl_ScatterError plan = []
    \<and> (\<not> pl_SingleBurrow plan \<and> pl_Write plan \<and> pl_Sharded plan \<longrightarrow> pl_Routed plan \<and> rd_routed d \<and> rd_target d = pl_Target plan)
    \<and> (\<not> pl_SingleBurrow plan \<and> pl_Write plan \<and> \<not> pl_Sharded plan \<and> pl_Table plan \<noteq> [] \<and> \<not> pl_Routed plan \<longrightarrow>
         (if sv_unshardedMode sv = ''primary'' then rd_routed d \<and> rd_target d = sv_primaryBurrow sv else \<not> rd_routed d))
    \<and> (pl_SingleBurrow plan \<or> (\<not> pl_Write plan \<and> \<not> pl_Sharded plan \<and> pl_Table plan \<noteq> [] \<and> \<not> pl_Routed plan) \<longrightarrow>
         rd_routed d \<and> single_target sv burrows (rd_target d))"
proof -
  have bal: "fst (balancedBurrow sv burrows) \<in> set burrows" "fst (balancedBurrow sv burrows) \<noteq> []"
    using balancedBurrow_member[OF assms(3)] assms(4) by metis+
  have rnd: "randomBurrow rnd burrows \<in> set burrows" "randomBurrow rnd burrows \<noteq> []"
    using randomBurrow_member[OF assms(3)] assms(4) by metis+
  show ?thesis
    using assms(1,2,3,5) bal rnd
    by (auto simp: routePlan_def accepted_def single_target_def Let_def split_beta split: if_splits)
qed

theorem accepted_route_exact_witness:
  "\<exists>d sv. routePlan (Some 5) \<lparr>sv_schema = NewWithGeneratedAndTypes [] [] [], sv_shardNames = [''a'', ''b''],
        sv_unshardedMode = ''replicated'', sv_primaryBurrow = ''a'', sv_twoPhaseCommit = True, sv_topologyReadIndex = 0\<rparr>
      (empty_plan\<lparr>pl_SingleBurrow := True\<rparr>) [''a'', ''b''] = (d, sv) \<and> rd_routed d \<and> rd_target d \<in> {''a'', ''b''}"
proof -
  let ?sv = "\<lparr>sv_schema = NewWithGeneratedAndTypes [] [] [], sv_shardNames = [''a'', ''b''],
        sv_unshardedMode = ''replicated'', sv_primaryBurrow = ''a'', sv_twoPhaseCommit = True, sv_topologyReadIndex = 0\<rparr>"
  let ?d = "\<lparr>rd_target = ''b'', rd_routed = True, rd_keyedWrite = False, rd_scatterError = []\<rparr>"
  have "routePlan (Some 5) ?sv (empty_plan\<lparr>pl_SingleBurrow := True\<rparr>) [''a'', ''b''] = (?d, ?sv)"
    by code_simp
  from accepted_route_exact[OF this] this show ?thesis
    by (intro exI[of _ ?d] exI[of _ ?sv]) (auto simp: accepted_def single_target_def empty_plan_def)
qed

text \<open>The targets of consecutive balanced reads.\<close>

fun balanced_reads :: "nat \<Rightarrow> server_state \<Rightarrow> string list \<Rightarrow> string list" where
  "balanced_reads 0 sv burrows = []"
| "balanced_reads (Suc n) sv burrows = (case balancedBurrow sv burrows of (b, sv') \<Rightarrow> b # balanced_reads n sv' burrows)"

lemma balanced_reads_nth:
  assumes "burrows \<noteq> []" and "unat (sv_topologyReadIndex sv) + n \<le> 2 ^ 64"
  shows "balanced_reads n sv burrows = map (\<lambda>k. sort burrows ! ((unat (sv_topologyReadIndex sv) + k) mod length burrows)) [0..<n]"
  using assms(2)
proof (induction n arbitrary: sv)
  case (Suc n)
  show ?case
  proof (cases n)
    case 0
    then show ?thesis using assms(1) by (simp add: balancedBurrow_def Let_def)
  next
    case (Suc m)
    let ?sv = "sv\<lparr>sv_topologyReadIndex := sv_topologyReadIndex sv + 1\<rparr>"
    have step: "unat (sv_topologyReadIndex sv + 1) = unat (sv_topologyReadIndex sv) + 1"
      using Suc Suc.prems unat_add_lem[of "sv_topologyReadIndex sv" 1] by simp
    have "balanced_reads n ?sv burrows = map (\<lambda>k. sort burrows ! ((unat (sv_topologyReadIndex ?sv) + k) mod length burrows)) [0..<n]"
      using Suc.IH[of ?sv] Suc.prems step by simp
    then show ?thesis
      using assms(1) step
      by (simp add: balancedBurrow_def Let_def upt_conv_Cons map_Suc_upt[symmetric] del: upt_Suc)
  qed
qed simp


text \<open>As many consecutive balanced reads as there are Burrows visit each Burrow exactly once, unless the
  64-bit counter wraps on the way.\<close>

lemma balanced_reads_fair:
  assumes "burrows \<noteq> []" and "unat (sv_topologyReadIndex sv) + length burrows \<le> 2 ^ 64"
  shows "mset (balanced_reads (length burrows) sv burrows) = mset burrows"
proof -
  have rotate: "mset (rotate m xs) = mset xs" for m and xs :: "string list"
  proof (induction m)
    case (Suc m)
    have "mset (rotate1 ys) = mset ys" for ys :: "string list" by (cases ys) simp_all
    then show ?case using Suc by simp
  qed simp
  let ?i = "unat (sv_topologyReadIndex sv)"
  have "balanced_reads (length burrows) sv burrows = rotate ?i (sort burrows)"
    unfolding balanced_reads_nth[OF assms]
    by (rule nth_equalityI) (simp_all add: nth_rotate)
  then show ?thesis by (simp add: rotate)
qed

end
