(* ===== verification/Backend_Pool.thy ===== *)
theory Backend_Pool
  imports Backend_Session Proxy_Route
begin

text \<open>
  The pooled connections of \<^verbatim>\<open>internal/backend/backend.go\<close>: which statements the Manager believes to be prepared on
  them, how a session acquires one and how it gives it back.  The pools and PostgreSQL are the record
  \<open>pool_env\<close>; a connection is known by its Burrow and its process identifier.
\<close>

section \<open>Prepared statements\<close>

type_synonym prepared_cache = "(string, string list) gomap"

definition preparedConnectionKey :: "string \<Rightarrow> nat \<Rightarrow> string" where
  "preparedConnectionKey burrow pid = burrow @ [NUL] @ show_nat pid"

definition forgetPreparedConnection :: "string \<Rightarrow> nat \<Rightarrow> prepared_cache \<Rightarrow> prepared_cache" where
  "forgetPreparedConnection burrow pid cache = AList.delete (preparedConnectionKey burrow pid) cache"

definition InvalidatePreparedStatements :: "string list \<Rightarrow> prepared_cache \<Rightarrow> prepared_cache" where
  "InvalidatePreparedStatements burrows cache = filter (\<lambda>(key, names). takeWhile (\<lambda>c. c \<noteq> NUL) key \<notin> set burrows) cache"

section \<open>Sessions\<close>

record 's pool_env =
  po_burrows :: "string list"
  po_Acquire :: "string \<Rightarrow> 's \<Rightarrow> (string + nat) \<times> 's"
  po_statements :: "string \<Rightarrow> nat \<Rightarrow> 's \<Rightarrow> string + string list"
  po_setting :: "string \<Rightarrow> nat \<Rightarrow> 's setting_reader"
  po_set_config :: "string \<Rightarrow> nat \<Rightarrow> 's setting_writer"
  po_Exec :: "string \<Rightarrow> nat \<Rightarrow> string \<Rightarrow> 's \<Rightarrow> string option \<times> 's"
  po_DeallocateAll :: "string \<Rightarrow> nat \<Rightarrow> 's \<Rightarrow> string option \<times> 's"
  po_TxStatus :: "string \<Rightarrow> nat \<Rightarrow> 's \<Rightarrow> char"
  po_Release :: "string \<Rightarrow> nat \<Rightarrow> 's \<Rightarrow> 's"
  po_Destroy :: "string \<Rightarrow> nat \<Rightarrow> 's \<Rightarrow> string option \<times> 's"

record 's pools =
  pl_world :: 's
  pl_prepared :: prepared_cache
  pl_params :: runtime_params

text \<open>\<open>se_shards\<close> maps a Burrow to the process of its connection.\<close>

record session =
  se_shards :: "(string, nat) gomap"
  se_runtimeParams :: "(string, string) gomap"
  se_replaySQL :: "string list"

definition NewSession :: "(string, string) gomap \<Rightarrow> string list \<Rightarrow> session" where
  "NewSession ps replay = \<lparr>se_shards = [], se_runtimeParams = ps, se_replaySQL = replay\<rparr>"

definition shardByName :: "session \<Rightarrow> string \<Rightarrow> nat option" where
  "shardByName s name = map_of (se_shards s) name"

definition ConnectedNames :: "'s pool_env \<Rightarrow> session \<Rightarrow> string list" where
  "ConnectedNames env s = filter (\<lambda>name. shardByName s name \<noteq> None) (po_burrows env)"

definition session_Prepared :: "session \<Rightarrow> prepared_cache \<Rightarrow> string \<Rightarrow> string \<Rightarrow> bool" where
  "session_Prepared s cache burrow name = (case shardByName s burrow of None \<Rightarrow> False
     | Some pid \<Rightarrow> (case map_of cache (preparedConnectionKey burrow pid) of None \<Rightarrow> False | Some names \<Rightarrow> name \<in> set names))"

definition mark_prepared :: "session \<Rightarrow> string \<Rightarrow> string \<Rightarrow> prepared_cache \<Rightarrow> prepared_cache" where
  "mark_prepared s name burrow cache = (case shardByName s burrow of None \<Rightarrow> cache
     | Some pid \<Rightarrow> let key = preparedConnectionKey burrow pid in
         AList.update key (name # (case map_of cache key of None \<Rightarrow> [] | Some names \<Rightarrow> names)) cache)"

definition MarkPrepared :: "session \<Rightarrow> string list \<Rightarrow> string \<Rightarrow> prepared_cache \<Rightarrow> prepared_cache" where
  "MarkPrepared s burrows name cache = foldl (\<lambda>c b. mark_prepared s name b c) cache burrows"

text \<open>A connection whose statements are not known is asked for them.\<close>

definition syncPreparedStatements :: "'s pool_env \<Rightarrow> string \<Rightarrow> nat \<Rightarrow> 's pools \<Rightarrow> string option \<times> 's pools" where
  "syncPreparedStatements env burrow pid p =
     (let key = preparedConnectionKey burrow pid in
      if map_of (pl_prepared p) key \<noteq> None then (None, p)
      else (case po_statements env burrow pid (pl_world p) of Inl e \<Rightarrow> (Some e, p)
        | Inr names \<Rightarrow> (None, p\<lparr>pl_prepared := AList.update key names (pl_prepared p)\<rparr>)))"

definition forget_connection :: "string \<Rightarrow> nat \<Rightarrow> 's pools \<Rightarrow> 's pools" where
  "forget_connection burrow pid p = p\<lparr>pl_prepared := forgetPreparedConnection burrow pid (pl_prepared p),
     pl_params := forgetRuntimeParams (preparedConnectionKey burrow pid) (pl_params p)\<rparr>"

definition discardPooledConnection :: "'s pool_env \<Rightarrow> string \<Rightarrow> nat \<Rightarrow> 's pools \<Rightarrow> 's pools" where
  "discardPooledConnection env burrow pid p =
     (forget_connection burrow pid p)\<lparr>pl_world := snd (po_Destroy env burrow pid (pl_world p))\<rparr>"

fun replaySessionSettings :: "'s pool_env \<Rightarrow> string \<Rightarrow> nat \<Rightarrow> string list \<Rightarrow> 's \<Rightarrow> string option \<times> 's" where
  "replaySessionSettings env burrow pid [] w = (None, w)"
| "replaySessionSettings env burrow pid (sql # sqls) w = (case po_Exec env burrow pid sql w of
       (Some e, w1) \<Rightarrow> (Some (sql @ '': '' @ e), w1) | (None, w1) \<Rightarrow> replaySessionSettings env burrow pid sqls w1)"

datatype acquire_error = UnknownSessionBurrow string | ConnectFailed string string | SyncFailed string string
  | ParamsFailed string param_error | ReplayFailed string string

definition prepare_connection :: "'s pool_env \<Rightarrow> session \<Rightarrow> string \<Rightarrow> nat \<Rightarrow> 's pools \<Rightarrow> acquire_error option \<times> 's pools" where
  "prepare_connection env s name pid p = (case syncPreparedStatements env name pid p of
       (Some e, p1) \<Rightarrow> (Some (SyncFailed name e), discardPooledConnection env name pid p1)
     | (None, p1) \<Rightarrow>
         (case applyRuntimeParams (po_setting env name pid) (po_set_config env name pid) (preparedConnectionKey name pid) (se_runtimeParams s)
                 (pl_world p1) (pl_params p1) of
            (Some e, w2, m2) \<Rightarrow> (Some (ParamsFailed name e), discardPooledConnection env name pid (p1\<lparr>pl_world := w2, pl_params := m2\<rparr>))
          | (None, w2, m2) \<Rightarrow>
              (case replaySessionSettings env name pid (se_replaySQL s) w2 of
                 (Some e, w3) \<Rightarrow> (Some (ReplayFailed name e), discardPooledConnection env name pid (p1\<lparr>pl_world := w3, pl_params := m2\<rparr>))
               | (None, w3) \<Rightarrow> (None, p1\<lparr>pl_world := w3, pl_params := m2\<rparr>))))"

definition acquire :: "'s pool_env \<Rightarrow> string \<Rightarrow> session \<Rightarrow> 's pools \<Rightarrow> acquire_error option \<times> session \<times> 's pools" where
  "acquire env name s p =
     (if shardByName s name \<noteq> None then (None, s, p)
      else if name \<notin> set (po_burrows env) then (Some (UnknownSessionBurrow name), s, p)
      else (case po_Acquire env name (pl_world p) of
          (Inl e, w1) \<Rightarrow> (Some (ConnectFailed name e), s, p\<lparr>pl_world := w1\<rparr>)
        | (Inr pid, w1) \<Rightarrow> (case prepare_connection env s name pid (p\<lparr>pl_world := w1\<rparr>) of
              (Some e, p2) \<Rightarrow> (Some e, s, p2)
            | (None, p2) \<Rightarrow> (None, s\<lparr>se_shards := AList.update name pid (se_shards s)\<rparr>, p2))))"

section \<open>Giving connections back\<close>

definition pooledSessionResetSQL :: string where
  "pooledSessionResetSQL = ''SET SESSION AUTHORIZATION DEFAULT; RESET ALL; CLOSE ALL; UNLISTEN *; SELECT pg_advisory_unlock_all(); DISCARD PLANS; DISCARD SEQUENCES; DISCARD TEMP''"

datatype reset_error = NotIdle char | ClearFailed string | DiscardFailed string

definition resetSessionState :: "char \<Rightarrow> bool \<Rightarrow> ('s \<Rightarrow> string option \<times> 's) \<Rightarrow> ('s \<Rightarrow> string option \<times> 's) \<Rightarrow> 's \<Rightarrow> reset_error option \<times> 's" where
  "resetSessionState txStatus discardPrepared deallocate discard w =
     (if txStatus \<noteq> CHR ''I'' then (Some (NotIdle txStatus), w)
      else (case (if discardPrepared then deallocate w else (None, w)) of
          (Some e, w1) \<Rightarrow> (Some (ClearFailed e), w1)
        | (None, w1) \<Rightarrow> (case discard w1 of (Some e, w2) \<Rightarrow> (Some (DiscardFailed e), w2) | (None, w2) \<Rightarrow> (None, w2))))"

text \<open>One connection: True when it went back to its pool or was destroyed without an error.\<close>

definition destroy_connection :: "'s pool_env \<Rightarrow> string \<Rightarrow> nat \<Rightarrow> 's pools \<Rightarrow> bool \<times> 's pools" where
  "destroy_connection env burrow pid p = (case po_Destroy env burrow pid (pl_world p) of (e, w1) \<Rightarrow>
     (e = None, forget_connection burrow pid (p\<lparr>pl_world := w1\<rparr>)))"

definition close_connection :: "'s pool_env \<Rightarrow> bool \<Rightarrow> bool \<Rightarrow> string \<Rightarrow> nat \<Rightarrow> 's pools \<Rightarrow> bool \<times> 's pools" where
  "close_connection env release discardPrepared burrow pid p =
     (if \<not> release then destroy_connection env burrow pid p
      else (case resetSessionState (po_TxStatus env burrow pid (pl_world p)) discardPrepared (po_DeallocateAll env burrow pid)
               (po_Exec env burrow pid (if discardPrepared then ''DISCARD ALL'' else pooledSessionResetSQL)) (pl_world p) of
          (None, w1) \<Rightarrow>
            (let p1 = p\<lparr>pl_world := w1\<rparr>;
                 p2 = (if discardPrepared then p1\<lparr>pl_prepared := forgetPreparedConnection burrow pid (pl_prepared p1)\<rparr> else p1);
                 p3 = p2\<lparr>pl_params := forgetRuntimeParams (preparedConnectionKey burrow pid) (pl_params p2)\<rparr> in
             (True, p3\<lparr>pl_world := po_Release env burrow pid (pl_world p3)\<rparr>))
        | (Some e, w1) \<Rightarrow> (False, snd (destroy_connection env burrow pid (p\<lparr>pl_world := w1\<rparr>)))))"

text \<open>Once the session's context is cancelled no further connection is reused; \<open>cancelled\<close> is what \<^verbatim>\<open>ctx.Err()\<close> says when the Burrow's turn
  comes.\<close>

fun close_connections :: "'s pool_env \<Rightarrow> (string \<Rightarrow> bool) \<Rightarrow> bool \<Rightarrow> session \<Rightarrow> bool \<Rightarrow> string list \<Rightarrow> 's pools \<Rightarrow> bool \<times> 's pools" where
  "close_connections env cancelled discardPrepared s release [] p = (True, p)"
| "close_connections env cancelled discardPrepared s release (burrow # burrows) p =
     (let release = (release \<and> \<not> cancelled burrow) in
      case close_connection env release discardPrepared burrow (the (shardByName s burrow)) p of (ok, p1) \<Rightarrow>
        (case close_connections env cancelled discardPrepared s release burrows p1 of (ok', p2) \<Rightarrow> (ok \<and> ok', p2)))"

definition Close :: "'s pool_env \<Rightarrow> (string \<Rightarrow> bool) \<Rightarrow> bool \<Rightarrow> bool \<Rightarrow> session \<Rightarrow> 's pools \<Rightarrow> bool \<times> 's pools" where
  "Close env cancelled reusable discardPrepared s p = close_connections env cancelled discardPrepared s reusable (ConnectedNames env s) p"

section \<open>The cache never claims too much\<close>

text \<open>
  \<open>live w\<close> are the open connections and \<open>has w b pid\<close> the statements prepared on one of them.  The contract of the pools and of
  PostgreSQL: a new connection has no statements, what is done on one connection does not touch another, reading is exact, and of
  what the sessions execute only \<^verbatim>\<open>DISCARD ALL\<close> and \<^verbatim>\<open>DEALLOCATE\<close> drop statements (\<open>benign\<close> are the others).
\<close>

record 's truth =
  tr_live :: "'s \<Rightarrow> (string \<times> nat) set"
  tr_has :: "'s \<Rightarrow> string \<Rightarrow> nat \<Rightarrow> string set"

definition keeps :: "'s truth \<Rightarrow> (string \<times> nat) set \<Rightarrow> 's \<Rightarrow> 's \<Rightarrow> bool" where
  "keeps tr except w w' = (\<forall>b pid. (b, pid) \<in> tr_live tr w \<and> (b, pid) \<notin> except
     \<longrightarrow> (b, pid) \<in> tr_live tr w' \<and> tr_has tr w b pid \<subseteq> tr_has tr w' b pid)"

definition pool_contract :: "'s pool_env \<Rightarrow> 's truth \<Rightarrow> (string \<Rightarrow> bool) \<Rightarrow> bool" where
  "pool_contract env tr benign =
     ((\<forall>b w r w'. po_Acquire env b w = (r, w') \<longrightarrow> keeps tr {} w w' \<and> (\<forall>pid. r = Inr pid \<longrightarrow> (b, pid) \<in> tr_live tr w'))
      \<and> (\<forall>b pid w ns. po_statements env b pid w = Inr ns \<longrightarrow> set ns = tr_has tr w b pid)
      \<and> (\<forall>b pid n v w r w'. po_set_config env b pid n v w = (r, w') \<longrightarrow> keeps tr {} w w')
      \<and> (\<forall>b pid sql w r w'. po_Exec env b pid sql w = (r, w') \<longrightarrow> keeps tr (if benign sql then {} else {(b, pid)}) w w')
      \<and> (\<forall>b pid w r w'. po_DeallocateAll env b pid w = (r, w') \<longrightarrow> keeps tr {(b, pid)} w w')
      \<and> (\<forall>b pid w. keeps tr {} w (po_Release env b pid w))
      \<and> (\<forall>b pid w. keeps tr {(b, pid)} w (snd (po_Destroy env b pid w)))
      \<and> benign pooledSessionResetSQL)"

definition cache_ok :: "'s truth \<Rightarrow> 's pools \<Rightarrow> bool" where
  "cache_ok tr p = (\<forall>b pid ns. map_of (pl_prepared p) (preparedConnectionKey b pid) = Some ns
     \<longrightarrow> (b, pid) \<in> tr_live tr (pl_world p) \<and> set ns \<subseteq> tr_has tr (pl_world p) b pid)"

lemma cache_okD:
  assumes "cache_ok tr p" and "map_of (pl_prepared p) (preparedConnectionKey b pid) = Some ns"
  shows "(b, pid) \<in> tr_live tr (pl_world p)" "set ns \<subseteq> tr_has tr (pl_world p) b pid"
  using assms unfolding cache_ok_def by blast+

lemma show_nat_no_NUL: "NUL \<notin> set (show_nat n)"
proof -
  have "\<not> is_digit NUL" by code_simp
  then show ?thesis using all_digits_show_nat [of n] by (auto simp: all_digits_def list_all_iff)
qed

lemma before_NUL: "NUL \<notin> set x \<Longrightarrow> takeWhile (\<lambda>c. c \<noteq> NUL) (x @ NUL # y) = x \<and> dropWhile (\<lambda>c. c \<noteq> NUL) (x @ NUL # y) = NUL # y"
  by (induction x) auto

lemma last_NUL: "takeWhile (\<lambda>c. c \<noteq> NUL) (rev (preparedConnectionKey b pid)) = rev (show_nat pid)"
  "dropWhile (\<lambda>c. c \<noteq> NUL) (rev (preparedConnectionKey b pid)) = NUL # rev b"
  using before_NUL [of "rev (show_nat pid)" "rev b"] show_nat_no_NUL [of pid] by (simp_all add: preparedConnectionKey_def)

lemma key_inject [simp]: "preparedConnectionKey b pid = preparedConnectionKey b' pid' \<longleftrightarrow> b = b' \<and> pid = pid'"
  using last_NUL [of b pid] last_NUL [of b' pid'] by auto

lemma key_burrow: "NUL \<notin> set b \<Longrightarrow> takeWhile (\<lambda>c. c \<noteq> NUL) (preparedConnectionKey b pid) = b"
  by (simp add: preparedConnectionKey_def before_NUL)

lemma keeps_refl [simp]: "keeps tr X w w"
  by (auto simp: keeps_def)

lemma keeps_trans: "keeps tr X w w1 \<Longrightarrow> keeps tr X w1 w2 \<Longrightarrow> keeps tr X w w2"
  unfolding keeps_def by blast

lemma keeps_mono: "keeps tr X w w' \<Longrightarrow> X \<subseteq> Y \<Longrightarrow> keeps tr Y w w'"
  by (auto simp: keeps_def)

text \<open>A cache stays right while the world keeps its statements, and also where it forgets.\<close>

lemma cache_keeps:
  assumes "cache_ok tr p" and "keeps tr X (pl_world p) (pl_world p')"
    and "\<And>b pid. map_of (pl_prepared p') (preparedConnectionKey b pid) = (if (b, pid) \<in> X then None else map_of (pl_prepared p) (preparedConnectionKey b pid))"
  shows "cache_ok tr p'"
  unfolding cache_ok_def
proof (intro allI impI)
  fix b pid ns assume ns: "map_of (pl_prepared p') (preparedConnectionKey b pid) = Some ns"
  with assms(3) have x: "(b, pid) \<notin> X" and "map_of (pl_prepared p) (preparedConnectionKey b pid) = Some ns" by (auto split: if_splits)
  with assms(1) have "(b, pid) \<in> tr_live tr (pl_world p)" "set ns \<subseteq> tr_has tr (pl_world p) b pid" unfolding cache_ok_def by blast+
  with assms(2) x show "(b, pid) \<in> tr_live tr (pl_world p') \<and> set ns \<subseteq> tr_has tr (pl_world p') b pid" unfolding keeps_def by blast
qed

lemma cache_world: "cache_ok tr p \<Longrightarrow> keeps tr {} (pl_world p) (pl_world p') \<Longrightarrow> pl_prepared p' = pl_prepared p \<Longrightarrow> cache_ok tr p'"
  by (erule cache_keeps) auto

lemma cache_forget:
  assumes "cache_ok tr p" and "keeps tr {(b, pid)} (pl_world p) (pl_world p')" and "pl_prepared p' = forgetPreparedConnection b pid (pl_prepared p)"
  shows "cache_ok tr p'"
  by (rule cache_keeps [OF assms(1,2)]) (auto simp: assms(3) forgetPreparedConnection_def delete_conv')

lemma contract_rules:
  assumes "pool_contract env tr benign"
  shows contract_Acquire: "po_Acquire env b w = (r, w') \<Longrightarrow> keeps tr {} w w'"
    and contract_live: "po_Acquire env b w = (Inr pid, w') \<Longrightarrow> (b, pid) \<in> tr_live tr w'"
    and contract_statements: "po_statements env b pid w = Inr ns \<Longrightarrow> set ns = tr_has tr w b pid"
    and contract_config: "po_set_config env b pid n v w = (r', w') \<Longrightarrow> keeps tr {} w w'"
    and contract_Exec: "po_Exec env b pid sql w = (r', w') \<Longrightarrow> keeps tr {(b, pid)} w w'"
    and contract_benign: "benign sql \<Longrightarrow> po_Exec env b pid sql w = (r', w') \<Longrightarrow> keeps tr {} w w'"
    and contract_Deallocate: "po_DeallocateAll env b pid w = (r', w') \<Longrightarrow> keeps tr {(b, pid)} w w'"
    and contract_Release: "keeps tr {} w (po_Release env b pid w)"
    and contract_Destroy: "po_Destroy env b pid w = (r', w') \<Longrightarrow> keeps tr {(b, pid)} w w'"
    and contract_reset: "benign pooledSessionResetSQL"
proof -
  note c = assms [unfolded pool_contract_def]
  show "po_Acquire env b w = (r, w') \<Longrightarrow> keeps tr {} w w'" using c by metis
  show "po_Acquire env b w = (Inr pid, w') \<Longrightarrow> (b, pid) \<in> tr_live tr w'" using c by auto
  show "po_statements env b pid w = Inr ns \<Longrightarrow> set ns = tr_has tr w b pid" using c by metis
  show "po_set_config env b pid n v w = (r', w') \<Longrightarrow> keeps tr {} w w'" using c by metis
  have x: "po_Exec env b pid sql w = (r', w') \<Longrightarrow> keeps tr (if benign sql then {} else {(b, pid)}) w w'" using c by metis
  then show "po_Exec env b pid sql w = (r', w') \<Longrightarrow> keeps tr {(b, pid)} w w'" by (rule keeps_mono) auto
  show "benign sql \<Longrightarrow> po_Exec env b pid sql w = (r', w') \<Longrightarrow> keeps tr {} w w'" using x by simp
  show "po_DeallocateAll env b pid w = (r', w') \<Longrightarrow> keeps tr {(b, pid)} w w'" using c by metis
  show "keeps tr {} w (po_Release env b pid w)" using c by metis
  have "keeps tr {(b, pid)} w (snd (po_Destroy env b pid w))" using c by metis
  then show "po_Destroy env b pid w = (r', w') \<Longrightarrow> keeps tr {(b, pid)} w w'" by simp
  show "benign pooledSessionResetSQL" using c by metis
qed

lemma cache_add:
  assumes "cache_ok tr p" and "(b, pid) \<in> tr_live tr (pl_world p)" and "set ns \<subseteq> tr_has tr (pl_world p) b pid"
  shows "cache_ok tr (p\<lparr>pl_prepared := AList.update (preparedConnectionKey b pid) ns (pl_prepared p)\<rparr>)"
proof -
  have "map_of (AList.update (preparedConnectionKey b pid) ns (pl_prepared p)) (preparedConnectionKey b' pid')
      = (if b' = b \<and> pid' = pid then Some ns else map_of (pl_prepared p) (preparedConnectionKey b' pid'))" for b' pid'
    by (auto simp: update_conv')
  with assms show ?thesis unfolding cache_ok_def by (metis option.inject pools.select_convs(1,2) pools.surjective pools.update_convs(2))
qed


lemma sync_ok:
  assumes "pool_contract env tr benign" and "cache_ok tr p" and "(b, pid) \<in> tr_live tr (pl_world p)" and "syncPreparedStatements env b pid p = (r, p')"
  shows "cache_ok tr p' \<and> pl_world p' = pl_world p"
  using assms(2-4) contract_statements [OF assms(1)]
  by (auto simp: syncPreparedStatements_def Let_def intro!: cache_add split: if_splits sum.splits)

lemma discard_ok:
  assumes "pool_contract env tr benign" and "cache_ok tr p"
  shows "cache_ok tr (discardPooledConnection env b pid p)"
proof (rule cache_forget [OF assms(2)])
  show "keeps tr {(b, pid)} (pl_world p) (pl_world (discardPooledConnection env b pid p))"
    using contract_Destroy [OF assms(1), of b pid "pl_world p"] by (cases "po_Destroy env b pid (pl_world p)") (simp add: discardPooledConnection_def)
qed (simp add: discardPooledConnection_def forget_connection_def)

lemma apply_changed_keeps:
  assumes "pool_contract env tr benign" and "apply_changed (po_set_config env b pid) key changed names w m = (r, w', m')"
  shows "keeps tr {} w w'"
  using assms(2)
proof (induction names arbitrary: w m)
  case (Cons name names)
  obtain r1 w1 where s: "po_set_config env b pid name (the (map_of changed name)) w = (r1, w1)" by fastforce
  from contract_config [OF assms(1) s] Cons s show ?case by (auto simp: Let_def split: option.splits intro: keeps_trans)
qed simp

lemma applyRuntimeParams_keeps:
  "pool_contract env tr benign \<Longrightarrow> applyRuntimeParams getp (po_set_config env b pid) key desired w m = (r, w', m') \<Longrightarrow> keeps tr {} w w'"
  by (auto simp: applyRuntimeParams_def Let_def dest: apply_changed_keeps split: prod.splits option.splits)

lemma replay_keeps:
  assumes "pool_contract env tr benign" and "list_all benign sqls" and "replaySessionSettings env b pid sqls w = (r, w')"
  shows "keeps tr {} w w'"
  using assms(2,3)
proof (induction sqls arbitrary: w)
  case (Cons sql sqls)
  obtain r1 w1 where s: "po_Exec env b pid sql w = (r1, w1)" by fastforce
  have "keeps tr {} w w1" using contract_benign [OF assms(1) _ s] Cons.prems(1) by simp
  with Cons s show ?case by (auto split: option.splits intro: keeps_trans)
qed simp

lemma prepare_connection_ok:
  assumes "pool_contract env tr benign" and "list_all benign (se_replaySQL s)" and "cache_ok tr p" and "(b, pid) \<in> tr_live tr (pl_world p)"
    and "prepare_connection env s b pid p = (r, p')"
  shows "cache_ok tr p'"
proof -
  obtain r1 p1 where p1: "syncPreparedStatements env b pid p = (r1, p1)" by fastforce
  have c1: "cache_ok tr p1" using sync_ok [OF assms(1,3,4) p1] by simp
  obtain r2 w2 m2 where w2: "applyRuntimeParams (po_setting env b pid) (po_set_config env b pid) (preparedConnectionKey b pid) (se_runtimeParams s)
      (pl_world p1) (pl_params p1) = (r2, w2, m2)" by (metis prod_cases3)
  have c2: "cache_ok tr (p1\<lparr>pl_world := w2, pl_params := m2\<rparr>)"
    by (rule cache_world [OF c1]) (simp_all add: applyRuntimeParams_keeps [OF assms(1) w2])
  obtain r3 w3 where w3: "replaySessionSettings env b pid (se_replaySQL s) w2 = (r3, w3)" by fastforce
  have c3: "cache_ok tr (p1\<lparr>pl_world := w3, pl_params := m2\<rparr>)"
    by (rule cache_world [OF c2]) (simp_all add: replay_keeps [OF assms(1,2) w3])
  show ?thesis using assms(5) p1 w2 w3 c1 c2 c3 discard_ok [OF assms(1)]
    by (auto simp: prepare_connection_def split: option.splits)
qed

lemma acquire_ok:
  assumes "pool_contract env tr benign" and "list_all benign (se_replaySQL s)" and "cache_ok tr p" and "acquire env name s p = (r, s', p')"
  shows "cache_ok tr p'"
proof -
  obtain r1 w1 where w1: "po_Acquire env name (pl_world p) = (r1, w1)" by fastforce
  have c1: "cache_ok tr (p\<lparr>pl_world := w1\<rparr>)" by (rule cache_world [OF assms(3)]) (simp_all add: contract_Acquire [OF assms(1) w1])
  have "cache_ok tr p2" if "r1 = Inr pid" "prepare_connection env s name pid (p\<lparr>pl_world := w1\<rparr>) = (r2, p2)" for pid r2 p2
    using prepare_connection_ok [OF assms(1,2) c1 _ that(2)] contract_live [OF assms(1), of name "pl_world p" pid w1] w1 that(1) by simp
  with c1 assms(3,4) w1 show ?thesis by (auto simp: acquire_def split: if_splits sum.splits prod.splits option.splits)
qed

lemma destroy_ok:
  assumes "pool_contract env tr benign" and "cache_ok tr p0" and "keeps tr {(b, pid)} (pl_world p0) (pl_world p)" and "pl_prepared p = pl_prepared p0"
  shows "cache_ok tr (snd (destroy_connection env b pid p))"
proof -
  obtain e w1 where w1: "po_Destroy env b pid (pl_world p) = (e, w1)" by fastforce
  have "keeps tr {(b, pid)} (pl_world p0) w1" using keeps_trans [OF assms(3) contract_Destroy [OF assms(1) w1]] .
  then show ?thesis using w1 assms(4) by (intro cache_forget [OF assms(2)]) (simp_all add: destroy_connection_def forget_connection_def)
qed

lemma reset_keeps:
  assumes "pool_contract env tr benign" and "resetSessionState tx d (po_DeallocateAll env b pid)
    (po_Exec env b pid (if d then ''DISCARD ALL'' else pooledSessionResetSQL)) w = (r, w')"
  shows "keeps tr (if d then {(b, pid)} else {}) w w'"
proof (cases "tx = CHR ''I''")
  case True
  obtain r1 w1 where w1: "(if d then po_DeallocateAll env b pid w else (None, w)) = (r1, w1)" by fastforce
  obtain r2 w2 where w2: "po_Exec env b pid (if d then ''DISCARD ALL'' else pooledSessionResetSQL) w1 = (r2, w2)" by fastforce
  have k1: "keeps tr (if d then {(b, pid)} else {}) w w1" using w1 contract_Deallocate [OF assms(1)] by (auto split: if_splits)
  have k2: "keeps tr (if d then {(b, pid)} else {}) w1 w2"
    using w2 contract_Exec [OF assms(1) w2] contract_benign [OF assms(1) contract_reset [OF assms(1)]] by (auto split: if_splits)
  have "w' = w1 \<or> w' = w2" using assms(2) True w1 w2 by (auto simp: resetSessionState_def split: option.splits)
  with k1 keeps_trans [OF k1 k2] show ?thesis by auto
qed (use assms in \<open>simp add: resetSessionState_def\<close>)

lemma close_connection_ok:
  assumes "pool_contract env tr benign" and "cache_ok tr p"
  shows "cache_ok tr (snd (close_connection env release d b pid p))"
proof (cases release)
  case True
  obtain r w1 where w1: "resetSessionState (po_TxStatus env b pid (pl_world p)) d (po_DeallocateAll env b pid)
      (po_Exec env b pid (if d then ''DISCARD ALL'' else pooledSessionResetSQL)) (pl_world p) = (r, w1)" by fastforce
  note k = reset_keeps [OF assms(1) w1]
  show ?thesis
  proof (cases r)
    case None
    have "keeps tr (if d then {(b, pid)} else {}) (pl_world p) (po_Release env b pid w1)"
      using keeps_trans [OF k keeps_mono [OF contract_Release [OF assms(1), of w1 b pid]]] by simp
    then show ?thesis using True None w1 assms(2) cache_forget [OF assms(2)] cache_world [OF assms(2)]
      by (cases d) (auto simp: close_connection_def Let_def)
  next
    case (Some e)
    have "keeps tr {(b, pid)} (pl_world p) w1" using k by (auto intro: keeps_mono split: if_splits)
    then show ?thesis using True Some w1 destroy_ok [OF assms(1,2), of b pid "p\<lparr>pl_world := w1\<rparr>"] by (simp add: close_connection_def)
  qed
qed (use destroy_ok [OF assms, of b pid p] in \<open>simp add: close_connection_def\<close>)

lemma Close_ok:
  assumes "pool_contract env tr benign" and "cache_ok tr p"
  shows "cache_ok tr (snd (Close env cancelled reusable d s p))"
proof -
  have "cache_ok tr (snd (close_connections env cancelled d s release names p))" if "cache_ok tr p" for release names p
    using that
  proof (induction names arbitrary: release p)
    case (Cons name names)
    let ?r = "release \<and> \<not> cancelled name"
    obtain ok p1 where p1: "close_connection env ?r d name (the (shardByName s name)) p = (ok, p1)" by fastforce
    then have "cache_ok tr p1" using close_connection_ok [OF assms(1) Cons.prems, of ?r d name "the (shardByName s name)"] by simp
    from Cons.IH [OF this, of ?r] p1 show ?case by (auto simp: Let_def split: prod.split)
  qed simp
  with assms(2) show ?thesis by (simp add: Close_def)
qed

lemma mark_prepared_ok:
  assumes "cache_ok tr p" and "\<And>pid. shardByName s b = Some pid \<Longrightarrow> (b, pid) \<in> tr_live tr (pl_world p) \<and> name \<in> tr_has tr (pl_world p) b pid"
  shows "cache_ok tr (p\<lparr>pl_prepared := mark_prepared s name b (pl_prepared p)\<rparr>)"
proof (cases "shardByName s b")
  case (Some pid)
  let ?old = "case map_of (pl_prepared p) (preparedConnectionKey b pid) of None \<Rightarrow> [] | Some names \<Rightarrow> names"
  have "set ?old \<subseteq> tr_has tr (pl_world p) b pid" using cache_okD(2) [OF assms(1), of b pid] by (cases "map_of (pl_prepared p) (preparedConnectionKey b pid)") simp_all
  with Some assms(2) cache_add [OF assms(1), of b pid "name # ?old"] show ?thesis by (simp add: mark_prepared_def Let_def)
qed (use assms(1) in \<open>simp add: mark_prepared_def\<close>)

lemma MarkPrepared_ok:
  assumes "cache_ok tr p"
    and "\<And>b pid. b \<in> set bs \<Longrightarrow> shardByName s b = Some pid \<Longrightarrow> (b, pid) \<in> tr_live tr (pl_world p) \<and> name \<in> tr_has tr (pl_world p) b pid"
  shows "cache_ok tr (p\<lparr>pl_prepared := MarkPrepared s bs name (pl_prepared p)\<rparr>)"
  using assms
proof (induction bs arbitrary: p)
  case (Cons b bs)
  let ?p = "p\<lparr>pl_prepared := mark_prepared s name b (pl_prepared p)\<rparr>"
  have "cache_ok tr ?p" using Cons.prems by (intro mark_prepared_ok) auto
  from Cons.IH [OF this] Cons.prems(2) show ?case by (simp add: MarkPrepared_def)
qed (simp add: MarkPrepared_def)

lemma Invalidate_lookup:
  assumes "NUL \<notin> set b"
  shows "map_of (InvalidatePreparedStatements bs cache) (preparedConnectionKey b pid)
    = (if b \<in> set bs then None else map_of cache (preparedConnectionKey b pid))"
  using key_burrow [OF assms, of pid] by (induction cache) (auto simp: InvalidatePreparedStatements_def)

text \<open>What may happen to the pools: sessions acquire and give back connections, a Parse on a connection succeeds and is recorded, a client drops
  prepared statements on some Burrows and the Proxy invalidates them, a pool retires a connection, and PostgreSQL works on.\<close>

inductive pool_step :: "'s pool_env \<Rightarrow> 's truth \<Rightarrow> (string \<Rightarrow> bool) \<Rightarrow> 's pools \<Rightarrow> 's pools \<Rightarrow> bool" for env tr benign where
  acquired: "list_all benign (se_replaySQL s) \<Longrightarrow> acquire env name s p = (r, s', p') \<Longrightarrow> pool_step env tr benign p p'"
| given_back: "Close env cancelled reusable d s p = (ok, p') \<Longrightarrow> pool_step env tr benign p p'"
| parsed: "(\<And>b pid. b \<in> set bs \<Longrightarrow> shardByName s b = Some pid \<Longrightarrow> (b, pid) \<in> tr_live tr (pl_world p) \<and> name \<in> tr_has tr (pl_world p) b pid)
    \<Longrightarrow> pool_step env tr benign p (p\<lparr>pl_prepared := MarkPrepared s bs name (pl_prepared p)\<rparr>)"
| dropped: "keeps tr {(b, pid). b \<in> set bs} (pl_world p) w
    \<Longrightarrow> pool_step env tr benign p (p\<lparr>pl_world := w, pl_prepared := InvalidatePreparedStatements bs (pl_prepared p)\<rparr>)"
| retired: "keeps tr {(b, pid)} (pl_world p) w \<Longrightarrow> pool_step env tr benign p (forget_connection b pid (p\<lparr>pl_world := w\<rparr>))"
| worked: "keeps tr {} (pl_world p) w \<Longrightarrow> pool_step env tr benign p (p\<lparr>pl_world := w\<rparr>)"

text \<open>Burrow names are free of NUL, which separates them from the process in a key.\<close>

definition clean_live :: "'s truth \<Rightarrow> bool" where
  "clean_live tr = (\<forall>w b pid. (b, pid) \<in> tr_live tr w \<longrightarrow> NUL \<notin> set b)"

lemma dropped_ok:
  assumes "clean_live tr" and "cache_ok tr p" and "keeps tr {(b, pid). b \<in> set bs} (pl_world p) w"
  shows "cache_ok tr (p\<lparr>pl_world := w, pl_prepared := InvalidatePreparedStatements bs (pl_prepared p)\<rparr>)"
  unfolding cache_ok_def
proof (intro allI impI)
  fix b pid ns
  assume ns: "map_of (pl_prepared (p\<lparr>pl_world := w, pl_prepared := InvalidatePreparedStatements bs (pl_prepared p)\<rparr>)) (preparedConnectionKey b pid) = Some ns"
  have "map_of (filter P m) k = Some v \<Longrightarrow> k \<in> fst ` set m" for P m k and v :: "string list" by (auto dest!: map_of_SomeD intro: rev_image_eqI)
  then have "map_of (pl_prepared p) (preparedConnectionKey b pid) \<noteq> None"
    using ns by (auto simp: InvalidatePreparedStatements_def map_of_eq_None_iff)
  then have "NUL \<notin> set b" using assms(1) cache_okD(1) [OF assms(2), of b pid] by (auto simp: clean_live_def)
  then have b: "b \<notin> set bs" "map_of (pl_prepared p) (preparedConnectionKey b pid) = Some ns"
    using ns Invalidate_lookup [of b bs "pl_prepared p" pid] by (auto split: if_splits)
  note cache_okD [OF assms(2) b(2)]
  with b(1) assms(3) show "(b, pid) \<in> tr_live tr (pl_world (p\<lparr>pl_world := w, pl_prepared := InvalidatePreparedStatements bs (pl_prepared p)\<rparr>))
      \<and> set ns \<subseteq> tr_has tr (pl_world (p\<lparr>pl_world := w, pl_prepared := InvalidatePreparedStatements bs (pl_prepared p)\<rparr>)) b pid"
    by (auto simp: keeps_def)
qed

lemma pool_step_ok:
  assumes "pool_contract env tr benign" and "clean_live tr" and "pool_step env tr benign p p'" and "cache_ok tr p"
  shows "cache_ok tr p'"
  using assms(3)
proof cases
  case (given_back cancelled reusable d s ok)
  then show ?thesis using Close_ok [OF assms(1,4), of cancelled reusable d s] by simp
next
  case (retired b pid w)
  show ?thesis unfolding retired(1)
    by (rule cache_forget [OF assms(4), of b pid]) (use retired(2) in \<open>simp_all add: forget_connection_def\<close>)
next
  case (worked w)
  then show ?thesis using cache_world [OF assms(4)] by simp
next
  case (acquired s name r s')
  then show ?thesis using acquire_ok [OF assms(1) _ assms(4)] by simp
next
  case (parsed bs s name)
  then show ?thesis using MarkPrepared_ok [OF assms(4)] by simp
next
  case (dropped bs w)
  then show ?thesis using dropped_ok [OF assms(2,4)] by simp
qed


text \<open>One Burrow with one connection, process 7; the world is the list of its statements.\<close>

definition sample_pool :: "string list pool_env" where
  "sample_pool = \<lparr>po_burrows = [''a''], po_Acquire = (\<lambda>b w. (if b = ''a'' then Inr 7 else Inl [], w)),
     po_statements = (\<lambda>b pid w. if b = ''a'' \<and> pid = 7 then Inr w else Inr []), po_setting = (\<lambda>b pid n w. Inr []),
     po_set_config = (\<lambda>b pid n v w. (None, w)), po_Exec = (\<lambda>b pid sql w. (None, w)), po_DeallocateAll = (\<lambda>b pid w. (None, w)),
     po_TxStatus = (\<lambda>b pid w. CHR ''I''), po_Release = (\<lambda>b pid w. w), po_Destroy = (\<lambda>b pid w. (None, w))\<rparr>"

definition sample_truth :: "string list truth" where
  "sample_truth = \<lparr>tr_live = (\<lambda>w. {(''a'', 7)}), tr_has = (\<lambda>w b pid. if b = ''a'' \<and> pid = 7 then set w else {})\<rparr>"

definition sample_pools :: "string list pools" where
  "sample_pools = \<lparr>pl_world = [''s1''], pl_prepared = [], pl_params = []\<rparr>"

definition sample_session :: session where
  "sample_session = fst (snd (acquire sample_pool ''a'' (NewSession [] []) sample_pools))"

definition acquired_pools :: "string list pools" where
  "acquired_pools = snd (snd (acquire sample_pool ''a'' (NewSession [] []) sample_pools))"


text \<open>The Proxy recognises a client's DEALLOCATE or DISCARD by the first keyword only, so one that follows another statement in the same query
  drops statements the cache still names.\<close>

lemma hidden_deallocate: "invalidatesPreparedStatements ''DEALLOCATE ALL'' \<and> \<not> invalidatesPreparedStatements ''SELECT 1; DEALLOCATE ALL''"
  by code_simp

end
