(* ===== verification/Proxy_State.thy ===== *)
theory Proxy_State
  imports Proxy_Route
begin

text \<open>
  The session state the Proxy keeps for a frontend (\<^verbatim>\<open>extendedState\<close> of \<^verbatim>\<open>internal/proxy/server.go\<close>): the
  transaction flags and write participants, the temporary relations with their snapshots, and the
  session settings to replay.  A Go set of strings is a \<open>string set\<close> and \<^verbatim>\<open>temporaryIndexParents\<close> a map; a
  nil map reads as an empty one, so \<^verbatim>\<open>ensureTemporaryState\<close> and the clone functions are identities.
\<close>

section \<open>Names of temporary relations\<close>

record temporaryObjectName =
  on_schema :: string
  on_name :: string

record temp_rels =
  tr_relations :: "string set"
  tr_onCommitDrop :: "string set"
  tr_indexParents :: "string \<Rightarrow> string option"

definition no_temporaries :: temp_rels where
  "no_temporaries = \<lparr>tr_relations = {}, tr_onCommitDrop = {}, tr_indexParents = (\<lambda>_. None)\<rparr>"

definition temporaryNameKeys :: "temporaryObjectName \<Rightarrow> string list" where
  "temporaryNameKeys n = (if on_name n = [] then []
     else if on_schema n = [] \<or> equal_fold (on_schema n) ''pg_temp'' then [on_name n, ''pg_temp.'' @ on_name n]
     else [on_schema n @ ''.'' @ on_name n])"

definition temporaryNameCanonical :: "temporaryObjectName \<Rightarrow> string" where
  "temporaryNameCanonical n = (if on_schema n = [] \<or> equal_fold (on_schema n) ''pg_temp'' then ''pg_temp.'' @ on_name n
     else on_schema n @ ''.'' @ on_name n)"

definition temporaryNameSetContains :: "string set \<Rightarrow> temporaryObjectName \<Rightarrow> bool" where
  "temporaryNameSetContains relations n = list_ex (\<lambda>key. key \<in> relations) (temporaryNameKeys n)"

definition relation_name :: "range_var \<Rightarrow> temporaryObjectName" where
  "relation_name rel = \<lparr>on_schema = rv_schemaname rel, on_name = rv_relname rel\<rparr>"

definition temporaryRelationKeys :: "range_var \<Rightarrow> string list" where
  "temporaryRelationKeys rel = temporaryNameKeys (relation_name rel)"

definition temporaryRelationCanonicalName :: "range_var \<Rightarrow> string" where
  "temporaryRelationCanonicalName rel = temporaryNameCanonical (relation_name rel)"

definition relationSetContains :: "string set \<Rightarrow> range_var \<Rightarrow> bool" where
  "relationSetContains relations rel =
     (if rv_relname rel = [] then False
      else if rv_schemaname rel = [] then rv_relname rel \<in> relations
      else if equal_fold (rv_schemaname rel) ''pg_temp'' then ''pg_temp.'' @ rv_relname rel \<in> relations \<or> rv_relname rel \<in> relations
      else rv_schemaname rel @ ''.'' @ rv_relname rel \<in> relations)"

definition protobufReferencesRelation :: "node \<Rightarrow> string set \<Rightarrow> bool" where
  "protobufReferencesRelation statement relations =
     list_ex (\<lambda>n. case n of Node_RangeVar rv \<Rightarrow> relationSetContains relations rv | _ \<Rightarrow> False) (walk statement)"

definition drop_name :: "node \<Rightarrow> temporaryObjectName option" where
  "drop_name object = (case get_list (Some object) of None \<Rightarrow> None
     | Some items \<Rightarrow>
         (let parts = List.map_filter get_string items in
          if parts = [] then None
          else Some \<lparr>on_schema = (if length parts > 1 then parts ! (length parts - 2) else []), on_name = last parts\<rparr>))"

definition dropObjectNames :: "node list \<Rightarrow> temporaryObjectName list" where
  "dropObjectNames objects = List.map_filter drop_name objects"

definition relation_object :: "object_type \<Rightarrow> bool" where
  "relation_object t = (case t of OBJECT_OTHER _ \<Rightarrow> False | _ \<Rightarrow> True)"

abbreviation dropTargetsTemporaryRelations :: "object_type \<Rightarrow> bool" where
  "dropTargetsTemporaryRelations \<equiv> relation_object"

abbreviation renameTargetsRelation :: "object_type \<Rightarrow> bool" where
  "renameTargetsRelation \<equiv> relation_object"

section \<open>Remembering and forgetting\<close>

definition rememberTemporaryRelation :: "bool \<Rightarrow> range_var \<Rightarrow> on_commit \<Rightarrow> temp_rels \<Rightarrow> temp_rels" where
  "rememberTemporaryRelation transaction rel onCommit t =
     (if rv_relname rel = [] \<or> (onCommit = ONCOMMIT_DROP \<and> \<not> transaction) then t
      else t\<lparr>tr_relations := tr_relations t \<union> set (temporaryRelationKeys rel),
             tr_onCommitDrop := (if onCommit = ONCOMMIT_DROP then tr_onCommitDrop t \<union> set (temporaryRelationKeys rel) else tr_onCommitDrop t)\<rparr>)"

definition set_parents :: "string list \<Rightarrow> string \<Rightarrow> temp_rels \<Rightarrow> temp_rels" where
  "set_parents ks parent t = t\<lparr>tr_relations := tr_relations t \<union> set ks,
     tr_indexParents := (\<lambda>k. if k \<in> set ks then Some parent else tr_indexParents t k)\<rparr>"

definition rememberTemporaryIndex :: "range_var \<Rightarrow> string \<Rightarrow> temp_rels \<Rightarrow> temp_rels" where
  "rememberTemporaryIndex rel idxname t =
     set_parents (temporaryNameKeys \<lparr>on_schema = (if equal_fold (rv_schemaname rel) ''pg_temp'' then ''pg_temp'' else []), on_name = idxname\<rparr>)
       (temporaryRelationCanonicalName rel) t"

definition forget_keys :: "string list \<Rightarrow> temp_rels \<Rightarrow> temp_rels" where
  "forget_keys ks t = t\<lparr>tr_relations := tr_relations t - set ks,
     tr_indexParents := (\<lambda>k. if k \<in> set ks then None else tr_indexParents t k)\<rparr>"

fun last_parent :: "(string \<Rightarrow> string option) \<Rightarrow> string list \<Rightarrow> string \<Rightarrow> string" where
  "last_parent parents [] acc = acc"
| "last_parent parents (k # ks) acc = last_parent parents ks (case parents k of None \<Rightarrow> acc | Some p \<Rightarrow> p)"

definition renameTemporaryRelation :: "object_type \<Rightarrow> range_var option \<Rightarrow> string \<Rightarrow> temp_rels \<Rightarrow> temp_rels" where
  "renameTemporaryRelation renameType relation newname t = (case relation of None \<Rightarrow> t
     | Some rel \<Rightarrow>
         if newname = [] \<or> \<not> renameTargetsRelation renameType \<or> \<not> relationSetContains (tr_relations t) rel then t
         else (let oldKeys = temporaryRelationKeys rel;
                   newRelation = rel\<lparr>rv_relname := newname\<rparr>;
                   newKeys = temporaryRelationKeys newRelation;
                   indexParent = last_parent (tr_indexParents t) oldKeys [];
                   t1 = forget_keys oldKeys t in
           if indexParent \<noteq> [] then set_parents newKeys indexParent t1
           else (let oldCanonical = temporaryRelationCanonicalName rel;
                     newCanonical = temporaryRelationCanonicalName newRelation;
                     onCommitDrop = list_ex (\<lambda>k. k \<in> tr_onCommitDrop t1) oldKeys in
             t1\<lparr>tr_indexParents := (\<lambda>k. if tr_indexParents t1 k = Some oldCanonical then Some newCanonical else tr_indexParents t1 k),
                tr_relations := tr_relations t1 \<union> set newKeys,
                tr_onCommitDrop := tr_onCommitDrop t1 - set oldKeys \<union> (if onCommitDrop then set newKeys else {})\<rparr>)))"

definition forget_children :: "string set \<Rightarrow> temp_rels \<Rightarrow> temp_rels" where
  "forget_children parents t = t\<lparr>
     tr_relations := Set.filter (\<lambda>k. case tr_indexParents t k of None \<Rightarrow> True | Some p \<Rightarrow> p \<notin> parents) (tr_relations t),
     tr_indexParents := (\<lambda>k. case tr_indexParents t k of None \<Rightarrow> None | Some p \<Rightarrow> if p \<in> parents then None else Some p)\<rparr>"

definition forgetTemporaryName :: "temporaryObjectName \<Rightarrow> bool \<Rightarrow> temp_rels \<Rightarrow> temp_rels" where
  "forgetTemporaryName n cascade t =
     (let ks = temporaryNameKeys n;
          t1 = (forget_keys ks t)\<lparr>tr_onCommitDrop := tr_onCommitDrop t - set ks\<rparr> in
      if cascade then forget_children {temporaryNameCanonical n} t1 else t1)"

definition rememberTemporaryStatement :: "bool \<Rightarrow> node \<Rightarrow> temp_rels \<Rightarrow> temp_rels" where
  "rememberTemporaryStatement transaction statement t = (case statement of
       Node_CreateStmt (Some rel) _ oncommit _ \<Rightarrow>
         if rv_relpersistence rel = ''t'' then rememberTemporaryRelation transaction rel oncommit t else t
     | Node_CreateTableAsStmt (Some into) _ \<Rightarrow>
         (case into_rel into of Some rel \<Rightarrow> if rv_relpersistence rel = ''t'' then rememberTemporaryRelation transaction rel (into_onCommit into) t else t
          | None \<Rightarrow> t)
     | Node_SelectStmt s \<Rightarrow>
         (case sel_into s of None \<Rightarrow> t
          | Some into \<Rightarrow> (case into_rel into of
                Some rel \<Rightarrow> if rv_relpersistence rel = ''t'' then rememberTemporaryRelation transaction rel (into_onCommit into) t else t
              | None \<Rightarrow> t))
     | Node_IndexStmt (Some rel) idxname _ _ \<Rightarrow>
         if relationSetContains (tr_relations t) rel \<and> idxname \<noteq> [] then rememberTemporaryIndex rel idxname t else t
     | Node_RenameStmt renameType relation newname _ \<Rightarrow> renameTemporaryRelation renameType relation newname t
     | Node_DropStmt removeType objects _ \<Rightarrow>
         if dropTargetsTemporaryRelations removeType
         then fold (\<lambda>n. forgetTemporaryName n (removeType \<noteq> OBJECT_INDEX)) (dropObjectNames objects) t else t
     | Node_DiscardStmt target \<Rightarrow> if target = DISCARD_TEMP \<or> target = DISCARD_ALL then no_temporaries else t
     | _ \<Rightarrow> t)"

definition applyTemporaryOnCommitDrop :: "temp_rels \<Rightarrow> temp_rels" where
  "applyTemporaryOnCommitDrop t =
     (let parents = (\<lambda>key. if CHR ''.'' \<in> set key then key else ''pg_temp.'' @ key) ` tr_onCommitDrop t;
          t1 = t\<lparr>tr_relations := tr_relations t - tr_onCommitDrop t,
                 tr_indexParents := (\<lambda>k. if k \<in> tr_onCommitDrop t then None else tr_indexParents t k),
                 tr_onCommitDrop := {}\<rparr> in
      forget_children parents t1)"

section \<open>Classification of temporary DDL\<close>

fun temporaryDDLTarget :: "node \<Rightarrow> string set \<Rightarrow> bool option" where
  "temporaryDDLTarget statement relations =
     (let known = (\<lambda>relation. case relation of None \<Rightarrow> None
          | Some rel \<Rightarrow> Some (rv_relpersistence rel = ''t'' \<or> equal_fold (rv_schemaname rel) ''pg_temp'' \<or> relationSetContains relations rel)) in
      case statement of
        Node_ExplainStmt query options \<Rightarrow>
          (case query of Some q \<Rightarrow> if explainAnalyze options then temporaryDDLTarget q relations else None | None \<Rightarrow> None)
      | Node_CreateStmt relation _ _ _ \<Rightarrow> known relation
      | Node_CreateTableAsStmt (Some into) _ \<Rightarrow> known (into_rel into)
      | Node_SelectStmt s \<Rightarrow> (case sel_into s of Some into \<Rightarrow> known (into_rel into) | None \<Rightarrow> None)
      | Node_ViewStmt view _ \<Rightarrow> known view
      | _ \<Rightarrow> None)"

text \<open>One statement: what it contributes (temporary, durable) and the relations after it.\<close>

definition classify_statement :: "node \<Rightarrow> temp_rels \<Rightarrow> (bool \<times> bool) \<times> temp_rels" where
  "classify_statement statement working =
     (let after = rememberTemporaryStatement True statement working;
          ddl = (if isFleetDDLStatement statement then
              (let reference = protobufContainsTemporaryRelation statement \<or> protobufReferencesRelation statement (tr_relations working);
                   target = (case temporaryDDLTarget statement (tr_relations working) of Some b \<Rightarrow> b | None \<Rightarrow> reference) in
               (target \<or> reference, \<not> target))
            else (False, False)) in
      case statement of
        Node_DiscardStmt target \<Rightarrow> if target = DISCARD_TEMP \<or> target = DISCARD_ALL then ((True, False), after) else (ddl, after)
      | Node_DropStmt removeType objects _ \<Rightarrow>
          (let names = dropObjectNames objects in
           if dropTargetsTemporaryRelations removeType \<and> names \<noteq> [] then
             ((list_ex (temporaryNameSetContains (tr_relations working)) names,
               list_ex (\<lambda>n. \<not> temporaryNameSetContains (tr_relations working) n) names), after)
           else (ddl, after))
      | _ \<Rightarrow> (ddl, after))"

fun classify_statements :: "parse_result \<Rightarrow> temp_rels \<Rightarrow> bool \<times> bool" where
  "classify_statements [] working = (False, False)"
| "classify_statements (None # tree) working = classify_statements tree working"
| "classify_statements (Some statement # tree) working =
     (case classify_statement statement working of ((temporary, durable), working') \<Rightarrow>
        case classify_statements tree working' of (temporary', durable') \<Rightarrow> (temporary \<or> temporary', durable \<or> durable'))"

definition classifyTemporaryDDL :: "parser \<Rightarrow> temp_rels \<Rightarrow> string \<Rightarrow> bool \<times> bool" where
  "classifyTemporaryDDL parse t sql = (case parse sql of None \<Rightarrow> (False, False)
     | Some tree \<Rightarrow> (case classify_statements tree t of (temporary, durable) \<Rightarrow> (temporary \<and> \<not> durable, temporary \<and> durable)))"

definition referencesTemporaryDDL :: "parser \<Rightarrow> temp_rels \<Rightarrow> string \<Rightarrow> bool" where
  "referencesTemporaryDDL parse t sql = fst (classifyTemporaryDDL parse t sql)"

definition session_validateAtomicFleetDDL :: "parser \<Rightarrow> bool \<Rightarrow> temp_rels \<Rightarrow> string \<Rightarrow> nat \<Rightarrow> fleet_ddl_error + bool" where
  "session_validateAtomicFleetDDL parse twoPhaseCommit t sql targetCount =
     (case classifyTemporaryDDL parse t sql of (temporaryDDL, mixed) \<Rightarrow>
        if mixed then Inl MixedTemporary
        else if temporaryDDL then Inr True
        else (case validateAtomicFleetDDL parse twoPhaseCommit sql targetCount of Some e \<Rightarrow> Inl e | None \<Rightarrow> Inr False))"


section \<open>Session settings\<close>

record sessionStatePolicy =
  po_requiresBackend :: bool
  po_pin :: bool
  po_destroy :: bool
  po_discardPrepared :: bool
  po_resetAll :: bool
  po_replayName :: string
  po_replaySQL :: string

definition no_policy :: sessionStatePolicy where
  "no_policy = \<lparr>po_requiresBackend = False, po_pin = False, po_destroy = False, po_discardPrepared = False,
     po_resetAll = False, po_replayName = [], po_replaySQL = []\<rparr>"

definition isPGSettingsRelation :: "range_var option \<Rightarrow> bool" where
  "isPGSettingsRelation relation = (case relation of None \<Rightarrow> False
     | Some rel \<Rightarrow> equal_fold (rv_relname rel) ''pg_settings'' \<and> (rv_schemaname rel = [] \<or> equal_fold (rv_schemaname rel) ''pg_catalog''))"

text \<open>Unlike the router's function of that name, this one skips parts that are not strings and folds the case.\<close>

definition proxy_functionName :: "node list \<Rightarrow> string" where
  "proxy_functionName nodes = (let parts = List.map_filter get_string nodes in if parts = [] then [] else to_lower (last parts))"

definition session_node :: "node \<Rightarrow> bool" where
  "session_node n = (case n of Node_RangeVar rv \<Rightarrow> rv_relpersistence rv = ''t''
     | Node_FuncCall f \<Rightarrow> proxy_functionName (fc_funcname f) \<in> set [''set_config'', ''pg_advisory_lock'', ''pg_advisory_lock_shared'',
         ''pg_try_advisory_lock'', ''pg_try_advisory_lock_shared'']
     | _ \<Rightarrow> False)"

definition protobufContainsSessionState :: "node \<Rightarrow> bool" where
  "protobufContainsSessionState statement = list_ex session_node (walk statement)"

definition classify_variable :: "variable_set_kind \<Rightarrow> string \<Rightarrow> bool \<Rightarrow> string \<Rightarrow> sessionStatePolicy" where
  "classify_variable kind name isLocal replaySQL = (let policy = no_policy\<lparr>po_requiresBackend := True\<rparr> in
     if isLocal then policy
     else if kind = VAR_RESET_ALL then policy\<lparr>po_resetAll := True\<rparr>
     else if kind \<in> set [VAR_SET_VALUE, VAR_SET_DEFAULT, VAR_SET_CURRENT, VAR_RESET] \<and> name \<noteq> []
     then policy\<lparr>po_replayName := to_lower name, po_replaySQL := replaySQL\<rparr>
     else policy\<lparr>po_pin := True\<rparr>)"

definition classifyRawSessionState :: "node option \<Rightarrow> string \<Rightarrow> sessionStatePolicy" where
  "classifyRawSessionState raw replaySQL =
     (let pinned = no_policy\<lparr>po_requiresBackend := True, po_pin := True\<rparr> in
      case raw of None \<Rightarrow> no_policy
      | Some statement \<Rightarrow>
          (let nested = (if protobufContainsSessionState statement then pinned else no_policy) in
           case statement of
             Node_VariableSetStmt kind name isLocal _ \<Rightarrow> classify_variable kind name isLocal replaySQL
           | Node_DiscardStmt target \<Rightarrow>
               if target = DISCARD_ALL then no_policy\<lparr>po_requiresBackend := True, po_resetAll := True\<rparr> else pinned
           | Node_UpdateStmt u \<Rightarrow> if isPGSettingsRelation (upd_relation u) then pinned else nested
           | Node_Other name _ \<Rightarrow>
               if name = ''PrepareStmt'' then pinned\<lparr>po_discardPrepared := True\<rparr>
               else if name \<in> set [''ListenStmt'', ''UnlistenStmt'', ''DeclareCursorStmt''] then pinned
               else if name \<in> set [''DoStmt'', ''LoadStmt''] then pinned\<lparr>po_destroy := True\<rparr> else nested
           | _ \<Rightarrow> nested))"

definition combine_policy :: "sessionStatePolicy \<Rightarrow> sessionStatePolicy \<Rightarrow> sessionStatePolicy" where
  "combine_policy policy combined = combined\<lparr>
     po_requiresBackend := po_requiresBackend combined \<or> po_requiresBackend policy,
     po_pin := po_pin combined \<or> po_pin policy \<or> po_replayName policy \<noteq> [] \<or> po_resetAll policy,
     po_destroy := po_destroy combined \<or> po_destroy policy,
     po_discardPrepared := po_discardPrepared combined \<or> po_discardPrepared policy\<rparr>"

definition classifySessionState :: "parser \<Rightarrow> string \<Rightarrow> sessionStatePolicy" where
  "classifySessionState parse sql = (case parse sql of
       None \<Rightarrow> if firstSQLKeyword sql \<in> set [''SET'', ''RESET'', ''DISCARD'', ''LISTEN'', ''UNLISTEN'', ''PREPARE'']
               then no_policy\<lparr>po_requiresBackend := True, po_pin := True, po_destroy := True\<rparr> else no_policy
     | Some tree \<Rightarrow>
         (case map (\<lambda>raw. classifyRawSessionState raw (trim_space sql)) tree of
            [policy] \<Rightarrow> policy
          | policies \<Rightarrow> fold combine_policy policies no_policy))"

definition requiresSessionBackend :: "parser \<Rightarrow> string \<Rightarrow> bool" where
  "requiresSessionBackend parse sql = po_requiresBackend (classifySessionState parse sql)"

definition requiresSessionAffinity :: "parser \<Rightarrow> string \<Rightarrow> bool" where
  "requiresSessionAffinity parse sql = po_pin (classifySessionState parse sql)"

section \<open>The session\<close>

record extendedState =
  es_transaction :: bool
  es_transactionFailed :: bool
  es_mutated :: bool
  es_target :: string
  es_schemaDirty :: bool
  es_writeParticipants :: "string set"
  es_sessionAffinity :: bool
  es_sessionDestroy :: bool
  es_sessionDiscardPrepared :: bool
  es_sessionSettings :: "(string \<times> string) list"
  es_temp :: temp_rels
  es_temporarySnapshots :: "(string \<times> temp_rels) list"

definition txStatus :: "extendedState \<Rightarrow> char" where
  "txStatus s = (if es_transaction s \<and> es_transactionFailed s then CHR ''E'' else if es_transaction s then CHR ''T'' else CHR ''I'')"

definition participantNames :: "string set \<Rightarrow> string list" where
  "participantNames participants = sorted_list_of_set participants"

definition recordWriteParticipants :: "parser \<Rightarrow> string \<Rightarrow> string list \<Rightarrow> extendedState \<Rightarrow> extendedState" where
  "recordWriteParticipants parse sql targets s =
     (if \<not> es_transaction s \<or> (\<not> requiresRoutedWrite sql \<and> \<not> requiresFleetWriteOrder parse sql (length targets)) then s
      else s\<lparr>es_writeParticipants := es_writeParticipants s \<union> set targets, es_mutated := True\<rparr>)"

definition beginTemporaryTransaction :: "extendedState \<Rightarrow> extendedState" where
  "beginTemporaryTransaction s = (if es_temporarySnapshots s = [] then s\<lparr>es_temporarySnapshots := [([], es_temp s)]\<rparr> else s)"

definition rememberTemporarySavepoint :: "string \<Rightarrow> extendedState \<Rightarrow> extendedState" where
  "rememberTemporarySavepoint name s = (let s1 = beginTemporaryTransaction s in
     s1\<lparr>es_temporarySnapshots := es_temporarySnapshots s1 @ [(name, es_temp s1)]\<rparr>)"

text \<open>The search for the innermost savepoint of a name: the index goes down from \<open>n\<close> and stops before 0,
  the snapshot of the transaction itself.\<close>

fun find_savepoint :: "string \<Rightarrow> (string \<times> temp_rels) list \<Rightarrow> nat \<Rightarrow> nat option" where
  "find_savepoint name snapshots 0 = None"
| "find_savepoint name snapshots (Suc n) =
     (if fst (snapshots ! Suc n) = name then Some (Suc n) else find_savepoint name snapshots n)"

definition restoreTemporarySavepoint :: "string \<Rightarrow> extendedState \<Rightarrow> extendedState" where
  "restoreTemporarySavepoint name s = (case find_savepoint name (es_temporarySnapshots s) (length (es_temporarySnapshots s) - 1) of
       None \<Rightarrow> s
     | Some i \<Rightarrow> s\<lparr>es_temp := snd (es_temporarySnapshots s ! i), es_temporarySnapshots := take (i + 1) (es_temporarySnapshots s)\<rparr>)"

definition releaseTemporarySavepoint :: "string \<Rightarrow> extendedState \<Rightarrow> extendedState" where
  "releaseTemporarySavepoint name s = (case find_savepoint name (es_temporarySnapshots s) (length (es_temporarySnapshots s) - 1) of
       None \<Rightarrow> s
     | Some i \<Rightarrow> s\<lparr>es_temporarySnapshots := take i (es_temporarySnapshots s)\<rparr>)"

definition finishTemporaryTransaction :: "bool \<Rightarrow> bool \<Rightarrow> extendedState \<Rightarrow> extendedState" where
  "finishTemporaryTransaction commit chain s =
     (let s1 = (if commit then s\<lparr>es_temp := applyTemporaryOnCommitDrop (es_temp s)\<rparr>
                else if es_temporarySnapshots s \<noteq> [] then s\<lparr>es_temp := snd (hd (es_temporarySnapshots s))\<rparr> else s);
          s2 = s1\<lparr>es_temporarySnapshots := []\<rparr> in
      if chain then beginTemporaryTransaction s2 else s2)"

definition clear_transaction :: "bool \<Rightarrow> extendedState \<Rightarrow> extendedState" where
  "clear_transaction transaction s = s\<lparr>es_transaction := transaction, es_transactionFailed := False, es_target := [],
     es_mutated := False, es_writeParticipants := {}\<rparr>"

definition updateTransactionStatement :: "transaction_stmt \<Rightarrow> extendedState \<Rightarrow> extendedState" where
  "updateTransactionStatement tx s = (case ts_kind tx of
       TRANS_BEGIN \<Rightarrow> clear_transaction True (beginTemporaryTransaction s)
     | TRANS_START \<Rightarrow> clear_transaction True (beginTemporaryTransaction s)
     | TRANS_SAVEPOINT \<Rightarrow> rememberTemporarySavepoint (ts_savepoint tx) s
     | TRANS_ROLLBACK_TO \<Rightarrow> (restoreTemporarySavepoint (ts_savepoint tx) s)\<lparr>es_transaction := True, es_transactionFailed := False\<rparr>
     | TRANS_RELEASE \<Rightarrow> releaseTemporarySavepoint (ts_savepoint tx) s
     | TRANS_COMMIT \<Rightarrow> clear_transaction (ts_chain tx) (finishTemporaryTransaction True (ts_chain tx) s)
     | TRANS_ROLLBACK \<Rightarrow> clear_transaction (ts_chain tx) (finishTemporaryTransaction False (ts_chain tx) s)
     | _ \<Rightarrow> clear_transaction False s)"

definition apply_statement :: "node option \<Rightarrow> extendedState \<Rightarrow> extendedState" where
  "apply_statement raw s = (case raw of None \<Rightarrow> s
     | Some (Node_TransactionStmt tx) \<Rightarrow> updateTransactionStatement tx s
     | Some statement \<Rightarrow> s\<lparr>es_temp := rememberTemporaryStatement (es_transaction s) statement (es_temp s)\<rparr>)"

definition applySuccessfulSQLState :: "parser \<Rightarrow> string \<Rightarrow> extendedState \<Rightarrow> extendedState" where
  "applySuccessfulSQLState parse sql s = (case parse sql of None \<Rightarrow> s | Some tree \<Rightarrow> fold apply_statement tree s)"

definition updateTransactionState :: "parser \<Rightarrow> string \<Rightarrow> extendedState \<Rightarrow> extendedState" where
  "updateTransactionState parse sql s = (case parse sql of None \<Rightarrow> s
     | Some tree \<Rightarrow> fold (\<lambda>raw s. case raw of Some (Node_TransactionStmt tx) \<Rightarrow> updateTransactionStatement tx s | _ \<Rightarrow> s) tree s)"

definition rememberTemporaryDDL :: "parser \<Rightarrow> string \<Rightarrow> extendedState \<Rightarrow> extendedState" where
  "rememberTemporaryDDL parse sql s = (case parse sql of None \<Rightarrow> s
     | Some tree \<Rightarrow> fold (\<lambda>raw s. case raw of None \<Rightarrow> s
         | Some statement \<Rightarrow> s\<lparr>es_temp := rememberTemporaryStatement (es_transaction s) statement (es_temp s)\<rparr>) tree s)"

definition session_classifySessionState :: "parser \<Rightarrow> string \<Rightarrow> extendedState \<Rightarrow> sessionStatePolicy" where
  "session_classifySessionState parse sql s = (let policy = classifySessionState parse sql in
     if es_transaction s \<and> (po_replayName policy \<noteq> [] \<or> po_resetAll policy)
     then policy\<lparr>po_pin := True, po_replayName := [], po_replaySQL := [], po_resetAll := False\<rparr> else policy)"

definition beginSessionState :: "sessionStatePolicy \<Rightarrow> extendedState \<Rightarrow> extendedState" where
  "beginSessionState policy s = s\<lparr>es_sessionAffinity := es_sessionAffinity s \<or> po_pin policy,
     es_sessionDestroy := es_sessionDestroy s \<or> po_destroy policy,
     es_sessionDiscardPrepared := es_sessionDiscardPrepared s \<or> po_discardPrepared policy\<rparr>"

definition commitSessionState :: "sessionStatePolicy \<Rightarrow> extendedState \<Rightarrow> extendedState" where
  "commitSessionState policy s =
     (if po_resetAll policy then s\<lparr>es_sessionSettings := [], es_sessionAffinity := es_sessionDestroy s, es_sessionDiscardPrepared := False\<rparr>
      else if po_replayName policy = [] then s
      else s\<lparr>es_sessionSettings := filter (\<lambda>(name, sql). name \<noteq> po_replayName policy) (es_sessionSettings s)
                                    @ [(po_replayName policy, po_replaySQL policy)]\<rparr>)"

definition sessionReplaySQL :: "extendedState \<Rightarrow> string list" where
  "sessionReplaySQL s = map snd (es_sessionSettings s)"


section \<open>Rollback of temporary relations\<close>

lemma find_savepoint_Some:
  assumes "find_savepoint name snapshots k = Some i"
  shows "0 < i" "i \<le> k" "fst (snapshots ! i) = name" "\<forall>j. i < j \<and> j \<le> k \<longrightarrow> fst (snapshots ! j) \<noteq> name"
  using assms by (induction k) (auto split: if_splits, (metis le_SucE)+)

lemma find_savepoint_None: "find_savepoint name snapshots k = None \<longleftrightarrow> (\<forall>j. 0 < j \<and> j \<le> k \<longrightarrow> fst (snapshots ! j) \<noteq> name)"
  by (induction k) (auto, (metis le_SucE)+)

text \<open>\<open>ends_transaction\<close>: the statement finishes the transaction block.\<close>

definition ends_transaction :: "node option \<Rightarrow> bool" where
  "ends_transaction raw = (case raw of Some (Node_TransactionStmt tx) \<Rightarrow> ts_kind tx \<in> {TRANS_COMMIT, TRANS_ROLLBACK} | _ \<Rightarrow> False)"

definition first_snapshot :: "temp_rels \<Rightarrow> extendedState \<Rightarrow> bool" where
  "first_snapshot t s = (es_temporarySnapshots s \<noteq> [] \<and> snd (hd (es_temporarySnapshots s)) = t)"

lemma restore_first: "first_snapshot t s \<Longrightarrow> first_snapshot t (restoreTemporarySavepoint name s)"
  by (auto simp: first_snapshot_def restoreTemporarySavepoint_def split: option.splits)

lemma release_first: "first_snapshot t s \<Longrightarrow> first_snapshot t (releaseTemporarySavepoint name s)"
  by (auto simp: first_snapshot_def releaseTemporarySavepoint_def dest: find_savepoint_Some(1) split: option.splits)

lemma apply_first:
  assumes "first_snapshot t s" and "\<not> ends_transaction raw"
  shows "first_snapshot t (apply_statement raw s)"
proof (cases "\<exists>tx. raw = Some (Node_TransactionStmt tx)")
  case True
  then obtain tx where raw: "raw = Some (Node_TransactionStmt tx)" by blast
  have rel: "first_snapshot t (releaseTemporarySavepoint n s)" "first_snapshot t (restoreTemporarySavepoint n s)" for n
    using assms(1) by (auto intro: restore_first release_first)
  show ?thesis
    using assms rel unfolding raw
    by (cases "ts_kind tx") (auto simp: apply_statement_def updateTransactionStatement_def ends_transaction_def first_snapshot_def
        clear_transaction_def beginTemporaryTransaction_def rememberTemporarySavepoint_def Let_def)
next
  case False
  then have "es_temporarySnapshots (apply_statement raw s) = es_temporarySnapshots s"
    by (auto simp: apply_statement_def split: option.splits node.splits)
  then show ?thesis using assms(1) by (simp add: first_snapshot_def)
qed

lemma body_first:
  assumes "first_snapshot t s" and "list_all (\<lambda>raw. \<not> ends_transaction raw) body"
  shows "first_snapshot t (fold apply_statement body s)"
  using assms by (induction body arbitrary: s) (auto simp: apply_first)

text \<open>Savepoints: \<open>above\<close> holds while the savepoint \<open>(name, t)\<close> stands on top of the snapshots \<open>base\<close>,
  with later savepoints of other names above it.\<close>

definition above :: "(string \<times> temp_rels) list \<Rightarrow> string \<Rightarrow> temp_rels \<Rightarrow> extendedState \<Rightarrow> bool" where
  "above base name t s = (base \<noteq> [] \<and> (\<exists>inner. es_temporarySnapshots s = base @ (name, t) # inner \<and> name \<notin> fst ` set inner))"

text \<open>\<open>inside\<close>: a statement that does not end the transaction or the savepoint \<open>name\<close>: it opens, rolls
  back to and releases only savepoints of other names, none of them set before \<open>name\<close>.\<close>

definition inside :: "string set \<Rightarrow> string \<Rightarrow> node option \<Rightarrow> bool" where
  "inside outer name raw = (case raw of Some (Node_TransactionStmt tx) \<Rightarrow>
       ts_kind tx \<in> {TRANS_SAVEPOINT, TRANS_ROLLBACK_TO, TRANS_RELEASE} \<and> ts_savepoint tx \<notin> insert name outer
     | _ \<Rightarrow> True)"

lemma find_above:
  assumes "snapshots = base @ (name, t) # inner" and "m \<notin> insert name (fst ` set (tl base))" and "base \<noteq> []"
    and "find_savepoint m snapshots (length snapshots - 1) = Some i"
  shows "length base < i" "i < length snapshots"
proof -
  note f = find_savepoint_Some[OF assms(4)]
  show "i < length snapshots" using f(2) assms(1) by simp
  show "length base < i"
  proof (rule ccontr)
    assume "\<not> length base < i"
    then consider "i = length base" | "i < length base" by linarith
    then show False
    proof cases
      case 1
      then show False using f(3) assms(1,2) by (auto simp: nth_append)
    next
      case 2
      then have "base ! i \<in> set (tl base)" using f(1) assms(3) by (cases base; cases i) auto
      then show False using f(3) assms(1,2) 2 by (auto simp: nth_append)
    qed
  qed
qed

lemma take_above: "length base < i \<Longrightarrow> take i (base @ x # inner) = base @ x # take (i - length base - 1) inner"
  by (simp add: take_Cons')

lemma above_take:
  assumes "above base name t s" and "length base < i" and "es_temporarySnapshots s' = take i (es_temporarySnapshots s)"
  shows "above base name t s'"
proof -
  obtain inner where inner: "es_temporarySnapshots s = base @ (name, t) # inner" "name \<notin> fst ` set inner" "base \<noteq> []"
    using assms(1) by (auto simp: above_def)
  have "set (take j inner) \<subseteq> set inner" for j by (rule set_take_subset)
  then have "name \<notin> fst ` set (take (i - length base - 1) inner)" using inner(2) by blast
  moreover have "es_temporarySnapshots s' = base @ (name, t) # take (i - length base - 1) inner"
    unfolding assms(3) inner(1) by (rule take_above[OF assms(2)])
  ultimately show ?thesis using inner(3) unfolding above_def by blast
qed


lemma apply_above:
  assumes "above base name t s" and "inside (fst ` set (tl base)) name raw"
  shows "above base name t (apply_statement raw s)"
proof (cases "\<exists>tx. raw = Some (Node_TransactionStmt tx)")
  case True
  then obtain tx where raw: "raw = Some (Node_TransactionStmt tx)" by blast
  let ?m = "ts_savepoint tx" and ?snaps = "es_temporarySnapshots s"
  have m: "?m \<notin> insert name (fst ` set (tl base))" and kind: "ts_kind tx \<in> {TRANS_SAVEPOINT, TRANS_ROLLBACK_TO, TRANS_RELEASE}"
    using assms(2) raw by (auto simp: inside_def)
  obtain inner where inner: "?snaps = base @ (name, t) # inner" "name \<notin> fst ` set inner" "base \<noteq> []"
    using assms(1) by (auto simp: above_def)
  have found: "length base < i" if "find_savepoint ?m ?snaps (length ?snaps - 1) = Some i" for i
    using find_above(1)[OF inner(1) m inner(3) that] .
  consider (savepoint) "ts_kind tx = TRANS_SAVEPOINT" | (rollback) "ts_kind tx = TRANS_ROLLBACK_TO" | (release) "ts_kind tx = TRANS_RELEASE"
    using kind by auto
  then show ?thesis
  proof cases
    case savepoint
    then show ?thesis using raw inner m
      by (auto simp: above_def apply_statement_def updateTransactionStatement_def rememberTemporarySavepoint_def
          beginTemporaryTransaction_def Let_def)
  next
    case rollback
    show ?thesis
    proof (cases "find_savepoint ?m ?snaps (length ?snaps - 1)")
      case None
      then show ?thesis using assms(1) raw rollback
        by (simp add: above_def apply_statement_def updateTransactionStatement_def restoreTemporarySavepoint_def)
    next
      case (Some i)
      then show ?thesis using found[OF Some] raw rollback
        by (intro above_take[OF assms(1), of "i + 1"])
          (simp_all add: apply_statement_def updateTransactionStatement_def restoreTemporarySavepoint_def)
    qed
  next
    case release
    show ?thesis
    proof (cases "find_savepoint ?m ?snaps (length ?snaps - 1)")
      case None
      then show ?thesis using assms(1) raw release
        by (simp add: above_def apply_statement_def updateTransactionStatement_def releaseTemporarySavepoint_def)
    next
      case (Some i)
      then show ?thesis using found[OF Some] raw release
        by (intro above_take[OF assms(1), of i])
          (simp_all add: apply_statement_def updateTransactionStatement_def releaseTemporarySavepoint_def)
    qed
  qed
next
  case False
  then have "es_temporarySnapshots (apply_statement raw s) = es_temporarySnapshots s"
    by (auto simp: apply_statement_def split: option.splits node.splits)
  then show ?thesis using assms(1) by (simp add: above_def)
qed

lemma body_above:
  assumes "above base name t s" and "list_all (inside (fst ` set (tl base)) name) body"
  shows "above base name t (fold apply_statement body s)"
  using assms by (induction body arbitrary: s) (auto simp: apply_above)

lemma restore_above:
  assumes "above base name t s"
  shows "es_temp (restoreTemporarySavepoint name s) = t"
    and "es_temporarySnapshots (restoreTemporarySavepoint name s) = base @ [(name, t)]"
proof -
  obtain inner where inner: "es_temporarySnapshots s = base @ (name, t) # inner" "name \<notin> fst ` set inner" "base \<noteq> []"
    using assms by (auto simp: above_def)
  let ?snaps = "es_temporarySnapshots s"
  have at: "fst (?snaps ! length base) = name" using inner by simp
  have "find_savepoint name ?snaps (length ?snaps - 1) \<noteq> None"
    using at inner unfolding find_savepoint_None by auto
  then obtain i where i: "find_savepoint name ?snaps (length ?snaps - 1) = Some i" by blast
  note f = find_savepoint_Some[OF i]
  have "i = length base"
  proof (rule ccontr)
    assume "i \<noteq> length base"
    moreover have "length base \<le> i" 
      using f(4)[rule_format, of "length base"] at inner(1) by (cases "i < length base") auto
    ultimately have "length base < i" "i < length ?snaps" using f(2) inner(1) by auto
    then have "fst (?snaps ! i) \<in> fst ` set inner" using inner(1) by (auto simp: nth_append nth_Cons')
    then show False using f(3) inner(2) by simp
  qed
  then show "es_temp (restoreTemporarySavepoint name s) = t"
    "es_temporarySnapshots (restoreTemporarySavepoint name s) = base @ [(name, t)]"
    using i inner(1) by (simp_all add: restoreTemporarySavepoint_def)
qed


definition tx_command :: "transaction_kind \<Rightarrow> string \<Rightarrow> node option" where
  "tx_command kind name = Some (Node_TransactionStmt \<lparr>ts_kind = kind, ts_savepoint = name, ts_chain = False\<rparr>)"

text \<open>C25. The Proxy's picture of a session's temporary relations follows the transaction.  Whatever
  statements run between BEGIN and ROLLBACK (creating, renaming and dropping temporary relations and
  indexes, setting, releasing and rolling back to savepoints), the relations known after ROLLBACK are those
  known before BEGIN; and whatever runs between SAVEPOINT and ROLLBACK TO the same savepoint, nested
  savepoints of other names included, the relations are those known at the SAVEPOINT, and the savepoint
  stays.\<close>

theorem rollback_restores_temporaries:
  assumes "list_all (\<lambda>raw. \<not> ends_transaction raw) body" and "es_temporarySnapshots s = []"
    and "es_temporarySnapshots q \<noteq> []"
    and "list_all (inside (fst ` set (tl (es_temporarySnapshots q))) name) inner"
  shows "es_temp (fold apply_statement ([tx_command TRANS_BEGIN []] @ body @ [tx_command TRANS_ROLLBACK []]) s) = es_temp s
    \<and> es_temporarySnapshots (fold apply_statement ([tx_command TRANS_BEGIN []] @ body @ [tx_command TRANS_ROLLBACK []]) s) = []
    \<and> es_temp (fold apply_statement ([tx_command TRANS_SAVEPOINT name] @ inner @ [tx_command TRANS_ROLLBACK_TO name]) q) = es_temp q
    \<and> es_temporarySnapshots (fold apply_statement ([tx_command TRANS_SAVEPOINT name] @ inner @ [tx_command TRANS_ROLLBACK_TO name]) q)
        = es_temporarySnapshots q @ [(name, es_temp q)]"
proof -
  have "first_snapshot (es_temp s) (apply_statement (tx_command TRANS_BEGIN []) s)"
    using assms(2) by (simp add: first_snapshot_def tx_command_def apply_statement_def updateTransactionStatement_def
        clear_transaction_def beginTemporaryTransaction_def)
  from body_first[OF this assms(1)]
  have begun: "first_snapshot (es_temp s) (fold apply_statement body (apply_statement (tx_command TRANS_BEGIN []) s))" .
  have "above (es_temporarySnapshots q) name (es_temp q) (apply_statement (tx_command TRANS_SAVEPOINT name) q)"
    using assms(3) by (simp add: above_def tx_command_def apply_statement_def updateTransactionStatement_def
        rememberTemporarySavepoint_def beginTemporaryTransaction_def)
  from restore_above[OF body_above[OF this assms(4)]] begun show ?thesis
    by (simp add: first_snapshot_def tx_command_def apply_statement_def updateTransactionStatement_def clear_transaction_def
        finishTemporaryTransaction_def)
qed

definition sample_temp :: "string \<Rightarrow> on_commit \<Rightarrow> node option" where
  "sample_temp name oncommit = Some (Node_CreateStmt (Some \<lparr>rv_schemaname = [], rv_relname = name, rv_relpersistence = ''t'', rv_alias = None\<rparr>)
     [] oncommit [])"

definition new_session :: extendedState where
  "new_session = \<lparr>es_transaction = False, es_transactionFailed = False, es_mutated = False, es_target = [], es_schemaDirty = False,
     es_writeParticipants = {}, es_sessionAffinity = False, es_sessionDestroy = False, es_sessionDiscardPrepared = False,
     es_sessionSettings = [], es_temp = no_temporaries, es_temporarySnapshots = []\<rparr>"

theorem rollback_restores_temporaries_witness:
  "''t'' \<in> tr_relations (es_temp (fold apply_statement [tx_command TRANS_BEGIN [], sample_temp ''t'' ONCOMMIT_NOOP] new_session))
   \<and> es_temp (fold apply_statement ([tx_command TRANS_BEGIN []] @ [sample_temp ''t'' ONCOMMIT_NOOP] @ [tx_command TRANS_ROLLBACK []]) new_session)
     = no_temporaries"
proof -
  have "''t'' \<in> tr_relations (es_temp (fold apply_statement [tx_command TRANS_BEGIN [], sample_temp ''t'' ONCOMMIT_NOOP] new_session))"
    by (simp add: tx_command_def sample_temp_def new_session_def no_temporaries_def apply_statement_def updateTransactionStatement_def
        clear_transaction_def beginTemporaryTransaction_def rememberTemporaryStatement_def rememberTemporaryRelation_def
        temporaryRelationKeys_def temporaryNameKeys_def relation_name_def)
  moreover have "list_all (\<lambda>raw. \<not> ends_transaction raw) [sample_temp ''t'' ONCOMMIT_NOOP]" "es_temporarySnapshots new_session = []"
    by (simp_all add: ends_transaction_def sample_temp_def new_session_def)
  note r = rollback_restores_temporaries[OF this, of "new_session\<lparr>es_temporarySnapshots := [([], no_temporaries)]\<rparr>" "''p''" "[]"]
  moreover have "es_temp new_session = no_temporaries" by (simp add: new_session_def)
  ultimately show ?thesis by simp
qed

text \<open>Where the picture is lost.  PREPARE TRANSACTION leaves the snapshot of the finished transaction, so
  the next ROLLBACK forgets relations created in between; COMMIT of a failed transaction, which PostgreSQL turns into a
  rollback, keeps the relations it created; and a temporary view is not remembered, so dropping it counts as
  durable fleet DDL.\<close>

lemma prepared_transaction_stale_snapshot:
  "tr_relations (es_temp (fold apply_statement [tx_command TRANS_BEGIN [], tx_command TRANS_PREPARE [], sample_temp ''t'' ONCOMMIT_NOOP,
     tx_command TRANS_BEGIN [], tx_command TRANS_ROLLBACK []] new_session)) = {}"
  by code_simp

lemma failed_commit_keeps_temporaries:
  "''t'' \<in> tr_relations (es_temp (apply_statement (tx_command TRANS_COMMIT [])
     ((fold apply_statement [tx_command TRANS_BEGIN [], sample_temp ''t'' ONCOMMIT_NOOP] new_session)\<lparr>es_transactionFailed := True\<rparr>)))"
  by code_simp

lemma temporary_view_not_remembered:
  "classify_statements [Some (Node_ViewStmt (Some \<lparr>rv_schemaname = [], rv_relname = ''v'', rv_relpersistence = ''t'', rv_alias = None\<rparr>) []),
     Some (Node_DropStmt OBJECT_VIEW [Node_List [Node_String ''v'']] False)] no_temporaries = (True, True)"
  by code_simp

section \<open>Replay of session settings\<close>

text \<open>The abstract session: the last statement that set each parameter since the last reset.\<close>

definition setting_spec :: "sessionStatePolicy \<Rightarrow> (string \<Rightarrow> string option) \<Rightarrow> string \<Rightarrow> string option" where
  "setting_spec policy m = (if po_resetAll policy then Map.empty
     else if po_replayName policy = [] then m else m(po_replayName policy \<mapsto> po_replaySQL policy))"

lemma map_of_filter_fst: "map_of (filter (\<lambda>(k, v). k \<noteq> a) xs) = (map_of xs)(a := None)"
  by (induction xs) (auto simp: fun_upd_def)

lemma commit_setting:
  assumes "distinct (map fst (es_sessionSettings s))"
  shows "map_of (es_sessionSettings (commitSessionState policy s)) = setting_spec policy (map_of (es_sessionSettings s))"
    and "distinct (map fst (es_sessionSettings (commitSessionState policy s)))"
proof -
  have "fst ` set (filter (\<lambda>(n, q). n \<noteq> a) xs) = fst ` set xs - {a}" for a :: string and xs :: "(string \<times> string) list"
    by (auto simp: image_iff)
  then have fresh: "a \<notin> fst ` set (filter (\<lambda>(n, q). n \<noteq> a) xs)" for a :: string and xs :: "(string \<times> string) list" by blast
  show "map_of (es_sessionSettings (commitSessionState policy s)) = setting_spec policy (map_of (es_sessionSettings s))"
    by (auto simp: commitSessionState_def setting_spec_def map_add_def map_of_filter_fst fun_eq_iff split: option.splits)
  show "distinct (map fst (es_sessionSettings (commitSessionState policy s)))"
    using assms fresh by (auto simp: commitSessionState_def distinct_map_filter)
qed

text \<open>C26. The settings replayed on a new Tunnel are those of the session: after any sequence of successful
  statements, the replay list holds one statement for each parameter set since the last RESET ALL or
  DISCARD ALL, the last one issued for it; and a SET inside a transaction block, which may yet be rolled
  back, is never added to the list but pins the session to its Tunnel.\<close>

theorem replay_refines_settings:
  assumes "distinct (map fst (es_sessionSettings s))"
  shows "map_of (es_sessionSettings (fold commitSessionState policies s)) = fold setting_spec policies (map_of (es_sessionSettings s))
    \<and> distinct (map fst (es_sessionSettings (fold commitSessionState policies s)))
    \<and> sessionReplaySQL (fold commitSessionState policies s) = map snd (es_sessionSettings (fold commitSessionState policies s))
    \<and> (es_transaction s \<and> setting_spec (classifySessionState parse sql) m \<noteq> m
         \<longrightarrow> commitSessionState (session_classifySessionState parse sql s) s = s \<and> po_pin (session_classifySessionState parse sql s))"
proof -
  have "map_of (es_sessionSettings (fold commitSessionState policies s)) = fold setting_spec policies (map_of (es_sessionSettings s))
    \<and> distinct (map fst (es_sessionSettings (fold commitSessionState policies s)))"
    using assms by (induction policies arbitrary: s) (simp_all add: commit_setting)
  then show ?thesis
    by (auto simp: sessionReplaySQL_def setting_spec_def session_classifySessionState_def commitSessionState_def Let_def split: if_splits)
qed

theorem replay_refines_settings_witness:
  "es_sessionSettings (fold commitSessionState
      [no_policy\<lparr>po_replayName := ''a'', po_replaySQL := ''1''\<rparr>, no_policy\<lparr>po_replayName := ''b'', po_replaySQL := ''2''\<rparr>,
       no_policy\<lparr>po_replayName := ''a'', po_replaySQL := ''3''\<rparr>] new_session) = [(''b'', ''2''), (''a'', ''3'')]
   \<and> map_of (es_sessionSettings (fold commitSessionState
      [no_policy\<lparr>po_replayName := ''a'', po_replaySQL := ''1''\<rparr>, no_policy\<lparr>po_replayName := ''b'', po_replaySQL := ''2''\<rparr>,
       no_policy\<lparr>po_replayName := ''a'', po_replaySQL := ''3''\<rparr>] new_session)) ''a'' = Some ''3''"
proof -
  let ?ps = "[no_policy\<lparr>po_replayName := ''a'', po_replaySQL := ''1''\<rparr>, no_policy\<lparr>po_replayName := ''b'', po_replaySQL := ''2''\<rparr>,
       no_policy\<lparr>po_replayName := ''a'', po_replaySQL := ''3''\<rparr>]"
  have "distinct (map fst (es_sessionSettings new_session))" by (simp add: new_session_def)
  from replay_refines_settings[OF this, of ?ps]
  have "map_of (es_sessionSettings (fold commitSessionState ?ps new_session)) ''a'' = fold setting_spec ?ps (map_of (es_sessionSettings new_session)) ''a''"
    by simp
  then show ?thesis by (simp add: setting_spec_def no_policy_def commitSessionState_def new_session_def)
qed

end
