(* ===== verification/Two_Phase.thy ===== *)
theory Two_Phase
  imports Pg_Message
begin

text \<open>
  Two-phase commit and atomic fleet-wide DDL of \<^verbatim>\<open>internal/proxy/server.go\<close>: \<^verbatim>\<open>commitTwoPhase\<close>,
  \<^verbatim>\<open>beginAtomicFleetDDL\<close>, \<^verbatim>\<open>rollbackAtomicFleetDDL\<close>, \<^verbatim>\<open>commitAtomicFleetDDL\<close> and
  \<^verbatim>\<open>runTransactionCommand\<close>.  The exchange with a Burrow (the socket and the PostgreSQL server behind it) is
  the parameter \<open>exch\<close>: it takes the Burrow, the SQL text and the state of the world, and gives the text
  of a transport error or the messages received, with the new state.  What the commands do to the transaction of a Burrow is
  the contract \<open>tx_contract\<close>, PostgreSQL's documented behaviour.
\<close>

type_synonym 's exchange1 = "string \<Rightarrow> string \<Rightarrow> 's \<Rightarrow> (string + response) \<times> 's"

text \<open>The world the Proxy acts on, and the operations it has counted (\<^verbatim>\<open>RecordOperation\<close>).\<close>

record 's fleet =
  fl_world :: 's
  fl_operations :: "(string \<times> string) list"

definition RecordOperation :: "string \<Rightarrow> string \<Rightarrow> 's fleet \<Rightarrow> 's fleet" where
  "RecordOperation operation outcome fl = fl\<lparr>fl_operations := fl_operations fl @ [(operation, outcome)]\<rparr>"

definition runTransactionCommand :: "'s exchange1 \<Rightarrow> string \<Rightarrow> string \<Rightarrow> 's fleet \<Rightarrow> ErrorResponse option \<times> 's fleet" where
  "runTransactionCommand exch burrow sql fl = (case exch burrow sql (fl_world fl) of (reply, w) \<Rightarrow>
     ((case reply of Inl err \<Rightarrow> Some \<lparr>er_Severity = ''ERROR'', er_Code = ''08006'', er_Message = err\<rparr>
       | Inr messages \<Rightarrow> firstError [messages]), fl\<lparr>fl_world := w\<rparr>))"

text \<open>A loop that runs a command on every Burrow and ignores the outcome, and one that notes whether any
  command failed.\<close>

fun run_each :: "'s exchange1 \<Rightarrow> string \<Rightarrow> string list \<Rightarrow> 's fleet \<Rightarrow> bool \<times> 's fleet" where
  "run_each exch sql [] fl = (False, fl)"
| "run_each exch sql (name # names) fl =
     (case runTransactionCommand exch name sql fl of (response, fl1) \<Rightarrow>
        case run_each exch sql names fl1 of (failed, fl2) \<Rightarrow> (response \<noteq> None \<or> failed, fl2))"

text \<open>A loop that stops at the first Burrow that fails, with the Burrows that succeeded.\<close>

fun run_while_ok :: "'s exchange1 \<Rightarrow> string \<Rightarrow> string list \<Rightarrow> string list \<Rightarrow> 's fleet
    \<Rightarrow> (string \<times> ErrorResponse) option \<times> string list \<times> 's fleet" where
  "run_while_ok exch sql before [] fl = (None, before, fl)"
| "run_while_ok exch sql before (name # names) fl =
     (case runTransactionCommand exch name sql fl of (response, fl1) \<Rightarrow>
        (case response of Some e \<Rightarrow> (Some (name, e), before, fl1)
         | None \<Rightarrow> run_while_ok exch sql (before @ [name]) names fl1))"

definition rollbackAtomicFleetDDL :: "'s exchange1 \<Rightarrow> string list \<Rightarrow> 's fleet \<Rightarrow> 's fleet" where
  "rollbackAtomicFleetDDL exch burrows fl = (case run_each exch ''ROLLBACK'' burrows fl of (failed, fl1) \<Rightarrow>
     RecordOperation ''fleet_ddl'' (if failed then ''rollback_failure'' else ''rolled_back'') fl1)"

definition beginAtomicFleetDDL :: "'s exchange1 \<Rightarrow> string list \<Rightarrow> 's fleet \<Rightarrow> ErrorResponse option \<times> 's fleet" where
  "beginAtomicFleetDDL exch burrows fl = (case run_while_ok exch ''BEGIN'' [] burrows fl of
       (None, begun, fl1) \<Rightarrow> (None, fl1)
     | (Some (_, response), begun, fl1) \<Rightarrow>
         (Some response, RecordOperation ''fleet_ddl'' ''begin_failure'' (rollbackAtomicFleetDDL exch begun fl1)))"

definition prepare_sql :: "string \<Rightarrow> string" where
  "prepare_sql gid = ''PREPARE TRANSACTION '' @ CHR 0x27 # gid @ [CHR 0x27]"

definition commit_prepared_sql :: "string \<Rightarrow> string" where
  "commit_prepared_sql gid = ''COMMIT PREPARED '' @ CHR 0x27 # gid @ [CHR 0x27]"

definition rollback_prepared_sql :: "string \<Rightarrow> string" where
  "rollback_prepared_sql gid = ''ROLLBACK PREPARED '' @ CHR 0x27 # gid @ [CHR 0x27]"

definition in_doubt :: "string \<Rightarrow> string \<Rightarrow> string \<Rightarrow> ErrorResponse" where
  "in_doubt gid name message = \<lparr>er_Severity = ''ERROR'', er_Code = ''40003'',
     er_Message = ''two-phase commit '' @ gid @ '' is in doubt after Burrow '' @ name @ '' failed: '' @ message\<rparr>"

text \<open>\<open>gid\<close> is the random transaction identifier; \<open>shardNames\<close> the Burrows of the fleet.\<close>

definition commitTwoPhase :: "'s exchange1 \<Rightarrow> string list \<Rightarrow> string \<Rightarrow> string list \<Rightarrow> 's fleet \<Rightarrow> ErrorResponse option \<times> 's fleet" where
  "commitTwoPhase exch shardNames gid burrows fl =
     (case run_while_ok exch ''ROLLBACK'' [] (filter (\<lambda>name. name \<notin> set burrows) shardNames) fl of
        (Some (_, response), _, fl1) \<Rightarrow> (Some response, fl1)
      | (None, _, fl1) \<Rightarrow>
          (case run_while_ok exch (prepare_sql gid) [] burrows fl1 of
             (Some (_, response), prepared, fl2) \<Rightarrow>
               (Some response,
                snd (run_each exch ''ROLLBACK'' (drop (length prepared) burrows)
                  (snd (run_each exch (rollback_prepared_sql gid) prepared
                     (RecordOperation ''two_phase_commit'' ''prepare_failure'' fl2)))))
           | (None, prepared, fl2) \<Rightarrow>
               (case run_while_ok exch (commit_prepared_sql gid) [] prepared fl2 of
                  (Some (name, response), _, fl3) \<Rightarrow>
                    (Some (in_doubt gid name (er_Message response)), RecordOperation ''two_phase_commit'' ''uncertain'' fl3)
                | (None, _, fl3) \<Rightarrow> (None, RecordOperation ''two_phase_commit'' ''success'' fl3))))"

definition commitAtomicFleetDDL :: "'s exchange1 \<Rightarrow> string list \<Rightarrow> string \<Rightarrow> string list \<Rightarrow> 's fleet \<Rightarrow> ErrorResponse option \<times> 's fleet" where
  "commitAtomicFleetDDL exch shardNames gid burrows fl = (case commitTwoPhase exch shardNames gid burrows fl of
       (Some response, fl1) \<Rightarrow> (Some response, RecordOperation ''fleet_ddl'' ''commit_failure'' fl1)
     | (None, fl1) \<Rightarrow> (None, RecordOperation ''fleet_ddl'' ''committed'' fl1))"

section \<open>The transactions of the Burrows\<close>

text \<open>What has become of the transaction this frontend runs at a Burrow.\<close>

datatype tx_state = TxIdle | TxOpen | TxAborted | TxPrepared string | TxCommitted | TxRolledBack

text \<open>One command on one transaction: \<open>answered\<close> says that the Burrow replied without an error.  A command
  that fails, or whose reply is lost, has happened or has not; \<^verbatim>\<open>PREPARE TRANSACTION\<close> answers an aborted
  transaction with the tag \<^verbatim>\<open>ROLLBACK\<close> and no error.\<close>

definition rollback_step :: "bool \<Rightarrow> tx_state \<Rightarrow> tx_state \<Rightarrow> bool" where
  "rollback_step answered v v' = (if v \<in> {TxOpen, TxAborted} then v' = TxRolledBack \<or> (\<not> answered \<and> v' = v) else v' = v)"

definition prepare_step :: "string \<Rightarrow> bool \<Rightarrow> tx_state \<Rightarrow> tx_state \<Rightarrow> bool" where
  "prepare_step gid answered v v' =
     (if v = TxOpen then (if answered then v' = TxPrepared gid else v' \<in> {TxOpen, TxAborted, TxPrepared gid, TxRolledBack})
      else if v = TxAborted then v' = TxRolledBack \<or> (\<not> answered \<and> v' = TxAborted) else v' = v)"

definition commit_prepared_step :: "string \<Rightarrow> bool \<Rightarrow> tx_state \<Rightarrow> tx_state \<Rightarrow> bool" where
  "commit_prepared_step gid answered v v' =
     (if v = TxPrepared gid then v' = TxCommitted \<or> (\<not> answered \<and> v' = v) else v' = v)"

definition rollback_prepared_step :: "string \<Rightarrow> bool \<Rightarrow> tx_state \<Rightarrow> tx_state \<Rightarrow> bool" where
  "rollback_prepared_step gid answered v v' =
     (if v = TxPrepared gid then v' = TxRolledBack \<or> (\<not> answered \<and> v' = v) else v' = v)"

definition begin_step :: "bool \<Rightarrow> tx_state \<Rightarrow> tx_state \<Rightarrow> bool" where
  "begin_step answered v v' = (if v = TxIdle then v' = TxOpen \<or> (\<not> answered \<and> v' = TxIdle) else v' = v)"

definition answered :: "string + response \<Rightarrow> bool" where
  "answered reply = (case reply of Inl _ \<Rightarrow> False | Inr messages \<Rightarrow> firstErrorIn messages = None)"

text \<open>\<open>command_law\<close>: a command changes the transaction of its own Burrow only, by a step of \<open>step\<close>.\<close>

definition command_law :: "'s exchange1 \<Rightarrow> ('s \<Rightarrow> string \<Rightarrow> tx_state) \<Rightarrow> string \<Rightarrow> (bool \<Rightarrow> tx_state \<Rightarrow> tx_state \<Rightarrow> bool) \<Rightarrow> bool" where
  "command_law exch view sql step = (\<forall>b w reply w'. exch b sql w = (reply, w') \<longrightarrow>
     step (answered reply) (view w b) (view w' b) \<and> (\<forall>b'. b' \<noteq> b \<longrightarrow> view w' b' = view w b'))"

definition tx_contract :: "'s exchange1 \<Rightarrow> ('s \<Rightarrow> string \<Rightarrow> tx_state) \<Rightarrow> bool" where
  "tx_contract exch view = (command_law exch view ''BEGIN'' begin_step \<and> command_law exch view ''ROLLBACK'' rollback_step \<and>
     (\<forall>gid. command_law exch view (prepare_sql gid) (prepare_step gid)
        \<and> command_law exch view (commit_prepared_sql gid) (commit_prepared_step gid)
        \<and> command_law exch view (rollback_prepared_sql gid) (rollback_prepared_step gid)))"


section \<open>What the loops do\<close>

lemma RecordOperation_world [simp]: "fl_world (RecordOperation a b fl) = fl_world fl"
  by (simp add: RecordOperation_def)

lemma runTransactionCommand_step:
  assumes "command_law exch view sql step" and "runTransactionCommand exch b sql fl = (response, fl')"
  shows "step (response = None) (view (fl_world fl) b) (view (fl_world fl') b)"
    and "b' \<noteq> b \<Longrightarrow> view (fl_world fl') b' = view (fl_world fl) b'"
proof -
  obtain reply w where reply: "exch b sql (fl_world fl) = (reply, w)" by (cases "exch b sql (fl_world fl)")
  have ok: "answered reply = (response = None)" and w: "fl_world fl' = w"
    using assms(2) reply by (auto simp: runTransactionCommand_def answered_def split: sum.splits option.splits)
  have "step (answered reply) (view (fl_world fl) b) (view w b)"
    using assms(1) reply unfolding command_law_def by blast
  then show "step (response = None) (view (fl_world fl) b) (view (fl_world fl') b)"
    unfolding ok w .
  show "view (fl_world fl') b' = view (fl_world fl) b'" if "b' \<noteq> b"
    using assms(1) reply w that by (auto simp: command_law_def)
qed

lemma run_each_view:
  assumes "command_law exch view sql step" and "distinct names"
  shows "if b \<in> set names then \<exists>a. step a (view (fl_world fl) b) (view (fl_world (snd (run_each exch sql names fl))) b)
         else view (fl_world (snd (run_each exch sql names fl))) b = view (fl_world fl) b"
  using assms(2)
proof (induction names arbitrary: fl)
  case (Cons name names)
  obtain response fl1 where r: "runTransactionCommand exch name sql fl = (response, fl1)" by fastforce
  obtain failed fl2 where rest: "run_each exch sql names fl1 = (failed, fl2)" by fastforce
  note one = runTransactionCommand_step[OF assms(1) r]
  have "if b \<in> set names then \<exists>a. step a (view (fl_world fl1) b) (view (fl_world fl2) b)
      else view (fl_world fl2) b = view (fl_world fl1) b"
    using Cons.IH[of fl1] Cons.prems rest by (simp split: if_splits)
  then show ?case using one(1) one(2)[of b] Cons.prems r rest
    by (cases "b = name") (auto split: if_splits)
qed simp

lemma run_while_ok_view:
  assumes "command_law exch view sql step" and "distinct names"
    and "run_while_ok exch sql before names fl = (outcome, after, fl')"
  shows "\<exists>passed. after = before @ passed
    \<and> (\<forall>b \<in> set passed. step True (view (fl_world fl) b) (view (fl_world fl') b))
    \<and> (case outcome of None \<Rightarrow> names = passed \<and> (\<forall>b. b \<notin> set names \<longrightarrow> view (fl_world fl') b = view (fl_world fl) b)
       | Some (name, _) \<Rightarrow> \<exists>rest. names = passed @ name # rest
           \<and> step False (view (fl_world fl) name) (view (fl_world fl') name)
           \<and> (\<forall>b. b \<notin> set passed \<and> b \<noteq> name \<longrightarrow> view (fl_world fl') b = view (fl_world fl) b))"
  using assms(2,3)
proof (induction names arbitrary: before fl)
  case (Cons name names)
  obtain response fl1 where r: "runTransactionCommand exch name sql fl = (response, fl1)" by fastforce
  note one = runTransactionCommand_step[OF assms(1) r]
  show ?case
  proof (cases response)
    case None
    with Cons.prems(2) r have rest: "run_while_ok exch sql (before @ [name]) names fl1 = (outcome, after, fl')" by simp
    from Cons.IH[OF _ this] Cons.prems(1) obtain passed where passed: "after = (before @ [name]) @ passed"
      "\<forall>b \<in> set passed. step True (view (fl_world fl1) b) (view (fl_world fl') b)"
      and out: "case outcome of None \<Rightarrow> names = passed \<and> (\<forall>b. b \<notin> set names \<longrightarrow> view (fl_world fl') b = view (fl_world fl1) b)
       | Some (nm, _) \<Rightarrow> \<exists>rest. names = passed @ nm # rest
           \<and> step False (view (fl_world fl1) nm) (view (fl_world fl') nm)
           \<and> (\<forall>b. b \<notin> set passed \<and> b \<noteq> nm \<longrightarrow> view (fl_world fl') b = view (fl_world fl1) b)"
      by auto
    have sub: "set passed \<subseteq> set names" using out by (auto split: option.splits)
    have fresh: "name \<notin> set names" using Cons.prems(1) by simp
    have same: "view (fl_world fl1) b = view (fl_world fl) b" if "b \<noteq> name" for b using one(2) that by blast
    have keep: "view (fl_world fl') name = view (fl_world fl1) name" using out sub fresh by (auto split: option.splits)
    have "\<forall>b \<in> set (name # passed). step True (view (fl_world fl) b) (view (fl_world fl') b)"
      using one(1) None keep passed(2) same sub fresh by (auto, metis subsetD)
    moreover have "case outcome of None \<Rightarrow> name # names = name # passed
          \<and> (\<forall>b. b \<notin> set (name # names) \<longrightarrow> view (fl_world fl') b = view (fl_world fl) b)
       | Some (nm, _) \<Rightarrow> \<exists>rest. name # names = (name # passed) @ nm # rest
           \<and> step False (view (fl_world fl) nm) (view (fl_world fl') nm)
           \<and> (\<forall>b. b \<notin> set (name # passed) \<and> b \<noteq> nm \<longrightarrow> view (fl_world fl') b = view (fl_world fl) b)"
      using out same fresh by (auto split: option.splits)
    ultimately show ?thesis using passed(1) by (intro exI[of _ "name # passed"]) simp
  qed (use Cons.prems one r in auto)
qed auto

section \<open>Atomicity\<close>

lemma tx_contractD:
  assumes "tx_contract exch view"
  shows "command_law exch view ''ROLLBACK'' rollback_step" "command_law exch view ''BEGIN'' begin_step"
    "command_law exch view (prepare_sql gid) (prepare_step gid)"
    "command_law exch view (commit_prepared_sql gid) (commit_prepared_step gid)"
    "command_law exch view (rollback_prepared_sql gid) (rollback_prepared_step gid)"
  using assms by (auto simp: tx_contract_def)

lemmas tx_step_defs = rollback_step_def prepare_step_def commit_prepared_step_def rollback_prepared_step_def begin_step_def


lemma run_while_ok_other:
  assumes "command_law exch view sql step" and "distinct names"
    and "run_while_ok exch sql before names fl = (outcome, after, fl')" and "b \<notin> set names"
  shows "view (fl_world fl') b = view (fl_world fl) b"
  using run_while_ok_view[OF assms(1-3)] assms(4) by (cases outcome) auto

lemma run_while_ok_any:
  assumes "command_law exch view sql step" and "distinct names"
    and "run_while_ok exch sql before names fl = (outcome, after, fl')"
  shows "(\<exists>a. step a (view (fl_world fl) b) (view (fl_world fl') b)) \<or> view (fl_world fl') b = view (fl_world fl) b"
proof -
  obtain passed where passed: "\<forall>b \<in> set passed. step True (view (fl_world fl) b) (view (fl_world fl') b)"
    and rest: "case outcome of None \<Rightarrow> names = passed \<and> (\<forall>b. b \<notin> set names \<longrightarrow> view (fl_world fl') b = view (fl_world fl) b)
       | Some (name, _) \<Rightarrow> \<exists>rest. names = passed @ name # rest
           \<and> step False (view (fl_world fl) name) (view (fl_world fl') name)
           \<and> (\<forall>b. b \<notin> set passed \<and> b \<noteq> name \<longrightarrow> view (fl_world fl') b = view (fl_world fl) b)"
    using run_while_ok_view[OF assms] by blast
  show ?thesis
  proof (cases "b \<in> set passed")
    case False
    then show ?thesis
    proof (cases outcome)
      case (Some x)
      then show ?thesis using rest False by (cases x; cases "b = fst x") auto
    qed (use rest False in auto)
  qed (use passed in blast)
qed

text \<open>No Burrow commits in the first phase, nor while a failed first phase is undone.\<close>

lemma undo_prepare_uncommitted:
  assumes contract: "tx_contract exch view" and "distinct prepared" "distinct rest"
    and before: "view (fl_world fl) b \<noteq> TxCommitted"
  shows "view (fl_world (snd (run_each exch ''ROLLBACK'' rest (snd (run_each exch (rollback_prepared_sql gid) prepared fl))))) b
    \<noteq> TxCommitted"
proof -
  let ?fl1 = "snd (run_each exch (rollback_prepared_sql gid) prepared fl)"
  have "view (fl_world ?fl1) b \<noteq> TxCommitted"
    using run_each_view[OF tx_contractD(5)[OF contract, of gid] assms(2), of b fl] before
    by (auto simp: rollback_prepared_step_def split: if_splits)
  then show ?thesis
    using run_each_view[OF tx_contractD(1)[OF contract] assms(3), where b = b and fl = ?fl1]
    by (auto simp: rollback_step_def split: if_splits)
qed

lemma prepare_phase:
  assumes contract: "tx_contract exch view" and "distinct burrows"
    and opened: "\<forall>b \<in> set burrows. view (fl_world fl) b = TxOpen"
    and run: "run_while_ok exch (prepare_sql gid) [] burrows fl = (outcome, prepared, fl')"
  shows "outcome = None \<Longrightarrow> prepared = burrows \<and> (\<forall>b \<in> set burrows. view (fl_world fl') b = TxPrepared gid)"
    and "\<forall>b \<in> set burrows. view (fl_world fl') b \<noteq> TxCommitted" and "distinct prepared"
proof -
  note v = run_while_ok_view[OF tx_contractD(3)[OF contract] assms(2) run]
  show "prepared = burrows \<and> (\<forall>b \<in> set burrows. view (fl_world fl') b = TxPrepared gid)" if "outcome = None"
    using v opened that by (auto simp: prepare_step_def)
  show "distinct prepared" using v assms(2) by (cases outcome) auto
  show "\<forall>b \<in> set burrows. view (fl_world fl') b \<noteq> TxCommitted"
  proof
    fix b assume b: "b \<in> set burrows"
    then have "(\<exists>a. prepare_step gid a TxOpen (view (fl_world fl') b)) \<or> view (fl_world fl') b = TxOpen"
      using run_while_ok_any[OF tx_contractD(3)[OF contract] assms(2) run, of b] opened by auto
    then show "view (fl_world fl') b \<noteq> TxCommitted" by (auto simp: prepare_step_def split: if_splits)
  qed
qed

lemma commit_phase:
  assumes contract: "tx_contract exch view" and "distinct burrows"
    and prepared: "\<forall>b \<in> set burrows. view (fl_world fl) b = TxPrepared gid"
    and run: "run_while_ok exch (commit_prepared_sql gid) [] burrows fl = (outcome, committed, fl')"
  shows "outcome = None \<Longrightarrow> \<forall>b \<in> set burrows. view (fl_world fl') b = TxCommitted"
    and "\<forall>b \<in> set burrows. view (fl_world fl') b \<in> {TxPrepared gid, TxCommitted}"
    and "outcome = Some (name, e) \<Longrightarrow> name \<in> set burrows"
proof -
  note v = run_while_ok_view[OF tx_contractD(4)[OF contract] assms(2) run]
  show "\<forall>b \<in> set burrows. view (fl_world fl') b = TxCommitted" if "outcome = None"
    using v prepared that by (auto simp: commit_prepared_step_def)
  show "name \<in> set burrows" if "outcome = Some (name, e)" using v that by auto
  show "\<forall>b \<in> set burrows. view (fl_world fl') b \<in> {TxPrepared gid, TxCommitted}"
  proof
    fix b assume b: "b \<in> set burrows"
    then have "(\<exists>a. commit_prepared_step gid a (TxPrepared gid) (view (fl_world fl') b)) \<or> view (fl_world fl') b = TxPrepared gid"
      using run_while_ok_any[OF tx_contractD(4)[OF contract] assms(2) run, of b] prepared by auto
    then show "view (fl_world fl') b \<in> {TxPrepared gid, TxCommitted}" by (auto simp: commit_prepared_step_def)
  qed
qed

text \<open>C23. Two-phase commit is all or nothing.  When every participant has an open transaction and the
  Burrows follow PostgreSQL's rules, whatever fails and whichever replies are lost, the frontend is told
  of success exactly when every participant has committed; otherwise no participant has committed, or the
  frontend gets the in-doubt error naming the transaction and the Burrow, and then every participant is
  prepared or committed, so the outcome is decided and recovery can only complete it.\<close>

theorem two_phase_atomic:
  assumes "tx_contract exch view" and "distinct burrows" and "distinct shardNames"
    and "\<forall>b \<in> set burrows. view (fl_world fl) b = TxOpen"
    and "commitTwoPhase exch shardNames gid burrows fl = (response, fl')"
  shows "(response = None \<and> (\<forall>b \<in> set burrows. view (fl_world fl') b = TxCommitted))
    \<or> (response \<noteq> None \<and> (\<forall>b \<in> set burrows. view (fl_world fl') b \<noteq> TxCommitted))
    \<or> (\<exists>name message. response = Some (in_doubt gid name message) \<and> name \<in> set burrows
         \<and> (\<forall>b \<in> set burrows. view (fl_world fl') b \<in> {TxPrepared gid, TxCommitted}))"
proof -
  let ?others = "filter (\<lambda>name. name \<notin> set burrows) shardNames"
  obtain out0 after0 fl1 where r0: "run_while_ok exch ''ROLLBACK'' [] ?others fl = (out0, after0, fl1)"
    by (metis prod_cases3)
  have "\<forall>b \<in> set burrows. view (fl_world fl1) b = TxOpen"
    using run_while_ok_other[OF tx_contractD(1)[OF assms(1)] _ r0] assms(3,4) by simp
  note opened1 = this
  obtain out1 prepared fl2 where r1: "run_while_ok exch (prepare_sql gid) [] burrows fl1 = (out1, prepared, fl2)"
    by (metis prod_cases3)
  obtain out2 committed fl3 where r2: "run_while_ok exch (commit_prepared_sql gid) [] prepared fl2 = (out2, committed, fl3)"
    by (metis prod_cases3)
  note p = prepare_phase[OF assms(1,2) opened1 r1]
  note undo = undo_prepare_uncommitted[OF assms(1) p(3), of "drop (length prepared) burrows"]
  consider (unrolled) x where "out0 = Some x" | (unprepared) x where "out0 = None" "out1 = Some x"
    | (uncertain) name e where "out0 = None" "out1 = None" "out2 = Some (name, e)"
    | (success) "out0 = None" "out1 = None" "out2 = None"
    by (cases out0; cases out1; cases out2) auto
  then show ?thesis
  proof cases
    case unrolled
    then show ?thesis using assms(5) r0 opened1 by (auto simp: commitTwoPhase_def split: prod.splits)
  next
    case unprepared
    then show ?thesis using assms(2,5) r0 r1 p(2) undo by (auto simp: commitTwoPhase_def split: prod.splits)
  next
    case uncertain
    then have "prepared = burrows" and "\<forall>b \<in> set burrows. view (fl_world fl2) b = TxPrepared gid" using p(1) by auto
    from commit_phase[OF assms(1,2) this(2), of out2 committed fl3] this(1) r2 uncertain
    have "\<forall>b \<in> set burrows. view (fl_world fl3) b \<in> {TxPrepared gid, TxCommitted}" "name \<in> set burrows" by auto
    moreover have "response = Some (in_doubt gid name (er_Message e))" "fl_world fl' = fl_world fl3"
      using assms(5) r0 r1 r2 uncertain by (auto simp: commitTwoPhase_def)
    ultimately show ?thesis by (metis (no_types))
  next
    case success
    then have "prepared = burrows" and "\<forall>b \<in> set burrows. view (fl_world fl2) b = TxPrepared gid" using p(1) by auto
    from commit_phase[OF assms(1,2) this(2), of out2 committed fl3] this(1) r2 success show ?thesis
      using assms(5) r0 r1 by (auto simp: commitTwoPhase_def)
  qed
qed


section \<open>A sample fleet\<close>

text \<open>A fleet that meets the contract: PostgreSQL's rules, with the exchanges that \<open>faults\<close> selects lost
  before they reach the server.\<close>

definition quoted :: "string \<Rightarrow> string \<Rightarrow> string option" where
  "quoted prefix sql = (if has_prefix sql prefix then Some (butlast (drop (Suc (length prefix)) sql)) else None)"

definition tx_apply :: "string \<Rightarrow> tx_state \<Rightarrow> tx_state" where
  "tx_apply sql v =
     (if sql = ''BEGIN'' then (if v = TxIdle then TxOpen else v)
      else if sql = ''ROLLBACK'' then (if v \<in> set [TxOpen, TxAborted] then TxRolledBack else v)
      else case quoted ''PREPARE TRANSACTION '' sql of
          Some gid \<Rightarrow> if v = TxOpen then TxPrepared gid else if v = TxAborted then TxRolledBack else v
        | None \<Rightarrow> (case quoted ''COMMIT PREPARED '' sql of Some gid \<Rightarrow> if v = TxPrepared gid then TxCommitted else v
        | None \<Rightarrow> (case quoted ''ROLLBACK PREPARED '' sql of Some gid \<Rightarrow> if v = TxPrepared gid then TxRolledBack else v
        | None \<Rightarrow> v)))"

definition sample_postgres :: "(string \<Rightarrow> string \<Rightarrow> bool) \<Rightarrow> (string \<Rightarrow> tx_state) exchange1" where
  "sample_postgres faults b sql w = (if faults b sql then (Inl ''connection reset'', w)
     else (Inr [ReadyForQuery CHR ''I''], w(b := tx_apply sql (w b))))"

lemma tx_apply_commands:
  "tx_apply ''BEGIN'' v = (if v = TxIdle then TxOpen else v)"
  "tx_apply ''ROLLBACK'' v = (if v \<in> {TxOpen, TxAborted} then TxRolledBack else v)"
  "tx_apply (prepare_sql gid) v = (if v = TxOpen then TxPrepared gid else if v = TxAborted then TxRolledBack else v)"
  "tx_apply (commit_prepared_sql gid) v = (if v = TxPrepared gid then TxCommitted else v)"
  "tx_apply (rollback_prepared_sql gid) v = (if v = TxPrepared gid then TxRolledBack else v)"
  by (simp_all add: tx_apply_def quoted_def has_prefix_def prepare_sql_def commit_prepared_sql_def rollback_prepared_sql_def)

lemma sample_command_law:
  assumes "\<And>v. step True v (tx_apply sql v)" and "\<And>v. step False v v"
  shows "command_law (sample_postgres faults) (\<lambda>w. w) sql step"
  using assms by (auto simp: command_law_def sample_postgres_def answered_def split: if_splits)

lemma sample_contract: "tx_contract (sample_postgres faults) (\<lambda>w. w)"
  unfolding tx_contract_def by (intro conjI allI sample_command_law) (auto simp: tx_apply_commands tx_step_defs)

definition sample_fleet :: "(string \<Rightarrow> tx_state) \<Rightarrow> (string \<Rightarrow> tx_state) fleet" where
  "sample_fleet w = \<lparr>fl_world = w, fl_operations = []\<rparr>"

text \<open>The second of two participants loses its connection in the commit phase: the first has committed,
  the second stays prepared, and the frontend is told that the outcome is in doubt.\<close>

theorem two_phase_atomic_witness:
  "let faults = (\<lambda>b sql. b = ''b'' \<and> sql = commit_prepared_sql ''g'');
       result = commitTwoPhase (sample_postgres faults) [''a'', ''b'', ''c''] ''g'' [''a'', ''b''] (sample_fleet (\<lambda>_. TxOpen))
   in fst result = Some (in_doubt ''g'' ''b'' ''connection reset'')
     \<and> fl_world (snd result) ''a'' = TxCommitted \<and> fl_world (snd result) ''b'' = TxPrepared ''g''
     \<and> (\<forall>b \<in> set [''a'', ''b'']. fl_world (snd result) b \<in> {TxPrepared ''g'', TxCommitted})"
proof -
  let ?faults = "\<lambda>b sql. b = ''b'' \<and> sql = commit_prepared_sql ''g''"
  let ?result = "commitTwoPhase (sample_postgres ?faults) [''a'', ''b'', ''c''] ''g'' [''a'', ''b''] (sample_fleet (\<lambda>_. TxOpen))"
  have "fst ?result = Some (in_doubt ''g'' ''b'' ''connection reset'')"
    and "fl_world (snd ?result) ''a'' = TxCommitted" and "fl_world (snd ?result) ''b'' = TxPrepared ''g''"
    by code_simp+
  moreover have "\<forall>b \<in> set [''a'', ''b'']. fl_world (snd ?result) b \<in> {TxPrepared ''g'', TxCommitted}"
    using two_phase_atomic[OF sample_contract, of "[''a'', ''b'']" "[''a'', ''b'', ''c'']" "sample_fleet (\<lambda>_. TxOpen)" ?faults "''g''"
        "fst ?result" "snd ?result"] calculation
    by (auto simp: sample_fleet_def)
  ultimately show ?thesis by (simp add: Let_def)
qed

text \<open>Atomicity needs the participants' transactions open.  One that PostgreSQL has already aborted
  answers \<^verbatim>\<open>PREPARE TRANSACTION\<close> by rolling back, without an error; \<^verbatim>\<open>runTransactionCommand\<close> does not
  look at the command tag, so the other participant commits and success is reported.\<close>

lemma aborted_participant_breaks_atomicity:
  "let result = commitTwoPhase (sample_postgres (\<lambda>_ _. False)) [''a'', ''b''] ''g'' [''a'', ''b'']
         (sample_fleet (\<lambda>b. if b = ''a'' then TxAborted else TxOpen))
   in fst result = None \<and> fl_world (snd result) ''a'' = TxRolledBack \<and> fl_world (snd result) ''b'' = TxCommitted"
  by code_simp

end
