(* ===== verification/Proxy_Session.thy ===== *)
theory Proxy_Session
  imports Proxy_State Two_Phase Backend_Session
begin

text \<open>
  The simple-query handlers of \<^verbatim>\<open>internal/proxy/server.go\<close>, \<^verbatim>\<open>handleSessionQuery\<close> and
  \<^verbatim>\<open>handleTwoPhaseCommit\<close>, with the schema-refresh barrier they use.  What lies behind the Proxy is the
  record \<open>environment\<close>: sending to and receiving from a Burrow, the Nest's key allocation and schema refresh, the
  fleet-write lock, random numbers.  Metrics, logs and trace spans are left out.
\<close>

record 's environment =
  en_send :: "(string, 's) sender"
  en_recv :: "'s receiver"
  en_NextGlobalID :: "'s \<Rightarrow> (string + int) \<times> 's"
  en_RefreshSchema :: "'s \<Rightarrow> (string + registry) \<times> 's"
  en_LockFleetWrites :: "'s \<Rightarrow> bool \<times> 's"
  en_UnlockFleetWrites :: "'s \<Rightarrow> 's"
  en_InvalidatePrepared :: "string list \<Rightarrow> 's \<Rightarrow> 's"
  en_gid :: "'s \<Rightarrow> string \<times> 's"
  en_random :: "'s \<Rightarrow> nat option \<times> 's"

text \<open>What a frontend connection works on: the shared server, the pending-refresh flag, its session state, the
  world, and the messages sent to the client.\<close>

record 's proxy =
  px_server :: server_state
  px_schemaRefreshPending :: bool
  px_state :: extendedState
  px_fleet :: "'s fleet"
  px_sent :: response

definition on_world :: "('s \<Rightarrow> 'a \<times> 's) \<Rightarrow> 's proxy \<Rightarrow> 'a \<times> 's proxy" where
  "on_world f px = (case f (fl_world (px_fleet px)) of (a, w) \<Rightarrow> (a, px\<lparr>px_fleet := (px_fleet px)\<lparr>fl_world := w\<rparr>\<rparr>))"

definition on_fleet :: "('s fleet \<Rightarrow> 'a \<times> 's fleet) \<Rightarrow> 's proxy \<Rightarrow> 'a \<times> 's proxy" where
  "on_fleet f px = (case f (px_fleet px) of (a, fl) \<Rightarrow> (a, px\<lparr>px_fleet := fl\<rparr>))"

definition on_state :: "(extendedState \<Rightarrow> extendedState) \<Rightarrow> 's proxy \<Rightarrow> 's proxy" where
  "on_state f px = px\<lparr>px_state := f (px_state px)\<rparr>"

definition send_client :: "response \<Rightarrow> 's proxy \<Rightarrow> 's proxy" where
  "send_client ms px = px\<lparr>px_sent := px_sent px @ ms\<rparr>"

definition unlock :: "'s environment \<Rightarrow> 's proxy \<Rightarrow> 's proxy" where
  "unlock env px = snd (on_world (\<lambda>w. ((), en_UnlockFleetWrites env w)) px)"

definition exchange_one :: "'s environment \<Rightarrow> 's exchange1" where
  "exchange_one env b sql w = (case exchangeOne (en_send env) (en_recv env) b sql w of (r, w1) \<Rightarrow> (map_sum (\<lambda>e. e) concat r, w1))"

section \<open>The schema-refresh barrier\<close>

definition beginSchemaCommit :: "bool \<Rightarrow> 's proxy \<Rightarrow> 's proxy" where
  "beginSchemaCommit required px = (if required then px\<lparr>px_schemaRefreshPending := True\<rparr> else px)"

definition refreshSchemaIfPending :: "'s environment \<Rightarrow> 's proxy \<Rightarrow> string option \<times> 's proxy" where
  "refreshSchemaIfPending env px = (if \<not> px_schemaRefreshPending px then (None, px)
     else (case on_world (en_RefreshSchema env) px of
         (Inl e, px1) \<Rightarrow> (Some e, px1)
       | (Inr registry, px1) \<Rightarrow> (None, px1\<lparr>px_server := (px_server px1)\<lparr>sv_schema := registry\<rparr>, px_schemaRefreshPending := False\<rparr>)))"

definition refreshSchemaAfterDDL :: "'s environment \<Rightarrow> 's proxy \<Rightarrow> string option \<times> 's proxy" where
  "refreshSchemaAfterDDL env px = refreshSchemaIfPending env (px\<lparr>px_schemaRefreshPending := True\<rparr>)"

definition refreshSchemaBarrier :: "'s environment \<Rightarrow> bool \<Rightarrow> 's proxy \<Rightarrow> string option \<times> 's proxy" where
  "refreshSchemaBarrier env localDirty px = (if localDirty then refreshSchemaAfterDDL env px else refreshSchemaIfPending env px)"

definition refresh_message :: "string \<Rightarrow> string" where
  "refresh_message e = ''refresh schema registry after DDL: '' @ e"

definition refresh_dirty :: "'s environment \<Rightarrow> 's proxy \<Rightarrow> string option \<times> 's proxy" where
  "refresh_dirty env px = (case refreshSchemaAfterDDL env px of (Some e, q) \<Rightarrow> (Some e, q)
     | (None, q) \<Rightarrow> (None, on_state (\<lambda>s. s\<lparr>es_schemaDirty := False\<rparr>) q))"

section \<open>Commit on several Burrows\<close>

definition end_transaction :: "extendedState \<Rightarrow> extendedState" where
  "end_transaction s = s\<lparr>es_transaction := False, es_mutated := False, es_target := [], es_writeParticipants := {}\<rparr>"

definition handleTwoPhaseCommit :: "'s environment \<Rightarrow> 's proxy \<Rightarrow> bool \<times> 's proxy" where
  "handleTwoPhaseCommit env px =
     (let px1 = beginSchemaCommit (es_schemaDirty (px_state px)) px;
          (gid, px2) = on_world (en_gid env) px1 in
      case on_fleet (commitTwoPhase (exchange_one env) (sv_shardNames (px_server px2)) gid
             (participantNames (es_writeParticipants (px_state px2)))) px2 of
        (Some response, px3) \<Rightarrow>
          (False, unlock env (on_state (\<lambda>s. s\<lparr>es_transaction := False, es_writeParticipants := {}\<rparr>)
             (send_client [Error response, ReadyForQuery CHR ''I''] px3)))
      | (None, px3) \<Rightarrow>
          (let (failed, px4) = (if es_schemaDirty (px_state px3) then refresh_dirty env px3 else (None, px3)) in
           case failed of
             Some e \<Rightarrow> (False, unlock env (on_state end_transaction
               (send_client (sendSessionError CHR ''I'' ''55000'' (refresh_message e)) px4)))
           | None \<Rightarrow> (True, send_client [CommandComplete ''COMMIT'', ReadyForQuery CHR ''I'']
               (unlock env (on_state (\<lambda>s. end_transaction (finishTemporaryTransaction True False s)) px4)))))"

section \<open>Merging the results of a statement\<close>

record merged =
  mg_description :: "FieldDescription list option"
  mg_rows :: "bytes option list list"
  mg_tags :: "string list"
  mg_notices :: "ErrorResponse list"
  mg_parameterStatuses :: "(string \<times> string) list"

definition no_results :: merged where
  "no_results = \<lparr>mg_description = None, mg_rows = [], mg_tags = [], mg_notices = [], mg_parameterStatuses = []\<rparr>"

text \<open>One message of the response with the given index; an error is its code and text.\<close>

definition merge_message :: "nat \<Rightarrow> backend_message \<Rightarrow> merged \<Rightarrow> (string \<times> string) + merged" where
  "merge_message responseIndex m acc = (case m of
       RowDescription fs \<Rightarrow> (case mg_description acc of None \<Rightarrow> Inr (acc\<lparr>mg_description := Some fs\<rparr>)
         | Some d \<Rightarrow> if sameRowDescription d fs then Inr acc else Inl (''XX000'', ''incompatible row descriptions from Burrows''))
     | DataRow vs \<Rightarrow> Inr (acc\<lparr>mg_rows := mg_rows acc @ [vs]\<rparr>)
     | CommandComplete t \<Rightarrow> Inr (acc\<lparr>mg_tags := mg_tags acc @ [t]\<rparr>)
     | NoticeResponse n \<Rightarrow> Inr (if responseIndex = 0 then acc\<lparr>mg_notices := mg_notices acc @ [n]\<rparr> else acc)
     | ParameterStatus k v \<Rightarrow> Inr (if responseIndex = 0 then acc\<lparr>mg_parameterStatuses := mg_parameterStatuses acc @ [(k, v)]\<rparr> else acc)
     | EmptyQueryResponse \<Rightarrow> Inr acc
     | ReadyForQuery _ \<Rightarrow> Inr acc
     | NotificationResponse _ _ _ \<Rightarrow> Inr acc
     | CopyInResponse \<Rightarrow> Inl (''0A000'', ''COPY is not supported by Hamstergres Proxy'')
     | CopyOutResponse \<Rightarrow> Inl (''0A000'', ''COPY is not supported by Hamstergres Proxy'')
     | CopyBothResponse \<Rightarrow> Inl (''0A000'', ''COPY is not supported by Hamstergres Proxy'')
     | other \<Rightarrow> Inl (''08P01'', ''unexpected Query response '' @ message_type other))"

fun merge_response :: "nat \<Rightarrow> response \<Rightarrow> merged \<Rightarrow> (string \<times> string) + merged" where
  "merge_response i [] acc = Inr acc"
| "merge_response i (m # ms) acc = (case merge_message i m acc of Inl e \<Rightarrow> Inl e | Inr acc' \<Rightarrow> merge_response i ms acc')"

fun merge_responses :: "nat \<Rightarrow> response list \<Rightarrow> merged \<Rightarrow> (string \<times> string) + merged" where
  "merge_responses i [] acc = Inr acc"
| "merge_responses i (r # rs) acc = (case merge_response i r acc of Inl e \<Rightarrow> Inl e | Inr acc' \<Rightarrow> merge_responses (i + 1) rs acc')"

definition merged_messages :: "merged \<Rightarrow> response" where
  "merged_messages acc = map NoticeResponse (mg_notices acc) @ map (\<lambda>(k, v). ParameterStatus k v) (mg_parameterStatuses acc)
     @ (case mg_description acc of None \<Rightarrow> [] | Some fs \<Rightarrow> [RowDescription fs])
     @ map DataRow (mg_rows acc)
     @ [if mg_tags acc \<noteq> [] then CommandComplete (mergedCommandTag (mg_tags acc) (length (mg_rows acc))) else EmptyQueryResponse]"

section \<open>A statement\<close>

text \<open>The texts of the errors that come with a parser message of their own are shortened to their fixed part.\<close>

definition ddl_error_text :: "ddl_error \<Rightarrow> string" where
  "ddl_error_text e = (case e of ParseFailed \<Rightarrow> ''parse PostgreSQL statement'' | DeparseFailed \<Rightarrow> ''deparse normalized PostgreSQL statement'')"

definition fleet_error_text :: "fleet_ddl_error \<Rightarrow> string" where
  "fleet_error_text e = (case e of ParseError \<Rightarrow> ''parse PostgreSQL statement''
     | TransactionInBatch \<Rightarrow> ''transaction control cannot be combined with fleet-wide DDL in one simple-query batch''
     | NonTransactional \<Rightarrow> ''non-transactional fleet-wide DDL is not supported; use hamstergres-migrations''
     | FunctionDefinition \<Rightarrow> ''user-defined functions and procedures are not supported across Burrows; use hamstergres-migrations''
     | ConcurrentIndex \<Rightarrow> ''concurrent index DDL is not supported across Burrows; use hamstergres-migrations''
     | NeedsTwoPhase \<Rightarrow> ''fleet-wide DDL requires two-phase commit''
     | MixedTemporary \<Rightarrow> ''temporary and durable fleet DDL cannot be combined in one simple-query batch'')"

record compiler =
  cp_parse :: parser
  cp_deparse :: "parse_result \<Rightarrow> string option"
  cp_float :: float_codec

definition fail :: "string \<Rightarrow> string \<Rightarrow> 's proxy \<Rightarrow> bool \<times> 's proxy" where
  "fail code message px = (False, send_client (sendSessionError (txStatus (px_state px)) code message) px)"

text \<open>The generated key: the statement to run and its routing structure (None when the parser refused it).\<close>

definition generate_key :: "'s environment \<Rightarrow> compiler \<Rightarrow> string \<Rightarrow> 's proxy \<Rightarrow> (string + string \<times> Prepared option) \<times> 's proxy" where
  "generate_key env cc sql px =
     (let registry = sv_schema (px_server px); routing = Prepare (cp_parse cc) sql;
          rewrite = (\<lambda>v. RewriteGeneratedInsert (cp_parse cc) (cp_deparse cc) sql registry v) in
      if routing \<noteq> None \<and> firstSQLKeyword sql = ''INSERT'' \<and> GeneratedPrimaryKey registry (Table routing) \<noteq> None \<and> rewrite ''0'' \<noteq> None
      then (case on_world (en_NextGlobalID env) px of
          (Inl e, px1) \<Rightarrow> (Inl e, px1)
        | (Inr ident, px1) \<Rightarrow>
            (let sql' = (case rewrite (show_int ident) of None \<Rightarrow> [] | Some g \<Rightarrow> gi_SQL g) in
             case Prepare (cp_parse cc) sql' of None \<Rightarrow> (Inl (ddl_error_text ParseFailed), px1)
             | Some p \<Rightarrow> (Inr (sql', Some p), px1)))
      else (Inr (sql, routing), px))"


text \<open>The routing decision and its checks: the Burrow of a routed statement, and the Burrows that run it.\<close>

definition choose_targets :: "'s environment \<Rightarrow> compiler \<Rightarrow> string \<Rightarrow> bool \<Rightarrow> Prepared option \<Rightarrow> 's proxy
    \<Rightarrow> ((string \<times> string) + (string \<times> bool \<times> string list)) \<times> 's proxy" where
  "choose_targets env cc sql temporaryDDL routing px =
     (let targets = sv_shardNames (px_server px);
          (rnd, px1) = on_world (en_random env) px;
          (decision, sv) = resolveRouteDecision (cp_float cc) rnd (px_server px1) routing targets;
          px2 = px1\<lparr>px_server := sv\<rparr> in
      if rd_scatterError decision \<noteq> [] then (Inl (''0A000'', rd_scatterError decision), px2)
      else if rd_keyedWrite decision \<and> \<not> rd_routed decision
      then (Inl (''0A000'', ''write to a sharded table must include its annotated shard key''), px2)
      else (let (routed, targets') =
            (if requiresFleetWriteOrder (cp_parse cc) sql (length targets) \<and> \<not> temporaryDDL then (False, targets)
             else if rd_routed decision \<and> \<not> isTransactionControl sql then (True, [rd_target decision])
             else (rd_routed decision, targets)) in
        case (if temporaryDDL then None else validateAtomicFleetDDL (cp_parse cc) (sv_twoPhaseCommit sv) sql (length targets')) of
          Some e \<Rightarrow> (Inl (''0A000'', fleet_error_text e), px2)
        | None \<Rightarrow> (Inr (rd_target decision, routed, targets'), px2)))"

text \<open>A schema change outside a transaction refreshes the registry at once, one inside a transaction marks the
  session until the transaction ends.\<close>

definition mark_schema :: "'s environment \<Rightarrow> bool \<Rightarrow> 's proxy \<Rightarrow> string option \<times> 's proxy" where
  "mark_schema env durable px = (let marked = on_state (\<lambda>s. s\<lparr>es_schemaDirty := True\<rparr>) px in
     if durable \<and> \<not> es_transaction (px_state px) then refresh_dirty env marked
     else if durable then (None, marked) else (None, px))"

definition settle_schema :: "'s environment \<Rightarrow> string \<Rightarrow> 's proxy \<Rightarrow> string option \<times> 's proxy" where
  "settle_schema env sql px =
     (if es_schemaDirty (px_state px) \<and> \<not> es_transaction (px_state px) then
        (if firstSQLKeyword sql \<in> set [''ROLLBACK'', ''ABORT''] then (None, on_state (\<lambda>s. s\<lparr>es_schemaDirty := False\<rparr>) px)
         else refresh_dirty env px)
      else (None, px))"

text \<open>After the Burrows have answered: the registry, the client, the session.\<close>

definition finish_statement :: "'s environment \<Rightarrow> compiler \<Rightarrow> string \<Rightarrow> bool \<Rightarrow> bool \<Rightarrow> bool \<Rightarrow> sessionStatePolicy
    \<Rightarrow> string \<Rightarrow> bool \<Rightarrow> string list \<Rightarrow> merged \<Rightarrow> 's proxy \<Rightarrow> bool \<times> 's proxy" where
  "finish_statement env cc sql schema temporaryDDL atomicDDL policy target routed targets acc px =
     (case mark_schema env (schema \<and> \<not> temporaryDDL) px of
        (Some e, px1) \<Rightarrow> (case fail ''55000'' (refresh_message e) px1 of (ok, q) \<Rightarrow> (ok, if atomicDDL then unlock env q else q))
      | (None, px1) \<Rightarrow>
          (let px2 = send_client (merged_messages acc) px1;
               px3 = (if temporaryDDL then px2
                      else on_state (recordWriteParticipants (cp_parse cc) sql (if routed then [target] else targets)) px2) in
           case settle_schema env sql (on_state (applySuccessfulSQLState (cp_parse cc) sql) px3) of
             (Some e, px5) \<Rightarrow> (case fail ''55000'' (refresh_message e) px5 of (ok, q) \<Rightarrow> (ok, unlock env q))
           | (None, px5) \<Rightarrow>
               (let px6 = (if invalidatesPreparedStatements sql
                           then snd (on_world (\<lambda>w. ((), en_InvalidatePrepared env targets w)) px5) else px5);
                    px7 = on_state (commitSessionState policy) px6;
                    px8 = send_client [ReadyForQuery (txStatus (px_state px7))] px7 in
                (True, if \<not> es_transaction (px_state px8) then unlock env px8 else px8))))"

text \<open>The exchange with the Burrows, inside the transaction of an atomic schema change where there is one.\<close>

definition run_statement :: "'s environment \<Rightarrow> compiler \<Rightarrow> string \<Rightarrow> bool \<Rightarrow> bool \<Rightarrow> sessionStatePolicy
    \<Rightarrow> string \<Rightarrow> bool \<Rightarrow> string list \<Rightarrow> 's proxy \<Rightarrow> bool \<times> 's proxy" where
  "run_statement env cc sql schema temporaryDDL policy target routed targets px =
     (let ordered = requiresFleetWriteOrder (cp_parse cc) sql (length targets) \<and> \<not> temporaryDDL;
          atomicDDL = \<not> es_transaction (px_state px) \<and> ordered;
          exch = exchange_one env;
          (locked, px1) = (if ordered then on_world (en_LockFleetWrites env) px else (True, px)) in
      if \<not> locked then fail ''57014'' ''frontend session ended while waiting to execute a write'' px1
      else (case (if atomicDDL then on_fleet (beginAtomicFleetDDL exch targets) px1 else (None, px1)) of
          (Some response, px2) \<Rightarrow> (False, unlock env (send_client [Error response, ReadyForQuery CHR ''I''] px2))
        | (None, px2) \<Rightarrow>
      (let px3 = beginSchemaCommit (\<not> atomicDDL \<and> ((schema \<and> \<not> temporaryDDL \<and> \<not> es_transaction (px_state px2))
             \<or> (es_schemaDirty (px_state px2) \<and> es_transaction (px_state px2) \<and> isTransactionCommit sql))) px2;
           rollback = (\<lambda>q. if atomicDDL then snd (on_fleet (\<lambda>fl. ((), rollbackAtomicFleetDDL exch targets fl)) q) else q) in
       case on_world (exchange (en_send env) (en_recv env) targets sql) px3 of
         (Inl e, px4) \<Rightarrow>
           (False, send_client (sendError ''08006'' e) (if atomicDDL then unlock env (rollback px4) else px4))
       | (Inr responses, px4) \<Rightarrow>
           (case firstError responses of
              Some response \<Rightarrow>
                (let status = (if atomicDDL then CHR ''I'' else readyTxStatus responses);
                     px5 = send_client [Error response, ReadyForQuery status] (rollback px4) in
                 (False, if status = CHR ''I'' \<or> atomicDDL then unlock env px5 else px5))
            | None \<Rightarrow>
                (let (gid, px5) = (if atomicDDL then on_world (en_gid env) px4 else ([], px4)) in
                 case (if atomicDDL then on_fleet (commitAtomicFleetDDL exch (sv_shardNames (px_server px5)) gid targets)
                         (beginSchemaCommit True px5) else (None, px5)) of
                   (Some response, px6) \<Rightarrow> (False, unlock env (send_client [Error response, ReadyForQuery CHR ''I''] px6))
                 | (None, px6) \<Rightarrow>
                     (case merge_responses 0 responses no_results of
                        Inl (code, message) \<Rightarrow> (False, send_client (sendError code message) px6)
                      | Inr acc \<Rightarrow> finish_statement env cc sql schema temporaryDDL atomicDDL policy target routed targets acc px6))))))"

definition handleSessionQuery :: "'s environment \<Rightarrow> compiler \<Rightarrow> string \<Rightarrow> 's proxy \<Rightarrow> bool \<times> 's proxy" where
  "handleSessionQuery env cc sql px =
     (if trim_space sql = [] then (True, send_client [EmptyQueryResponse, ReadyForQuery CHR ''I''] px)
      else
       let policy = session_classifySessionState (cp_parse cc) sql (px_state px);
           px1 = on_state (beginSessionState policy) px;
           st = px_state px1; sv = px_server px1 in
       if es_transaction st \<and> \<not> es_transactionFailed st \<and> es_mutated st \<and> sv_twoPhaseCommit sv
          \<and> firstSQLKeyword sql \<in> set [''COMMIT'', ''END''] \<and> card (es_writeParticipants st) > 1
       then handleTwoPhaseCommit env px1
       else (case normalizeDDL (cp_parse cc) (cp_deparse cc) sql of
           Inl e \<Rightarrow> fail ''42601'' (ddl_error_text e) px1
         | Inr normalized \<Rightarrow>
       (case session_validateAtomicFleetDDL (cp_parse cc) (sv_twoPhaseCommit sv) (es_temp st) (ns_sql normalized) (length (sv_shardNames sv)) of
           Inl e \<Rightarrow> fail ''0A000'' (fleet_error_text e) px1
         | Inr temporaryDDL \<Rightarrow>
       (case generate_key env cc (ns_sql normalized) px1 of
           (Inl e, px2) \<Rightarrow> fail ''55000'' (''allocate globally unique primary key: '' @ e) px2
         | (Inr (sql', routing), px2) \<Rightarrow>
       (case choose_targets env cc sql' temporaryDDL routing px2 of
           (Inl (code, message), px3) \<Rightarrow> fail code message px3
         | (Inr (target, routed, targets), px3) \<Rightarrow>
             run_statement env cc sql' (ns_schema normalized) temporaryDDL policy target routed targets px3)))))"

section \<open>Every simple query is answered once\<close>

text \<open>\<open>answered_once px r\<close>: the handler sent messages that end with the only ReadyForQuery among them, and they
  contain an error exactly when the handler reports failure.\<close>

definition answered_once :: "'s proxy \<Rightarrow> bool \<times> 's proxy \<Rightarrow> bool" where
  "answered_once px r = (\<exists>ms status. px_sent (snd r) = px_sent px @ ms @ [ReadyForQuery status]
     \<and> (\<forall>s. ReadyForQuery s \<notin> set ms) \<and> (fst r \<longleftrightarrow> (\<forall>e. Error e \<notin> set ms)))"

named_theorems quiet_sent

lemma on_world_sent [quiet_sent]: "on_world f px = (a, px') \<Longrightarrow> px_sent px' = px_sent px"
  by (auto simp: on_world_def split: prod.splits)

lemma on_fleet_sent [quiet_sent]: "on_fleet f px = (a, px') \<Longrightarrow> px_sent px' = px_sent px"
  by (auto simp: on_fleet_def split: prod.splits)

lemma on_state_sent [simp]: "px_sent (on_state f px) = px_sent px"
  by (simp add: on_state_def)

lemma on_world_snd_sent [simp]: "px_sent (snd (on_world f px)) = px_sent px" "px_sent (snd (on_fleet g px)) = px_sent px"
  by (auto simp: on_world_def on_fleet_def split: prod.splits)

lemma unlock_sent [simp]: "px_sent (unlock env px) = px_sent px"
  by (simp add: unlock_def)

lemma beginSchemaCommit_sent [simp]: "px_sent (beginSchemaCommit b px) = px_sent px"
  by (simp add: beginSchemaCommit_def)

lemma refreshSchemaIfPending_sent [quiet_sent]: "refreshSchemaIfPending env px = (e, px') \<Longrightarrow> px_sent px' = px_sent px"
  by (auto simp: refreshSchemaIfPending_def dest: quiet_sent split: if_splits prod.splits sum.splits)

lemma refreshSchemaAfterDDL_sent [quiet_sent]: "refreshSchemaAfterDDL env px = (e, px') \<Longrightarrow> px_sent px' = px_sent px"
  by (auto simp: refreshSchemaAfterDDL_def dest: quiet_sent)

lemma refresh_dirty_sent [quiet_sent]: "refresh_dirty env px = (e, px') \<Longrightarrow> px_sent px' = px_sent px"
  by (auto simp: refresh_dirty_def dest: quiet_sent split: prod.splits option.splits)

lemma mark_schema_sent: "mark_schema env durable px = (e, px') \<Longrightarrow> px_sent px' = px_sent px"
  by (auto simp: mark_schema_def Let_def dest: quiet_sent split: if_splits)

lemma settle_schema_sent: "settle_schema env sql px = (e, px') \<Longrightarrow> px_sent px' = px_sent px"
  by (auto simp: settle_schema_def dest: quiet_sent split: if_splits)

lemma generate_key_sent [quiet_sent]: "generate_key env cc sql px = (r, px') \<Longrightarrow> px_sent px' = px_sent px"
  by (auto simp: generate_key_def Let_def dest: quiet_sent split: if_splits prod.splits sum.splits option.splits)

lemma choose_targets_sent [quiet_sent]: "choose_targets env cc sql tmp routing px = (r, px') \<Longrightarrow> px_sent px' = px_sent px"
  by (auto simp: choose_targets_def Let_def dest: quiet_sent split: if_splits prod.splits option.splits)

lemma answered_onceI:
  assumes "px_sent px' = px_sent px @ ms @ [ReadyForQuery status]" and "\<forall>s. ReadyForQuery s \<notin> set ms"
    and "ok \<longleftrightarrow> (\<forall>e. Error e \<notin> set ms)"
  shows "answered_once px (ok, px')"
  using assms by (auto simp: answered_once_def)


lemma fail_once: "px_sent px' = px_sent px \<Longrightarrow> answered_once px (fail code message px')"
  unfolding fail_def
  by (rule answered_onceI[where ms = "[Error \<lparr>er_Severity = ''ERROR'', er_Code = code, er_Message = message\<rparr>]"])
    (auto simp: send_client_def sendSessionError_def)

text \<open>The shapes of an answer that reports an error.\<close>

lemma error_once:
  assumes "px_sent q = px_sent px" and "px_sent r = px_sent (send_client [Error e, ReadyForQuery status] q)"
  shows "answered_once px (False, r)"
  by (rule answered_onceI[where ms = "[Error e]"]) (use assms in \<open>auto simp: send_client_def\<close>)

lemma session_error_once:
  assumes "px_sent q = px_sent px" and "px_sent r = px_sent (send_client (sendSessionError status code message) q)"
  shows "answered_once px (False, r)"
  using assms by (intro error_once[of q px r]) (auto simp: sendSessionError_def)

lemma handleTwoPhaseCommit_once: "answered_once px (handleTwoPhaseCommit env px)"
proof -
  let ?px1 = "beginSchemaCommit (es_schemaDirty (px_state px)) px"
  obtain gid px2 where gid: "on_world (en_gid env) ?px1 = (gid, px2)" by fastforce
  let ?commit = "commitTwoPhase (exchange_one env) (sv_shardNames (px_server px2)) gid (participantNames (es_writeParticipants (px_state px2)))"
  obtain response px3 where px3: "on_fleet ?commit px2 = (response, px3)" by fastforce
  obtain failed q where q: "refresh_dirty env px3 = (failed, q)" by fastforce
  have sent: "px_sent px3 = px_sent px" "px_sent q = px_sent px"
    using on_world_sent[OF gid] on_fleet_sent[OF px3] refresh_dirty_sent[OF q] by simp_all
  have committed: "answered_once px (True, send_client [CommandComplete ''COMMIT'', ReadyForQuery CHR ''I''] r)"
    if "px_sent r = px_sent px" for r :: "'a proxy"
    by (rule answered_onceI[where ms = "[CommandComplete ''COMMIT'']"]) (auto simp: send_client_def that)
  show ?thesis
    using sent gid px3 q
    by (auto simp: handleTwoPhaseCommit_def intro!: committed intro: error_once[of px3] session_error_once[of q]
        split: option.splits)
qed


lemma merged_messages_plain: "Error e \<notin> set (merged_messages acc)" "ReadyForQuery s \<notin> set (merged_messages acc)"
  by (auto simp: merged_messages_def split: option.splits)

lemma finish_statement_once:
  "answered_once px (finish_statement env cc sql schema temporaryDDL atomicDDL policy target routed targets acc px)"
proof -
  obtain failed px1 where px1: "mark_schema env (schema \<and> \<not> temporaryDDL) px = (failed, px1)" by fastforce
  note sent1 = mark_schema_sent[OF px1]
  let ?px4 = "on_state (applySuccessfulSQLState (cp_parse cc) sql) (if temporaryDDL then send_client (merged_messages acc) px1
      else on_state (recordWriteParticipants (cp_parse cc) sql (if routed then [target] else targets)) (send_client (merged_messages acc) px1))"
  obtain failed' px5 where px5: "settle_schema env sql ?px4 = (failed', px5)" by fastforce
  have sent5: "px_sent px5 = px_sent px @ merged_messages acc"
    using settle_schema_sent[OF px5] by (simp add: send_client_def sent1 split: if_splits)
  consider (unmarked) e where "failed = Some e" | (unsettled) e where "failed = None" "failed' = Some e"
    | (success) "failed = None" "failed' = None"
    by (cases failed; cases failed') auto
  then show ?thesis
  proof cases
    case unmarked
    then show ?thesis using px1 fail_once[OF sent1, of "''55000''" "refresh_message e"]
      by (simp add: finish_statement_def fail_def answered_once_def)
  next
    case unsettled
    have "answered_once px (False, unlock env (snd (fail ''55000'' (refresh_message e) px5)))"
      by (rule answered_onceI[where ms = "merged_messages acc @ [Error \<lparr>er_Severity = ''ERROR'', er_Code = ''55000'', er_Message = refresh_message e\<rparr>]"])
        (auto simp: fail_def send_client_def sendSessionError_def sent5 merged_messages_plain)
    then show ?thesis using unsettled px1 px5 by (simp add: finish_statement_def Let_def fail_def)
  next
    case success
    let ?px7 = "on_state (commitSessionState policy) (if invalidatesPreparedStatements sql
       then snd (on_world (\<lambda>w. ((), en_InvalidatePrepared env targets w)) px5) else px5)"
    have "answered_once px (True, if b then unlock env (send_client [ReadyForQuery s] ?px7) else send_client [ReadyForQuery s] ?px7)" for b s
      by (rule answered_onceI[where ms = "merged_messages acc"]) (auto simp: send_client_def sent5 merged_messages_plain)
    then show ?thesis using success px1 px5 by (simp add: finish_statement_def Let_def)
  qed
qed


lemma answered_once_from: "answered_once q r \<Longrightarrow> px_sent q = px_sent px \<Longrightarrow> answered_once px r"
  by (simp add: answered_once_def)

text \<open>The exchange and what follows it, once the transaction of an atomic schema change is open.\<close>

lemma run_statement_once:
  "answered_once px (run_statement env cc sql schema temporaryDDL policy target routed targets px)"
proof -
  define ordered where "ordered = (requiresFleetWriteOrder (cp_parse cc) sql (length targets) \<and> \<not> temporaryDDL)"
  define atomicDDL where "atomicDDL = (\<not> es_transaction (px_state px) \<and> ordered)"
  define exch where "exch = exchange_one env"
  obtain locked px1 where px1: "(if ordered then on_world (en_LockFleetWrites env) px else (True, px)) = (locked, px1)" by fastforce
  obtain begun px2 where px2: "(if atomicDDL then on_fleet (beginAtomicFleetDDL exch targets) px1 else (None, px1)) = (begun, px2)" by fastforce
  define required where "required = (\<not> atomicDDL \<and> ((schema \<and> \<not> temporaryDDL \<and> \<not> es_transaction (px_state px2))
             \<or> (es_schemaDirty (px_state px2) \<and> es_transaction (px_state px2) \<and> isTransactionCommit sql)))"
  obtain reply px4 where px4: "on_world (exchange (en_send env) (en_recv env) targets sql) (beginSchemaCommit required px2) = (reply, px4)" by fastforce
  obtain gid px5 where px5: "(if atomicDDL then on_world (en_gid env) px4 else ([], px4)) = (gid, px5)" by fastforce
  obtain committed px6 where px6: "(if atomicDDL then on_fleet (commitAtomicFleetDDL exch (sv_shardNames (px_server px5)) gid targets)
      (beginSchemaCommit True px5) else (None, px5)) = (committed, px6)" by fastforce
  have sent1: "px_sent px1 = px_sent px" using px1 by (auto dest: quiet_sent split: if_splits)
  have sent2: "px_sent px2 = px_sent px" using px2 sent1 by (auto dest: quiet_sent split: if_splits)
  have sent4: "px_sent px4 = px_sent px" using on_world_sent[OF px4] sent2 by simp
  have sent5: "px_sent px5 = px_sent px" using px5 sent4 by (auto dest: quiet_sent split: if_splits)
  have sent6: "px_sent px6 = px_sent px" using px6 sent5 by (auto dest: quiet_sent split: if_splits)
  let ?rollback = "\<lambda>q. if atomicDDL then snd (on_fleet (\<lambda>fl. ((), rollbackAtomicFleetDDL exch targets fl)) q) else q"
  note run = run_statement_def[of env cc sql schema temporaryDDL policy target routed targets px, unfolded Let_def,
      folded ordered_def, folded atomicDDL_def, folded exch_def, unfolded px1 prod.case px2]
  show ?thesis
  proof (cases "locked \<and> begun = None")
    case False
    then show ?thesis
      using sent1 sent2 by (auto simp: run split: if_splits option.splits intro: fail_once error_once[of px2])
  next
    case True
    note go = run[folded required_def, unfolded px4 prod.case px5 px6]
    show ?thesis
    proof (cases reply)
      case (Inl e)
      have "answered_once px (False, send_client (sendError ''08006'' e) q)" if "px_sent q = px_sent px" for q :: "'a proxy"
        by (rule session_error_once[OF that]) (simp add: sendError_def)
      then show ?thesis using True Inl sent4 by (simp add: go)
    next
      case (Inr responses)
      show ?thesis
      proof (cases "firstError responses")
        case (Some response)
        then show ?thesis using True Inr sent4 by (auto simp: go intro!: error_once[of "?rollback px4"])
      next
        case None
        note clean = None
        show ?thesis
        proof (cases committed)
          case (Some response)
          then show ?thesis using True Inr clean sent6 by (auto simp: go intro: error_once[of px6])
        next
          case None
          have "answered_once px (False, send_client (sendError code message) px6)" for code message
            by (rule session_error_once[OF sent6]) (simp add: sendError_def)
          then show ?thesis using True Inr clean None finish_statement_once[THEN answered_once_from, OF sent6]
            by (auto simp: go split: sum.splits prod.splits)
        qed
      qed
    qed
  qed
qed


text \<open>An empty query inside a transaction block is answered with the status of an idle session.\<close>

lemma empty_query_reports_idle:
  assumes "es_transaction (px_state px)"
  shows "px_sent (snd (handleSessionQuery env cc [] px)) = px_sent px @ [EmptyQueryResponse, ReadyForQuery CHR ''I'']"
    and "txStatus (px_state (snd (handleSessionQuery env cc [] px))) \<noteq> CHR ''I''"
proof -
  have "trim_space [] = []" by code_simp
  then show "px_sent (snd (handleSessionQuery env cc [] px)) = px_sent px @ [EmptyQueryResponse, ReadyForQuery CHR ''I'']"
    and "txStatus (px_state (snd (handleSessionQuery env cc [] px))) \<noteq> CHR ''I''"
    using assms by (simp_all add: handleSessionQuery_def send_client_def txStatus_def)
qed

end
