(* ===== verification/Proxy_Prepare.thy ===== *)
theory Proxy_Prepare
  imports Proxy_Route Backend_Session
begin

text \<open>
  Prepared statements of \<^verbatim>\<open>internal/proxy/server.go\<close>: \<^verbatim>\<open>prepareStatement\<close> normalises and routes the SQL of a
  Parse message and adds the parameter of a generated key; \<^verbatim>\<open>prepareBind\<close> supplies its value, and
  \<^verbatim>\<open>routingParameters\<close> gives the router the text of the bound values.  SHA-256, the decoding of binary values by
  \<^verbatim>\<open>pgtype\<close> and the allocation of the key are parameters.
\<close>

record parse_message =
  pm_Name :: string
  pm_Query :: string
  pm_ParameterOIDs :: "int list"

record bind_message =
  bm_DestinationPortal :: string
  bm_PreparedStatement :: string
  bm_ParameterFormatCodes :: "int list"
  bm_Parameters :: parameters
  bm_ResultFormatCodes :: "int list"

record statementState =
  ss_sql :: string
  ss_generated :: bool
  ss_schema :: bool
  ss_backendName :: string
  ss_message :: "parse_message option"
  ss_routing :: "Prepared option"

record portalState =
  ps_sql :: string
  ps_parameters :: parameters
  ps_schema :: bool
  ps_target :: string
  ps_routed :: bool
  ps_keyedWrite :: bool

text \<open>The four bytes of an object identifier, the most significant first.\<close>

definition uint32_bytes :: "int \<Rightarrow> bytes" where
  "uint32_bytes n = map (\<lambda>k. char_of (nat ((n div 2 ^ (8 * k)) mod 256))) [3, 2, 1, 0]"

definition hex_digit :: "nat \<Rightarrow> char" where
  "hex_digit n = (if n < 10 then digit_char n else char_of (87 + n))"

definition hex_string :: "bytes \<Rightarrow> string" where
  "hex_string b = concat (map (\<lambda>c. [hex_digit (byte_val c div 16), hex_digit (byte_val c mod 16)]) b)"

definition canonicalStatementName :: "(bytes \<Rightarrow> bytes) \<Rightarrow> string \<Rightarrow> int list \<Rightarrow> string" where
  "canonicalStatementName sha sql oids = ''hamstergres_'' @ hex_string (take 12 (sha (sql @ concat (map uint32_bytes oids))))"

definition pad_oids :: "int list \<Rightarrow> nat \<Rightarrow> int list" where
  "pad_oids oids parameter = oids @ replicate (parameter - length oids) 0"

datatype prepare_error = BadDDL ddl_error | BadStatement

definition prepareStatement :: "(bytes \<Rightarrow> bytes) \<Rightarrow> parser \<Rightarrow> (parse_result \<Rightarrow> string option) \<Rightarrow> parse_message \<Rightarrow> registry
    \<Rightarrow> prepare_error + statementState" where
  "prepareStatement sha parse deparse message registry = (case normalizeDDL parse deparse (pm_Query message) of
       Inl e \<Rightarrow> Inl (BadDDL e)
     | Inr normalized \<Rightarrow>
         (case Prepare parse (ns_sql normalized) of None \<Rightarrow> Inl BadStatement
          | Some routing \<Rightarrow>
              (let parameter = MaxParameter (Some routing) + 1;
                   rewritten = (if firstSQLKeyword (ns_sql normalized) = ''INSERT'' \<and> GeneratedPrimaryKey registry (Table (Some routing)) \<noteq> None
                     then RewriteGeneratedInsert parse deparse (ns_sql normalized) registry (''$'' @ show_int parameter) else None) in
               case rewritten of
                 None \<Rightarrow>
                   (let name = canonicalStatementName sha (ns_sql normalized) (pm_ParameterOIDs message) in
                    Inr \<lparr>ss_sql = ns_sql normalized, ss_generated = False, ss_schema = ns_schema normalized, ss_backendName = name,
                      ss_message = Some (message\<lparr>pm_Query := ns_sql normalized, pm_Name := name\<rparr>), ss_routing = Some routing\<rparr>)
               | Some g \<Rightarrow>
                   (let oids = pad_oids (pm_ParameterOIDs message) (nat parameter);
                        name = canonicalStatementName sha (gi_SQL g) oids in
                    case Prepare parse (gi_SQL g) of None \<Rightarrow> Inl BadStatement
                    | Some routing' \<Rightarrow>
                        Inr \<lparr>ss_sql = gi_SQL g, ss_generated = True, ss_schema = ns_schema normalized, ss_backendName = name,
                          ss_message = Some (message\<lparr>pm_Query := gi_SQL g, pm_ParameterOIDs := oids, pm_Name := name\<rparr>),
                          ss_routing = Some routing'\<rparr>))))"

definition placeholderRoutingParameters :: "nat \<Rightarrow> parameters" where
  "placeholderRoutingParameters maximum = replicate maximum (Some ''0'')"

definition cloneParameters :: "parameters \<Rightarrow> parameters" where
  "cloneParameters parameters = map append_nil parameters"

definition clone_bind :: "bind_message \<Rightarrow> bind_message" where
  "clone_bind message = message\<lparr>bm_Parameters := map append_nil (bm_Parameters message)\<rparr>"

definition format_of :: "int list \<Rightarrow> nat \<Rightarrow> int" where
  "format_of codes index = (if length codes = 1 then codes ! 0 else if index < length codes then codes ! index else 0)"

text \<open>\<open>scan\<close> is \<^verbatim>\<open>typeMap.Scan\<close> into a string: the type, the bytes, and the text when decoding succeeds.\<close>

definition routing_value :: "(int \<Rightarrow> bytes \<Rightarrow> string option) \<Rightarrow> int list \<Rightarrow> int list \<Rightarrow> nat \<Rightarrow> bytes option \<Rightarrow> bytes option" where
  "routing_value scan codes oids index value =
     (if format_of codes index \<noteq> 1 \<or> index \<ge> length oids \<or> oids ! index = 0 \<or> value = None then value
      else (case scan (oids ! index) (the value) of None \<Rightarrow> value | Some decoded \<Rightarrow> Some decoded))"

definition routingParameters :: "(int \<Rightarrow> bytes \<Rightarrow> string option) \<Rightarrow> bind_message \<Rightarrow> int list \<Rightarrow> parameters" where
  "routingParameters scan message oids = map (\<lambda>(index, value). routing_value scan (bm_ParameterFormatCodes message) oids index value)
     (enumerate 0 (cloneParameters (bm_Parameters message)))"

definition bound_codes :: "int list \<Rightarrow> nat \<Rightarrow> int list" where
  "bound_codes codes n = (if length codes = 1 then replicate n (codes ! 0) @ [0] else if length codes > 1 then codes @ [0] else codes)"

definition prepareBind :: "(int \<Rightarrow> bytes \<Rightarrow> string option) \<Rightarrow> ('s \<Rightarrow> (string + int) \<times> 's) \<Rightarrow> bind_message \<Rightarrow> statementState \<Rightarrow> 's
    \<Rightarrow> (string + bind_message \<times> parameters) \<times> 's" where
  "prepareBind scan nextID message statement w =
     (let oids = (case ss_message statement of None \<Rightarrow> [] | Some m \<Rightarrow> pm_ParameterOIDs m) in
      if \<not> ss_generated statement then
        (let bound = message\<lparr>bm_PreparedStatement := ss_backendName statement\<rparr> in (Inr (bound, routingParameters scan bound oids), w))
      else (case nextID w of (Inl e, w1) \<Rightarrow> (Inl e, w1)
        | (Inr ident, w1) \<Rightarrow>
            (let bound = message\<lparr>bm_PreparedStatement := ss_backendName statement,
                   bm_Parameters := cloneParameters (bm_Parameters message) @ [Some (show_int ident)],
                   bm_ParameterFormatCodes := bound_codes (bm_ParameterFormatCodes message) (length (bm_Parameters message))\<rparr> in
             (Inr (bound, routingParameters scan bound oids), w1))))"

section \<open>Laws\<close>

lemma show_int_not_empty: "show_int n \<noteq> []"
  by (simp add: show_int_def)

end
