(* ===== verification/Copy_Plan.thy ===== *)
theory Copy_Plan
  imports Query_Router
begin

text \<open>
  The plan half of \<^verbatim>\<open>internal/copyrouter/copy.go\<close>: \<^verbatim>\<open>Parse\<close> turns a COPY statement and the
  registry into the fail-closed plan that the streams of \<open>Copy_Stream\<close> and
  \<open>Copy_Output\<close> follow.  A byte is a character; an unset QUOTE or ESCAPE is NUL.
\<close>

definition MaxRowBytes :: int where
  "MaxRowBytes = 16777216"

definition FormatText :: string where "FormatText = ''text''"
definition FormatCSV :: string where "FormatCSV = ''csv''"
definition FormatBinary :: string where "FormatBinary = ''binary''"

lemmas format_defs = FormatText_def FormatCSV_def FormatBinary_def

record CopyPlan =
  cpl_Table :: string
  cpl_Columns :: "string list"
  cpl_From :: bool
  cpl_ServerSide :: bool
  cpl_Program :: bool
  cpl_Sharded :: bool
  cpl_Format :: string
  cpl_Delimiter :: char
  cpl_Null :: string
  cpl_Header :: bool
  cpl_Quote :: char
  cpl_Escape :: char
  cpl_Encoding :: string
  cpl_keyIndexes :: "nat list"
  cpl_keyTypes :: "string list"

datatype (plugins only: code size) copy_error =
    CopyParseError
  | NotOneCopy
  | MustNameRelation
  | ServerSideMustNameRelation
  | InvalidColumnList
  | InvalidOption
  | RepeatedOption string
  | FormatNeedsValue
  | DelimiterNotOneByte
  | NullNeedsValue
  | HeaderNeedsBool
  | QuoteNotOneByte
  | EscapeNotOneByte
  | EncodingNeedsValue
  | QuoteOnlyCSV
  | EscapeOnlyCSV
  | NotInBinaryMode string
  | UnsupportedCopyFormat string
  | DelimiterNewlineOrNul
  | QuoteEscapeDelimiter
  | OnlyUTF8
  | UnsupportedOptions "string list"
  | NeedsColumnList
  | RepeatedColumn string
  | OmittedGeneratedKey string
  | MissingKeyColumn string
  | NeedsTypeMetadata
  | UnsupportedBinaryType string
  | NotShardedCopyFrom
  | RowTooLarge
  | UnterminatedQuote
  | DataAfterQuote
  | QuoteInUnquoted
  | TextEndsWithEscape
  | WrongColumnCount int nat
  | NullKey string
  | KeyNotUTF8 string
  | InvalidKeyValue
  | EndedBeforeHeader
  | IncompleteBinary
  | HeaderTooLarge
  | InvalidSignature
  | ExtensionTooLarge
  | FieldTooLarge
  | InvalidFieldCount int
  | DataAfterTrailer
  | InvalidBinaryKey

definition copyRelationName :: "range_var \<Rightarrow> string" where
  "copyRelationName relation =
     (if rv_schemaname relation \<noteq> [] then rv_schemaname relation @ ''.'' @ rv_relname relation
      else rv_relname relation)"

definition copyOptionString :: "node option \<Rightarrow> string option" where
  "copyOptionString n = (case n of None \<Rightarrow> None
     | Some m \<Rightarrow> (case m of Node_String s \<Rightarrow> Some s
         | Node_AConst c \<Rightarrow> (case c of A_Sval s \<Rightarrow> Some s | _ \<Rightarrow> None)
         | _ \<Rightarrow> None))"

definition copyOptionBool :: "node option \<Rightarrow> bool option" where
  "copyOptionBool n = (case n of None \<Rightarrow> Some True
     | Some m \<Rightarrow> (case m of
           Node_String s \<Rightarrow> if equal_fold s ''match'' then Some True else parse_bool s
         | Node_Boolean b \<Rightarrow> Some b
         | Node_AConst c \<Rightarrow> (case c of A_Boolval b \<Rightarrow> Some b | A_Sval s \<Rightarrow> parse_bool s | _ \<Rightarrow> None)
         | Node_Integer i \<Rightarrow> Some (i \<noteq> 0)
         | _ \<Rightarrow> None))"

definition normalizedType :: "string \<Rightarrow> string" where
  "normalizedType dataType =
     (let value = trim_prefix (to_lower (trim_space dataType)) ''pg_catalog.'' in
      case index_byte value CHR ''('' of None \<Rightarrow> value
      | Some index \<Rightarrow> trim_space (take index value))"

definition supportedBinaryType :: "string \<Rightarrow> bool" where
  "supportedBinaryType dataType = (normalizedType dataType \<in> set
     [''int2'', ''smallint'', ''smallserial'', ''serial2'', ''int4'', ''int'', ''integer'', ''serial'',
      ''serial4'', ''int8'', ''bigint'', ''bigserial'', ''serial8'', ''oid'', ''float4'', ''real'',
      ''float8'', ''double precision'', ''bool'', ''boolean'', ''uuid'', ''text'', ''varchar'',
      ''character varying'', ''name'', ''bpchar'', ''char'', ''character''])"

section \<open>Options\<close>

record option_state =
  os_plan :: CopyPlan
  os_seen :: "string list"
  os_unsupported :: "string list"

definition one_byte :: "node option \<Rightarrow> char option" where
  "one_byte arg = (case copyOptionString arg of Some [c] \<Rightarrow> Some c | _ \<Rightarrow> None)"

definition set_option :: "CopyPlan \<Rightarrow> string \<Rightarrow> node option \<Rightarrow> copy_error + CopyPlan option" where
  "set_option plan name arg =
     (if name = ''format'' then (case copyOptionString arg of None \<Rightarrow> Inl FormatNeedsValue
          | Some v \<Rightarrow> Inr (Some (plan\<lparr>cpl_Format := to_lower v\<rparr>)))
      else if name = ''delimiter'' then (case one_byte arg of None \<Rightarrow> Inl DelimiterNotOneByte
          | Some c \<Rightarrow> Inr (Some (plan\<lparr>cpl_Delimiter := c\<rparr>)))
      else if name = ''null'' then (case copyOptionString arg of None \<Rightarrow> Inl NullNeedsValue
          | Some v \<Rightarrow> Inr (Some (plan\<lparr>cpl_Null := v\<rparr>)))
      else if name = ''header'' then (case copyOptionBool arg of None \<Rightarrow> Inl HeaderNeedsBool
          | Some b \<Rightarrow> Inr (Some (plan\<lparr>cpl_Header := b\<rparr>)))
      else if name = ''quote'' then (case one_byte arg of None \<Rightarrow> Inl QuoteNotOneByte
          | Some c \<Rightarrow> Inr (Some (plan\<lparr>cpl_Quote := c\<rparr>)))
      else if name = ''escape'' then (case one_byte arg of None \<Rightarrow> Inl EscapeNotOneByte
          | Some c \<Rightarrow> Inr (Some (plan\<lparr>cpl_Escape := c\<rparr>)))
      else if name = ''encoding'' then (case copyOptionString arg of None \<Rightarrow> Inl EncodingNeedsValue
          | Some v \<Rightarrow> Inr (Some (plan\<lparr>cpl_Encoding := to_upper (filter (\<lambda>c. c \<noteq> CHR ''-'') v)\<rparr>)))
      else Inr None)"

text \<open>\<open>Inr None\<close> marks an option the Proxy does not know.\<close>

fun read_options :: "node list \<Rightarrow> option_state \<Rightarrow> copy_error + option_state" where
  "read_options [] st = Inr st"
| "read_options (n # ns) st =
     (case get_def_elem n of None \<Rightarrow> Inl InvalidOption
      | Some (defname, arg) \<Rightarrow>
          (let name = to_lower defname in
           if name \<in> set (os_seen st) then Inl (RepeatedOption name)
           else (let st = st\<lparr>os_seen := name # os_seen st\<rparr> in
             case set_option (os_plan st) name arg of Inl e \<Rightarrow> Inl e
             | Inr (Some plan) \<Rightarrow> read_options ns (st\<lparr>os_plan := plan\<rparr>)
             | Inr None \<Rightarrow> read_options ns (st\<lparr>os_unsupported := os_unsupported st @ [name]\<rparr>))))"

definition check_format :: "CopyPlan \<Rightarrow> string list \<Rightarrow> copy_error + CopyPlan" where
  "check_format plan seen =
     (if cpl_Format plan = FormatText
      then (if ''quote'' \<in> set seen then Inl QuoteOnlyCSV
            else if ''escape'' \<in> set seen then Inl EscapeOnlyCSV else Inr plan)
      else if cpl_Format plan = FormatCSV
      then (let plan = (if ''delimiter'' \<notin> set seen then plan\<lparr>cpl_Delimiter := CHR '',''\<rparr> else plan);
                plan = (if ''null'' \<notin> set seen then plan\<lparr>cpl_Null := []\<rparr> else plan);
                plan = (if cpl_Quote plan = NUL then plan\<lparr>cpl_Quote := CHR 0x22\<rparr> else plan);
                plan = (if cpl_Escape plan = NUL then plan\<lparr>cpl_Escape := cpl_Quote plan\<rparr> else plan)
            in Inr plan)
      else if cpl_Format plan = FormatBinary
      then (case first_error (\<lambda>option. if option \<in> set seen then Some (NotInBinaryMode (to_upper option)) else None)
              [''delimiter'', ''null'', ''header'', ''quote'', ''escape''] of
              Some e \<Rightarrow> Inl e | None \<Rightarrow> Inr plan)
      else Inl (UnsupportedCopyFormat (cpl_Format plan)))"

definition check_bytes :: "CopyPlan \<Rightarrow> copy_error option" where
  "check_bytes plan =
     (if cpl_Delimiter plan = LF \<or> cpl_Delimiter plan = CR \<or> cpl_Delimiter plan = NUL
      then Some DelimiterNewlineOrNul
      else if cpl_Format plan = FormatCSV
           \<and> (cpl_Quote plan = cpl_Delimiter plan \<or> cpl_Escape plan = cpl_Delimiter plan)
      then Some QuoteEscapeDelimiter else None)"

section \<open>Shard-key columns\<close>

fun index_columns :: "string list \<Rightarrow> nat \<Rightarrow> (string, nat) gomap \<Rightarrow> copy_error + (string, nat) gomap" where
  "index_columns [] i m = Inr m"
| "index_columns (c # cs) i m =
     (if map_of m c \<noteq> None then Inl (RepeatedColumn c)
      else index_columns cs (Suc i) (AList.update c i m))"

fun index_keys :: "registry \<Rightarrow> string \<Rightarrow> string list \<Rightarrow> (string, nat) gomap \<Rightarrow> copy_error + nat list" where
  "index_keys r table [] m = Inr []"
| "index_keys r table (key # rest) m =
     (case map_of m key of
        None \<Rightarrow> (case GeneratedPrimaryKey r table of
            Some generated \<Rightarrow> if gp_Column generated = key then Inl (OmittedGeneratedKey key)
                              else Inl (MissingKeyColumn key)
          | None \<Rightarrow> Inl (MissingKeyColumn key))
      | Some index \<Rightarrow> (case index_keys r table rest m of Inl e \<Rightarrow> Inl e
          | Inr indexes \<Rightarrow> Inr (index # indexes)))"

definition shard_plan :: "registry \<Rightarrow> CopyPlan \<Rightarrow> string list \<Rightarrow> copy_error + CopyPlan" where
  "shard_plan r plan unsupported = (case ShardKey r (cpl_Table plan) of
       None \<Rightarrow> Inr plan
     | Some ks \<Rightarrow>
         if \<not> cpl_From plan then Inr plan
         else if cpl_Encoding plan \<noteq> ''UTF8'' then Inl OnlyUTF8
         else if length unsupported > 0 then Inl (UnsupportedOptions unsupported)
         else if length (cpl_Columns plan) = 0 then Inl NeedsColumnList
         else (case index_columns (cpl_Columns plan) 0 [] of Inl e \<Rightarrow> Inl e
           | Inr m \<Rightarrow>
         (case index_keys r (cpl_Table plan) ks m of Inl e \<Rightarrow> Inl e
           | Inr indexes \<Rightarrow>
         (case ShardKeyTypes r (cpl_Table plan) of None \<Rightarrow> Inl NeedsTypeMetadata
           | Some types \<Rightarrow>
               if length types \<noteq> length ks then Inl NeedsTypeMetadata
               else (let plan = plan\<lparr>cpl_keyIndexes := indexes, cpl_keyTypes := types\<rparr> in
                 if cpl_Format plan = FormatBinary
                 then (case first_error (\<lambda>ty. if \<not> supportedBinaryType ty
                           then Some (UnsupportedBinaryType ty) else None) types of
                         Some e \<Rightarrow> Inl e | None \<Rightarrow> Inr plan)
                 else Inr plan)))))"

fun read_columns :: "node list \<Rightarrow> copy_error + string list" where
  "read_columns [] = Inr []"
| "read_columns (n # ns) = (case get_string n of
       None \<Rightarrow> Inl InvalidColumnList
     | Some s \<Rightarrow> if s = [] then Inl InvalidColumnList
         else (case read_columns ns of Inl e \<Rightarrow> Inl e | Inr cs \<Rightarrow> Inr (s # cs)))"

section \<open>Parse\<close>

definition initial_plan :: "node copy_stmt \<Rightarrow> CopyPlan" where
  "initial_plan statement =
     \<lparr>cpl_Table = [], cpl_Columns = [], cpl_From = cp_isFrom statement,
      cpl_ServerSide = (cp_filename statement \<noteq> []), cpl_Program = cp_isProgram statement,
      cpl_Sharded = False, cpl_Format = FormatText, cpl_Delimiter = TAB,
      cpl_Null = [CHR 0x5C, CHR ''N''], cpl_Header = False, cpl_Quote = NUL, cpl_Escape = NUL,
      cpl_Encoding = ''UTF8'', cpl_keyIndexes = [], cpl_keyTypes = []\<rparr>"

definition parse_copy :: "registry \<Rightarrow> node copy_stmt \<Rightarrow> copy_error + CopyPlan" where
  "parse_copy r statement =
     (let plan = initial_plan statement in
      case cp_relation statement of
        None \<Rightarrow>
          if cp_isFrom statement \<or> cp_query statement = None then Inl MustNameRelation
          else if cpl_ServerSide plan \<or> cpl_Program plan then Inl ServerSideMustNameRelation
          else Inr plan
      | Some relation \<Rightarrow>
          (case read_columns (cp_attlist statement) of Inl e \<Rightarrow> Inl e
           | Inr columns \<Rightarrow>
               (let plan = plan\<lparr>cpl_Table := copyRelationName relation, cpl_Columns := columns,
                       cpl_Sharded := IsSharded r (copyRelationName relation)\<rparr> in
                if cpl_ServerSide plan \<or> cpl_Program plan then Inr plan
                else (case read_options (cp_options statement)
                        \<lparr>os_plan = plan, os_seen = [], os_unsupported = []\<rparr> of Inl e \<Rightarrow> Inl e
                  | Inr st \<Rightarrow>
                (case check_format (os_plan st) (os_seen st) of Inl e \<Rightarrow> Inl e
                  | Inr plan \<Rightarrow>
                (case check_bytes plan of Some e \<Rightarrow> Inl e
                  | None \<Rightarrow> shard_plan r plan (os_unsupported st)))))))"

definition Parse :: "parser \<Rightarrow> string \<Rightarrow> registry \<Rightarrow> copy_error + CopyPlan" where
  "Parse parse sql r = (case parse sql of None \<Rightarrow> Inl CopyParseError
     | Some tree \<Rightarrow> (case tree of
           [stmt] \<Rightarrow> (case get_copy stmt of None \<Rightarrow> Inl NotOneCopy
               | Some statement \<Rightarrow> parse_copy r statement)
         | _ \<Rightarrow> Inl NotOneCopy))"

section \<open>What an accepted plan guarantees\<close>

definition stream_plan_ok :: "registry \<Rightarrow> CopyPlan \<Rightarrow> bool" where
  "stream_plan_ok r plan \<longleftrightarrow>
     (\<exists>ks ts. ShardKey r (cpl_Table plan) = Some ks \<and> ShardKeyTypes r (cpl_Table plan) = Some ts
        \<and> cpl_keyTypes plan = ts \<and> length ts = length ks \<and> length (cpl_keyIndexes plan) = length ks
        \<and> (\<forall>i < length ks. cpl_keyIndexes plan ! i < length (cpl_Columns plan)
             \<and> cpl_Columns plan ! (cpl_keyIndexes plan ! i) = ks ! i))
     \<and> distinct (cpl_Columns plan) \<and> cpl_Encoding plan = ''UTF8''
     \<and> cpl_Format plan \<in> {FormatText, FormatCSV, FormatBinary}
     \<and> cpl_Delimiter plan \<notin> {LF, CR, NUL}
     \<and> (cpl_Format plan = FormatCSV \<longrightarrow> cpl_Quote plan \<noteq> cpl_Delimiter plan \<and> cpl_Escape plan \<noteq> cpl_Delimiter plan
          \<and> cpl_Quote plan \<noteq> NUL \<and> cpl_Escape plan \<noteq> NUL)
     \<and> (cpl_Format plan = FormatBinary \<longrightarrow> (\<forall>ty \<in> set (cpl_keyTypes plan). supportedBinaryType ty))"

lemma index_columns_Inr:
  assumes "index_columns cs i m = Inr m'" and "map_ok m"
  shows "distinct cs \<and> (\<forall>c \<in> set cs. map_of m c = None)
    \<and> (\<forall>c k. map_of m' c = Some k \<longrightarrow> map_of m c = Some k \<or> (i \<le> k \<and> k < i + length cs \<and> cs ! (k - i) = c))"
  using assms
proof (induction cs i m rule: index_columns.induct)
  case (2 c cs i m)
  then have none: "map_of m c = None" and rest: "index_columns cs (Suc i) (AList.update c i m) = Inr m'"
    by (auto split: if_splits)
  note ih = "2.IH" [OF _ rest] none
  from ih 2 have IH: "distinct cs" "\<forall>x \<in> set cs. map_of (AList.update c i m) x = None"
    "\<forall>x k. map_of m' x = Some k \<longrightarrow> map_of (AList.update c i m) x = Some k
       \<or> (Suc i \<le> k \<and> k < Suc i + length cs \<and> cs ! (k - Suc i) = x)" by auto
  have "map_of m x = Some k \<or> i \<le> k \<and> k < i + length (c # cs) \<and> (c # cs) ! (k - i) = x"
    if "map_of m' x = Some k" for x k
  proof -
    from IH(3) that consider "map_of (AList.update c i m) x = Some k"
      | "Suc i \<le> k" "k < Suc i + length cs" "cs ! (k - Suc i) = x" by blast
    then show ?thesis
    proof cases
      case 1
      then show ?thesis by (auto split: if_splits)
    next
      case 2
      then have "k - i = Suc (k - Suc i)" by simp
      with 2 show ?thesis by simp
    qed
  qed
  moreover have "c \<notin> set cs" "\<forall>x \<in> set cs. map_of m x = None" using IH(2) by (auto split: if_splits)
  ultimately show ?case using IH(1) none by simp
qed auto

lemma index_keys_Inr:
  assumes "index_keys r t ks m = Inr is"
  shows "length is = length ks \<and> (\<forall>i < length ks. map_of m (ks ! i) = Some (is ! i))"
  using assms
proof (induction ks arbitrary: "is")
  case (Cons k ks)
  then show ?case by (auto split: option.splits sum.splits if_splits simp: nth_Cons')
qed auto

definition frame :: "CopyPlan \<Rightarrow> string \<times> bool \<times> string list \<times> bool \<times> bool \<times> bool" where
  "frame p = (cpl_Table p, cpl_From p, cpl_Columns p, cpl_Sharded p, cpl_ServerSide p, cpl_Program p)"

lemma set_option_frame: "set_option plan name arg = Inr (Some plan') \<Longrightarrow> frame plan' = frame plan"
  by (auto simp: set_option_def frame_def split: if_splits option.splits)

lemma read_options_frame: "read_options ns st = Inr st' \<Longrightarrow> frame (os_plan st') = frame (os_plan st)"
proof (induction ns arbitrary: st)
  case (Cons n ns)
  from Cons.prems obtain d a where d: "get_def_elem n = Some (d, a)" by (auto split: option.splits)
  with Cons.prems have new: "to_lower d \<notin> set (os_seen st)" by (auto simp: Let_def split: if_splits)
  from Cons.prems d new obtain v where v: "set_option (os_plan st) (to_lower d) a = Inr v"
    by (auto simp: Let_def split: sum.splits)
  show ?case
  proof (cases v)
    case None
    with Cons.IH [of "st\<lparr>os_seen := to_lower d # os_seen st, os_unsupported := os_unsupported st @ [to_lower d]\<rparr>"]
      Cons.prems d new v show ?thesis by (simp add: Let_def)
  next
    case (Some plan)
    with Cons.IH [of "st\<lparr>os_seen := to_lower d # os_seen st, os_plan := plan\<rparr>"] Cons.prems d new v
    show ?thesis using set_option_frame [of "os_plan st" "to_lower d" a plan] by (simp add: Let_def)
  qed
qed auto

lemma check_format_ok:
  assumes "check_format plan seen = Inr plan'"
  shows "cpl_Format plan' = cpl_Format plan \<and> cpl_Format plan' \<in> {FormatText, FormatCSV, FormatBinary}
    \<and> cpl_Table plan' = cpl_Table plan \<and> cpl_From plan' = cpl_From plan
    \<and> (cpl_Format plan' = FormatCSV \<longrightarrow> cpl_Quote plan' \<noteq> NUL \<and> cpl_Escape plan' \<noteq> NUL)"
  using assms
  by (auto simp: check_format_def Let_def format_defs split: if_splits option.splits)

lemma shard_plan_ok:
  assumes "shard_plan r plan un = Inr plan'" and "IsSharded r (cpl_Table plan)" and "cpl_From plan"
    and "check_bytes plan = None" and "check_format plan0 seen = Inr plan"
  shows "stream_plan_ok r plan'"
proof -
  from assms(2) obtain ks where ks: "ShardKey r (cpl_Table plan) = Some ks" by (auto simp: IsSharded_def)
  from assms(1,3) ks obtain m "is" ts where m: "index_columns (cpl_Columns plan) 0 [] = Inr m"
    and ik: "index_keys r (cpl_Table plan) ks m = Inr is"
    and ts: "ShardKeyTypes r (cpl_Table plan) = Some ts" "length ts = length ks"
    and p': "plan' = plan\<lparr>cpl_keyIndexes := is, cpl_keyTypes := ts\<rparr>"
    and enc: "cpl_Encoding plan = ''UTF8''"
    and bin: "cpl_Format plan = FormatBinary \<longrightarrow> (\<forall>ty \<in> set ts. supportedBinaryType ty)"
    by (auto simp: shard_plan_def Let_def split: if_splits sum.splits option.splits dest: first_error_Some)
  have "is ! i < length (cpl_Columns plan) \<and> cpl_Columns plan ! (is ! i) = ks ! i" if "i < length ks" for i
    using index_columns_Inr [OF m] index_keys_Inr [OF ik] that by fastforce
  moreover have "distinct (cpl_Columns plan)" using index_columns_Inr [OF m] by simp
  moreover have "cpl_Delimiter plan \<notin> {LF, CR, NUL}"
    "cpl_Format plan = FormatCSV \<longrightarrow> cpl_Quote plan \<noteq> cpl_Delimiter plan \<and> cpl_Escape plan \<noteq> cpl_Delimiter plan"
    using assms(4) by (auto simp: check_bytes_def split: if_splits)
  ultimately show ?thesis
    using ks ts enc bin check_format_ok [OF assms(5)] index_keys_Inr [OF ik]
    unfolding stream_plan_ok_def p' by auto
qed

section \<open>Properties\<close>

text \<open>C12. An accepted plan for a client-side COPY FROM into a sharded table is complete: its key
  indexes name the shard-key columns in registry order and lie inside the column list, its key
  types are the registry's, its delimiter cannot break framing, and in CSV mode quote and
  escape are set and differ from the delimiter.\<close>

theorem copy_from_plan_complete:
  assumes "Parse parse sql r = Inr plan" and "cpl_From plan" and "cpl_Sharded plan"
    and "\<not> cpl_ServerSide plan" and "\<not> cpl_Program plan"
  shows "stream_plan_ok r plan"
proof -
  from assms(1) obtain statement where ps: "parse_copy r statement = Inr plan"
    by (auto simp: Parse_def split: option.splits list.splits)
  have shp: "frame p' = frame p" if "shard_plan r p un = Inr p'" for p p' un
    using that by (auto simp: shard_plan_def frame_def Let_def split: if_splits sum.splits option.splits)
  have chf: "frame p' = frame p" if "check_format p seen = Inr p'" for p p' seen
    using that by (auto simp: check_format_def frame_def Let_def split: if_splits option.splits)
  from ps assms(3-5) obtain relation columns st p0 where
    ro: "read_options (cp_options statement) \<lparr>os_plan = (initial_plan statement)\<lparr>cpl_Table := copyRelationName relation,
        cpl_Columns := columns, cpl_Sharded := IsSharded r (copyRelationName relation)\<rparr>,
        os_seen = [], os_unsupported = []\<rparr> = Inr st"
    and cf: "check_format (os_plan st) (os_seen st) = Inr p0" and cb: "check_bytes p0 = None"
    and sp: "shard_plan r p0 (os_unsupported st) = Inr plan"
    by (auto simp: parse_copy_def Let_def initial_plan_def split: option.splits sum.splits if_splits)
  have "IsSharded r (cpl_Table p0)" "cpl_From p0"
    using read_options_frame [OF ro] chf [OF cf] shp [OF sp] assms(2,3) by (auto simp: frame_def)
  with sp cb cf show ?thesis by (intro shard_plan_ok)
qed

definition sample_copy :: node where
  "sample_copy = Node_CopyStmt (CopyStmt
     (Some \<lparr>rv_schemaname = ''public'', rv_relname = ''users'', rv_relpersistence = ''p'', rv_alias = None\<rparr>)
     None [Node_String ''name'', Node_String ''id''] True False [] [Node_DefElem ''format'' (Some (Node_String ''CSV''))] None)"

definition sample_plan :: CopyPlan where
  "sample_plan = (case Parse (\<lambda>s. Some [Some sample_copy]) ''copy'' sample_registry of Inr p \<Rightarrow> p
     | Inl _ \<Rightarrow> initial_plan (CopyStmt None None [] True False [] [] None))"

theorem copy_from_plan_complete_witness:
  "stream_plan_ok sample_registry sample_plan \<and> cpl_keyIndexes sample_plan = [1] \<and> cpl_Delimiter sample_plan = CHR '',''"
proof -
  have "Parse (\<lambda>s. Some [Some sample_copy]) ''copy'' sample_registry = Inr sample_plan"
    "cpl_From sample_plan" "cpl_Sharded sample_plan" "\<not> cpl_ServerSide sample_plan" "\<not> cpl_Program sample_plan"
    by code_simp+
  then have "stream_plan_ok sample_registry sample_plan" by (rule copy_from_plan_complete)
  moreover have "cpl_keyIndexes sample_plan = [1]" "cpl_Delimiter sample_plan = CHR '',''" by code_simp+
  ultimately show ?thesis by blast
qed

end
