(* ===== verification/Copy_Stream.thy ===== *)
theory Copy_Stream
  imports Copy_Plan
begin

text \<open>
  The input half of \<^verbatim>\<open>internal/copyrouter/copy.go\<close>: framing a COPY FROM stream into rows,
  decoding text, CSV and binary fields, and giving every row its owning Burrow.  An error ends
  the stream, so the state after an error is not kept.  \<open>float_bits bits n\<close> is the text
  \<^verbatim>\<open>FormatFloat\<close> prints for the IEEE number with bit pattern \<open>n\<close>.
\<close>

record Chunk =
  ch_Target :: string
  ch_Data :: bytes

record Stream =
  st_plan :: CopyPlan
  st_registry :: registry
  st_burrows :: "string list"
  st_buffer :: bytes
  st_headerPending :: bool
  st_binaryHeader :: bool
  st_binaryTrailer :: bool
  st_rows :: int

record copyField =
  cf_value :: bytes
  cf_null :: bool
  cf_quoted :: bool

definition NewStream :: "CopyPlan \<Rightarrow> registry \<Rightarrow> string list \<Rightarrow> copy_error + Stream" where
  "NewStream plan r burrows =
     (if \<not> cpl_From plan \<or> \<not> cpl_Sharded plan \<or> length (cpl_keyIndexes plan) = 0 then Inl NotShardedCopyFrom
      else Inr \<lparr>st_plan = plan, st_registry = r, st_burrows = burrows, st_buffer = [],
        st_headerPending = cpl_Header plan, st_binaryHeader = False, st_binaryTrailer = False, st_rows = 0\<rparr>)"

definition Rows :: "Stream \<Rightarrow> int" where
  "Rows s = st_rows s"

definition BufferedBytes :: "Stream \<Rightarrow> nat" where
  "BufferedBytes s = length (st_buffer s)"

section \<open>Bytes and numbers\<close>

definition be_val :: "bytes \<Rightarrow> int" where
  "be_val b = foldl (\<lambda>acc c. 256 * acc + int (byte_val c)) 0 b"

definition to_signed :: "nat \<Rightarrow> int \<Rightarrow> int" where
  "to_signed bits v = (if v < 2 ^ (bits - 1) then v else v - 2 ^ bits)"

definition in_range :: "nat \<Rightarrow> nat \<Rightarrow> char \<Rightarrow> bool" where
  "in_range a b c = (a \<le> byte_val c \<and> byte_val c \<le> b)"

text \<open>\<^verbatim>\<open>utf8.Valid\<close>: the well-formed byte sequences of RFC 3629.\<close>

fun utf8_valid :: "bytes \<Rightarrow> bool" where
  "utf8_valid [] = True"
| "utf8_valid (a # s) =
     (if byte_val a < 128 then utf8_valid s
      else case s of [] \<Rightarrow> False
      | b # s1 \<Rightarrow>
          if in_range 0xC2 0xDF a then in_range 0x80 0xBF b \<and> utf8_valid s1
          else case s1 of [] \<Rightarrow> False
          | c # s2 \<Rightarrow>
              if in_range 0xE0 0xEF a
              then in_range (if byte_val a = 0xE0 then 0xA0 else 0x80) (if byte_val a = 0xED then 0x9F else 0xBF) b
                   \<and> in_range 0x80 0xBF c \<and> utf8_valid s2
              else case s2 of [] \<Rightarrow> False
              | d # s3 \<Rightarrow>
                  in_range 0xF0 0xF4 a
                  \<and> in_range (if byte_val a = 0xF0 then 0x90 else 0x80) (if byte_val a = 0xF4 then 0x8F else 0xBF) b
                  \<and> in_range 0x80 0xBF c \<and> in_range 0x80 0xBF d \<and> utf8_valid s3)"

section \<open>Text rows\<close>

definition BACKSLASH :: char where
  "BACKSLASH = CHR 0x5C"

fun split_text_fields :: "char \<Rightarrow> bytes \<Rightarrow> bytes \<Rightarrow> bytes list" where
  "split_text_fields delimiter field [] = [field]"
| "split_text_fields delimiter field (c # record) =
     (if c \<noteq> delimiter then split_text_fields delimiter (field @ [c]) record
      else if length (takeWhile (\<lambda>x. x = BACKSLASH) (rev field)) mod 2 \<noteq> 0
      then split_text_fields delimiter (field @ [c]) record
      else field # split_text_fields delimiter [] record)"

definition isHex :: "char \<Rightarrow> bool" where
  "isHex c = (in_range 48 57 c \<or> in_range 97 102 c \<or> in_range 65 70 c)"

definition is_octal :: "char \<Rightarrow> bool" where
  "is_octal c = in_range 48 55 c"

definition hex_digit :: "char \<Rightarrow> nat" where
  "hex_digit c = (if in_range 48 57 c then byte_val c - 48
     else if in_range 97 102 c then byte_val c - 87 else byte_val c - 55)"

text \<open>\<^verbatim>\<open>strconv.ParseUint(s, base, 8)\<close> returns the largest value when the number does not fit.\<close>

definition parse_uint8 :: "nat \<Rightarrow> bytes \<Rightarrow> nat" where
  "parse_uint8 base s = min 255 (foldl (\<lambda>acc c. base * acc + hex_digit c) 0 s)"

definition text_escape :: "char \<Rightarrow> char option" where
  "text_escape c =
     (if c = CHR ''b'' then Some (CHR 0x08) else if c = CHR ''f'' then Some (CHR 0x0C)
      else if c = CHR ''n'' then Some LF else if c = CHR ''r'' then Some CR
      else if c = CHR ''t'' then Some TAB else if c = CHR ''v'' then Some (CHR 0x0B) else None)"

function decodeTextField :: "bytes \<Rightarrow> copy_error + bytes" where
  "decodeTextField raw = (case raw of [] \<Rightarrow> Inr []
     | c # rest \<Rightarrow>
         if c \<noteq> BACKSLASH then map_sum (\<lambda>e. e) (\<lambda>v. c # v) (decodeTextField rest)
         else (case rest of [] \<Rightarrow> Inl TextEndsWithEscape
           | e # rest' \<Rightarrow>
               (case text_escape e of
                  Some v \<Rightarrow> map_sum (\<lambda>e. e) (\<lambda>vs. v # vs) (decodeTextField rest')
                | None \<Rightarrow>
                    if e = CHR ''x''
                    then (let digits = takeWhile isHex (take 2 rest') in
                      if digits = [] then map_sum (\<lambda>e. e) (\<lambda>vs. CHR ''x'' # vs) (decodeTextField rest')
                      else map_sum (\<lambda>e. e) (\<lambda>vs. char_of (parse_uint8 16 digits) # vs)
                             (decodeTextField (drop (length digits) rest')))
                    else if is_octal e
                    then (let digits = takeWhile is_octal (take 3 (e # rest')) in
                      map_sum (\<lambda>e. e) (\<lambda>vs. char_of (parse_uint8 8 digits) # vs)
                        (decodeTextField (drop (length digits) (e # rest'))))
                    else map_sum (\<lambda>e. e) (\<lambda>vs. e # vs) (decodeTextField rest'))))"
  by pat_completeness auto
termination
  by (relation "measure length") auto

declare decodeTextField.simps [simp del]

fun decode_fields :: "string \<Rightarrow> bytes list \<Rightarrow> copy_error + copyField list" where
  "decode_fields null [] = Inr []"
| "decode_fields null (raw # rest) =
     (if raw = null
      then map_sum (\<lambda>e. e) (\<lambda>fs. \<lparr>cf_value = [], cf_null = True, cf_quoted = False\<rparr> # fs) (decode_fields null rest)
      else (case decodeTextField raw of Inl e \<Rightarrow> Inl e
        | Inr value \<Rightarrow> map_sum (\<lambda>e. e) (\<lambda>fs. \<lparr>cf_value = value, cf_null = False, cf_quoted = False\<rparr> # fs)
            (decode_fields null rest)))"

definition parseTextRecord :: "bytes \<Rightarrow> CopyPlan \<Rightarrow> copy_error + copyField list" where
  "parseTextRecord record plan = decode_fields (cpl_Null plan) (split_text_fields (cpl_Delimiter plan) [] record)"

section \<open>CSV rows\<close>

text \<open>The body of a quoted field: its value and what follows the closing quote.\<close>

fun csv_quoted :: "CopyPlan \<Rightarrow> bytes \<Rightarrow> bytes \<Rightarrow> (bytes \<times> bytes) option" where
  "csv_quoted plan value [] = None"
| "csv_quoted plan value [c] = (if c = cpl_Quote plan then Some (value, []) else None)"
| "csv_quoted plan value (c # d # rest) =
     (if c = cpl_Escape plan \<and> (d = cpl_Quote plan \<or> d = cpl_Escape plan)
      then csv_quoted plan (value @ [d]) rest
      else if c = cpl_Quote plan then Some (value, d # rest)
      else csv_quoted plan (value @ [c]) (d # rest))"

fun csv_unquoted :: "CopyPlan \<Rightarrow> bytes \<Rightarrow> bytes \<Rightarrow> copy_error + (bytes \<times> bytes)" where
  "csv_unquoted plan value [] = Inr (value, [])"
| "csv_unquoted plan value (c # rest) =
     (if c = cpl_Delimiter plan then Inr (value, c # rest)
      else if c = cpl_Quote plan then Inl QuoteInUnquoted
      else csv_unquoted plan (value @ [c]) rest)"

definition csv_field :: "CopyPlan \<Rightarrow> bytes \<Rightarrow> copy_error + (copyField \<times> bytes)" where
  "csv_field plan record =
     (if record \<noteq> [] \<and> hd record = cpl_Quote plan
      then (case csv_quoted plan [] (tl record) of None \<Rightarrow> Inl UnterminatedQuote
        | Some (value, rest) \<Rightarrow>
            if rest \<noteq> [] \<and> hd rest \<noteq> cpl_Delimiter plan then Inl DataAfterQuote
            else Inr (\<lparr>cf_value = value, cf_null = False, cf_quoted = True\<rparr>, rest))
      else (case csv_unquoted plan [] record of Inl e \<Rightarrow> Inl e
        | Inr (value, rest) \<Rightarrow>
            Inr (\<lparr>cf_value = value, cf_null = (value = cpl_Null plan), cf_quoted = False\<rparr>, rest)))"

lemma csv_quoted_shorter: "csv_quoted plan v r = Some (v', r') \<Longrightarrow> length r' < length r"
  by (induction plan v r rule: csv_quoted.induct) (auto split: if_splits)

lemma csv_unquoted_shorter: "csv_unquoted plan v r = Inr (v', r') \<Longrightarrow> length r' \<le> length r"
  by (induction plan v r rule: csv_unquoted.induct) (auto split: if_splits dest: le_SucI)

lemma csv_field_shorter: "csv_field plan r = Inr (f, r') \<Longrightarrow> length r' \<le> length r"
  by (cases r) (auto simp: csv_field_def split: if_splits option.splits sum.splits
      dest: csv_quoted_shorter csv_unquoted_shorter)

function csv_fields :: "CopyPlan \<Rightarrow> bytes \<Rightarrow> copy_error + copyField list" where
  "csv_fields plan record = (case csv_field plan record of Inl e \<Rightarrow> Inl e
     | Inr (field, rest) \<Rightarrow>
         (case rest of [] \<Rightarrow> Inr [field]
          | c # rest' \<Rightarrow>
              if rest' = [] then Inr [field, \<lparr>cf_value = [], cf_null = (cpl_Null plan = []), cf_quoted = False\<rparr>]
              else map_sum (\<lambda>e. e) (\<lambda>fs. field # fs) (csv_fields plan rest')))"
  by pat_completeness auto
termination
  by (relation "measure (\<lambda>(plan, record). length record)") (auto dest: csv_field_shorter)

declare csv_fields.simps [simp del]

definition parseCSVRecord :: "bytes \<Rightarrow> CopyPlan \<Rightarrow> copy_error + copyField list" where
  "parseCSVRecord record plan = csv_fields plan record"

section \<open>Record boundaries\<close>

text \<open>
  The scan for the end of a CSV record, at position \<open>index\<close> with the flags of the Go loop.  The
  result is the length of the record (0 when it is not complete) and whether the scan ended
  inside quotes.
\<close>

fun csv_record_end :: "CopyPlan \<Rightarrow> bool \<Rightarrow> bool \<Rightarrow> nat \<Rightarrow> bytes \<Rightarrow> nat \<times> bool" where
  "csv_record_end plan inQuotes fieldStart index [] = (0, inQuotes)"
| "csv_record_end plan inQuotes fieldStart index (c # rest) =
     (if inQuotes
      then (case rest of
          d # rest' \<Rightarrow>
            if c = cpl_Escape plan \<and> (d = cpl_Quote plan \<or> d = cpl_Escape plan)
            then csv_record_end plan True fieldStart (index + 2) rest'
            else csv_record_end plan (c \<noteq> cpl_Quote plan) fieldStart (index + 1) rest
        | [] \<Rightarrow> csv_record_end plan (c \<noteq> cpl_Quote plan) fieldStart (index + 1) rest)
      else if fieldStart \<and> c = cpl_Quote plan
      then csv_record_end plan True False (index + 1) rest
      else if c = cpl_Delimiter plan then csv_record_end plan False True (index + 1) rest
      else if c = LF then (index + 1, False)
      else csv_record_end plan False (if c \<noteq> CR then False else fieldStart) (index + 1) rest)"

definition delimitedRecordEnd :: "bytes \<Rightarrow> CopyPlan \<Rightarrow> nat \<times> bool" where
  "delimitedRecordEnd data plan =
     (if cpl_Format plan = FormatText
      then (case index_byte data LF of Some index \<Rightarrow> (index + 1, False) | None \<Rightarrow> (0, False))
      else csv_record_end plan False True 0 data)"

definition trimRecordTerminator :: "bytes \<Rightarrow> bytes" where
  "trimRecordTerminator record =
     (if record \<noteq> [] \<and> last record = LF
      then (let record = butlast record in
        if record \<noteq> [] \<and> last record = CR then butlast record else record)
      else record)"

section \<open>Routing one row\<close>

fun key_texts :: "CopyPlan \<Rightarrow> copyField list \<Rightarrow> nat list \<Rightarrow> copy_error + string list" where
  "key_texts plan fs [] = Inr []"
| "key_texts plan fs (i # rest) =
     (let field = fs ! i in
      if cf_null field then Inl (NullKey (cpl_Columns plan ! i))
      else if \<not> utf8_valid (cf_value field) then Inl (KeyNotUTF8 (cpl_Columns plan ! i))
      else map_sum (\<lambda>e. e) (\<lambda>vs. cf_value field # vs) (key_texts plan fs rest))"

definition owner_of_key :: "float_codec \<Rightarrow> Stream \<Rightarrow> string list \<Rightarrow> copy_error + string" where
  "owner_of_key ft s values =
     (case TargetForTableShardKey ft (cpl_Table (st_plan s)) values (cpl_keyTypes (st_plan s))
             (st_registry s) (st_burrows s) of
        None \<Rightarrow> Inl InvalidKeyValue
      | Some target \<Rightarrow> if target = [] then Inl InvalidKeyValue else Inr target)"

definition targetForRecord :: "float_codec \<Rightarrow> Stream \<Rightarrow> bytes \<Rightarrow> copy_error + string" where
  "targetForRecord ft s record =
     (case (if cpl_Format (st_plan s) = FormatCSV then parseCSVRecord record (st_plan s)
            else parseTextRecord record (st_plan s)) of Inl e \<Rightarrow> Inl e
      | Inr fs \<Rightarrow>
          if length fs \<noteq> length (cpl_Columns (st_plan s))
          then Inl (WrongColumnCount (int (length fs)) (length (cpl_Columns (st_plan s))))
          else (case key_texts (st_plan s) fs (cpl_keyIndexes (st_plan s)) of Inl e \<Rightarrow> Inl e
            | Inr values \<Rightarrow> owner_of_key ft s values))"

definition end_marker :: "Stream \<Rightarrow> bytes \<Rightarrow> bool" where
  "end_marker s trimmed = (cpl_Format (st_plan s) = FormatText \<and> trimmed = [BACKSLASH, CHR ''.''])"

text \<open>What the loop does with one record: the header and the text end marker go to every Burrow,
  a data row to its owner.\<close>

definition route_record :: "float_codec \<Rightarrow> Stream \<Rightarrow> bytes \<Rightarrow> copy_error + (Chunk \<times> Stream)" where
  "route_record ft s record =
     (if st_headerPending s
      then Inr (\<lparr>ch_Target = [], ch_Data = record\<rparr>, s\<lparr>st_headerPending := False\<rparr>)
      else if end_marker s (trimRecordTerminator record)
      then Inr (\<lparr>ch_Target = [], ch_Data = record\<rparr>, s)
      else (case targetForRecord ft s (trimRecordTerminator record) of Inl e \<Rightarrow> Inl e
        | Inr target \<Rightarrow>
            Inr (\<lparr>ch_Target = target, ch_Data = record\<rparr>, s\<lparr>st_rows := st_rows s + 1\<rparr>)))"

lemma route_record_buffer: "route_record ft s r = Inr (c, s') \<Longrightarrow> st_buffer s' = st_buffer s \<and> ch_Data c = r"
  by (auto simp: route_record_def split: if_splits sum.splits)

function consumeDelimited :: "float_codec \<Rightarrow> bool \<Rightarrow> Stream \<Rightarrow> copy_error + (Chunk list \<times> Stream)" where
  "consumeDelimited ft final s =
     (if st_buffer s = [] then Inr ([], s)
      else (let (end', quoted) = delimitedRecordEnd (st_buffer s) (st_plan s) in
        if end' = 0 \<and> final \<and> quoted then Inl UnterminatedQuote
        else if end' = 0 \<and> \<not> final then Inr ([], s)
        else (let end' = (if end' = 0 then length (st_buffer s) else end');
                  record = take end' (st_buffer s) in
          case route_record ft (s\<lparr>st_buffer := drop end' (st_buffer s)\<rparr>) record of Inl e \<Rightarrow> Inl e
          | Inr (chunk, s') \<Rightarrow> map_sum (\<lambda>e. e) (\<lambda>(chunks, s''). (chunk # chunks, s'')) (consumeDelimited ft final s'))))"
  by pat_completeness auto
termination
  by (relation "measure (\<lambda>(ft, final, s). length (st_buffer s))")
    (auto dest!: route_record_buffer split: if_splits)

declare consumeDelimited.simps [simp del]

section \<open>Binary rows\<close>

definition binarySignature :: bytes where
  "binarySignature = ''PGCOPY'' @ [LF, CHR 0xFF, CR, LF, NUL]"

datatype row_scan = Row "bytes option list" nat | Incomplete | TooLarge

fun add_field :: "bytes option \<Rightarrow> row_scan \<Rightarrow> row_scan" where
  "add_field f (Row fs p) = Row (f # fs) p"
| "add_field f Incomplete = Incomplete"
| "add_field f TooLarge = TooLarge"

text \<open>The fields of a row from \<open>position\<close> on: a length, then that many bytes; -1 is NULL.\<close>

fun scan_fields :: "nat \<Rightarrow> bytes \<Rightarrow> nat \<Rightarrow> row_scan" where
  "scan_fields 0 buffer position = Row [] position"
| "scan_fields (Suc columns) buffer position =
     (if length buffer < position + 4 then Incomplete
      else (let len = to_signed 32 (be_val (take 4 (drop position buffer)));
                position = position + 4 in
        if len = -1 then add_field None (scan_fields columns buffer position)
        else if len < 0 \<or> len > MaxRowBytes \<or> int position + len > MaxRowBytes then TooLarge
        else if int (length buffer) < int position + len then Incomplete
        else add_field (Some (take (nat len) (drop position buffer)))
               (scan_fields columns buffer (position + nat len))))"

lemma add_field_Row: "add_field f x = Row fs q \<longleftrightarrow> (\<exists>gs. x = Row gs q \<and> fs = f # gs)"
  by (cases x) auto

lemma scan_fields_forward: "scan_fields k b p = Row fs q \<Longrightarrow> p \<le> q"
  by (induction k b p arbitrary: fs rule: scan_fields.induct)
    (force simp: Let_def add_field_Row split: if_splits)+

type_synonym float_bits = "nat \<Rightarrow> int \<Rightarrow> string"

definition hex_char :: "nat \<Rightarrow> char" where
  "hex_char n = char_of (if n < 10 then n + 48 else n + 87)"

definition hex_text_of :: "bytes \<Rightarrow> string" where
  "hex_text_of b = concat (map (\<lambda>c. [hex_char (byte_val c div 16), hex_char (byte_val c mod 16)]) b)"

definition decodeBinaryKey :: "float_bits \<Rightarrow> bytes \<Rightarrow> string \<Rightarrow> copy_error + string" where
  "decodeBinaryKey fb value dataType =
     (let ty = normalizedType dataType in
      if ty \<in> set [''int2'', ''smallint'', ''smallserial'', ''serial2'']
      then (if length value \<noteq> 2 then Inl InvalidBinaryKey else Inr (show_int (to_signed 16 (be_val value))))
      else if ty \<in> set [''int4'', ''int'', ''integer'', ''serial'', ''serial4'']
      then (if length value \<noteq> 4 then Inl InvalidBinaryKey else Inr (show_int (to_signed 32 (be_val value))))
      else if ty \<in> set [''int8'', ''bigint'', ''bigserial'', ''serial8'']
      then (if length value \<noteq> 8 then Inl InvalidBinaryKey else Inr (show_int (to_signed 64 (be_val value))))
      else if ty = ''oid''
      then (if length value \<noteq> 4 then Inl InvalidBinaryKey else Inr (show_int (be_val value)))
      else if ty \<in> set [''float4'', ''real'']
      then (if length value \<noteq> 4 then Inl InvalidBinaryKey else Inr (fb 32 (be_val value)))
      else if ty \<in> set [''float8'', ''double precision'']
      then (if length value \<noteq> 8 then Inl InvalidBinaryKey else Inr (fb 64 (be_val value)))
      else if ty \<in> set [''bool'', ''boolean'']
      then (case value of [c] \<Rightarrow> if byte_val c > 1 then Inl InvalidBinaryKey
               else Inr (format_bool (byte_val c = 1))
             | _ \<Rightarrow> Inl InvalidBinaryKey)
      else if ty = ''uuid''
      then (if length value \<noteq> 16 then Inl InvalidBinaryKey
            else Inr (hex_text_of (take 4 value) @ ''-'' @ hex_text_of (take 2 (drop 4 value)) @ ''-''
              @ hex_text_of (take 2 (drop 6 value)) @ ''-'' @ hex_text_of (take 2 (drop 8 value)) @ ''-''
              @ hex_text_of (drop 10 value)))
      else if ty \<in> set [''text'', ''varchar'', ''character varying'', ''name'', ''bpchar'', ''char'', ''character'']
      then (if \<not> utf8_valid value then Inl InvalidBinaryKey else Inr value)
      else Inl InvalidBinaryKey)"

fun binary_key :: "float_bits \<Rightarrow> CopyPlan \<Rightarrow> bytes option list \<Rightarrow> nat list \<Rightarrow> string list
    \<Rightarrow> copy_error + string list" where
  "binary_key fb plan fs (i # is) (ty # tys) =
     (case fs ! i of None \<Rightarrow> Inl (NullKey (cpl_Columns plan ! i))
      | Some raw \<Rightarrow>
          (case decodeBinaryKey fb raw ty of Inl e \<Rightarrow> Inl e
           | Inr value \<Rightarrow> map_sum (\<lambda>e. e) (\<lambda>vs. value # vs) (binary_key fb plan fs is tys)))"
| "binary_key fb plan fs _ _ = Inr []"

text \<open>The header: \<open>None\<close> when more input is needed, otherwise its length.\<close>

definition binary_header :: "bytes \<Rightarrow> copy_error + nat option" where
  "binary_header buffer =
     (if length buffer < 19 then Inr None
      else if take (length binarySignature) buffer \<noteq> binarySignature then Inl InvalidSignature
      else (let extension = be_val (take 4 (drop 15 buffer)) in
        if extension < 0 \<or> extension > MaxRowBytes then Inl ExtensionTooLarge
        else if int (length buffer) < 19 + extension then Inr None
        else Inr (Some (19 + nat extension))))"

function binary_rows :: "float_codec \<Rightarrow> float_bits \<Rightarrow> Stream \<Rightarrow> copy_error + (Chunk list \<times> Stream)" where
  "binary_rows ft fb s =
     (if length (st_buffer s) < 2 \<or> st_binaryTrailer s then Inr ([], s)
      else (let columns = to_signed 16 (be_val (take 2 (st_buffer s))) in
        if columns = -1
        then Inr ([\<lparr>ch_Target = [], ch_Data = take 2 (st_buffer s)\<rparr>],
                  s\<lparr>st_buffer := drop 2 (st_buffer s), st_binaryTrailer := True\<rparr>)
        else if columns < 0 \<or> columns \<noteq> int (length (cpl_Columns (st_plan s)))
        then Inl (WrongColumnCount columns (length (cpl_Columns (st_plan s))))
        else (case scan_fields (nat columns) (st_buffer s) 2 of
            TooLarge \<Rightarrow> Inl FieldTooLarge
          | Incomplete \<Rightarrow> Inr ([], s)
          | Row fs position \<Rightarrow>
              (case binary_key fb (st_plan s) fs (cpl_keyIndexes (st_plan s)) (cpl_keyTypes (st_plan s)) of
                 Inl e \<Rightarrow> Inl e
               | Inr values \<Rightarrow>
              (case owner_of_key ft s values of Inl e \<Rightarrow> Inl e
               | Inr target \<Rightarrow>
                   map_sum (\<lambda>e. e) (\<lambda>(chunks, s'). (\<lparr>ch_Target = target, ch_Data = take position (st_buffer s)\<rparr> # chunks, s'))
                     (binary_rows ft fb (s\<lparr>st_buffer := drop position (st_buffer s), st_rows := st_rows s + 1\<rparr>)))))))"
  by pat_completeness auto
termination
  by (relation "measure (\<lambda>(ft, fb, s). length (st_buffer s))") (auto dest!: scan_fields_forward)

declare binary_rows.simps [simp del]

definition check_trailer :: "Chunk list \<times> Stream \<Rightarrow> copy_error + (Chunk list \<times> Stream)" where
  "check_trailer r = (if st_binaryTrailer (snd r) \<and> length (st_buffer (snd r)) \<noteq> 0 then Inl DataAfterTrailer else Inr r)"

definition consumeBinary :: "float_codec \<Rightarrow> float_bits \<Rightarrow> Stream \<Rightarrow> copy_error + (Chunk list \<times> Stream)" where
  "consumeBinary ft fb s =
     (if st_binaryHeader s
      then (case binary_rows ft fb s of Inl e \<Rightarrow> Inl e | Inr r \<Rightarrow> check_trailer r)
      else (case binary_header (st_buffer s) of Inl e \<Rightarrow> Inl e
        | Inr None \<Rightarrow> Inr ([], s)
        | Inr (Some n) \<Rightarrow>
            (case binary_rows ft fb (s\<lparr>st_buffer := drop n (st_buffer s), st_binaryHeader := True\<rparr>) of
               Inl e \<Rightarrow> Inl e
             | Inr (chunks, s') \<Rightarrow>
                 check_trailer (\<lparr>ch_Target = [], ch_Data = take n (st_buffer s)\<rparr> # chunks, s'))))"

section \<open>Write and Finish\<close>

definition Write :: "float_codec \<Rightarrow> float_bits \<Rightarrow> Stream \<Rightarrow> bytes \<Rightarrow> copy_error + (Chunk list \<times> Stream)" where
  "Write ft fb s data =
     (if length data = 0 then Inr ([], s)
      else (let s = s\<lparr>st_buffer := st_buffer s @ data\<rparr> in
        case (if cpl_Format (st_plan s) = FormatText \<or> cpl_Format (st_plan s) = FormatCSV
              then consumeDelimited ft False s
              else if cpl_Format (st_plan s) = FormatBinary then consumeBinary ft fb s
              else Inr ([], s)) of Inl e \<Rightarrow> Inl e
        | Inr (chunks, s') \<Rightarrow>
            if int (length (st_buffer s')) > MaxRowBytes then Inl RowTooLarge else Inr (chunks, s')))"

definition Finish :: "float_codec \<Rightarrow> float_bits \<Rightarrow> Stream \<Rightarrow> copy_error + (Chunk list \<times> Stream)" where
  "Finish ft fb s =
     (if cpl_Format (st_plan s) = FormatText \<or> cpl_Format (st_plan s) = FormatCSV
      then (case consumeDelimited ft True s of Inl e \<Rightarrow> Inl e
        | Inr (chunks, s') \<Rightarrow> if st_headerPending s' then Inl EndedBeforeHeader else Inr (chunks, s'))
      else if cpl_Format (st_plan s) = FormatBinary
      then (case consumeBinary ft fb s of Inl e \<Rightarrow> Inl e
        | Inr (chunks, s') \<Rightarrow>
            if length (st_buffer s') \<noteq> 0 \<or> \<not> st_binaryHeader s' \<or> \<not> st_binaryTrailer s' then Inl IncompleteBinary
            else Inr (chunks, s'))
      else Inl (UnsupportedCopyFormat (cpl_Format (st_plan s))))"

end
