(* ===== verification/Proxy_Extended.thy ===== *)
theory Proxy_Extended
  imports Proxy_Session Proxy_Prepare Copy_Stream
begin

text \<open>
  The extended-query handlers of \<^verbatim>\<open>internal/proxy/server.go\<close>: lazy preparation of statements on the Burrows, Bind,
  Describe, Execute, Close, Sync and the batch that Bind, Describe and Execute are collected into until the client
  asks for an answer.  The connections to the Burrows are the record \<open>wire\<close>; metrics, logs and trace
  spans are left out.
\<close>

section \<open>Connections\<close>

datatype frontend_message =
    FParse parse_message
  | FBind bind_message
  | FDescribe char string
  | FExecute string int
  | FClose char string
  | FSync
  | FFlush
  | FQuery string
  | FCopyData bytes
  | FCopyDone
  | FCopyFail string
  | FTerminate
  | FOther string

text \<open>
  \<open>wr_receive done\<close> is \<^verbatim>\<open>Session.ReceiveUntilFrom\<close>: all messages up to the first that is \<open>done\<close>, or a transport error.
  \<open>wr_ReceiveEach\<close> is \<^verbatim>\<open>Session.ReceiveEachFrom\<close>: the messages handed to the callback, and the transport error that
  ended the stream early, if any.
\<close>

record 's wire =
  wr_SendTo :: "(frontend_message, 's) sender"
  wr_SendBatchTo :: "string \<Rightarrow> frontend_message list \<Rightarrow> 's \<Rightarrow> string option \<times> 's"
  wr_SendCopyTo :: "string list \<Rightarrow> frontend_message \<Rightarrow> 's \<Rightarrow> string option \<times> 's"
  wr_receive :: "(backend_message \<Rightarrow> bool) \<Rightarrow> 's receiver"
  wr_ReceiveEach :: "(backend_message \<Rightarrow> bool) \<Rightarrow> string \<Rightarrow> 's \<Rightarrow> (response \<times> string option) \<times> 's"
  wr_Ensure :: "string \<Rightarrow> 's \<Rightarrow> string option \<times> 's"
  wr_Prepared :: "string \<Rightarrow> string \<Rightarrow> 's \<Rightarrow> bool"
  wr_MarkPrepared :: "string list \<Rightarrow> string \<Rightarrow> 's \<Rightarrow> 's"
  wr_ConnectedNames :: "'s \<Rightarrow> string list"

record pendingExtended =
  pe_targets :: "string list"
  pe_bind :: bind_message
  pe_describe :: "frontend_message option"
  pe_execute :: "frontend_message option"
  pe_portalName :: string
  pe_portal :: portalState
  pe_statement :: statementState

text \<open>
  A frontend connection: the state shared with the simple-query handlers, the maps and flags of the extended
  protocol, and the COPY in progress.  \<open>cn_crashed\<close> records a nil dereference, which ends the process.
\<close>

record 's conn =
  cn_px :: "'s proxy"
  cn_statements :: "(string, statementState) gomap"
  cn_portals :: "(string, portalState) gomap"
  cn_failed :: bool
  cn_pending :: "pendingExtended option"
  cn_syncConsumed :: bool
  cn_session :: bool
  cn_copyIn :: bool
  cn_copyTargets :: "string list"
  cn_copyPlan :: "CopyPlan option"
  cn_copyStream :: "Stream option"
  cn_copyReplicated :: bool
  cn_copyAborted :: bool
  cn_crashed :: bool

definition on_px :: "('s proxy \<Rightarrow> 'a \<times> 's proxy) \<Rightarrow> 's conn \<Rightarrow> 'a \<times> 's conn" where
  "on_px f c = (case f (cn_px c) of (a, px) \<Rightarrow> (a, c\<lparr>cn_px := px\<rparr>))"

definition do_px :: "('s proxy \<Rightarrow> 's proxy) \<Rightarrow> 's conn \<Rightarrow> 's conn" where
  "do_px f c = c\<lparr>cn_px := f (cn_px c)\<rparr>"

definition say :: "response \<Rightarrow> 's conn \<Rightarrow> 's conn" where
  "say ms c = do_px (send_client ms) c"

abbreviation in_world :: "('s \<Rightarrow> 'a \<times> 's) \<Rightarrow> 's conn \<Rightarrow> 'a \<times> 's conn" where
  "in_world f \<equiv> on_px (on_world f)"

abbreviation world :: "'s conn \<Rightarrow> 's" where
  "world c \<equiv> fl_world (px_fleet (cn_px c))"

abbreviation session_of :: "'s conn \<Rightarrow> extendedState" where
  "session_of c \<equiv> px_state (cn_px c)"

abbreviation shards_of :: "'s conn \<Rightarrow> string list" where
  "shards_of c \<equiv> sv_shardNames (px_server (cn_px c))"

definition no_statement :: statementState where
  "no_statement = \<lparr>ss_sql = [], ss_generated = False, ss_schema = False, ss_backendName = [], ss_message = None, ss_routing = None\<rparr>"

definition no_portal :: portalState where
  "no_portal = \<lparr>ps_sql = [], ps_parameters = [], ps_schema = False, ps_target = [], ps_routed = False, ps_keyedWrite = False\<rparr>"

text \<open>A missing key of a Go map reads as the zero value.\<close>

definition statement_of :: "'s conn \<Rightarrow> string \<Rightarrow> statementState" where
  "statement_of c name = (case map_of (cn_statements c) name of None \<Rightarrow> no_statement | Some st \<Rightarrow> st)"

definition portal_of :: "'s conn \<Rightarrow> string \<Rightarrow> portalState" where
  "portal_of c name = (case map_of (cn_portals c) name of None \<Rightarrow> no_portal | Some p \<Rightarrow> p)"

section \<open>Preparing statements on the Burrows\<close>

definition handleCachedParse :: "'s conn \<Rightarrow> bool \<times> 's conn" where
  "handleCachedParse c = (True, say [ParseComplete] c)"

text \<open>The Burrows that do not have the statement yet.\<close>

fun missing_targets :: "'s wire \<Rightarrow> string \<Rightarrow> string list \<Rightarrow> 's \<Rightarrow> (string + string list) \<times> 's" where
  "missing_targets wr name [] w = (Inr [], w)"
| "missing_targets wr name (target # targets) w = (case wr_Ensure wr target w of
       (Some e, w1) \<Rightarrow> (Inl e, w1)
     | (None, w1) \<Rightarrow>
         (case missing_targets wr name targets w1 of
            (Inl e, w2) \<Rightarrow> (Inl e, w2)
          | (Inr missing, w2) \<Rightarrow> (Inr (if wr_Prepared wr target name w1 then missing else target # missing), w2)))"

datatype parse_failure = ParseTransport string | ParseRefused ErrorResponse

text \<open>A statement that already exists on the connection (42P05) counts as prepared.\<close>

fun parse_missing :: "'s wire \<Rightarrow> parse_message \<Rightarrow> string list \<Rightarrow> 's \<Rightarrow> parse_failure option \<times> 's" where
  "parse_missing wr message [] w = (None, w)"
| "parse_missing wr message (target # targets) w =
     (case exchangeOne (wr_SendTo wr) (wr_receive wr isParseDone) target (FParse message) w of
        (Inl e, w1) \<Rightarrow> (Some (ParseTransport e), w1)
      | (Inr responses, w1) \<Rightarrow>
          (case firstError responses of
             Some response \<Rightarrow> if er_Code response = ''42P05'' then parse_missing wr message targets w1
               else (Some (ParseRefused response), w1)
           | None \<Rightarrow> parse_missing wr message targets w1))"

definition materializeStatement :: "'s wire \<Rightarrow> statementState \<Rightarrow> string list \<Rightarrow> 's conn \<Rightarrow> bool \<times> 's conn" where
  "materializeStatement wr statement targets c =
     (case in_world (missing_targets wr (ss_backendName statement) targets) c of
        (Inl e, c1) \<Rightarrow> (False, say (sendExtendedError ''08006'' e) c1)
      | (Inr [], c1) \<Rightarrow> (True, c1)
      | (Inr missing, c1) \<Rightarrow>
          (case ss_message statement of
             None \<Rightarrow> (False, c1\<lparr>cn_crashed := True\<rparr>)
           | Some message \<Rightarrow>
               (case in_world (parse_missing wr message missing) c1 of
                  (Some (ParseTransport e), c2) \<Rightarrow> (False, say (sendExtendedError ''08006'' e) c2)
                | (Some (ParseRefused response), c2) \<Rightarrow> (False, say [Error response] c2)
                | (None, c2) \<Rightarrow> (True, snd (in_world (\<lambda>w. ((), wr_MarkPrepared wr missing (ss_backendName statement) w)) c2)))))"

section \<open>Bind, Describe and Close outside a batch\<close>

definition relay :: "string + response list \<Rightarrow> string \<Rightarrow> 's conn \<Rightarrow> bool \<times> 's conn" where
  "relay result operation c = (case relayUniform result operation of (ms, ok) \<Rightarrow> (ok, say ms c))"

definition exchange_targets :: "'s wire \<Rightarrow> (backend_message \<Rightarrow> bool) \<Rightarrow> string list \<Rightarrow> frontend_message \<Rightarrow> 's conn
    \<Rightarrow> (string + response list) \<times> 's conn" where
  "exchange_targets wr final targets message c = in_world (exchange (wr_SendTo wr) (wr_receive wr final) targets message) c"

definition handleBind :: "'s wire \<Rightarrow> bind_message \<Rightarrow> string \<Rightarrow> bool \<Rightarrow> statementState \<Rightarrow> 's conn \<Rightarrow> bool \<times> 's conn" where
  "handleBind wr message target routed statement c =
     (let targets = (if routed then [target] else shards_of c) in
      case materializeStatement wr statement targets c of
        (False, c1) \<Rightarrow> (False, c1)
      | (True, c1) \<Rightarrow> (case exchange_targets wr isBindDone targets (FBind message) c1 of (result, c2) \<Rightarrow> relay result ''Bind'' c2))"

definition described_oids :: "response list \<Rightarrow> int list" where
  "described_oids responses = foldl (\<lambda>oids m. case m of ParameterDescription ps \<Rightarrow> if oids = [] then ps else oids | _ \<Rightarrow> oids) [] (concat responses)"

definition hide_generated :: "response \<Rightarrow> response" where
  "hide_generated r = map (\<lambda>m. case m of ParameterDescription ps \<Rightarrow> ParameterDescription (butlast ps) | _ \<Rightarrow> m) r"

definition handleDescribe :: "'s wire \<Rightarrow> char \<Rightarrow> string \<Rightarrow> bool \<Rightarrow> string \<Rightarrow> bool \<Rightarrow> 's conn \<Rightarrow> (bool \<times> int list) \<times> 's conn" where
  "handleDescribe wr objectType name generated target routed c =
     (let targets = (if routed then [target] else shards_of c) in
      case exchange_targets wr isDescribeDone targets (FDescribe objectType name) c of
        (result, c1) \<Rightarrow>
          (let oids = (case result of Inl _ \<Rightarrow> [] | Inr responses \<Rightarrow> described_oids responses);
               shown = (if generated then map_sum (\<lambda>e. e) (map hide_generated) result else result) in
           case relay shown ''Describe'' c1 of (ok, c2) \<Rightarrow> ((ok, oids), c2)))"

definition handleClose :: "'s wire \<Rightarrow> char \<Rightarrow> string \<Rightarrow> string \<Rightarrow> bool \<Rightarrow> 's conn \<Rightarrow> bool \<times> 's conn" where
  "handleClose wr objectType name target routed c =
     (case exchange_targets wr isCloseDone (if routed then [target] else shards_of c) (FClose objectType name) c of
        (result, c1) \<Rightarrow> relay result ''Close'' c1)"

section \<open>Sync\<close>

definition refresh_error :: "string \<Rightarrow> backend_message" where
  "refresh_error e = Error \<lparr>er_Severity = ''ERROR'', er_Code = ''55000'', er_Message = refresh_message e\<rparr>"

definition ready :: "'s conn \<Rightarrow> 's conn" where
  "ready c = say [ReadyForQuery (txStatus (session_of c))] c"

definition handleSync :: "'s environment \<Rightarrow> 's wire \<Rightarrow> 's conn \<Rightarrow> bool \<times> 's conn" where
  "handleSync env wr c =
     (let st = session_of c;
          due = (\<not> es_transaction st \<and> (es_schemaDirty st \<or> px_schemaRefreshPending (cn_px c))) in
      case (if due then on_px (refreshSchemaBarrier env (es_schemaDirty st)) c else (None, c)) of
        (Some e, c1) \<Rightarrow> (True, do_px (unlock env) (ready (say [refresh_error e] c1)))
      | (None, c1) \<Rightarrow>
          (let c2 = (if due then do_px (on_state (\<lambda>s. s\<lparr>es_schemaDirty := False\<rparr>)) c1 else c1);
               targets = wr_ConnectedNames wr (world c2) in
           if targets = [] then (True, ready c2)
           else (case exchange_targets wr isSyncDone targets FSync c2 of
               (Inl e, c3) \<Rightarrow> (False, say (sendExtendedError ''08006'' e) c3)
             | (Inr responses, c3) \<Rightarrow>
                 (case relaySync responses (txStatus (session_of c3)) of (ms, ok) \<Rightarrow>
                    (let c4 = say ms c3 in
                     if \<not> ok then (False, c4)
                     else (True, if \<not> es_transaction (session_of c4) then do_px (unlock env) c4 else c4))))))"

section \<open>The batch\<close>

definition failPendingExtended :: "bool \<Rightarrow> string \<Rightarrow> string \<Rightarrow> 's conn \<Rightarrow> bool \<times> 's conn" where
  "failPendingExtended emitReady code message c =
     (let c1 = (say (sendExtendedError code message) c)\<lparr>cn_failed := \<not> emitReady\<rparr> in
      (False, if emitReady then ready c1 else c1))"

text \<open>What the start of a batch has taken: the policy of the statement, the fleet-write gate, the transaction of an
  atomic schema change.\<close>

record started =
  sd_policy :: sessionStatePolicy
  sd_gate :: bool
  sd_atomic :: bool

definition rollback_atomic :: "'s environment \<Rightarrow> string list \<Rightarrow> 's conn \<Rightarrow> 's conn" where
  "rollback_atomic env targets c =
     do_px (\<lambda>px. snd (on_fleet (\<lambda>fl. ((), rollbackAtomicFleetDDL (exchange_one env) targets fl)) px)) c"

definition commit_atomic :: "'s environment \<Rightarrow> string list \<Rightarrow> 's conn \<Rightarrow> ErrorResponse option \<times> 's conn" where
  "commit_atomic env targets c = (case in_world (en_gid env) c of (gid, c1) \<Rightarrow>
     on_px (on_fleet (commitAtomicFleetDDL (exchange_one env) (shards_of c1) gid targets)) (do_px (beginSchemaCommit True) c1))"

definition fail_batch :: "'s environment \<Rightarrow> pendingExtended \<Rightarrow> started \<Rightarrow> bool \<Rightarrow> string \<Rightarrow> string \<Rightarrow> 's conn \<Rightarrow> bool \<times> 's conn" where
  "fail_batch env p sd emitReady code message c =
     (let c1 = (if sd_atomic sd then rollback_atomic env (pe_targets p) c else c);
          c2 = (if sd_gate sd \<and> \<not> es_transaction (session_of c1) then do_px (unlock env) c1 else c1) in
      failPendingExtended emitReady code message c2)"

text \<open>What an Execute adds before anything is sent; \<open>Inl\<close> is the answer of a batch that failed.\<close>

definition start_batch :: "'s environment \<Rightarrow> compiler \<Rightarrow> pendingExtended \<Rightarrow> bool \<Rightarrow> 's conn \<Rightarrow> ((bool \<times> 's conn) + (started \<times> 's conn))" where
  "start_batch env cc p emitReady c =
     (if pe_execute p = None then Inr (\<lparr>sd_policy = no_policy, sd_gate = False, sd_atomic = False\<rparr>, c)
      else
       let sql = ps_sql (pe_portal p); n = length (pe_targets p);
           policy = session_classifySessionState (cp_parse cc) sql (session_of c);
           c1 = do_px (on_state (beginSessionState policy)) c;
           idle = \<lparr>sd_policy = policy, sd_gate = False, sd_atomic = False\<rparr> in
       case session_validateAtomicFleetDDL (cp_parse cc) (sv_twoPhaseCommit (px_server (cn_px c1))) (es_temp (session_of c1)) sql n of
         Inl e \<Rightarrow> Inl (fail_batch env p idle emitReady ''0A000'' (fleet_error_text e) c1)
       | Inr temporaryDDL \<Rightarrow>
      (let ordered = (requiresFleetWriteOrder (cp_parse cc) sql n \<and> \<not> temporaryDDL);
           (locked, c2) = (if ordered then in_world (en_LockFleetWrites env) c1 else (True, c1)) in
       if \<not> locked then Inl (failPendingExtended emitReady ''57014'' ''frontend session ended while waiting to execute a write'' c2)
       else let atomic = (\<not> es_transaction (session_of c2) \<and> ordered) in
         case (if atomic then on_px (on_fleet (beginAtomicFleetDDL (exchange_one env) (pe_targets p))) c2 else (None, c2)) of
           (Some response, c3) \<Rightarrow> Inl (fail_batch env p (idle\<lparr>sd_gate := ordered\<rparr>) emitReady (er_Code response) (er_Message response) c3)
         | (None, c3) \<Rightarrow>
             (let st = session_of c3;
                  required = (\<not> atomic \<and> (ps_schema (pe_portal p) \<and> \<not> temporaryDDL \<and> \<not> es_transaction st
                    \<or> es_schemaDirty st \<and> es_transaction st \<and> isTransactionCommit sql)) in
              Inr (idle\<lparr>sd_gate := ordered, sd_atomic := atomic\<rparr>, do_px (beginSchemaCommit required) c3))))"

definition batch_frontend :: "pendingExtended \<Rightarrow> frontend_message list" where
  "batch_frontend p = [FBind (pe_bind p)] @ (case pe_describe p of None \<Rightarrow> [] | Some m \<Rightarrow> [m])
     @ (case pe_execute p of None \<Rightarrow> [] | Some m \<Rightarrow> [m]) @ [FSync]"

text \<open>The Burrows that were sent a Parse in front of the batch.\<close>

fun send_batches :: "'s wire \<Rightarrow> statementState \<Rightarrow> frontend_message list \<Rightarrow> string list \<Rightarrow> 's \<Rightarrow> (string + string list) \<times> 's" where
  "send_batches wr statement messages [] w = (Inr [], w)"
| "send_batches wr statement messages (target # targets) w = (case wr_Ensure wr target w of
       (Some e, w1) \<Rightarrow> (Inl e, w1)
     | (None, w1) \<Rightarrow>
         (let miss = (ss_backendName statement \<noteq> [] \<and> \<not> wr_Prepared wr target (ss_backendName statement) w1);
              first = (if miss then (case ss_message statement of None \<Rightarrow> [] | Some m \<Rightarrow> [FParse m]) else []) in
          case wr_SendBatchTo wr target (first @ messages) w1 of
            (Some e, w2) \<Rightarrow> (Inl e, w2)
          | (None, w2) \<Rightarrow>
              (case send_batches wr statement messages targets w2 of
                 (Inl e, w3) \<Rightarrow> (Inl e, w3)
               | (Inr misses, w3) \<Rightarrow> (Inr (if miss then target # misses else misses), w3))))"

record batch =
  bt_failed :: bool
  bt_description :: "FieldDescription list option"
  bt_parameters :: "int list option"
  bt_tags :: "string list"
  bt_bindComplete :: bool
  bt_noData :: bool
  bt_emptyQuery :: bool
  bt_portalSuspended :: bool
  bt_rowCount :: nat
  bt_missing :: "string list"

definition no_batch :: "string list \<Rightarrow> batch" where
  "no_batch misses = \<lparr>bt_failed = False, bt_description = None, bt_parameters = None, bt_tags = [], bt_bindComplete = False,
     bt_noData = False, bt_emptyQuery = False, bt_portalSuspended = False, bt_rowCount = 0, bt_missing = misses\<rparr>"

text \<open>\<^verbatim>\<open>reflect.DeepEqual\<close> of a list copied with \<^verbatim>\<open>append(nil, ...)\<close>, nil when it is empty, and a decoded one, never nil.\<close>

definition deep_equal_copy :: "int list \<Rightarrow> int list \<Rightarrow> bool" where
  "deep_equal_copy copied decoded = (copied \<noteq> [] \<and> copied = decoded)"

text \<open>One message of a Burrow's answer: the new accumulator and what is sent on, or an error that ends the batch.  The
  Parse acknowledgement of a Burrow is handled apart, since it updates the cache of prepared statements.\<close>

definition batch_message :: "bool \<Rightarrow> backend_message \<Rightarrow> batch \<Rightarrow> string + (batch \<times> response)" where
  "batch_message first m b = (if bt_failed b then Inr (b, [])
     else case m of
       BindComplete \<Rightarrow> Inr (if bt_bindComplete b then (b, []) else (b\<lparr>bt_bindComplete := True\<rparr>, [m]))
     | RowDescription fs \<Rightarrow> (case bt_description b of
           None \<Rightarrow> Inr (b\<lparr>bt_description := Some fs\<rparr>, [m])
         | Some d \<Rightarrow> if sameRowDescription d fs then Inr (b, [])
             else Inr (b\<lparr>bt_failed := True\<rparr>, sendExtendedError ''XX000'' ''incompatible row descriptions from Burrows''))
     | ParameterDescription ps \<Rightarrow> (case bt_parameters b of
           None \<Rightarrow> Inr (b\<lparr>bt_parameters := Some ps\<rparr>, [m])
         | Some d \<Rightarrow> if deep_equal_copy d ps then Inr (b, [])
             else Inr (b\<lparr>bt_failed := True\<rparr>, sendExtendedError ''XX000'' ''incompatible parameter descriptions from Burrows''))
     | NoData \<Rightarrow> Inr (if bt_noData b then (b, []) else (b\<lparr>bt_noData := True\<rparr>, [m]))
     | DataRow _ \<Rightarrow> Inr (b\<lparr>bt_rowCount := bt_rowCount b + 1\<rparr>, [m])
     | CommandComplete t \<Rightarrow> Inr (b\<lparr>bt_tags := bt_tags b @ [t]\<rparr>, [])
     | EmptyQueryResponse \<Rightarrow> Inr (if bt_emptyQuery b then (b, []) else (b\<lparr>bt_emptyQuery := True\<rparr>, [m]))
     | PortalSuspended \<Rightarrow> Inr (b\<lparr>bt_portalSuspended := True\<rparr>, [])
     | Error e \<Rightarrow> Inr (b\<lparr>bt_failed := True\<rparr>, [m])
     | ReadyForQuery _ \<Rightarrow> Inr (b, [])
     | ParameterStatus _ _ \<Rightarrow> Inr (b, if first then [m] else [])
     | NoticeResponse _ \<Rightarrow> Inr (b, [])
     | NotificationResponse _ _ _ \<Rightarrow> Inr (b, [])
     | other \<Rightarrow> Inl (''unexpected batched response '' @ message_type other))"

fun batch_messages :: "'s wire \<Rightarrow> string \<Rightarrow> bool \<Rightarrow> string \<Rightarrow> response \<Rightarrow> batch \<Rightarrow> 's conn \<Rightarrow> string option \<times> batch \<times> 's conn" where
  "batch_messages wr name first target [] b c = (None, b, c)"
| "batch_messages wr name first target (m # ms) b c =
     (if m = ParseComplete then
        (if target \<in> set (bt_missing b)
         then batch_messages wr name first target ms (b\<lparr>bt_missing := removeAll target (bt_missing b)\<rparr>)
           (snd (in_world (\<lambda>w. ((), wr_MarkPrepared wr [target] name w)) c))
         else batch_messages wr name first target ms b c)
      else (case batch_message first m b of
          Inl e \<Rightarrow> (Some e, b, c)
        | Inr (b', out) \<Rightarrow> batch_messages wr name first target ms b' (say out c)))"

fun receive_batches :: "'s wire \<Rightarrow> string \<Rightarrow> string \<Rightarrow> string list \<Rightarrow> batch \<Rightarrow> 's conn \<Rightarrow> string option \<times> batch \<times> 's conn" where
  "receive_batches wr name leader [] b c = (None, b, c)"
| "receive_batches wr name leader (target # targets) b c =
     (case in_world (wr_ReceiveEach wr isSyncDone target) c of ((ms, broken), c1) \<Rightarrow>
        (case batch_messages wr name (target = leader) target ms b c1 of
           (Some e, b1, c2) \<Rightarrow> (Some e, b1, c2)
         | (None, b1, c2) \<Rightarrow>
             (case broken of Some e \<Rightarrow> (Some e, b1, c2) | None \<Rightarrow> receive_batches wr name leader targets b1 c2)))"

text \<open>After all Burrows have answered: the end of an atomic schema change, the completion of the command, the
  session, the schema registry and the client's Sync.\<close>

definition complete_batch :: "'s environment \<Rightarrow> pendingExtended \<Rightarrow> batch \<Rightarrow> 's conn \<Rightarrow> 's conn" where
  "complete_batch env p b c =
     (let c1 = (if invalidatesPreparedStatements (ps_sql (pe_portal p))
                then snd (in_world (\<lambda>w. ((), en_InvalidatePrepared env (pe_targets p) w)) c) else c) in
      if bt_portalSuspended b then say [PortalSuspended] c1
      else if bt_tags b \<noteq> [] then say [CommandComplete (mergedCommandTag (bt_tags b) (bt_rowCount b))] c1 else c1)"

definition record_batch :: "compiler \<Rightarrow> pendingExtended \<Rightarrow> sessionStatePolicy \<Rightarrow> extendedState \<Rightarrow> extendedState" where
  "record_batch cc p policy s =
     (let sql = ps_sql (pe_portal p);
          temporaryDDL = referencesTemporaryDDL (cp_parse cc) (es_temp s) sql;
          s1 = (if temporaryDDL then s else recordWriteParticipants (cp_parse cc) sql (pe_targets p) s);
          s2 = (if ps_schema (pe_portal p) \<and> \<not> temporaryDDL then s1\<lparr>es_schemaDirty := True\<rparr> else s1);
          s3 = commitSessionState policy (applySuccessfulSQLState (cp_parse cc) sql s2) in
      if \<not> es_transaction s3 \<and> firstSQLKeyword sql \<in> set [''ROLLBACK'', ''ABORT''] then s3\<lparr>es_schemaDirty := False\<rparr> else s3)"

definition end_atomic :: "'s environment \<Rightarrow> pendingExtended \<Rightarrow> started \<Rightarrow> batch \<Rightarrow> 's conn \<Rightarrow> bool \<times> 's conn" where
  "end_atomic env p sd b c = (if \<not> sd_atomic sd then (bt_failed b, c)
     else if bt_failed b then (True, rollback_atomic env (pe_targets p) c)
     else (case commit_atomic env (pe_targets p) c of (Some response, c') \<Rightarrow> (True, say [Error response] c') | (None, c') \<Rightarrow> (False, c')))"

definition settle_batch :: "'s environment \<Rightarrow> compiler \<Rightarrow> pendingExtended \<Rightarrow> started \<Rightarrow> batch \<Rightarrow> bool \<Rightarrow> 's conn \<Rightarrow> 's conn" where
  "settle_batch env cc p sd b failed c = (if failed then c
     else let c1 = complete_batch env p b c in
       if pe_execute p \<noteq> None \<and> ps_sql (pe_portal p) \<noteq> [] then do_px (on_state (record_batch cc p (sd_policy sd))) c1 else c1)"

definition refresh_batch :: "'s environment \<Rightarrow> bool \<Rightarrow> 's conn \<Rightarrow> bool \<times> 's conn" where
  "refresh_batch env failed c = (if es_schemaDirty (session_of c) \<and> \<not> failed \<and> \<not> es_transaction (session_of c)
     then (case on_px (refresh_dirty env) c of (Some e, c') \<Rightarrow> (True, say [refresh_error e] c') | (None, c') \<Rightarrow> (False, c'))
     else (failed, c))"

definition close_batch :: "'s environment \<Rightarrow> bool \<Rightarrow> bool \<Rightarrow> 's conn \<Rightarrow> 's conn" where
  "close_batch env emitReady failed c =
     (let c1 = (if emitReady then ready c else c\<lparr>cn_syncConsumed := True\<rparr>);
          c2 = c1\<lparr>cn_failed := failed \<and> \<not> emitReady\<rparr> in
      if \<not> es_transaction (session_of c2) then do_px (unlock env) c2 else c2)"

definition finish_batch :: "'s environment \<Rightarrow> compiler \<Rightarrow> pendingExtended \<Rightarrow> started \<Rightarrow> bool \<Rightarrow> batch \<Rightarrow> 's conn \<Rightarrow> bool \<times> 's conn" where
  "finish_batch env cc p sd emitReady b c = (case end_atomic env p sd b c of (failed, c1) \<Rightarrow>
     (case refresh_batch env failed (settle_batch env cc p sd b failed c1) of (failed', c2) \<Rightarrow>
        (True, close_batch env emitReady failed' c2)))"

definition flushPendingExtended :: "'s environment \<Rightarrow> 's wire \<Rightarrow> compiler \<Rightarrow> bool \<Rightarrow> 's conn \<Rightarrow> bool \<times> 's conn" where
  "flushPendingExtended env wr cc emitReady c = (case cn_pending c of
       None \<Rightarrow> (True, c)
     | Some p \<Rightarrow>
         (case start_batch env cc p emitReady (c\<lparr>cn_pending := None\<rparr>) of
            Inl answer \<Rightarrow> answer
          | Inr (sd, c1) \<Rightarrow>
              (case in_world (send_batches wr (pe_statement p) (batch_frontend p) (pe_targets p)) c1 of
                 (Inl e, c2) \<Rightarrow> fail_batch env p sd emitReady ''08006'' e c2
               | (Inr misses, c2) \<Rightarrow>
                   (case receive_batches wr (ss_backendName (pe_statement p)) (hd (pe_targets p)) (pe_targets p) (no_batch misses) c2 of
                      (Some e, b, c3) \<Rightarrow> fail_batch env p sd emitReady ''08006'' e c3
                    | (None, b, c3) \<Rightarrow> finish_batch env cc p sd emitReady b c3))))"

section \<open>Execute outside a batch\<close>

record executed =
  xe_description :: "FieldDescription list option"
  xe_rows :: "bytes option list list"
  xe_tags :: "string list"
  xe_suspended :: bool

definition no_execution :: executed where
  "no_execution = \<lparr>xe_description = None, xe_rows = [], xe_tags = [], xe_suspended = False\<rparr>"

text \<open>One message of the response with the given index: an error's code and text, or the accumulator and what is sent
  on at once.\<close>

definition execute_message :: "nat \<Rightarrow> backend_message \<Rightarrow> executed \<Rightarrow> (string \<times> string) + (executed \<times> response)" where
  "execute_message responseIndex m x = (case m of
       RowDescription fs \<Rightarrow> (case xe_description x of None \<Rightarrow> Inr (x\<lparr>xe_description := Some fs\<rparr>, [])
         | Some d \<Rightarrow> if sameRowDescription d fs then Inr (x, []) else Inl (''XX000'', ''incompatible row descriptions from Burrows''))
     | DataRow vs \<Rightarrow> Inr (x\<lparr>xe_rows := xe_rows x @ [vs]\<rparr>, [])
     | CommandComplete t \<Rightarrow> Inr (x\<lparr>xe_tags := xe_tags x @ [t]\<rparr>, [])
     | PortalSuspended \<Rightarrow> Inr (x\<lparr>xe_suspended := True\<rparr>, [])
     | ParameterStatus _ _ \<Rightarrow> Inr (x, if responseIndex = 0 then [m] else [])
     | EmptyQueryResponse \<Rightarrow> Inr (x, [])
     | NoticeResponse _ \<Rightarrow> Inr (x, [])
     | NotificationResponse _ _ _ \<Rightarrow> Inr (x, [])
     | CopyInResponse \<Rightarrow> Inl (''0A000'', ''COPY is not supported by Hamstergres Proxy'')
     | CopyOutResponse \<Rightarrow> Inl (''0A000'', ''COPY is not supported by Hamstergres Proxy'')
     | CopyBothResponse \<Rightarrow> Inl (''0A000'', ''COPY is not supported by Hamstergres Proxy'')
     | other \<Rightarrow> Inl (''08P01'', ''unexpected Execute response '' @ message_type other))"

fun execute_messages :: "nat \<Rightarrow> response \<Rightarrow> executed \<Rightarrow> 's conn \<Rightarrow> ((string \<times> string) + executed) \<times> 's conn" where
  "execute_messages i [] x c = (Inr x, c)"
| "execute_messages i (m # ms) x c = (case execute_message i m x of
       Inl e \<Rightarrow> (Inl e, c) | Inr (x', out) \<Rightarrow> execute_messages i ms x' (say out c))"

fun execute_responses :: "nat \<Rightarrow> response list \<Rightarrow> executed \<Rightarrow> 's conn \<Rightarrow> ((string \<times> string) + executed) \<times> 's conn" where
  "execute_responses i [] x c = (Inr x, c)"
| "execute_responses i (r # rs) x c = (case execute_messages i r x c of
       (Inl e, c1) \<Rightarrow> (Inl e, c1) | (Inr x', c1) \<Rightarrow> execute_responses (i + 1) rs x' c1)"

definition execute_result :: "executed \<Rightarrow> response" where
  "execute_result x = (case xe_description x of None \<Rightarrow> [] | Some fs \<Rightarrow> [RowDescription fs]) @ map DataRow (xe_rows x)
     @ [if xe_suspended x then PortalSuspended
        else if xe_tags x \<noteq> [] then CommandComplete (mergedCommandTag (xe_tags x) (length (xe_rows x))) else EmptyQueryResponse]"

text \<open>COMMIT of a transaction that wrote on several Burrows.\<close>

definition execute_two_phase :: "'s environment \<Rightarrow> 's conn \<Rightarrow> bool \<times> 's conn" where
  "execute_two_phase env c =
     (let c1 = do_px (beginSchemaCommit (es_schemaDirty (session_of c))) c;
          (gid, c2) = in_world (en_gid env) c1 in
      case on_px (on_fleet (commitTwoPhase (exchange_one env) (shards_of c2) gid
             (participantNames (es_writeParticipants (session_of c2))))) c2 of
        (Some response, c3) \<Rightarrow> (False, say [Error response] c3)
      | (None, c3) \<Rightarrow>
          (let over = (\<lambda>s. s\<lparr>es_transaction := False, es_mutated := False, es_writeParticipants := {}\<rparr>) in
           case (if es_schemaDirty (session_of c3) then on_px (refresh_dirty env) c3 else (None, c3)) of
             (Some e, c4) \<Rightarrow> (False, do_px (unlock env) (do_px (on_state over) (say (sendExtendedError ''55000'' (refresh_message e)) c4)))
           | (None, c4) \<Rightarrow> (True, do_px (on_state (\<lambda>s. over (finishTemporaryTransaction True False s)))
                 (say [CommandComplete ''COMMIT''] c4))))"

definition record_execution :: "compiler \<Rightarrow> portalState \<Rightarrow> bool \<Rightarrow> sessionStatePolicy \<Rightarrow> string list \<Rightarrow> extendedState \<Rightarrow> extendedState" where
  "record_execution cc portal temporaryDDL policy targets s =
     (let s1 = commitSessionState policy (if ps_schema portal \<and> \<not> temporaryDDL then s\<lparr>es_schemaDirty := True\<rparr> else s);
          s2 = (if temporaryDDL then s1 else recordWriteParticipants (cp_parse cc) (ps_sql portal) targets s1);
          s3 = applySuccessfulSQLState (cp_parse cc) (ps_sql portal) s2 in
      if \<not> es_transaction s3 \<and> firstSQLKeyword (ps_sql portal) \<in> set [''ROLLBACK'', ''ABORT''] then s3\<lparr>es_schemaDirty := False\<rparr> else s3)"

definition merge_execution :: "'s environment \<Rightarrow> compiler \<Rightarrow> portalState \<Rightarrow> bool \<Rightarrow> sessionStatePolicy \<Rightarrow> string list \<Rightarrow> response list
    \<Rightarrow> 's conn \<Rightarrow> bool \<times> 's conn" where
  "merge_execution env cc portal temporaryDDL policy targets responses c =
     (case execute_responses 0 responses no_execution c of
        (Inl (code, message), c1) \<Rightarrow> (False, say (sendExtendedError code message) c1)
      | (Inr x, c1) \<Rightarrow>
          (let c2 = say (execute_result x) c1;
               c3 = (if invalidatesPreparedStatements (ps_sql portal)
                     then snd (in_world (\<lambda>w. ((), en_InvalidatePrepared env targets w)) c2) else c2) in
           (True, do_px (on_state (record_execution cc portal temporaryDDL policy targets)) c3)))"

text \<open>The exchange with the Burrows and its failures.\<close>

definition run_execution :: "'s environment \<Rightarrow> 's wire \<Rightarrow> compiler \<Rightarrow> frontend_message \<Rightarrow> portalState \<Rightarrow> bool \<Rightarrow> bool \<Rightarrow> sessionStatePolicy
    \<Rightarrow> string list \<Rightarrow> 's conn \<Rightarrow> bool \<times> 's conn" where
  "run_execution env wr cc message portal temporaryDDL atomicDDL policy targets c =
     (let st = session_of c;
          c1 = do_px (beginSchemaCommit (\<not> atomicDDL \<and> (ps_schema portal \<and> \<not> temporaryDDL \<and> \<not> es_transaction st
            \<or> es_schemaDirty st \<and> es_transaction st \<and> isTransactionCommit (ps_sql portal)))) c;
          undo = (\<lambda>q. if atomicDDL then do_px (unlock env) (rollback_atomic env targets q) else q) in
      case exchange_targets wr isExecuteDone targets message c1 of
        (Inl e, c2) \<Rightarrow> (False, say (sendExtendedError ''08006'' e) (undo c2))
      | (Inr responses, c2) \<Rightarrow>
          (case firstError responses of
             Some response \<Rightarrow> (False, say [Error response] (undo c2))
           | None \<Rightarrow>
               (case (if atomicDDL then commit_atomic env targets c2 else (None, c2)) of
                  (Some response, c3) \<Rightarrow> (False, do_px (unlock env) (say [Error response] c3))
                | (None, c3) \<Rightarrow> merge_execution env cc portal temporaryDDL policy targets responses c3)))"

definition handleExecute :: "'s environment \<Rightarrow> 's wire \<Rightarrow> compiler \<Rightarrow> frontend_message \<Rightarrow> portalState \<Rightarrow> 's conn \<Rightarrow> bool \<times> 's conn" where
  "handleExecute env wr cc message portal c =
     (let sql = ps_sql portal;
          policy = session_classifySessionState (cp_parse cc) sql (session_of c);
          c1 = do_px (on_state (beginSessionState policy)) c;
          st = session_of c1; sv = px_server (cn_px c1) in
      if es_transaction st \<and> es_mutated st \<and> card (es_writeParticipants st) > 1 \<and> sv_twoPhaseCommit sv
         \<and> firstSQLKeyword sql \<in> set [''COMMIT'', ''END'']
      then execute_two_phase env c1
      else if ps_keyedWrite portal \<and> \<not> ps_routed portal
      then (False, say (sendExtendedError ''0A000'' ''write to a sharded table must include its annotated shard key'') c1)
      else
       let targets = (if ps_routed portal \<and> \<not> isTransactionControl sql then [ps_target portal] else sv_shardNames sv) in
       case session_validateAtomicFleetDDL (cp_parse cc) (sv_twoPhaseCommit sv) (es_temp st) sql (length targets) of
         Inl e \<Rightarrow> (False, say (sendExtendedError ''0A000'' (fleet_error_text e)) c1)
       | Inr temporaryDDL \<Rightarrow>
           (let ordered = (requiresFleetWriteOrder (cp_parse cc) sql (length targets) \<and> \<not> temporaryDDL);
                atomicDDL = (\<not> es_transaction st \<and> ordered);
                (locked, c2) = (if ordered then in_world (en_LockFleetWrites env) c1 else (True, c1)) in
            if \<not> locked then (False, say (sendExtendedError ''57014'' ''frontend session ended while waiting to execute a write'') c2)
            else (case (if atomicDDL then on_px (on_fleet (beginAtomicFleetDDL (exchange_one env) targets)) c2 else (None, c2)) of
                (Some response, c3) \<Rightarrow> (False, do_px (unlock env) (say [Error response] c3))
              | (None, c3) \<Rightarrow> run_execution env wr cc message portal temporaryDDL atomicDDL policy targets c3)))"

section \<open>What the handlers send\<close>

abbreviation sent :: "'s conn \<Rightarrow> response" where
  "sent c \<equiv> px_sent (cn_px c)"

lemma say_sent [simp]: "sent (say ms c) = sent c @ ms"
  by (simp add: say_def do_px_def send_client_def)

lemma do_px_sent [simp]:
  "sent (do_px (unlock env) c) = sent c" "sent (do_px (on_state f) c) = sent c" "sent (do_px (beginSchemaCommit b) c) = sent c"
  by (simp_all add: do_px_def)

lemma ready_sent [simp]: "sent (ready c) = sent c @ [ReadyForQuery (txStatus (session_of c))]"
  by (simp add: ready_def)

named_theorems conn_quiet

lemma in_world_sent [conn_quiet]: "in_world f c = (a, c') \<Longrightarrow> sent c' = sent c"
  by (auto simp: on_px_def dest: on_world_sent split: prod.splits)

lemma in_world_snd_sent [simp]: "sent (snd (in_world f c)) = sent c"
  using in_world_sent [of f c] by (cases "in_world f c") simp

lemma on_fleet_conn_sent [conn_quiet]: "on_px (on_fleet f) c = (a, c') \<Longrightarrow> sent c' = sent c"
  by (auto simp: on_px_def dest: on_fleet_sent split: prod.splits)

lemma refresh_conn_sent [conn_quiet]:
  "on_px (refresh_dirty env) c = (a, c') \<Longrightarrow> sent c' = sent c"
  by (auto simp: on_px_def dest: refresh_dirty_sent split: prod.splits)

lemma barrier_conn_sent [conn_quiet]:
  "on_px (refreshSchemaBarrier env b) c = (a, c') \<Longrightarrow> sent c' = sent c"
  by (auto simp: on_px_def refreshSchemaBarrier_def dest: refreshSchemaAfterDDL_sent refreshSchemaIfPending_sent split: prod.splits if_splits)

lemma rollback_atomic_sent [simp]: "sent (rollback_atomic env targets c) = sent c"
  by (simp add: rollback_atomic_def do_px_def)

lemma commit_atomic_sent [conn_quiet]: "commit_atomic env targets c = (a, c') \<Longrightarrow> sent c' = sent c"
  by (auto simp: commit_atomic_def dest!: conn_quiet split: prod.splits)

lemma exchange_targets_sent [conn_quiet]: "exchange_targets wr final targets m c = (a, c') \<Longrightarrow> sent c' = sent c"
  unfolding exchange_targets_def by (rule in_world_sent)

lemma complete_batch_sent:
  "\<exists>out. sent (complete_batch env p b c) = sent c @ out
     \<and> out = (if bt_portalSuspended b then [PortalSuspended]
         else if bt_tags b \<noteq> [] then [CommandComplete (mergedCommandTag (bt_tags b) (bt_rowCount b))] else [])"
  by (simp add: complete_batch_def Let_def)

definition is_ready :: "backend_message \<Rightarrow> bool" where
  "is_ready m = (case m of ReadyForQuery _ \<Rightarrow> True | _ \<Rightarrow> False)"

definition is_error :: "backend_message \<Rightarrow> bool" where
  "is_error m = (case m of Error _ \<Rightarrow> True | _ \<Rightarrow> False)"

definition is_row :: "backend_message \<Rightarrow> bool" where
  "is_row m = (case m of DataRow _ \<Rightarrow> True | _ \<Rightarrow> False)"

definition tags_of :: "response \<Rightarrow> string list" where
  "tags_of r = concat (map (\<lambda>m. case m of CommandComplete t \<Rightarrow> [t] | _ \<Rightarrow> []) r)"

lemmas kind_defs = is_ready_def is_error_def is_row_def

lemma tags_of_append [simp]: "tags_of (r @ r') = tags_of r @ tags_of r'"
  by (simp add: tags_of_def)

text \<open>The answer to a batch: no ReadyForQuery but the last message of a batch that ends with the client's Sync.\<close>

definition batch_answer :: "bool \<Rightarrow> 's conn \<Rightarrow> 's conn \<Rightarrow> response \<Rightarrow> bool" where
  "batch_answer emitReady c c' ms = (list_all (\<lambda>m. \<not> is_ready m) ms
     \<and> (\<exists>status. sent c' = sent c @ ms @ (if emitReady then [ReadyForQuery status] else [])))"

lemma failPending_answer:
  assumes "sent c1 = sent c @ ms" and "list_all (\<lambda>m. \<not> is_ready m) ms"
  shows "\<exists>ms'. batch_answer emitReady c (snd (failPendingExtended emitReady code message c1)) ms' \<and> list_ex is_error ms'"
proof -
  let ?e = "Error \<lparr>er_Severity = ''ERROR'', er_Code = code, er_Message = message\<rparr>"
  have "batch_answer emitReady c (snd (failPendingExtended emitReady code message c1)) (ms @ [?e])"
    using assms by (simp add: batch_answer_def failPendingExtended_def sendExtendedError_def kind_defs Let_def ready_def)
  then show ?thesis by (intro exI [of _ "ms @ [?e]"]) (simp add: kind_defs)
qed

lemma fail_batch_answer:
  assumes "sent c1 = sent c @ ms" and "list_all (\<lambda>m. \<not> is_ready m) ms"
  shows "\<exists>ms'. batch_answer emitReady c (snd (fail_batch env p sd emitReady code message c1)) ms' \<and> list_ex is_error ms'"
  unfolding fail_batch_def Let_def using assms by (intro failPending_answer) simp_all

lemma fail_batch_at:
  "fail_batch env p sd emitReady code message c1 = (a, b) \<Longrightarrow> sent c1 = sent c
    \<Longrightarrow> \<exists>ms. batch_answer emitReady c b ms \<and> list_ex is_error ms"
  by (metis fail_batch_answer [where ms = "[]"] append_Nil2 list.pred_inject(1) snd_conv)

lemma failPending_at:
  "failPendingExtended emitReady code message c1 = (a, b) \<Longrightarrow> sent c1 = sent c
    \<Longrightarrow> \<exists>ms. batch_answer emitReady c b ms \<and> list_ex is_error ms"
  by (metis failPending_answer [where ms = "[]"] append_Nil2 list.pred_inject(1) snd_conv)

lemma start_batch_answer:
  assumes "start_batch env cc p emitReady c = r"
  shows "case r of Inl answer \<Rightarrow> (\<exists>ms. batch_answer emitReady c (snd answer) ms \<and> list_ex is_error ms) | Inr (sd, c1) \<Rightarrow> sent c1 = sent c"
  using assms
  by (auto simp: start_batch_def Let_def dest!: conn_quiet split: sum.splits option.splits prod.splits if_splits)
    (erule fail_batch_at failPending_at, simp)+

text \<open>What the messages of a Burrow add to the batch and to the client, as long as the batch does not fail.\<close>

definition relayed :: "batch \<Rightarrow> batch \<Rightarrow> response \<Rightarrow> response \<Rightarrow> bool" where
  "relayed b b' ms out = (if bt_failed b' then bt_failed b \<or> list_ex is_error out
     else \<not> bt_failed b \<and> list_all (\<lambda>m. \<not> is_error m) out \<and> filter is_row out = filter is_row ms
       \<and> bt_tags b' = bt_tags b @ tags_of ms \<and> bt_rowCount b' = bt_rowCount b + length (filter is_row ms)
       \<and> tags_of out = [] \<and> (bt_portalSuspended b' \<longleftrightarrow> bt_portalSuspended b \<or> PortalSuspended \<in> set ms))"

lemma batch_message_relayed:
  assumes "batch_message first m b = Inr (b', out)"
  shows "relayed b b' [m] out \<and> list_all (\<lambda>m. \<not> is_ready m) out"
proof (cases "bt_failed b")
  case True
  with assms show ?thesis by (simp add: batch_message_def relayed_def)
next
  case False
  show ?thesis
    by (use assms False in \<open>cases m\<close>)
      (auto simp: batch_message_def relayed_def kind_defs tags_of_def sendExtendedError_def split: if_splits option.splits)
qed

lemma relayed_trans:
  assumes "relayed b b1 ms out" and "relayed b1 b2 ms' out'"
  shows "relayed b b2 (ms @ ms') (out @ out')"
  using assms by (auto simp: relayed_def split: if_splits)

lemma relayed_refl: "relayed b b [] []"
  by (simp add: relayed_def tags_of_def)

lemma relayed_parse: "relayed (b\<lparr>bt_missing := x\<rparr>) b' ms out \<Longrightarrow> relayed b b' (ParseComplete # ms) out"
  "relayed b b' ms out \<Longrightarrow> relayed b b' (ParseComplete # ms) out"
proof -
  have "tags_of (ParseComplete # ms) = tags_of ms" "\<not> is_row ParseComplete" by (simp_all add: tags_of_def is_row_def)
  then show "relayed (b\<lparr>bt_missing := x\<rparr>) b' ms out \<Longrightarrow> relayed b b' (ParseComplete # ms) out"
    "relayed b b' ms out \<Longrightarrow> relayed b b' (ParseComplete # ms) out"
    by (cases "bt_failed b'"; simp add: relayed_def)+
qed

lemma batch_messages_relayed:
  assumes "batch_messages wr name first target ms b c = (e, b', c')"
  shows "\<exists>out. sent c' = sent c @ out \<and> list_all (\<lambda>m. \<not> is_ready m) out \<and> (e = None \<longrightarrow> relayed b b' ms out)"
  using assms
proof (induction wr name first target ms b c arbitrary: e b' c' rule: batch_messages.induct)
  case (1 wr name first target b c)
  then show ?case by (auto intro: relayed_refl)
next
  case (2 wr name first target m ms b c)
  show ?case
  proof (cases "m = ParseComplete")
    case True
    show ?thesis
    proof (cases "target \<in> set (bt_missing b)")
      case hit: True
      have "batch_messages wr name first target ms (b\<lparr>bt_missing := removeAll target (bt_missing b)\<rparr>)
          (snd (in_world (\<lambda>w. ((), wr_MarkPrepared wr [target] name w)) c)) = (e, b', c')"
        using 2(4) True hit by simp
      from 2(1) [OF True hit this] True show ?thesis by (auto intro: relayed_parse(1))
    next
      case miss: False
      have "batch_messages wr name first target ms b c = (e, b', c')" using 2(4) True miss by simp
      from 2(2) [OF True miss this] True show ?thesis by (auto intro: relayed_parse(2))
    qed
  next
    case False
    show ?thesis
    proof (cases "batch_message first m b")
      case (Inl x)
      with 2(4) False show ?thesis by auto
    next
      case (Inr r)
      obtain b1 out where r: "r = (b1, out)" by (cases r)
      note step = batch_message_relayed [OF Inr [unfolded r]]
      have "batch_messages wr name first target ms b1 (say out c) = (e, b', c')"
        using 2(4) False Inr r by simp
      from 2(3) [OF False Inr r [symmetric] this] obtain out' where out': "sent c' = sent (say out c) @ out'"
        "list_all (\<lambda>m. \<not> is_ready m) out'" "e = None \<longrightarrow> relayed b1 b' ms out'" by blast
      have "e = None \<longrightarrow> relayed b b' (m # ms) (out @ out')"
        using out'(3) step relayed_trans [of b b1 "[m]" out b' ms out'] by simp
      with step out'(1,2) show ?thesis by (intro exI [of _ "out @ out'"]) simp
    qed
  qed
qed

text \<open>\<open>answers wr reply\<close>: every Burrow answers the batch with the messages \<open>reply\<close> gives for it.\<close>

definition answers :: "'s wire \<Rightarrow> (string \<Rightarrow> response) \<Rightarrow> bool" where
  "answers wr reply = (\<forall>t w. fst (wr_ReceiveEach wr isSyncDone t w) = (reply t, None))"

lemma receive_batches_relayed:
  assumes "receive_batches wr name leader targets b c = (e, b', c')"
  shows "\<exists>out. sent c' = sent c @ out \<and> list_all (\<lambda>m. \<not> is_ready m) out
    \<and> (answers wr reply \<longrightarrow> e = None \<longrightarrow> relayed b b' (concat (map reply targets)) out)"
  using assms
proof (induction targets arbitrary: b c)
  case Nil
  then show ?case by (auto intro: relayed_refl)
next
  case (Cons target targets)
  obtain ms broken c1 where rc: "in_world (wr_ReceiveEach wr isSyncDone target) c = ((ms, broken), c1)" by (metis prod.exhaust)
  have s1: "sent c1 = sent c" using in_world_sent [OF rc] .
  have ms: "ms = reply target \<and> broken = None" if "answers wr reply"
    using rc that by (auto simp: on_px_def on_world_def answers_def split: prod.splits) (metis fst_conv prod.inject)+
  obtain e1 b1 c2 where bm: "batch_messages wr name (target = leader) target ms b c1 = (e1, b1, c2)" by (metis prod.exhaust)
  from batch_messages_relayed [OF bm] obtain out where out: "sent c2 = sent c1 @ out" "list_all (\<lambda>m. \<not> is_ready m) out"
    "e1 = None \<longrightarrow> relayed b b1 ms out" by blast
  show ?case
  proof (cases "e1 = None \<and> broken = None")
    case True
    then have "receive_batches wr name leader targets b1 c2 = (e, b', c')" using Cons.prems rc bm by simp
    from Cons.IH [OF this] obtain out' where out': "sent c' = sent c2 @ out'" "list_all (\<lambda>m. \<not> is_ready m) out'"
      "answers wr reply \<longrightarrow> e = None \<longrightarrow> relayed b1 b' (concat (map reply targets)) out'" by blast
    have "answers wr reply \<longrightarrow> e = None \<longrightarrow> relayed b b' (concat (map reply (target # targets))) (out @ out')"
      using out(3) out'(3) True ms relayed_trans [of b b1 ms out b' "concat (map reply targets)" out'] by auto
    with out out' s1 show ?thesis by (intro exI [of _ "out @ out'"]) simp
  next
    case False
    with Cons.prems rc bm have "c' = c2" "e \<noteq> None" by (auto split: option.splits)
    with out s1 show ?thesis by auto
  qed
qed

definition completion :: "string list \<Rightarrow> nat \<Rightarrow> bool \<Rightarrow> response" where
  "completion tags rows suspended = (if suspended then [PortalSuspended]
     else if tags \<noteq> [] then [CommandComplete (mergedCommandTag tags rows)] else [])"

lemma complete_batch_completion [simp]:
  "sent (complete_batch env p b c) = sent c @ completion (bt_tags b) (bt_rowCount b) (bt_portalSuspended b)"
  using complete_batch_sent [of env p b c] by (simp add: completion_def)

lemma completion_kinds:
  "list_all (\<lambda>m. \<not> is_ready m) (completion tags rows suspended)" "list_all (\<lambda>m. \<not> is_error m) (completion tags rows suspended)"
  "filter is_row (completion tags rows suspended) = []"
  by (simp_all add: completion_def kind_defs)

lemma end_atomic_sent:
  assumes "end_atomic env p sd b c = (failed, c1)"
  shows "\<exists>ms. sent c1 = sent c @ ms \<and> list_all (\<lambda>m. \<not> is_ready m) ms
    \<and> (if failed then bt_failed b \<or> list_ex is_error ms else \<not> bt_failed b \<and> ms = [])"
proof (cases "\<not> sd_atomic sd \<or> bt_failed b")
  case True
  with assms show ?thesis by (intro exI [of _ "[]"]) (auto simp: end_atomic_def split: if_splits)
next
  case False
  obtain response c' where r: "commit_atomic env (pe_targets p) c = (response, c')" by fastforce
  show ?thesis
    by (rule exI [of _ "case response of None \<Rightarrow> [] | Some e \<Rightarrow> [Error e]"])
      (use commit_atomic_sent [OF r] assms False r in \<open>auto simp: end_atomic_def kind_defs split: option.splits\<close>)
qed

lemma settle_batch_sent:
  "sent (settle_batch env cc p sd b failed c)
    = sent c @ (if failed then [] else completion (bt_tags b) (bt_rowCount b) (bt_portalSuspended b))"
  by (simp add: settle_batch_def Let_def)

lemma refresh_batch_sent:
  assumes "refresh_batch env failed c = (failed', c')"
  shows "\<exists>ms. sent c' = sent c @ ms \<and> list_all (\<lambda>m. \<not> is_ready m) ms \<and> (ms = [] \<or> list_ex is_error ms)"
proof -
  obtain response q where r: "on_px (refresh_dirty env) c = (response, q)" by fastforce
  show ?thesis
  proof (cases "es_schemaDirty (session_of c) \<and> \<not> failed \<and> \<not> es_transaction (session_of c)")
    case True
    show ?thesis
      by (rule exI [of _ "case response of None \<Rightarrow> [] | Some e \<Rightarrow> [refresh_error e]"])
        (use refresh_conn_sent [OF r] assms r True in \<open>auto simp: refresh_batch_def refresh_error_def kind_defs split: option.splits\<close>)
  next
    case False
    with assms show ?thesis by (intro exI [of _ "[]"]) (auto simp: refresh_batch_def)
  qed
qed

lemma close_batch_sent:
  "\<exists>status. sent (close_batch env emitReady failed c) = sent c @ (if emitReady then [ReadyForQuery status] else [])"
  by (simp add: close_batch_def Let_def)

lemma finish_batch_answer:
  "\<exists>ms. batch_answer emitReady c (snd (finish_batch env cc p sd emitReady b c)) ms
    \<and> (bt_failed b \<or> list_ex is_error ms \<or> ms = completion (bt_tags b) (bt_rowCount b) (bt_portalSuspended b))"
proof -
  let ?fin = "completion (bt_tags b) (bt_rowCount b) (bt_portalSuspended b)"
  obtain failed c1 where r1: "end_atomic env p sd b c = (failed, c1)" by fastforce
  let ?c3 = "settle_batch env cc p sd b failed c1"
  obtain failed' c4 where r4: "refresh_batch env failed ?c3 = (failed', c4)" by fastforce
  obtain ms1 where ms1: "sent c1 = sent c @ ms1" "list_all (\<lambda>m. \<not> is_ready m) ms1"
    "if failed then bt_failed b \<or> list_ex is_error ms1 else \<not> bt_failed b \<and> ms1 = []" using end_atomic_sent [OF r1] by blast
  obtain ms4 where ms4: "sent c4 = sent ?c3 @ ms4" "list_all (\<lambda>m. \<not> is_ready m) ms4" "ms4 = [] \<or> list_ex is_error ms4"
    using refresh_batch_sent [OF r4] by blast
  let ?ms = "ms1 @ (if failed then [] else ?fin) @ ms4"
  have r: "snd (finish_batch env cc p sd emitReady b c) = close_batch env emitReady failed' c4"
    by (simp add: finish_batch_def r1 r4)
  obtain status where "sent (close_batch env emitReady failed' c4) = sent c4 @ (if emitReady then [ReadyForQuery status] else [])"
    using close_batch_sent by blast
  then have "batch_answer emitReady c (snd (finish_batch env cc p sd emitReady b c)) ?ms"
    using ms1(1,2) ms4(1,2) completion_kinds(1) by (auto simp: batch_answer_def r settle_batch_sent)
  moreover have "bt_failed b \<or> list_ex is_error ?ms \<or> ?ms = ?fin" using ms1(3) ms4(3) by (auto split: if_splits)
  ultimately show ?thesis by blast
qed

lemma batch_answer_prepend:
  assumes "sent c1 = sent c @ out" and "list_all (\<lambda>m. \<not> is_ready m) out" and "batch_answer emitReady c1 c' ms"
  shows "batch_answer emitReady c c' (out @ ms)"
  using assms by (auto simp: batch_answer_def)

text \<open>A reply to the whole batch is complete when every Burrow's rows reached the client in the order of the Burrows and
  their completion tags were merged into one.\<close>

definition delivered :: "response \<Rightarrow> response \<Rightarrow> bool" where
  "delivered replies ms = (filter is_row ms = filter is_row replies
     \<and> tags_of ms = (if PortalSuspended \<in> set replies \<or> tags_of replies = [] then []
         else [mergedCommandTag (tags_of replies) (length (filter is_row replies))]))"

lemma tags_of_completion: "tags_of (completion tags rows suspended) = (if suspended \<or> tags = [] then [] else [mergedCommandTag tags rows])"
  by (simp add: completion_def tags_of_def)

lemma relayed_delivered:
  assumes "relayed (no_batch misses) b replies out" and "\<not> bt_failed b"
  shows "delivered replies (out @ completion (bt_tags b) (bt_rowCount b) (bt_portalSuspended b))"
  using assms by (simp add: relayed_def no_batch_def delivered_def completion_kinds tags_of_completion)

lemma receive_finish_answer:
  assumes "receive_batches wr name leader targets (no_batch misses) c = (e, b, c1)"
  shows "\<exists>ms. batch_answer emitReady c (snd (case e of Some x \<Rightarrow> fail_batch env p sd emitReady ''08006'' x c1
        | None \<Rightarrow> finish_batch env cc p sd emitReady b c1)) ms
      \<and> (answers wr reply \<longrightarrow> list_ex is_error ms \<or> delivered (concat (map reply targets)) ms)"
proof -
  let ?replies = "concat (map reply targets)"
  from receive_batches_relayed [OF assms, of reply] obtain out where out: "sent c1 = sent c @ out"
    "list_all (\<lambda>m. \<not> is_ready m) out" "answers wr reply \<longrightarrow> e = None \<longrightarrow> relayed (no_batch misses) b ?replies out" by blast
  show ?thesis
  proof (cases e)
    case None
    obtain ms where ms: "batch_answer emitReady c1 (snd (finish_batch env cc p sd emitReady b c1)) ms"
      "bt_failed b \<or> list_ex is_error ms \<or> ms = completion (bt_tags b) (bt_rowCount b) (bt_portalSuspended b)"
      using finish_batch_answer by blast
    have "list_ex is_error (out @ ms) \<or> delivered ?replies (out @ ms)" if "answers wr reply"
    proof -
      have rel: "relayed (no_batch misses) b ?replies out" using out(3) that None by simp
      show ?thesis
      proof (cases "bt_failed b \<or> list_ex is_error ms")
        case True
        with rel show ?thesis by (auto simp: relayed_def no_batch_def)
      next
        case False
        with rel ms(2) show ?thesis
          using relayed_delivered [OF rel] by simp
      qed
    qed
    with None batch_answer_prepend [OF out(1,2) ms(1)] show ?thesis by (intro exI [of _ "out @ ms"]) auto
  next
    case (Some x)
    obtain ms where ms: "batch_answer emitReady c1 (snd (fail_batch env p sd emitReady ''08006'' x c1)) ms" "list_ex is_error ms"
      using fail_batch_answer [of c1 c1 "[]" emitReady env p sd "''08006''" x] by auto
    with Some batch_answer_prepend [OF out(1,2) ms(1)] show ?thesis by (intro exI [of _ "out @ ms"]) auto
  qed
qed

lemma flush_answer:
  assumes "cn_pending c = Some p"
  shows "\<exists>ms. batch_answer emitReady c (snd (flushPendingExtended env wr cc emitReady c)) ms
    \<and> (answers wr reply \<longrightarrow> list_ex is_error ms \<or> delivered (concat (map reply (pe_targets p))) ms)"
proof -
  let ?c0 = "c\<lparr>cn_pending := None\<rparr>"
  have same: "batch_answer emitReady c c' ms \<longleftrightarrow> batch_answer emitReady ?c0 c' ms" for c' ms by (simp add: batch_answer_def)
  show ?thesis
  proof (cases "start_batch env cc p emitReady ?c0")
    case (Inl answer)
    with start_batch_answer [OF Inl] assms show ?thesis by (auto simp: flushPendingExtended_def same)
  next
    case (Inr r)
    obtain sd c1 where r: "r = (sd, c1)" by (cases r)
    have s1: "sent c1 = sent ?c0" using start_batch_answer [OF Inr] r by simp
    obtain res c2 where send: "in_world (send_batches wr (pe_statement p) (batch_frontend p) (pe_targets p)) c1 = (res, c2)" by fastforce
    have s2: "sent c2 = sent ?c0" using in_world_sent [OF send] s1 by simp
    show ?thesis
    proof (cases res)
      case (Inl e)
      obtain ms where "batch_answer emitReady ?c0 (snd (fail_batch env p sd emitReady ''08006'' e c2)) ms" "list_ex is_error ms"
        using fail_batch_answer [of c2 ?c0 "[]" emitReady env p sd "''08006''" e] s2 by auto
      with Inl assms Inr r send show ?thesis by (auto simp: flushPendingExtended_def same)
    next
      case (Inr misses)
      obtain e b c3 where rcv: "receive_batches wr (ss_backendName (pe_statement p)) (hd (pe_targets p)) (pe_targets p) (no_batch misses) c2
          = (e, b, c3)" by (metis prod.exhaust)
      obtain ms where ms: "batch_answer emitReady c2 (snd (case e of Some x \<Rightarrow> fail_batch env p sd emitReady ''08006'' x c3
            | None \<Rightarrow> finish_batch env cc p sd emitReady b c3)) ms"
        "answers wr reply \<longrightarrow> list_ex is_error ms \<or> delivered (concat (map reply (pe_targets p))) ms"
        using receive_finish_answer [OF rcv, where emitReady = emitReady and env = env and p = p and sd = sd and cc = cc and reply = reply] by blast
      have "snd (flushPendingExtended env wr cc emitReady c) = snd (case e of Some x \<Rightarrow> fail_batch env p sd emitReady ''08006'' x c3
            | None \<Rightarrow> finish_batch env cc p sd emitReady b c3)"
        using assms \<open>start_batch env cc p emitReady ?c0 = Inr r\<close> r send Inr rcv
        by (auto simp: flushPendingExtended_def split: option.split)
      moreover have "batch_answer emitReady c2 x ms = batch_answer emitReady c x ms" for x
        using s2 by (simp add: batch_answer_def)
      ultimately show ?thesis using ms by auto
    qed
  qed
qed

text \<open>C31. A batch of Bind, Describe and Execute is answered completely: the client gets one ReadyForQuery, as the last
  message, exactly when the batch was ended by its Sync.  And when the Burrows answer and no error is reported, it gets
  every row of every Burrow in the order of the Burrows, with the completion tags merged into one.\<close>

theorem batch_delivers_rows:
  assumes "cn_pending c = Some p" and "answers wr reply"
  shows "\<exists>ms. batch_answer emitReady c (snd (flushPendingExtended env wr cc emitReady c)) ms
    \<and> (list_ex is_error ms \<or> delivered (concat (map reply (pe_targets p))) ms)"
  using flush_answer [OF assms(1)] assms(2) by blast

text \<open>Two Burrows, each of which answers the batch with one row.\<close>

definition sample_environment :: "unit environment" where
  "sample_environment = \<lparr>en_send = (\<lambda>b m w. (None, w)), en_recv = (\<lambda>b w. (Inr [], w)), en_NextGlobalID = (\<lambda>w. (Inr 1, w)),
     en_RefreshSchema = (\<lambda>w. (Inl [], w)), en_LockFleetWrites = (\<lambda>w. (True, w)), en_UnlockFleetWrites = (\<lambda>w. w),
     en_InvalidatePrepared = (\<lambda>bs w. w), en_gid = (\<lambda>w. (''g'', w)), en_random = (\<lambda>w. (Some 0, w))\<rparr>"

definition sample_reply :: "string \<Rightarrow> response" where
  "sample_reply b = [BindComplete, DataRow [Some b], CommandComplete ''SELECT 1'', ReadyForQuery CHR ''I'']"

definition sample_wire :: "unit wire" where
  "sample_wire = \<lparr>wr_SendTo = (\<lambda>b m w. (None, w)), wr_SendBatchTo = (\<lambda>b ms w. (None, w)), wr_SendCopyTo = (\<lambda>bs m w. (None, w)),
     wr_receive = (\<lambda>final b w. (Inr [ParseComplete], w)), wr_ReceiveEach = (\<lambda>final b w. ((sample_reply b, None), w)), wr_Ensure = (\<lambda>b w. (None, w)),
     wr_Prepared = (\<lambda>b n w. False), wr_MarkPrepared = (\<lambda>bs n w. w), wr_ConnectedNames = (\<lambda>w. [''a'', ''b''])\<rparr>"

definition sample_compiler :: compiler where
  "sample_compiler = \<lparr>cp_parse = (\<lambda>sql. None), cp_deparse = (\<lambda>t. None), cp_float = (\<lambda>b s. None)\<rparr>"

definition sample_proxy :: "'s \<Rightarrow> 's proxy" where
  "sample_proxy w = \<lparr>px_server = \<lparr>sv_schema = NewWithGeneratedAndTypes [] [] [], sv_shardNames = [''a'', ''b''], sv_unshardedMode = ''primary'',
       sv_primaryBurrow = ''a'', sv_twoPhaseCommit = True, sv_topologyReadIndex = 0\<rparr>,
     px_schemaRefreshPending = False,
     px_state = \<lparr>es_transaction = False, es_transactionFailed = False, es_mutated = False, es_target = [], es_schemaDirty = False,
       es_writeParticipants = {}, es_sessionAffinity = False, es_sessionDestroy = False, es_sessionDiscardPrepared = False,
       es_sessionSettings = [], es_temp = no_temporaries, es_temporarySnapshots = []\<rparr>,
     px_fleet = \<lparr>fl_world = w, fl_operations = []\<rparr>, px_sent = []\<rparr>"

definition sample_bind :: bind_message where
  "sample_bind = \<lparr>bm_DestinationPortal = ''p'', bm_PreparedStatement = ''s'', bm_ParameterFormatCodes = [], bm_Parameters = [], bm_ResultFormatCodes = []\<rparr>"

definition sample_statement :: statementState where
  "sample_statement = no_statement\<lparr>ss_sql := ''SELECT 1'', ss_backendName := ''h'',
     ss_message := Some \<lparr>pm_Name = ''h'', pm_Query = ''SELECT 1'', pm_ParameterOIDs = []\<rparr>\<rparr>"

definition sample_pending :: pendingExtended where
  "sample_pending = \<lparr>pe_targets = [''a'', ''b''], pe_bind = sample_bind, pe_describe = None, pe_execute = Some (FExecute ''p'' 0), pe_portalName = ''p'',
     pe_portal = no_portal\<lparr>ps_sql := ''SELECT 1''\<rparr>, pe_statement = sample_statement\<rparr>"

definition sample_conn :: "'s \<Rightarrow> 's conn" where
  "sample_conn w = \<lparr>cn_px = sample_proxy w, cn_statements = [(''s'', sample_statement)], cn_portals = [], cn_failed = False, cn_pending = Some sample_pending,
     cn_syncConsumed = False, cn_session = True, cn_copyIn = False, cn_copyTargets = [], cn_copyPlan = None, cn_copyStream = None,
     cn_copyReplicated = False, cn_copyAborted = False, cn_crashed = False\<rparr>"

theorem batch_delivers_rows_witness:
  "\<exists>ms. batch_answer True (sample_conn ()) (snd (flushPendingExtended sample_environment sample_wire sample_compiler True (sample_conn ()))) ms
    \<and> (list_ex is_error ms \<or> filter is_row ms = [DataRow [Some ''a''], DataRow [Some ''b'']] \<and> tags_of ms = [''SELECT 2''])"
proof -
  have a: "cn_pending (sample_conn ()) = Some sample_pending" "answers sample_wire sample_reply"
    by (simp_all add: sample_conn_def answers_def sample_wire_def)
  have "filter is_row (concat (map sample_reply (pe_targets sample_pending))) = [DataRow [Some ''a''], DataRow [Some ''b'']]"
    "tags_of (concat (map sample_reply (pe_targets sample_pending))) = [''SELECT 1'', ''SELECT 1'']"
    "PortalSuspended \<notin> set (concat (map sample_reply (pe_targets sample_pending)))"
    "mergedCommandTag [''SELECT 1'', ''SELECT 1''] (Suc (Suc 0)) = ''SELECT 2''"
    by code_simp+
  with batch_delivers_rows [OF a, of True sample_environment sample_compiler] show ?thesis
    by (simp add: delivered_def)
qed

text \<open>A Bind that names a statement the client never prepared, while another batch is waiting, takes the path of
  \<open>handleBind\<close> with no Parse message to send: encoding the nil message ends the process.\<close>

lemma bind_unknown_statement_crashes:
  assumes "\<And>w. wr_Ensure wr target w = (None, w)" and "\<And>w. \<not> wr_Prepared wr target [] w"
  shows "cn_crashed (snd (handleBind wr message target True no_statement c))"
  using assms by (simp add: handleBind_def materializeStatement_def no_statement_def on_px_def on_world_def)

end
