(* ===== verification/Stream_Framing.thy ===== *)
theory Stream_Framing
  imports Go_Prelude
begin

text \<open>
  The contract of an incremental decoder.  \<open>frame_end s buf\<close> is the length of the first complete
  frame of the buffered bytes (0 when more input is needed, or an error), \<open>handle s f\<close>
  what the decoder emits for that frame and its next state; \<open>drain\<close> is the loop that emits every
  complete frame and keeps the rest.  When a verdict of \<open>frame_end\<close> is not revised by later bytes,
  the result does not depend on how the input was cut into network packets.
\<close>

function drain :: "('s \<Rightarrow> bytes \<Rightarrow> 'e + nat) \<Rightarrow> ('s \<Rightarrow> bytes \<Rightarrow> 'e + ('c \<times> 's)) \<Rightarrow> 's \<Rightarrow> bytes
    \<Rightarrow> 'e + ('c list \<times> 's \<times> bytes)" where
  "drain frame_end handle s buf = (case frame_end s buf of Inl e \<Rightarrow> Inl e
     | Inr n \<Rightarrow>
         if 0 < n \<and> n \<le> length buf
         then (case handle s (take n buf) of Inl e \<Rightarrow> Inl e
           | Inr (c, s') \<Rightarrow> map_sum (\<lambda>e. e) (\<lambda>(cs, t). (c # cs, t)) (drain frame_end handle s' (drop n buf)))
         else Inr ([], s, buf))"
  by pat_completeness auto
termination
  by (relation "measure (\<lambda>(frame_end, handle, s, buf). length buf)") auto

declare drain.simps [simp del]

lemma drain_Inr_cases:
  assumes "drain frame_end handle s xs = Inr (cs, s1, rest)"
  obtains (stop) n where "frame_end s xs = Inr n" "\<not> (0 < n \<and> n \<le> length xs)" "cs = []" "s1 = s" "rest = xs"
    | (emit) n c s' cs' where "frame_end s xs = Inr n" "0 < n" "n \<le> length xs"
        "handle s (take n xs) = Inr (c, s')" "drain frame_end handle s' (drop n xs) = Inr (cs', s1, rest)"
        "cs = c # cs'"
proof -
  note d = assms [unfolded drain.simps [of frame_end handle s xs]]
  from d obtain n where n: "frame_end s xs = Inr n" by (cases "frame_end s xs") simp_all
  show thesis
  proof (cases "0 < n \<and> n \<le> length xs")
    case True
    with d n obtain c s' where h: "handle s (take n xs) = Inr (c, s')"
      by (cases "handle s (take n xs)") auto
    with d n True have "map_sum (\<lambda>e. e) (\<lambda>(cs, t). (c # cs, t)) (drain frame_end handle s' (drop n xs))
        = Inr (cs, s1, rest)" by simp
    then obtain cs' where "drain frame_end handle s' (drop n xs) = Inr (cs', s1, rest)" "cs = c # cs'"
      unfolding map_sum_Inr_iff by auto
    with n True h show thesis by (intro emit) auto
  next
    case False
    with d n show thesis by (intro stop [OF n]) auto
  qed
qed

text \<open>Feeding packets one after the other.\<close>

fun drain_packets :: "('s \<Rightarrow> bytes \<Rightarrow> 'e + nat) \<Rightarrow> ('s \<Rightarrow> bytes \<Rightarrow> 'e + ('c \<times> 's)) \<Rightarrow> 's \<Rightarrow> bytes
    \<Rightarrow> bytes list \<Rightarrow> 'e + ('c list \<times> 's \<times> bytes)" where
  "drain_packets frame_end handle s buf [] = Inr ([], s, buf)"
| "drain_packets frame_end handle s buf (p # ps) = (case drain frame_end handle s (buf @ p) of Inl e \<Rightarrow> Inl e
     | Inr (cs, s', rest) \<Rightarrow> map_sum (\<lambda>e. e) (\<lambda>(ds, t). (cs @ ds, t)) (drain_packets frame_end handle s' rest ps))"

locale stream_machine =
  fixes frame_end :: "'s \<Rightarrow> bytes \<Rightarrow> 'e + nat"
    and handle :: "'s \<Rightarrow> bytes \<Rightarrow> 'e + ('c \<times> 's)"
  assumes next_bound: "frame_end s buf = Inr n \<Longrightarrow> n \<le> length buf"
    and next_stable: "frame_end s buf = Inr n \<Longrightarrow> 0 < n \<Longrightarrow> frame_end s (buf @ more) = Inr n"
    and next_error: "frame_end s buf = Inl e \<Longrightarrow> frame_end s (buf @ more) = Inl e"
begin

lemma drain_append:
  "drain frame_end handle s xs = Inr (cs, s1, rest) \<Longrightarrow> drain frame_end handle s (xs @ ys)
     = map_sum (\<lambda>e. e) (\<lambda>(ds, t). (cs @ ds, t)) (drain frame_end handle s1 (rest @ ys))"
proof (induction "length xs" arbitrary: s xs cs rule: less_induct)
  case less
  from less.prems show ?case
  proof (cases rule: drain_Inr_cases)
    case stop
    then show ?thesis by (cases "drain frame_end handle s (xs @ ys)") auto
  next
    case (emit n c s' cs')
    have "drain frame_end handle s' (drop n xs @ ys)
        = map_sum (\<lambda>e. e) (\<lambda>(ds, t). (cs' @ ds, t)) (drain frame_end handle s1 (rest @ ys))"
      using emit by (intro less.hyps) simp_all
    moreover have "drain frame_end handle s (xs @ ys)
        = map_sum (\<lambda>e. e) (\<lambda>(cs, t). (c # cs, t)) (drain frame_end handle s' (drop n xs @ ys))"
      using emit next_stable [OF emit(1,2)] by (subst drain.simps) simp
    ultimately show ?thesis
      using emit(6) by (cases "drain frame_end handle s1 (rest @ ys)") auto
  qed
qed

lemma drain_error: "drain frame_end handle s xs = Inl e \<Longrightarrow> drain frame_end handle s (xs @ ys) = Inl e"
proof (induction "length xs" arbitrary: s xs rule: less_induct)
  case less
  show ?case
  proof (cases "frame_end s xs")
    case (Inl e')
    with less.prems next_error [OF Inl] show ?thesis by (simp add: drain.simps)
  next
    case (Inr n)
    note nb = next_bound [OF Inr]
    from less.prems Inr have n: "0 < n" by (auto simp: drain.simps [of frame_end handle s xs] split: if_splits)
    show ?thesis
    proof (cases "handle s (take n xs)")
      case (Inl e')
      with less.prems Inr n nb next_stable [OF Inr n] show ?thesis by (simp add: drain.simps)
    next
      case h: (Inr cs)
      obtain c s' where cs: "cs = (c, s')" by (cases cs)
      from less.prems Inr n nb h cs have "drain frame_end handle s' (drop n xs) = Inl e"
        by (cases "drain frame_end handle s' (drop n xs)") (auto simp: drain.simps [of frame_end handle s xs])
      then have "drain frame_end handle s' (drop n xs @ ys) = Inl e" using n nb by (intro less.hyps) simp_all
      with Inr n nb h cs next_stable [OF Inr n] show ?thesis by (subst drain.simps) simp
    qed
  qed
qed

lemma drain_quiet:
  "drain frame_end handle s xs = Inr (cs, s1, rest) \<Longrightarrow> drain frame_end handle s1 rest = Inr ([], s1, rest)"
proof (induction "length xs" arbitrary: s xs cs rule: less_induct)
  case less
  from less.prems show ?case
  proof (cases rule: drain_Inr_cases)
    case stop
    with less.prems show ?thesis by simp
  next
    case (emit n c s' cs')
    then show ?thesis by (intro less.hyps [OF _ emit(5)]) simp
  qed
qed

text \<open>Cutting the input into packets changes neither the emitted sequence nor the state.\<close>

lemma packets_concat:
  assumes "drain frame_end handle s buf = Inr ([], s, buf)"
  shows "drain_packets frame_end handle s buf ps = drain frame_end handle s (buf @ concat ps)"
  using assms
proof (induction ps arbitrary: s buf)
  case (Cons p ps)
  show ?case
  proof (cases "drain frame_end handle s (buf @ p)")
    case (Inl e)
    from drain_error [OF Inl, of "concat ps"] Inl show ?thesis by simp
  next
    case (Inr r)
    obtain cs s1 rest where r: "r = (cs, s1, rest)" by (cases r)
    note d = Inr [unfolded r]
    show ?thesis
      using Cons.IH [OF drain_quiet [OF d]] drain_append [OF d, of "concat ps"] d by simp
  qed
qed simp

end

text \<open>A decoder that forwards its input: every emitted item carries exactly its frame.\<close>

locale lossless_machine = stream_machine frame_end handle
  for frame_end :: "'s \<Rightarrow> bytes \<Rightarrow> 'e + nat" and handle :: "'s \<Rightarrow> bytes \<Rightarrow> 'e + ('c \<times> 's)" +
  fixes payload :: "'c \<Rightarrow> bytes"
  assumes payload_frame: "handle s f = Inr (c, s') \<Longrightarrow> payload c = f"
begin

lemma drain_lossless:
  "drain frame_end handle s xs = Inr (cs, s1, rest) \<Longrightarrow> concat (map payload cs) @ rest = xs"
proof (induction "length xs" arbitrary: s xs cs rule: less_induct)
  case less
  from less.prems show ?case
  proof (cases rule: drain_Inr_cases)
    case (emit n c s' cs')
    have "concat (map payload cs') @ rest = drop n xs"
      using emit by (intro less.hyps [OF _ emit(5)]) simp
    with payload_frame [OF emit(4)] emit(6) show ?thesis by simp
  qed simp
qed

end

end
