(* ===== verification/Copy_Routing.thy ===== *)
theory Copy_Routing
  imports Copy_Stream Stream_Framing
begin

text \<open>
  Laws of the COPY FROM stream: the text, CSV and binary decoders of \<open>Copy_Stream\<close> are
  lossless stream machines, so that no byte is lost or duplicated, no row depends on packet
  boundaries, and every data row carries the Burrow that owns its key.
\<close>

section \<open>Both decoders are lossless machines\<close>

definition delimited_end :: "Stream \<Rightarrow> bytes \<Rightarrow> copy_error + nat" where
  "delimited_end s buf = Inr (fst (delimitedRecordEnd buf (st_plan s)))"

lemma csv_record_end_stable:
  "csv_record_end plan q f i xs = (n, b) \<Longrightarrow> 0 < n \<Longrightarrow>
     n \<le> i + length xs \<and> csv_record_end plan q f i (xs @ ys) = (n, b)"
proof (induction "length xs" arbitrary: q f i xs rule: less_induct)
  case less
  show ?case
  proof (cases xs)
    case Nil
    with less.prems show ?thesis by simp
  next
    case (Cons c rest)
    have step: "n \<le> j + length t \<and> csv_record_end plan q' f' j (t @ ys) = (n, b)"
      if "length t < length xs" "csv_record_end plan q' f' j t = (n, b)" for q' f' j t
      using less.hyps that less.prems(2) by blast
    show ?thesis
    proof (cases q)
      case True
      show ?thesis
      proof (cases rest)
        case Nil
        with less.prems Cons True show ?thesis by simp
      next
        case r: (Cons d rest')
        show ?thesis
        proof (cases "c = cpl_Escape plan \<and> (d = cpl_Quote plan \<or> d = cpl_Escape plan)")
          case e: True
          with less.prems(1) Cons True r have "csv_record_end plan True f (i + 2) rest' = (n, b)" by simp
          from step [OF _ this] Cons r e True show ?thesis by simp
        next
          case e: False
          with less.prems(1) Cons True r
          have "csv_record_end plan (c \<noteq> cpl_Quote plan) f (i + 1) rest = (n, b)"
            by (simp del: csv_record_end.simps(2) add: csv_record_end.simps(2) [of _ _ _ _ c])
          from step [OF _ this] Cons r e True show ?thesis
            by (auto simp del: csv_record_end.simps(2) simp add: csv_record_end.simps(2) [of _ _ _ _ c])
        qed
      qed
    next
      case False
      then show ?thesis
        using less.prems(1) Cons step [of rest _ _ "i + 1"] by (auto split: if_splits)
    qed
  qed
qed

lemma index_byte_stable: "index_byte xs c = Some i \<Longrightarrow> i < length xs \<and> index_byte (xs @ ys) c = Some i"
  by (induction xs arbitrary: i) (auto split: if_splits)

lemma delimitedRecordEnd_stable:
  assumes "delimitedRecordEnd xs plan = (n, b)" and "0 < n"
  shows "n \<le> length xs \<and> delimitedRecordEnd (xs @ ys) plan = (n, b)"
proof (cases "cpl_Format plan = FormatText")
  case True
  with assms obtain i where "index_byte xs LF = Some i" "n = i + 1" "\<not> b"
    by (auto simp: delimitedRecordEnd_def split: option.splits)
  with True index_byte_stable [of xs LF i ys] show ?thesis by (simp add: delimitedRecordEnd_def)
next
  case False
  with assms csv_record_end_stable [of plan False True 0 xs n b ys] show ?thesis
    by (simp add: delimitedRecordEnd_def)
qed

interpretation delimited: lossless_machine delimited_end "route_record ft" ch_Data for ft
proof unfold_locales
  show "n \<le> length buf" if "delimited_end s buf = Inr n" for s buf n
    using that delimitedRecordEnd_stable [of buf "st_plan s" n]
    by (cases n; cases "delimitedRecordEnd buf (st_plan s)") (auto simp: delimited_end_def)
  show "delimited_end s (buf @ ys) = Inr n" if "delimited_end s buf = Inr n" "0 < n" for s buf n ys
    using that delimitedRecordEnd_stable [of buf "st_plan s" n _ ys]
    by (cases "delimitedRecordEnd buf (st_plan s)") (auto simp: delimited_end_def)
  show "delimited_end s (buf @ ys) = Inl e" if "delimited_end s buf = Inl e" for s buf ys e
    using that by (simp add: delimited_end_def)
  show "ch_Data c = f" if "route_record ft s f = Inr (c, s')" for s s' f c
    using route_record_buffer [OF that] by simp
qed

lemma owner_of_key_buffer: "owner_of_key ft (s\<lparr>st_buffer := b\<rparr>) vs = owner_of_key ft s vs"
  by (simp add: owner_of_key_def)

lemma targetForRecord_buffer: "targetForRecord ft (s\<lparr>st_buffer := b\<rparr>) r = targetForRecord ft s r"
  by (simp add: targetForRecord_def owner_of_key_buffer split: sum.split)

lemma route_record_any_buffer:
  "route_record ft (s\<lparr>st_buffer := b\<rparr>) r = map_sum (\<lambda>e. e) (\<lambda>(c, t). (c, t\<lparr>st_buffer := b\<rparr>)) (route_record ft s r)"
  by (auto simp: route_record_def targetForRecord_buffer end_marker_def split: sum.splits)

definition settle :: "Chunk list \<times> Stream \<times> bytes \<Rightarrow> Chunk list \<times> Stream" where
  "settle r = (case r of (cs, t, rest) \<Rightarrow> (cs, t\<lparr>st_buffer := rest\<rparr>))"

lemma consumeDelimited_drain:
  "consumeDelimited ft False (s\<lparr>st_buffer := b\<rparr>)
     = map_sum (\<lambda>e. e) settle (drain delimited_end (route_record ft) s b)"
proof (induction "length b" arbitrary: s b rule: less_induct)
  case less
  obtain n q where e: "delimitedRecordEnd b (st_plan s) = (n, q)" by (cases "delimitedRecordEnd b (st_plan s)")
  show ?case
  proof (cases "n = 0")
    case True
    with e show ?thesis
      by (subst consumeDelimited.simps, subst drain.simps) (simp add: delimited_end_def settle_def)
  next
    case False
    then have n: "0 < n" "n \<le> length b" "b \<noteq> []"
      using delimitedRecordEnd_stable [OF e] by auto
    have "consumeDelimited ft False (s\<lparr>st_buffer := b\<rparr>)
        = (case route_record ft (s\<lparr>st_buffer := drop n b\<rparr>) (take n b) of Inl e \<Rightarrow> Inl e
          | Inr (chunk, s') \<Rightarrow> map_sum (\<lambda>e. e) (\<lambda>(chunks, s''). (chunk # chunks, s'')) (consumeDelimited ft False s'))"
      using e n by (subst consumeDelimited.simps) simp
    moreover have "drain delimited_end (route_record ft) s b
        = (case route_record ft s (take n b) of Inl e \<Rightarrow> Inl e
          | Inr (c, s') \<Rightarrow> map_sum (\<lambda>e. e) (\<lambda>(cs, t). (c # cs, t)) (drain delimited_end (route_record ft) s' (drop n b)))"
      using e n by (subst drain.simps) (simp add: delimited_end_def)
    moreover have "consumeDelimited ft False (s'\<lparr>st_buffer := drop n b\<rparr>)
        = map_sum (\<lambda>e. e) settle (drain delimited_end (route_record ft) s' (drop n b))" for s'
      using n by (intro less.hyps) simp
    ultimately show ?thesis
      by (auto simp: route_record_any_buffer sum.map_comp comp_def case_prod_beta settle_def split: sum.splits)
  qed
qed

lemma scan_fields_bound: "scan_fields k b p = Row fs q \<Longrightarrow> p \<le> length b \<Longrightarrow> q \<le> length b \<and> length fs = k"
proof (induction k b p arbitrary: fs rule: scan_fields.induct)
  case (2 k b p)
  let ?len = "to_signed 32 (be_val (take 4 (drop p b)))"
  from 2(3) have l: "\<not> length b < p + 4" by (auto split: if_splits)
  show ?case
  proof (cases "?len = -1")
    case True
    with 2(3) l obtain gs where "scan_fields k b (p + 4) = Row gs q" "fs = None # gs"
      by (auto simp: Let_def add_field_Row)
    with 2(1) [OF l refl refl True] l show ?thesis by auto
  next
    case False
    with 2(3) l have t: "\<not> (?len < 0 \<or> ?len > MaxRowBytes \<or> int (p + 4) + ?len > MaxRowBytes)"
      and i: "\<not> int (length b) < int (p + 4) + ?len" by (auto simp: Let_def split: if_splits)
    with 2(3) l False obtain gs where "scan_fields k b (p + 4 + nat ?len) = Row gs q" "fs = Some (take (nat ?len) (drop (p + 4) b)) # gs"
      by (auto simp: Let_def add_field_Row)
    with 2(2) [OF l refl refl False t i] i t show ?thesis by auto
  qed
qed auto

text \<open>A scan that reaches a verdict reads only the bytes it has consumed.\<close>

lemma scan_fields_append: "scan_fields k b p \<noteq> Incomplete \<Longrightarrow> scan_fields k (b @ m) p = scan_fields k b p"
proof (induction k b p rule: scan_fields.induct)
  case (2 k b p)
  let ?len = "to_signed 32 (be_val (take 4 (drop p b)))"
  from 2(3) have l: "\<not> length b < p + 4" by (auto split: if_splits)
  then have lm: "\<not> length (b @ m) < p + 4" and tk: "take 4 (drop p (b @ m)) = take 4 (drop p b)" by auto
  have nonI: "x \<noteq> Incomplete" if "add_field f x \<noteq> Incomplete" for f x using that by (cases x) auto
  show ?case
  proof (cases "?len = -1")
    case True
    with 2(3) l have "scan_fields k b (p + 4) \<noteq> Incomplete" by (auto simp: Let_def dest: nonI)
    with 2(1) [OF l refl refl True] l lm tk True show ?thesis by (simp add: Let_def)
  next
    case False
    show ?thesis
    proof (cases "?len < 0 \<or> ?len > MaxRowBytes \<or> int (p + 4) + ?len > MaxRowBytes")
      case True
      with False l lm tk show ?thesis by (auto simp: Let_def)
    next
      case t: False
      with 2(3) l False have i: "\<not> int (length b) < int (p + 4) + ?len" by (auto simp: Let_def split: if_splits)
      with t have fld: "take (nat ?len) (drop (p + 4) (b @ m)) = take (nat ?len) (drop (p + 4) b)" by auto
      from 2(3) l False t i have "scan_fields k b (p + 4 + nat ?len) \<noteq> Incomplete" by (auto simp: Let_def dest: nonI)
      with 2(2) [OF l refl refl False t i] l lm tk False t i fld show ?thesis by (simp add: Let_def)
    qed
  qed
qed auto

lemma scan_fields_take: "scan_fields k b p = Row fs q \<Longrightarrow> q \<le> n \<Longrightarrow> scan_fields k (take n b) p = Row fs q"
proof (induction k b p arbitrary: fs rule: scan_fields.induct)
  case (2 k b p)
  let ?len = "to_signed 32 (be_val (take 4 (drop p b)))"
  from 2(3) have l: "\<not> length b < p + 4" by (auto split: if_splits)
  show ?case
  proof (cases "?len = -1")
    case True
    with 2(3) l obtain gs where g: "scan_fields k b (p + 4) = Row gs q" "fs = None # gs"
      by (auto simp: Let_def add_field_Row)
    from scan_fields_forward [OF g(1)] 2(4) l have tk: "take 4 (drop p (take n b)) = take 4 (drop p b)"
      "\<not> length (take n b) < p + 4" by (auto simp: drop_take min_def)
    with 2(1) [OF l refl refl True g(1) 2(4)] True g(2) show ?thesis by (simp add: Let_def)
  next
    case False
    with 2(3) l have t: "\<not> (?len < 0 \<or> ?len > MaxRowBytes \<or> int (p + 4) + ?len > MaxRowBytes)"
      and i: "\<not> int (length b) < int (p + 4) + ?len" by (auto simp: Let_def split: if_splits)
    with 2(3) l False obtain gs where g: "scan_fields k b (p + 4 + nat ?len) = Row gs q"
      "fs = Some (take (nat ?len) (drop (p + 4) b)) # gs"
      by (auto simp: Let_def add_field_Row)
    from scan_fields_forward [OF g(1)] 2(4) l t i
    have tk: "take 4 (drop p (take n b)) = take 4 (drop p b)" "\<not> length (take n b) < p + 4"
      "take (nat ?len) (drop (p + 4) (take n b)) = take (nat ?len) (drop (p + 4) b)"
      "\<not> int (length (take n b)) < int (p + 4) + ?len" by (auto simp: drop_take min_def)
    with 2(2) [OF l refl refl False t i g(1) 2(4)] False t g(2) show ?thesis by (simp add: Let_def)
  qed
qed auto

section \<open>The binary decoder\<close>

definition binary_end :: "Stream \<Rightarrow> bytes \<Rightarrow> copy_error + nat" where
  "binary_end s buf =
     (if \<not> st_binaryHeader s
      then map_sum (\<lambda>e. e) (\<lambda>n. case n of None \<Rightarrow> 0 | Some n \<Rightarrow> n) (binary_header buf)
      else if st_binaryTrailer s then (if buf = [] then Inr 0 else Inl DataAfterTrailer)
      else if length buf < 2 then Inr 0
      else (let columns = to_signed 16 (be_val (take 2 buf)) in
        if columns = -1 then Inr 2
        else if columns < 0 \<or> columns \<noteq> int (length (cpl_Columns (st_plan s)))
        then Inl (WrongColumnCount columns (length (cpl_Columns (st_plan s))))
        else (case scan_fields (nat columns) buf 2 of TooLarge \<Rightarrow> Inl FieldTooLarge
          | Incomplete \<Rightarrow> Inr 0 | Row fs position \<Rightarrow> Inr position)))"

definition binary_row_owner :: "float_codec \<Rightarrow> float_bits \<Rightarrow> Stream \<Rightarrow> bytes \<Rightarrow> copy_error + string" where
  "binary_row_owner ft fb s row =
     (case scan_fields (nat (to_signed 16 (be_val (take 2 row)))) row 2 of
        Row fs position \<Rightarrow>
          (case binary_key fb (st_plan s) fs (cpl_keyIndexes (st_plan s)) (cpl_keyTypes (st_plan s)) of
             Inl e \<Rightarrow> Inl e | Inr values \<Rightarrow> owner_of_key ft s values)
      | _ \<Rightarrow> Inl FieldTooLarge)"

definition binary_handle :: "float_codec \<Rightarrow> float_bits \<Rightarrow> Stream \<Rightarrow> bytes \<Rightarrow> copy_error + (Chunk \<times> Stream)" where
  "binary_handle ft fb s f =
     (if \<not> st_binaryHeader s then Inr (\<lparr>ch_Target = [], ch_Data = f\<rparr>, s\<lparr>st_binaryHeader := True\<rparr>)
      else if to_signed 16 (be_val (take 2 f)) = -1
      then Inr (\<lparr>ch_Target = [], ch_Data = f\<rparr>, s\<lparr>st_binaryTrailer := True\<rparr>)
      else map_sum (\<lambda>e. e) (\<lambda>target. (\<lparr>ch_Target = target, ch_Data = f\<rparr>, s\<lparr>st_rows := st_rows s + 1\<rparr>))
             (binary_row_owner ft fb s f))"

lemma binary_header_cases:
  "binary_header buf = Inr (Some n) \<Longrightarrow> 19 \<le> n \<and> n \<le> length buf"
  "binary_header buf = Inr (Some n) \<Longrightarrow> binary_header (buf @ ys) = Inr (Some n)"
  "binary_header buf = Inl e \<Longrightarrow> binary_header (buf @ ys) = Inl e"
  by (auto simp: binary_header_def Let_def binarySignature_def split: if_splits)

lemma binary_end_row:
  assumes "binary_end s buf = Inr n" and "0 < n" and "st_binaryHeader s"
  shows "\<not> st_binaryTrailer s \<and> 2 \<le> n \<and> n \<le> length buf
    \<and> (to_signed 16 (be_val (take 2 buf)) = -1 \<and> n = 2
       \<or> to_signed 16 (be_val (take 2 buf)) = int (length (cpl_Columns (st_plan s)))
          \<and> (\<exists>fs. scan_fields (length (cpl_Columns (st_plan s))) buf 2 = Row fs n))"
proof -
  from assms have t: "\<not> st_binaryTrailer s" "\<not> length buf < 2"
    by (auto simp: binary_end_def split: if_splits)
  show ?thesis
  proof (cases "to_signed 16 (be_val (take 2 buf)) = -1")
    case True
    with assms t show ?thesis by (simp add: binary_end_def)
  next
    case False
    with assms t have c: "to_signed 16 (be_val (take 2 buf)) = int (length (cpl_Columns (st_plan s)))"
      by (auto simp: binary_end_def Let_def split: if_splits)
    with assms t False obtain fs where fs: "scan_fields (length (cpl_Columns (st_plan s))) buf 2 = Row fs n"
      by (auto simp: binary_end_def split: if_splits row_scan.splits)
    with scan_fields_bound [OF fs] scan_fields_forward [OF fs] t c show ?thesis by simp
  qed
qed

interpretation binary: lossless_machine binary_end "binary_handle ft fb" ch_Data for ft fb
proof unfold_locales
  show "n \<le> length buf" if "binary_end s buf = Inr n" for s buf n
  proof (cases "st_binaryHeader s")
    case True
    with that binary_end_row [OF that] show ?thesis by (cases n) auto
  next
    case False
    with that binary_header_cases(1) show ?thesis
      by (auto simp: binary_end_def map_sum_Inr_iff split: option.splits)
  qed
  show "binary_end s (buf @ ys) = Inr n" if "binary_end s buf = Inr n" "0 < n" for s buf n ys
  proof (cases "st_binaryHeader s")
    case True
    from binary_end_row [OF that True] have tk: "take 2 (buf @ ys) = take 2 buf" by simp
    have sc: "scan_fields k (buf @ ys) 2 = Row fs n" if "scan_fields k buf 2 = Row fs n" for k fs
      using scan_fields_append [of k buf 2 ys] that by simp
    with binary_end_row [OF that True] True tk show ?thesis
      by (auto simp: binary_end_def Let_def simp del: take_append)
  next
    case False
    with that binary_header_cases(2) show ?thesis
      by (auto simp: binary_end_def map_sum_Inr_iff split: option.splits)
  qed
  show "binary_end s (buf @ ys) = Inl e" if "binary_end s buf = Inl e" for s buf ys e
  proof (cases "st_binaryHeader s \<and> \<not> st_binaryTrailer s")
    case True
    with that have l: "\<not> length buf < 2" by (auto simp: binary_end_def split: if_splits)
    then have tk: "take 2 (buf @ ys) = take 2 buf" by simp
    have sc: "scan_fields k (buf @ ys) 2 = TooLarge" if "scan_fields k buf 2 = TooLarge" for k
      using scan_fields_append [of k buf 2 ys] that by simp
    with that True l tk show ?thesis
      by (auto simp: binary_end_def Let_def split: if_splits row_scan.splits simp del: take_append)
  next
    case False
    with that binary_header_cases(3) show ?thesis
      by (auto simp: binary_end_def map_sum_Inl_iff split: if_splits)
  qed
  show "ch_Data c = f" if "binary_handle ft fb s f = Inr (c, s')" for s s' f c
    using that by (auto simp: binary_handle_def map_sum_Inr_iff split: if_splits)
qed

definition checked_rows :: "float_codec \<Rightarrow> float_bits \<Rightarrow> Stream \<Rightarrow> copy_error + (Chunk list \<times> Stream)" where
  "checked_rows ft fb s = (case binary_rows ft fb s of Inl e \<Rightarrow> Inl e | Inr r \<Rightarrow> check_trailer r)"

lemma owner_of_key_rows: "owner_of_key ft (s\<lparr>st_rows := r\<rparr>) vs = owner_of_key ft s vs"
  by (simp add: owner_of_key_def)

lemma check_trailer_Cons: "check_trailer (c # cs, s) = map_sum (\<lambda>e. e) (\<lambda>(cs, s). (c # cs, s)) (check_trailer (cs, s))"
  by (simp add: check_trailer_def)

lemma checked_rows_row:
  assumes "\<not> length b < 2" and "\<not> st_binaryTrailer s"
    and "to_signed 16 (be_val (take 2 b)) = int (length (cpl_Columns (st_plan s)))"
    and "scan_fields (length (cpl_Columns (st_plan s))) b 2 = Row fs n"
  shows "checked_rows ft fb (s\<lparr>st_buffer := b\<rparr>) = (case binary_row_owner ft fb s (take n b) of Inl e \<Rightarrow> Inl e
    | Inr target \<Rightarrow> map_sum (\<lambda>e. e) (\<lambda>(cs, t). (\<lparr>ch_Target = target, ch_Data = take n b\<rparr> # cs, t))
        (checked_rows ft fb (s\<lparr>st_rows := st_rows s + 1, st_buffer := drop n b\<rparr>)))"
proof -
  from scan_fields_forward [OF assms(4)] have n: "2 \<le> n" by simp
  then have "take 2 (take n b) = take 2 b" by (simp add: min_def)
  then have own: "binary_row_owner ft fb s (take n b) = (case binary_key fb (st_plan s) fs (cpl_keyIndexes (st_plan s))
      (cpl_keyTypes (st_plan s)) of Inl e \<Rightarrow> Inl e | Inr values \<Rightarrow> owner_of_key ft s values)"
    using assms(3) scan_fields_take [OF assms(4) order_refl] by (simp add: binary_row_owner_def del: take_take)
  let ?s = "s\<lparr>st_rows := st_rows s + 1, st_buffer := drop n b\<rparr>"
  have eq: "s\<lparr>st_buffer := drop n b, st_rows := st_rows s + 1\<rparr> = ?s" by simp
  have "binary_rows ft fb (s\<lparr>st_buffer := b\<rparr>) = (case binary_row_owner ft fb s (take n b) of Inl e \<Rightarrow> Inl e
      | Inr target \<Rightarrow> map_sum (\<lambda>e. e) (\<lambda>(cs, t). (\<lparr>ch_Target = target, ch_Data = take n b\<rparr> # cs, t)) (binary_rows ft fb ?s))"
    using assms unfolding own
    by (subst binary_rows.simps) (simp add: owner_of_key_buffer eq split: sum.split)
  then show ?thesis
    unfolding checked_rows_def
    by (cases "binary_rows ft fb ?s") (auto simp: check_trailer_Cons split: sum.split)
qed

lemma checked_rows_drain:
  "st_binaryHeader s \<Longrightarrow> checked_rows ft fb (s\<lparr>st_buffer := b\<rparr>)
     = map_sum (\<lambda>e. e) settle (drain binary_end (binary_handle ft fb) s b)"
proof (induction "length b" arbitrary: s b rule: less_induct)
  case less
  let ?c = "to_signed 16 (be_val (take 2 b))" and ?k = "length (cpl_Columns (st_plan s))"
  note unf = checked_rows_def binary_rows.simps [of _ _ "s\<lparr>st_buffer := b\<rparr>"] drain.simps [of _ _ s b]
    binary_end_def [of s b] settle_def less.prems
  show ?case
  proof (cases "length b < 2 \<or> st_binaryTrailer s")
    case True
    then show ?thesis by (auto simp: unf check_trailer_def)
  next
    case F: False
    show ?thesis
    proof (cases "?c = -1")
      case True
      with F show ?thesis
        by (simp add: unf check_trailer_def binary_handle_def min_def drain.simps [of _ _ _ "drop 2 b"]
            binary_end_def)
    next
      case N: False
      show ?thesis
      proof (cases "?c = int ?k")
        case False
        with F N show ?thesis by (simp add: unf)
      next
        case C: True
        show ?thesis
        proof (cases "scan_fields ?k b 2")
          case (Row fs n)
          from scan_fields_bound [OF Row] scan_fields_forward [OF Row] F have n: "2 \<le> n" "n \<le> length b" by auto
          have "checked_rows ft fb (s\<lparr>st_rows := st_rows s + 1, st_buffer := drop n b\<rparr>)
              = map_sum (\<lambda>e. e) settle (drain binary_end (binary_handle ft fb) (s\<lparr>st_rows := st_rows s + 1\<rparr>) (drop n b))"
            using n F less.prems by (intro less.hyps) auto
          moreover have "drain binary_end (binary_handle ft fb) s b = (case binary_row_owner ft fb s (take n b) of Inl e \<Rightarrow> Inl e
              | Inr target \<Rightarrow> map_sum (\<lambda>e. e) (\<lambda>(cs, t). (\<lparr>ch_Target = target, ch_Data = take n b\<rparr> # cs, t))
                  (drain binary_end (binary_handle ft fb) (s\<lparr>st_rows := st_rows s + 1\<rparr>) (drop n b)))"
            using F N C Row n by (simp add: unf binary_handle_def min_def split: sum.split)
          ultimately show ?thesis
            using checked_rows_row [of b s fs n ft fb] F C Row
            by (auto simp: sum.map_comp comp_def case_prod_beta settle_def split: sum.split)
        qed (use F N C in \<open>simp_all add: unf check_trailer_def\<close>)
      qed
    qed
  qed
qed

lemma consumeBinary_drain:
  "consumeBinary ft fb (s\<lparr>st_buffer := b\<rparr>) = map_sum (\<lambda>e. e) settle (drain binary_end (binary_handle ft fb) s b)"
proof (cases "st_binaryHeader s")
  case True
  with checked_rows_drain [OF True, of ft fb b] show ?thesis by (simp add: consumeBinary_def checked_rows_def)
next
  case False
  show ?thesis
  proof (cases "binary_header b")
    case (Inl e)
    with False show ?thesis by (simp add: consumeBinary_def drain.simps [of _ _ s b] binary_end_def)
  next
    case (Inr h)
    show ?thesis
    proof (cases h)
      case None
      with Inr False show ?thesis
        by (simp add: consumeBinary_def drain.simps [of _ _ s b] binary_end_def settle_def)
    next
      case (Some n)
      note n = binary_header_cases(1) [OF Inr [unfolded Some]]
      let ?s = "s\<lparr>st_binaryHeader := True\<rparr>"
      have eq: "s\<lparr>st_buffer := drop n b, st_binaryHeader := True\<rparr> = ?s\<lparr>st_buffer := drop n b\<rparr>" by simp
      have "drain binary_end (binary_handle ft fb) s b
          = map_sum (\<lambda>e. e) (\<lambda>(cs, t). (\<lparr>ch_Target = [], ch_Data = take n b\<rparr> # cs, t))
              (drain binary_end (binary_handle ft fb) ?s (drop n b))"
        using n Inr Some False by (simp add: drain.simps [of _ _ s b] binary_end_def binary_handle_def)
      moreover have "consumeBinary ft fb (s\<lparr>st_buffer := b\<rparr>)
          = map_sum (\<lambda>e. e) (\<lambda>(cs, t). (\<lparr>ch_Target = [], ch_Data = take n b\<rparr> # cs, t)) (checked_rows ft fb (?s\<lparr>st_buffer := drop n b\<rparr>))"
        using Inr Some False
        by (auto simp: consumeBinary_def checked_rows_def check_trailer_Cons eq split: sum.split)
      ultimately show ?thesis
        using checked_rows_drain [of ?s ft fb "drop n b"]
        by (simp add: sum.map_comp comp_def case_prod_beta settle_def)
    qed
  qed
qed

section \<open>The stream of one COPY command\<close>

definition stream_end :: "Stream \<Rightarrow> bytes \<Rightarrow> copy_error + nat" where
  "stream_end s = (if cpl_Format (st_plan s) = FormatBinary then binary_end s else delimited_end s)"

definition stream_handle :: "float_codec \<Rightarrow> float_bits \<Rightarrow> Stream \<Rightarrow> bytes \<Rightarrow> copy_error + (Chunk \<times> Stream)" where
  "stream_handle ft fb s =
     (if cpl_Format (st_plan s) = FormatBinary then binary_handle ft fb s else route_record ft s)"

interpretation copy_in: lossless_machine stream_end "stream_handle ft fb" ch_Data for ft fb
proof unfold_locales
  show "n \<le> length buf" if "stream_end s buf = Inr n" for s buf n
    using that delimited.next_bound binary.next_bound by (auto simp: stream_end_def split: if_splits)
  show "stream_end s (buf @ ys) = Inr n" if "stream_end s buf = Inr n" "0 < n" for s buf n ys
    using that delimited.next_stable binary.next_stable by (auto simp: stream_end_def split: if_splits)
  show "stream_end s (buf @ ys) = Inl e" if "stream_end s buf = Inl e" for s buf ys e
    using that delimited.next_error binary.next_error by (auto simp: stream_end_def split: if_splits)
  show "ch_Data c = f" if "stream_handle ft fb s f = Inr (c, s')" for s s' f c
    using that delimited.payload_frame binary.payload_frame by (auto simp: stream_handle_def split: if_splits)
qed

text \<open>What no step of the decoder changes.\<close>

definition same_copy :: "Stream \<Rightarrow> Stream \<Rightarrow> bool" where
  "same_copy s t = (st_plan t = st_plan s \<and> st_registry t = st_registry s \<and> st_burrows t = st_burrows s)"

lemma stream_handle_same: "stream_handle ft fb s f = Inr (c, t) \<Longrightarrow> same_copy s t"
  by (auto simp: stream_handle_def binary_handle_def route_record_def same_copy_def map_sum_Inr_iff
      split: if_splits sum.splits)

lemma drain_format:
  "drain stream_end (stream_handle ft fb) s b
     = (if cpl_Format (st_plan s) = FormatBinary then drain binary_end (binary_handle ft fb) s b
        else drain delimited_end (route_record ft) s b)"
proof (induction "length b" arbitrary: s b rule: less_induct)
  case less
  have rec: "drain stream_end (stream_handle ft fb) t (drop n b)
      = (if cpl_Format (st_plan s) = FormatBinary then drain binary_end (binary_handle ft fb) t (drop n b)
         else drain delimited_end (route_record ft) t (drop n b))"
    if "stream_handle ft fb s f = Inr (c, t)" "0 < n" "n \<le> length b" for f c t n
    using less.hyps [of "drop n b" t] stream_handle_same [OF that(1)] that(2,3) by (auto simp: same_copy_def)
  show ?case
  proof (cases "cpl_Format (st_plan s) = FormatBinary")
    case True
    then show ?thesis
      unfolding drain.simps [of _ _ s b] by (auto simp: stream_end_def stream_handle_def rec split: sum.split)
  next
    case False
    then show ?thesis
      unfolding drain.simps [of _ _ s b] by (auto simp: stream_end_def stream_handle_def rec split: sum.split)
  qed
qed

definition plain_format :: "Stream \<Rightarrow> bool" where
  "plain_format s = (cpl_Format (st_plan s) \<in> {FormatText, FormatCSV, FormatBinary})"

lemma Write_drain:
  assumes "plain_format s" and "data \<noteq> []"
  shows "Write ft fb s data = (case drain stream_end (stream_handle ft fb) s (st_buffer s @ data) of Inl e \<Rightarrow> Inl e
    | Inr (cs, t, rest) \<Rightarrow> if int (length rest) > MaxRowBytes then Inl RowTooLarge else Inr (cs, t\<lparr>st_buffer := rest\<rparr>))"
  using assms consumeDelimited_drain [where s = s and b = "st_buffer s @ data"]
    consumeBinary_drain [where s = s and b = "st_buffer s @ data"]
  by (auto simp: Write_def Let_def drain_format plain_format_def settle_def case_prod_beta
      FormatText_def FormatCSV_def FormatBinary_def split: sum.split)

subsection \<open>Emitted chunks\<close>

text \<open>The decoder state without the buffered bytes, and the chunks a run of the decoder emits.\<close>

definition clear :: "Stream \<Rightarrow> Stream" where
  "clear s = s\<lparr>st_buffer := []\<rparr>"

inductive emits :: "float_codec \<Rightarrow> float_bits \<Rightarrow> Stream \<Rightarrow> Chunk list \<Rightarrow> Stream \<Rightarrow> bool" for ft fb where
  emits_nil: "emits ft fb s [] s"
| emits_cons: "stream_handle ft fb s f = Inr (c, t) \<Longrightarrow> emits ft fb t cs u \<Longrightarrow> emits ft fb s (c # cs) u"

inductive_cases emits_ConsE: "emits ft fb s (c # cs) u"
inductive_simps emits_Nil_iff [simp]: "emits ft fb s [] u"

lemma emits_append: "emits ft fb s cs t \<Longrightarrow> emits ft fb t ds u \<Longrightarrow> emits ft fb s (cs @ ds) u"
  by (induction rule: emits.induct) (auto intro: emits_cons)

lemma stream_handle_any_buffer:
  "stream_handle ft fb (s\<lparr>st_buffer := b\<rparr>) f = map_sum (\<lambda>e. e) (\<lambda>(c, t). (c, t\<lparr>st_buffer := b\<rparr>)) (stream_handle ft fb s f)"
proof -
  have "binary_row_owner ft fb (s\<lparr>st_buffer := b\<rparr>) f = binary_row_owner ft fb s f"
    by (simp add: binary_row_owner_def owner_of_key_buffer split: row_scan.split sum.split)
  then show ?thesis
    by (cases "binary_row_owner ft fb s f")
      (simp_all add: stream_handle_def route_record_any_buffer binary_handle_def)
qed

lemma stream_handle_clear: "stream_handle ft fb s f = Inr (c, t) \<Longrightarrow> stream_handle ft fb (clear s) f = Inr (c, clear t)"
  by (simp add: clear_def stream_handle_any_buffer)

lemma emits_clear: "emits ft fb s cs t \<Longrightarrow> emits ft fb (clear s) cs (clear t)"
  by (induction rule: emits.induct) (auto intro: emits.intros dest: stream_handle_clear)

lemma clear_simps [simp]: "clear (s\<lparr>st_buffer := b\<rparr>) = clear s" "clear (clear s) = clear s"
  "st_plan (clear s) = st_plan s" "st_registry (clear s) = st_registry s" "st_burrows (clear s) = st_burrows s"
  "st_rows (clear s) = st_rows s" "st_headerPending (clear s) = st_headerPending s"
  "st_binaryHeader (clear s) = st_binaryHeader s" "st_binaryTrailer (clear s) = st_binaryTrailer s"
  "st_buffer (clear s) = []" "(clear s)\<lparr>st_buffer := b\<rparr> = s\<lparr>st_buffer := b\<rparr>"
  by (simp_all add: clear_def)

lemma drain_emits: "drain stream_end (stream_handle ft fb) s b = Inr (cs, t, rest) \<Longrightarrow> emits ft fb s cs t"
proof (induction "length b" arbitrary: s b cs rule: less_induct)
  case less
  from less.prems show ?case
  proof (cases rule: drain_Inr_cases)
    case (emit n c s' cs')
    then have "emits ft fb s' cs' t" by (intro less.hyps [OF _ emit(5)]) simp
    with emit show ?thesis by (auto intro: emits_cons)
  qed simp
qed

lemma final_emits:
  "consumeDelimited ft True s = Inr (cs, t) \<Longrightarrow> cpl_Format (st_plan s) \<noteq> FormatBinary \<Longrightarrow>
     emits ft fb (clear s) cs (clear t) \<and> concat (map ch_Data cs) = st_buffer s \<and> st_buffer t = []"
proof (induction "length (st_buffer s)" arbitrary: s cs rule: less_induct)
  case less
  note d = less.prems(1) [unfolded consumeDelimited.simps [of ft True s]]
  show ?case
  proof (cases "st_buffer s = []")
    case True
    with d show ?thesis by simp
  next
    case False
    obtain n q where e: "delimitedRecordEnd (st_buffer s) (st_plan s) = (n, q)"
      by (cases "delimitedRecordEnd (st_buffer s) (st_plan s)")
    define m where "m = (if n = 0 then length (st_buffer s) else n)"
    from False have m: "0 < m" by (simp add: m_def)
    let ?s = "s\<lparr>st_buffer := drop m (st_buffer s)\<rparr>"
    from d e False obtain c s' where h: "route_record ft ?s (take m (st_buffer s)) = Inr (c, s')"
      and r: "map_sum (\<lambda>e. e) (\<lambda>(chunks, s''). (c # chunks, s'')) (consumeDelimited ft True s') = Inr (cs, t)"
      by (auto simp: m_def Let_def split: if_splits sum.splits)
    from r obtain cs' where r': "consumeDelimited ft True s' = Inr (cs', t)" "cs = c # cs'"
      by (auto simp: map_sum_Inr_iff)
    note b = route_record_buffer [OF h]
    from h less.prems(2) have sh: "stream_handle ft fb ?s (take m (st_buffer s)) = Inr (c, s')"
      by (simp add: stream_handle_def)
    have "emits ft fb (clear s') cs' (clear t) \<and> concat (map ch_Data cs') = st_buffer s' \<and> st_buffer t = []"
      using b m False less.prems(2) stream_handle_same [OF sh]
      by (intro less.hyps [OF _ r'(1)]) (auto simp: same_copy_def)
    with stream_handle_clear [OF sh] b r'(2) show ?thesis by (auto intro: emits_cons)
  qed
qed

lemma Write_emits:
  assumes "Write ft fb s data = Inr (cs, t)" and "plain_format s"
  shows "emits ft fb (clear s) cs (clear t) \<and> concat (map ch_Data cs) @ st_buffer t = st_buffer s @ data"
proof (cases "data = []")
  case True
  with assms(1) show ?thesis by (simp add: Write_def)
next
  case False
  from assms(1) Write_drain [OF assms(2) False, of ft fb] obtain t' rest
    where d: "drain stream_end (stream_handle ft fb) s (st_buffer s @ data) = Inr (cs, t', rest)"
      and t: "t = t'\<lparr>st_buffer := rest\<rparr>" by (auto split: sum.splits if_splits)
  from emits_clear [OF drain_emits [OF d]] copy_in.drain_lossless [OF d] t show ?thesis by simp
qed

lemma Finish_emits:
  assumes "Finish ft fb s = Inr (cs, t)"
  shows "emits ft fb (clear s) cs (clear t) \<and> concat (map ch_Data cs) = st_buffer s"
proof (cases "cpl_Format (st_plan s) = FormatBinary")
  case True
  with assms have "consumeBinary ft fb s = Inr (cs, t)" and e: "st_buffer t = []"
    by (auto simp: Finish_def FormatText_def FormatCSV_def FormatBinary_def split: sum.splits if_splits)
  with consumeBinary_drain [of ft fb "st_buffer s" s]
  have "map_sum (\<lambda>e. e) settle (drain binary_end (binary_handle ft fb) s (st_buffer s)) = Inr (cs, t)" by simp
  with True obtain t' rest
    where d: "drain stream_end (stream_handle ft fb) s (st_buffer s) = Inr (cs, t', rest)"
      and t: "t = t'\<lparr>st_buffer := rest\<rparr>" by (auto simp: drain_format map_sum_Inr_iff settle_def)
  from emits_clear [OF drain_emits [OF d]] copy_in.drain_lossless [OF d] t e show ?thesis by simp
next
  case False
  with assms have "consumeDelimited ft True s = Inr (cs, t)"
    by (auto simp: Finish_def split: sum.splits if_splits)
  from final_emits [OF this False] show ?thesis by simp
qed

subsection \<open>A whole COPY\<close>

text \<open>The CopyData messages of one command, written one after the other.\<close>

fun write_all :: "float_codec \<Rightarrow> float_bits \<Rightarrow> Stream \<Rightarrow> bytes list \<Rightarrow> copy_error + (Chunk list \<times> Stream)" where
  "write_all ft fb s [] = Inr ([], s)"
| "write_all ft fb s (p # ps) = (case Write ft fb s p of Inl e \<Rightarrow> Inl e
     | Inr (cs, s') \<Rightarrow> map_sum (\<lambda>e. e) (\<lambda>(ds, t). (cs @ ds, t)) (write_all ft fb s' ps))"

lemma write_all_Cons_Inr:
  "write_all ft fb s (p # ps) = Inr (cs, t) \<longleftrightarrow>
     (\<exists>as s' bs. Write ft fb s p = Inr (as, s') \<and> write_all ft fb s' ps = Inr (bs, t) \<and> cs = as @ bs)"
  by (cases "Write ft fb s p") (auto simp: map_sum_Inr_iff)

lemma emits_same: "emits ft fb s cs t \<Longrightarrow> same_copy s t"
  by (induction rule: emits.induct) (auto simp: same_copy_def dest!: stream_handle_same)

lemma Write_plain: "Write ft fb s p = Inr (cs, t) \<Longrightarrow> plain_format s \<Longrightarrow> plain_format t"
  using Write_emits [of ft fb s p cs t] emits_same [of ft fb "clear s" cs "clear t"]
  by (simp add: plain_format_def same_copy_def)

lemma write_all_emits:
  "write_all ft fb s ps = Inr (cs, t) \<Longrightarrow> plain_format s \<Longrightarrow>
     emits ft fb (clear s) cs (clear t) \<and> concat (map ch_Data cs) @ st_buffer t = st_buffer s @ concat ps"
proof (induction ps arbitrary: s cs)
  case (Cons p ps)
  from Cons.prems(1) obtain as s' bs where w: "Write ft fb s p = Inr (as, s')" "write_all ft fb s' ps = Inr (bs, t)"
    and cs: "cs = as @ bs" unfolding write_all_Cons_Inr by blast
  note a = Write_emits [OF w(1) Cons.prems(2)]
  note b = Cons.IH [OF w(2) Write_plain [OF w(1) Cons.prems(2)]]
  have "concat (map ch_Data cs) @ st_buffer t = (concat (map ch_Data as) @ st_buffer s') @ concat ps"
    using b cs by simp
  with a b cs show ?case by (auto intro: emits_append)
qed simp

text \<open>A stream is quiet when its buffered bytes hold no complete frame; every reachable one is.\<close>

definition quiet :: "float_codec \<Rightarrow> float_bits \<Rightarrow> Stream \<Rightarrow> bool" where
  "quiet ft fb s = (drain stream_end (stream_handle ft fb) (clear s) (st_buffer s) = Inr ([], clear s, st_buffer s))"

lemma stream_end_any_buffer: "stream_end (s\<lparr>st_buffer := x\<rparr>) b = stream_end s b"
  by (simp add: stream_end_def binary_end_def delimited_end_def Let_def split: row_scan.split)

lemma drain_any_buffer:
  "drain stream_end (stream_handle ft fb) (s\<lparr>st_buffer := x\<rparr>) b
     = map_sum (\<lambda>e. e) (\<lambda>(cs, t, rest). (cs, t\<lparr>st_buffer := x\<rparr>, rest)) (drain stream_end (stream_handle ft fb) s b)"
proof (induction "length b" arbitrary: s b rule: less_induct)
  case less
  have "drain stream_end (stream_handle ft fb) (t\<lparr>st_buffer := x\<rparr>) (drop n b)
      = map_sum (\<lambda>e. e) (\<lambda>(cs, t, rest). (cs, t\<lparr>st_buffer := x\<rparr>, rest)) (drain stream_end (stream_handle ft fb) t (drop n b))"
    if "0 < n" "n \<le> length b" for n t
    using that by (intro less.hyps) auto
  then show ?case
    unfolding drain.simps [of _ _ _ b] stream_end_any_buffer stream_handle_any_buffer
    by (auto simp: sum.map_comp comp_def case_prod_beta split: sum.split)
qed

lemma Write_clear:
  assumes "plain_format s" and "data \<noteq> [] \<or> quiet ft fb s \<and> int (length (st_buffer s)) \<le> MaxRowBytes"
  shows "Write ft fb s data = (case drain stream_end (stream_handle ft fb) (clear s) (st_buffer s @ data) of Inl e \<Rightarrow> Inl e
    | Inr (cs, t, rest) \<Rightarrow> if int (length rest) > MaxRowBytes then Inl RowTooLarge else Inr (cs, t\<lparr>st_buffer := rest\<rparr>))"
proof (cases "data = []")
  case True
  with assms(2) show ?thesis by (auto simp: Write_def quiet_def)
next
  case False
  show ?thesis
    unfolding Write_drain [OF assms(1) False] clear_def drain_any_buffer by (auto split: sum.split)
qed

lemma drain_clear:
  assumes "drain stream_end (stream_handle ft fb) (clear s) b = Inr (cs, t, rest)"
  shows "clear t = t"
  using drain_any_buffer [of ft fb "[]" s b] assms by (auto simp: clear_def map_sum_Inr_iff)

definition fresh :: "float_codec \<Rightarrow> float_bits \<Rightarrow> Stream \<Rightarrow> bool" where
  "fresh ft fb s = (plain_format s \<and> quiet ft fb s \<and> int (length (st_buffer s)) \<le> MaxRowBytes)"

lemma fresh_Write:
  assumes "fresh ft fb s"
  shows "Write ft fb s data = (case drain stream_end (stream_handle ft fb) (clear s) (st_buffer s @ data) of Inl e \<Rightarrow> Inl e
    | Inr (cs, t, rest) \<Rightarrow> if int (length rest) > MaxRowBytes then Inl RowTooLarge else Inr (cs, t\<lparr>st_buffer := rest\<rparr>))"
  using assms by (intro Write_clear) (auto simp: fresh_def)

lemma Write_fresh:
  assumes "Write ft fb s data = Inr (cs, t)" and "fresh ft fb s"
  shows "fresh ft fb t \<and> drain stream_end (stream_handle ft fb) (clear s) (st_buffer s @ data) = Inr (cs, clear t, st_buffer t)"
proof -
  from assms fresh_Write [OF assms(2)] obtain t' rest
    where d: "drain stream_end (stream_handle ft fb) (clear s) (st_buffer s @ data) = Inr (cs, t', rest)"
      and t: "t = t'\<lparr>st_buffer := rest\<rparr>" and l: "int (length rest) \<le> MaxRowBytes"
    by (auto split: sum.splits if_splits)
  from drain_clear [OF d] copy_in.drain_quiet [OF d] t have "quiet ft fb t" by (simp add: quiet_def)
  with d t l drain_clear [OF d] Write_plain [OF assms(1)] assms(2) show ?thesis by (simp add: fresh_def)
qed

lemma write_all_packets:
  "write_all ft fb s ps = Inr (cs, t) \<Longrightarrow> fresh ft fb s \<Longrightarrow>
     fresh ft fb t \<and> drain_packets stream_end (stream_handle ft fb) (clear s) (st_buffer s) ps = Inr (cs, clear t, st_buffer t)"
proof (induction ps arbitrary: s cs)
  case (Cons p ps)
  from Cons.prems(1) obtain as s' bs where w: "Write ft fb s p = Inr (as, s')" "write_all ft fb s' ps = Inr (bs, t)"
    and cs: "cs = as @ bs" unfolding write_all_Cons_Inr by blast
  from Write_fresh [OF w(1) Cons.prems(2)] Cons.IH [OF w(2)] cs show ?case by simp
qed simp

lemma write_all_concat:
  assumes "write_all ft fb s ps = Inr (cs, t)" and "fresh ft fb s"
  shows "Write ft fb s (concat ps) = Inr (cs, t)"
proof -
  note w = write_all_packets [OF assms]
  from assms(2) have "drain stream_end (stream_handle ft fb) (clear s) (st_buffer s) = Inr ([], clear s, st_buffer s)"
    by (simp add: fresh_def quiet_def)
  from copy_in.packets_concat [OF this] w
  have "drain stream_end (stream_handle ft fb) (clear s) (st_buffer s @ concat ps) = Inr (cs, clear t, st_buffer t)" by simp
  with fresh_Write [OF assms(2)] w show ?thesis by (simp add: fresh_def)
qed

lemma write_all_small:
  "fresh ft fb s \<Longrightarrow> int (length (st_buffer s @ concat ps)) \<le> MaxRowBytes \<Longrightarrow>
     write_all ft fb s ps = map_sum (\<lambda>e. e) settle (drain_packets stream_end (stream_handle ft fb) (clear s) (st_buffer s) ps)"
proof (induction ps arbitrary: s)
  case Nil
  then show ?case by (simp add: settle_def)
next
  case (Cons p ps)
  show ?case
  proof (cases "drain stream_end (stream_handle ft fb) (clear s) (st_buffer s @ p)")
    case (Inl e)
    with fresh_Write [OF Cons.prems(1), of p] show ?thesis by simp
  next
    case (Inr r)
    obtain cs t rest where r: "r = (cs, t, rest)" by (cases r)
    note d = Inr [unfolded r]
    from copy_in.drain_lossless [OF d] have l: "st_buffer s @ p = concat (map ch_Data cs) @ rest" by simp
    then have len: "length (st_buffer s) + length p = length (concat (map ch_Data cs)) + length rest"
      by (metis length_append)
    with Cons.prems(2) have small: "int (length (rest @ concat ps)) \<le> MaxRowBytes" by simp
    let ?t = "t\<lparr>st_buffer := rest\<rparr>"
    have w: "Write ft fb s p = Inr (cs, ?t)" using fresh_Write [OF Cons.prems(1), of p] d small by simp
    from Cons.IH [of ?t] Write_fresh [OF w Cons.prems(1)] small drain_clear [OF d] w d show ?thesis
      by (simp add: sum.map_comp comp_def case_prod_beta settle_def)
  qed
qed

lemma NewStream_fresh:
  assumes "NewStream plan r bs = Inr s" and "cpl_Format plan \<in> {FormatText, FormatCSV, FormatBinary}"
  shows "fresh ft fb s" "clear s = s" "st_buffer s = []" "st_rows s = 0" "st_plan s = plan"
    "st_headerPending s = cpl_Header plan" "\<not> st_binaryHeader s" "\<not> st_binaryTrailer s"
proof -
  from assms show b: "st_buffer s = []" "clear s = s" "st_rows s = 0" "st_plan s = plan"
    "st_headerPending s = cpl_Header plan" "\<not> st_binaryHeader s" "\<not> st_binaryTrailer s"
    by (auto simp: NewStream_def clear_def split: if_splits)
  have "stream_end s [] = Inr 0"
    using b by (simp add: stream_end_def binary_end_def binary_header_def delimited_end_def delimitedRecordEnd_def)
  then have "drain stream_end (stream_handle ft fb) s [] = Inr ([], s, [])" by (simp add: drain.simps)
  then show "fresh ft fb s"
    using b(1,4) assms(2) unfolding fresh_def quiet_def plain_format_def b(2) by (auto simp: MaxRowBytes_def)
qed

section \<open>What a COPY FROM stream promises\<close>

text \<open>The Burrow that owns the row with the given bytes.\<close>

definition row_owner :: "float_codec \<Rightarrow> float_bits \<Rightarrow> Stream \<Rightarrow> bytes \<Rightarrow> copy_error + string" where
  "row_owner ft fb s row =
     (if cpl_Format (st_plan s) = FormatBinary then binary_row_owner ft fb s row
      else targetForRecord ft s (trimRecordTerminator row))"

text \<open>Untargeted data after the leading header: the end marker of the format.\<close>

definition end_frame :: "Stream \<Rightarrow> bytes \<Rightarrow> bool" where
  "end_frame s row =
     (if cpl_Format (st_plan s) = FormatBinary then to_signed 16 (be_val (take 2 row)) = -1
      else end_marker s (trimRecordTerminator row))"

definition awaits_header :: "Stream \<Rightarrow> bool" where
  "awaits_header s = (if cpl_Format (st_plan s) = FormatBinary then \<not> st_binaryHeader s else st_headerPending s)"

lemma owner_nonempty: "owner_of_key ft s vs = Inr t \<Longrightarrow> t \<noteq> []"
  by (auto simp: owner_of_key_def split: option.splits if_splits)

lemma row_owner_nonempty: "row_owner ft fb s row = Inr t \<Longrightarrow> t \<noteq> []"
  by (auto simp: row_owner_def binary_row_owner_def targetForRecord_def dest: owner_nonempty
      split: if_splits row_scan.splits sum.splits)

lemma row_owner_same:
  assumes "same_copy s t"
  shows "row_owner ft fb t row = row_owner ft fb s row"
proof -
  from assms have eq: "owner_of_key ft t = owner_of_key ft s" "st_plan t = st_plan s"
    by (auto simp: same_copy_def owner_of_key_def fun_eq_iff)
  show ?thesis unfolding row_owner_def binary_row_owner_def targetForRecord_def eq ..
qed

lemma stream_handle_cases:
  assumes "stream_handle ft fb s f = Inr (c, t)"
  obtains (header) "awaits_header s" "\<not> awaits_header t" "ch_Target c = []" "st_rows t = st_rows s"
    | (marker) "\<not> awaits_header s" "\<not> awaits_header t" "ch_Target c = []" "end_frame s (ch_Data c)" "st_rows t = st_rows s"
    | (row) "\<not> awaits_header s" "\<not> awaits_header t" "ch_Target c \<noteq> []"
        "row_owner ft fb s (ch_Data c) = Inr (ch_Target c)" "st_rows t = st_rows s + 1"
proof (cases "cpl_Format (st_plan s) = FormatBinary")
  case True
  with assms have h: "binary_handle ft fb s f = Inr (c, t)" by (simp add: stream_handle_def)
  consider (a) "awaits_header s" | (m) "\<not> awaits_header s" "end_frame s f" | (r) "\<not> awaits_header s" "\<not> end_frame s f"
    by blast
  then show thesis
  proof cases
    case a
    with a True \<open>binary_handle ft fb s f = _\<close> show thesis
      by (intro header) (auto simp: binary_handle_def awaits_header_def)
  next
    case m
    with m True h show thesis
      by (intro marker) (auto simp: binary_handle_def awaits_header_def end_frame_def)
  next
    case r
    with r True h row_owner_nonempty [of ft fb s f] show thesis
      by (intro row) (auto simp: binary_handle_def awaits_header_def end_frame_def row_owner_def map_sum_Inr_iff)
  qed
next
  case False
  with assms have h: "route_record ft s f = Inr (c, t)" by (simp add: stream_handle_def)
  consider (a) "awaits_header s" | (m) "\<not> awaits_header s" "end_frame s f" | (r) "\<not> awaits_header s" "\<not> end_frame s f"
    by blast
  then show thesis
  proof cases
    case a
    with a False \<open>route_record ft s f = _\<close> show thesis
      by (intro header) (auto simp: route_record_def awaits_header_def)
  next
    case m
    with m False h show thesis
      by (intro marker) (auto simp: route_record_def awaits_header_def end_frame_def)
  next
    case r
    with r False h row_owner_nonempty [of ft fb s f] show thesis
      by (intro row) (auto simp: route_record_def awaits_header_def end_frame_def row_owner_def split: sum.splits)
  qed
qed

definition targeted :: "Chunk \<Rightarrow> bool" where
  "targeted c = (ch_Target c \<noteq> [])"

text \<open>What a run of the decoder from \<open>s\<close> may emit.\<close>

definition run_ok :: "float_codec \<Rightarrow> float_bits \<Rightarrow> Stream \<Rightarrow> Chunk list \<Rightarrow> Stream \<Rightarrow> bool" where
  "run_ok ft fb s cs t =
     ((\<forall>c\<in>set cs. targeted c \<longrightarrow> row_owner ft fb s (ch_Data c) = Inr (ch_Target c))
      \<and> (awaits_header s \<and> cs \<noteq> [] \<longrightarrow> \<not> targeted (hd cs))
      \<and> (\<forall>c\<in>set (drop (if awaits_header s then 1 else 0) cs). \<not> targeted c \<longrightarrow> end_frame s (ch_Data c))
      \<and> st_rows t = st_rows s + int (length (filter targeted cs)))"

lemma end_frame_same: "same_copy s t \<Longrightarrow> end_frame t row = end_frame s row"
  by (simp add: end_frame_def end_marker_def same_copy_def)

lemma emits_run_ok: "emits ft fb s cs t \<Longrightarrow> run_ok ft fb s cs t"
proof (induction rule: emits.induct)
  case (emits_nil s)
  show ?case by (simp add: run_ok_def)
next
  case (emits_cons s f c t cs u)
  note same = stream_handle_same [OF emits_cons(1)]
  from emits_cons(1) show ?case
    using emits_cons.IH row_owner_same [OF same] end_frame_same [OF same]
    by (cases rule: stream_handle_cases) (auto simp: run_ok_def targeted_def)
qed

lemma key_texts_Inr:
  "key_texts plan fs is = Inr vs \<Longrightarrow> vs = map (\<lambda>i. cf_value (fs ! i)) is
     \<and> (\<forall>i\<in>set is. \<not> cf_null (fs ! i) \<and> utf8_valid (cf_value (fs ! i)))"
  by (induction "is" arbitrary: vs) (auto simp: Let_def map_sum_Inr_iff split: if_splits)

lemma copy_run:
  assumes "NewStream plan r bs = Inr s" and "cpl_Format plan \<in> {FormatText, FormatCSV, FormatBinary}"
    and "write_all ft fb s ps = Inr (cs, t)" and "Finish ft fb t = Inr (ds, u)"
  shows "emits ft fb s (cs @ ds) (clear u) \<and> concat (map ch_Data (cs @ ds)) = concat ps"
proof -
  note n = NewStream_fresh [OF assms(1,2)]
  from n(1) have "plain_format s" by (simp add: fresh_def)
  from write_all_emits [OF assms(3) this] Finish_emits [OF assms(4)] n(2,3) show ?thesis
    by (auto intro: emits_append)
qed

definition sample_stream :: Stream where
  "sample_stream = (case NewStream sample_plan sample_registry [''a'', ''b''] of Inr s \<Rightarrow> s)"

definition sample_packets :: "bytes list" where
  "sample_packets = [''ann,'', ''7'' @ [CR, LF] @ ''bob,'', ''012'']"

definition sample_chunks :: "Chunk list" where
  "sample_chunks = fst (projr (write_all (\<lambda>b s. None) (\<lambda>b n. []) sample_stream sample_packets))"

definition sample_written :: Stream where
  "sample_written = snd (projr (write_all (\<lambda>b s. None) (\<lambda>b n. []) sample_stream sample_packets))"

definition sample_rest :: "Chunk list" where
  "sample_rest = fst (projr (Finish (\<lambda>b s. None) (\<lambda>b n. []) sample_written))"

definition sample_finished :: Stream where
  "sample_finished = snd (projr (Finish (\<lambda>b s. None) (\<lambda>b n. []) sample_written))"

lemma sample_run:
  "NewStream sample_plan sample_registry [''a'', ''b''] = Inr sample_stream"
  "cpl_Format sample_plan \<in> {FormatText, FormatCSV, FormatBinary}"
  "write_all (\<lambda>b s. None) (\<lambda>b n. []) sample_stream sample_packets = Inr (sample_chunks, sample_written)"
  "Finish (\<lambda>b s. None) (\<lambda>b n. []) sample_written = Inr (sample_rest, sample_finished)"
  by code_simp+

text \<open>No byte of a COPY FROM stream is lost, duplicated or reordered: when the whole command
  succeeds, the data of the emitted chunks is exactly the data the client sent.\<close>

theorem copy_stream_lossless:
  assumes "NewStream plan r bs = Inr s" and "cpl_Format plan \<in> {FormatText, FormatCSV, FormatBinary}"
    and "write_all ft fb s ps = Inr (cs, t)" and "Finish ft fb t = Inr (ds, u)"
  shows "concat (map ch_Data (cs @ ds)) = concat ps"
  using copy_run [OF assms] by simp

theorem copy_stream_lossless_witness:
  "concat (map ch_Data (sample_chunks @ sample_rest)) = ''ann,7'' @ [CR, LF] @ ''bob,012''"
proof -
  have "concat sample_packets = ''ann,7'' @ [CR, LF] @ ''bob,012''" by code_simp
  with copy_stream_lossless [OF sample_run] show ?thesis by simp
qed



text \<open>C14. How the network cuts the stream into CopyData messages does not matter: a sequence of
  accepted writes emits the chunks of one write of the concatenated bytes and ends in the same
  state, and while the command fits the row limit an error of one is the error of the other.\<close>

theorem copy_packets_independent:
  assumes "NewStream plan r bs = Inr s" and "cpl_Format plan \<in> {FormatText, FormatCSV, FormatBinary}"
  shows "(write_all ft fb s ps = Inr (cs, t) \<longrightarrow> Write ft fb s (concat ps) = Inr (cs, t))
    \<and> (int (length (concat ps)) \<le> MaxRowBytes \<longrightarrow> write_all ft fb s ps = Write ft fb s (concat ps))"
proof -
  note n = NewStream_fresh [OF assms]
  have q: "drain stream_end (stream_handle ft fb) (clear s) (st_buffer s) = Inr ([], clear s, st_buffer s)"
    using n(1) by (simp add: fresh_def quiet_def)
  have "write_all ft fb s ps = Write ft fb s (concat ps)" if "int (length (concat ps)) \<le> MaxRowBytes"
  proof -
    have "write_all ft fb s [concat ps] = map_sum (\<lambda>e. e) settle
        (drain stream_end (stream_handle ft fb) (clear s) (st_buffer s @ concat ps))"
      using write_all_small [OF n(1), of "[concat ps]"] copy_in.packets_concat [OF q, of "[concat ps]"] n(3) that by simp
    moreover have "write_all ft fb s [concat ps] = Write ft fb s (concat ps)"
      by (auto split: sum.split)
    ultimately show ?thesis
      using write_all_small [OF n(1), of ps] copy_in.packets_concat [OF q, of ps] n(3) that by simp
  qed
  with write_all_concat [OF _ n(1)] show ?thesis by blast
qed

theorem copy_packets_independent_witness:
  "Write (\<lambda>b s. None) (\<lambda>b n. []) sample_stream (''ann,7'' @ [CR, LF] @ ''bob,012'') = Inr (sample_chunks, sample_written)"
proof -
  have "concat sample_packets = ''ann,7'' @ [CR, LF] @ ''bob,012''" by code_simp
  with copy_packets_independent [OF sample_run(1,2), of "\<lambda>b s. None" "\<lambda>b n. []" sample_packets] sample_run(3)
  show ?thesis by simp
qed



end
