(* ===== verification/Copy_Output.thy ===== *)
theory Copy_Output
  imports Copy_Routing
begin

text \<open>
  The output half of \<^verbatim>\<open>internal/copyrouter/copy.go\<close>: the COPY TO streams of the Burrows are
  forwarded one after the other with a single CSV header or binary envelope.
\<close>

record OutputStream =
  ous_plan :: CopyPlan
  ous_first :: bool
  ous_last :: bool
  ous_headerPending :: bool
  ous_binaryHeader :: bool
  ous_binaryTrailer :: bool
  ous_buffer :: bytes

definition NewOutputStream :: "CopyPlan \<Rightarrow> nat \<Rightarrow> nat \<Rightarrow> OutputStream" where
  "NewOutputStream plan index n =
     \<lparr>ous_plan = plan, ous_first = (index = 0), ous_last = (index + 1 = n),
      ous_headerPending = (cpl_Format plan = FormatCSV \<and> cpl_Header plan \<and> index > 0),
      ous_binaryHeader = False, ous_binaryTrailer = False, ous_buffer = []\<rparr>"

function output_rows :: "OutputStream \<Rightarrow> copy_error + (bytes list \<times> OutputStream)" where
  "output_rows s =
     (if length (ous_buffer s) < 2 \<or> ous_binaryTrailer s then Inr ([], s)
      else (let columns = to_signed 16 (be_val (take 2 (ous_buffer s))) in
        if columns = -1
        then Inr (if ous_last s then [take 2 (ous_buffer s)] else [],
                  s\<lparr>ous_buffer := drop 2 (ous_buffer s), ous_binaryTrailer := True\<rparr>)
        else if columns < 0 then Inl (InvalidFieldCount columns)
        else (case scan_fields (nat columns) (ous_buffer s) 2 of
            TooLarge \<Rightarrow> Inl FieldTooLarge
          | Incomplete \<Rightarrow> Inr ([], s)
          | Row fs position \<Rightarrow>
              map_sum (\<lambda>e. e) (\<lambda>(out, s'). (take position (ous_buffer s) # out, s'))
                (output_rows (s\<lparr>ous_buffer := drop position (ous_buffer s)\<rparr>)))))"
  by pat_completeness auto
termination
  by (relation "measure (\<lambda>s. length (ous_buffer s))") (auto dest!: scan_fields_forward)

declare output_rows.simps [simp del]

definition check_output_trailer :: "bytes list \<times> OutputStream \<Rightarrow> copy_error + (bytes list \<times> OutputStream)" where
  "check_output_trailer r =
     (if ous_binaryTrailer (snd r) \<and> length (ous_buffer (snd r)) \<noteq> 0 then Inl DataAfterTrailer else Inr r)"

definition consumeBinaryOutput :: "OutputStream \<Rightarrow> copy_error + (bytes list \<times> OutputStream)" where
  "consumeBinaryOutput s =
     (if ous_binaryHeader s
      then (case output_rows s of Inl e \<Rightarrow> Inl e | Inr r \<Rightarrow> check_output_trailer r)
      else (case binary_header (ous_buffer s) of Inl e \<Rightarrow> Inl e
        | Inr None \<Rightarrow> Inr ([], s)
        | Inr (Some n) \<Rightarrow>
            (case output_rows (s\<lparr>ous_buffer := drop n (ous_buffer s), ous_binaryHeader := True\<rparr>) of
               Inl e \<Rightarrow> Inl e
             | Inr (out, s') \<Rightarrow>
                 check_output_trailer ((if ous_first s then [take n (ous_buffer s)] else []) @ out, s'))))"

definition output_Write :: "OutputStream \<Rightarrow> bytes \<Rightarrow> copy_error + (bytes list \<times> OutputStream)" where
  "output_Write s data =
     (if length data = 0 then Inr ([], s)
      else if cpl_Format (ous_plan s) = FormatBinary
      then (case consumeBinaryOutput (s\<lparr>ous_buffer := ous_buffer s @ data\<rparr>) of Inl e \<Rightarrow> Inl e
        | Inr (parts, s') \<Rightarrow>
            if int (length (ous_buffer s')) > MaxRowBytes then Inl RowTooLarge else Inr (parts, s'))
      else if \<not> ous_headerPending s then Inr ([data], s)
      else (let s = s\<lparr>ous_buffer := ous_buffer s @ data\<rparr>;
                (end', quoted) = delimitedRecordEnd (ous_buffer s) (ous_plan s) in
        if end' = 0
        then (if quoted \<and> int (length (ous_buffer s)) > MaxRowBytes then Inl HeaderTooLarge else Inr ([], s))
        else (let remainder = drop end' (ous_buffer s);
                  s = s\<lparr>ous_headerPending := False, ous_buffer := []\<rparr> in
          if length remainder = 0 then Inr ([], s) else Inr ([remainder], s))))"

definition output_Finish :: "OutputStream \<Rightarrow> copy_error + (bytes list \<times> OutputStream)" where
  "output_Finish s =
     (if cpl_Format (ous_plan s) = FormatBinary
      then (case consumeBinaryOutput s of Inl e \<Rightarrow> Inl e
        | Inr (parts, s') \<Rightarrow>
            if length (ous_buffer s') \<noteq> 0 \<or> \<not> ous_binaryHeader s' \<or> \<not> ous_binaryTrailer s' then Inl IncompleteBinary
            else Inr (parts, s'))
      else if ous_headerPending s then Inl EndedBeforeHeader
      else Inr ([], s))"

section \<open>The binary decoder as a stream machine\<close>

text \<open>Each frame is paired with whether it is forwarded.\<close>

definition out_end :: "OutputStream \<Rightarrow> bytes \<Rightarrow> copy_error + nat" where
  "out_end s buf =
     (if \<not> ous_binaryHeader s
      then map_sum (\<lambda>e. e) (\<lambda>n. case n of None \<Rightarrow> 0 | Some n \<Rightarrow> n) (binary_header buf)
      else if ous_binaryTrailer s then (if buf = [] then Inr 0 else Inl DataAfterTrailer)
      else if length buf < 2 then Inr 0
      else (let columns = to_signed 16 (be_val (take 2 buf)) in
        if columns = -1 then Inr 2
        else if columns < 0 then Inl (InvalidFieldCount columns)
        else (case scan_fields (nat columns) buf 2 of TooLarge \<Rightarrow> Inl FieldTooLarge
          | Incomplete \<Rightarrow> Inr 0 | Row fs position \<Rightarrow> Inr position)))"

definition out_handle :: "OutputStream \<Rightarrow> bytes \<Rightarrow> copy_error + ((bytes \<times> bool) \<times> OutputStream)" where
  "out_handle s f =
     Inr (if \<not> ous_binaryHeader s then ((f, ous_first s), s\<lparr>ous_binaryHeader := True\<rparr>)
       else if to_signed 16 (be_val (take 2 f)) = -1 then ((f, ous_last s), s\<lparr>ous_binaryTrailer := True\<rparr>)
       else ((f, True), s))"

lemma out_end_row:
  assumes "out_end s buf = Inr n" and "0 < n" and "ous_binaryHeader s"
  shows "\<not> ous_binaryTrailer s \<and> 2 \<le> n \<and> n \<le> length buf
    \<and> (to_signed 16 (be_val (take 2 buf)) = -1 \<and> n = 2
       \<or> 0 \<le> to_signed 16 (be_val (take 2 buf))
          \<and> (\<exists>fs. scan_fields (nat (to_signed 16 (be_val (take 2 buf)))) buf 2 = Row fs n))"
proof -
  from assms have t: "\<not> ous_binaryTrailer s" "\<not> length buf < 2"
    by (auto simp: out_end_def split: if_splits)
  show ?thesis
  proof (cases "to_signed 16 (be_val (take 2 buf)) = -1")
    case True
    with assms t show ?thesis by (simp add: out_end_def)
  next
    case False
    with assms t have c: "0 \<le> to_signed 16 (be_val (take 2 buf))"
      by (auto simp: out_end_def Let_def split: if_splits)
    with assms t False obtain fs
      where fs: "scan_fields (nat (to_signed 16 (be_val (take 2 buf)))) buf 2 = Row fs n"
      by (auto simp: out_end_def Let_def split: if_splits row_scan.splits)
    with scan_fields_bound [OF fs] scan_fields_forward [OF fs] t c show ?thesis by simp
  qed
qed

interpretation out: lossless_machine out_end out_handle fst
proof unfold_locales
  show "n \<le> length buf" if "out_end s buf = Inr n" for s buf n
  proof (cases "ous_binaryHeader s")
    case True
    with that out_end_row [OF that] show ?thesis by (cases n) auto
  next
    case False
    with that binary_header_cases(1) show ?thesis
      by (auto simp: out_end_def map_sum_Inr_iff split: option.splits)
  qed
  show "out_end s (buf @ ys) = Inr n" if "out_end s buf = Inr n" "0 < n" for s buf n ys
  proof (cases "ous_binaryHeader s")
    case True
    from out_end_row [OF that True] have tk: "take 2 (buf @ ys) = take 2 buf" by simp
    have sc: "scan_fields k (buf @ ys) 2 = Row fs n" if "scan_fields k buf 2 = Row fs n" for k fs
      using scan_fields_append [of k buf 2 ys] that by simp
    with out_end_row [OF that True] True tk show ?thesis
      by (auto simp: out_end_def Let_def simp del: take_append)
  next
    case False
    with that binary_header_cases(2) show ?thesis
      by (auto simp: out_end_def map_sum_Inr_iff split: option.splits)
  qed
  show "out_end s (buf @ ys) = Inl e" if "out_end s buf = Inl e" for s buf ys e
  proof (cases "ous_binaryHeader s \<and> \<not> ous_binaryTrailer s")
    case True
    with that have l: "\<not> length buf < 2" by (auto simp: out_end_def split: if_splits)
    then have tk: "take 2 (buf @ ys) = take 2 buf" by simp
    have sc: "scan_fields k (buf @ ys) 2 = TooLarge" if "scan_fields k buf 2 = TooLarge" for k
      using scan_fields_append [of k buf 2 ys] that by simp
    with that True l tk show ?thesis
      by (auto simp: out_end_def Let_def split: if_splits row_scan.splits simp del: take_append)
  next
    case False
    with that binary_header_cases(3) show ?thesis
      by (auto simp: out_end_def map_sum_Inl_iff split: if_splits)
  qed
  show "fst c = f" if "out_handle s f = Inr (c, s')" for s s' f c
    using that by (auto simp: out_handle_def split: if_splits)
qed

definition out_parts :: "(bytes \<times> bool) list \<Rightarrow> bytes list" where
  "out_parts cs = map fst (filter snd cs)"

definition out_settle :: "(bytes \<times> bool) list \<times> OutputStream \<times> bytes \<Rightarrow> bytes list \<times> OutputStream" where
  "out_settle r = (case r of (cs, t, rest) \<Rightarrow> (out_parts cs, t\<lparr>ous_buffer := rest\<rparr>))"

definition checked_output :: "OutputStream \<Rightarrow> copy_error + (bytes list \<times> OutputStream)" where
  "checked_output s = (case output_rows s of Inl e \<Rightarrow> Inl e | Inr r \<Rightarrow> check_output_trailer r)"

lemma check_output_trailer_append:
  "check_output_trailer (xs @ out, s) = map_sum (\<lambda>e. e) (\<lambda>(out, s). (xs @ out, s)) (check_output_trailer (out, s))"
  by (simp add: check_output_trailer_def)

lemma checked_output_drain:
  "ous_binaryHeader s \<Longrightarrow> checked_output (s\<lparr>ous_buffer := b\<rparr>) = map_sum (\<lambda>e. e) out_settle (drain out_end out_handle s b)"
proof (induction "length b" arbitrary: s b rule: less_induct)
  case less
  let ?c = "to_signed 16 (be_val (take 2 b))"
  note unf = checked_output_def output_rows.simps [of "s\<lparr>ous_buffer := b\<rparr>"] drain.simps [of _ _ s b]
    out_end_def [of s b] out_settle_def out_parts_def less.prems
  show ?case
  proof (cases "length b < 2 \<or> ous_binaryTrailer s")
    case True
    then show ?thesis by (auto simp: unf check_output_trailer_def)
  next
    case F: False
    show ?thesis
    proof (cases "?c < 0")
      case True
      show ?thesis
      proof (cases "?c = -1")
        case e: True
        with F show ?thesis
          by (simp add: unf check_output_trailer_def out_handle_def min_def drain.simps [of _ _ _ "drop 2 b"] out_end_def)
      next
        case e: False
        with True F show ?thesis by (simp add: unf Let_def)
      qed
    next
      case C: False
      then have "?c \<noteq> -1" by linarith
      show ?thesis
      proof (cases "scan_fields (nat ?c) b 2")
        case (Row fs n)
        from scan_fields_bound [OF Row] scan_fields_forward [OF Row] F have n: "2 \<le> n" "n \<le> length b" by auto
        have "checked_output (s\<lparr>ous_buffer := drop n b\<rparr>) = map_sum (\<lambda>e. e) out_settle (drain out_end out_handle s (drop n b))"
          using n F less.prems by (intro less.hyps) auto
        moreover have "drain out_end out_handle s b
            = map_sum (\<lambda>e. e) (\<lambda>(cs, t). ((take n b, True) # cs, t)) (drain out_end out_handle s (drop n b))"
          using F C Row n \<open>?c \<noteq> -1\<close> by (simp add: unf out_handle_def min_def)
        moreover have "checked_output (s\<lparr>ous_buffer := b\<rparr>)
            = map_sum (\<lambda>e. e) (\<lambda>(out, t). (take n b # out, t)) (checked_output (s\<lparr>ous_buffer := drop n b\<rparr>))"
          using F C Row \<open>?c \<noteq> -1\<close> check_output_trailer_append [of "[take n b]"]
          by (cases "output_rows (s\<lparr>ous_buffer := drop n b\<rparr>)") (auto simp: unf Let_def)
        ultimately show ?thesis
          by (simp add: sum.map_comp comp_def case_prod_beta out_settle_def out_parts_def)
      qed (use F C \<open>?c \<noteq> -1\<close> in \<open>simp_all add: unf check_output_trailer_def\<close>)
    qed
  qed
qed

lemma consumeBinaryOutput_drain:
  "consumeBinaryOutput (s\<lparr>ous_buffer := b\<rparr>) = map_sum (\<lambda>e. e) out_settle (drain out_end out_handle s b)"
proof (cases "ous_binaryHeader s")
  case True
  with checked_output_drain [OF True, of b] show ?thesis by (simp add: consumeBinaryOutput_def checked_output_def)
next
  case False
  show ?thesis
  proof (cases "\<exists>n. binary_header b = Inr (Some n)")
    case True
    then obtain n where n: "binary_header b = Inr (Some n)" by blast
    note b = binary_header_cases(1) [OF n]
    let ?s = "s\<lparr>ous_binaryHeader := True\<rparr>" and ?h = "if ous_first s then [take n b] else []"
    have eq: "s\<lparr>ous_buffer := drop n b, ous_binaryHeader := True\<rparr> = ?s\<lparr>ous_buffer := drop n b\<rparr>" by simp
    have "drain out_end out_handle s b
        = map_sum (\<lambda>e. e) (\<lambda>(cs, t). ((take n b, ous_first s) # cs, t)) (drain out_end out_handle ?s (drop n b))"
      using n b False by (simp add: drain.simps [of _ _ s b] out_end_def out_handle_def)
    moreover have "consumeBinaryOutput (s\<lparr>ous_buffer := b\<rparr>)
        = map_sum (\<lambda>e. e) (\<lambda>(out, t). (?h @ out, t)) (checked_output (?s\<lparr>ous_buffer := drop n b\<rparr>))"
      using n False check_output_trailer_append [of ?h]
      by (auto simp: consumeBinaryOutput_def checked_output_def eq split: sum.split)
    ultimately show ?thesis
      using checked_output_drain [of ?s "drop n b"]
      by (simp add: sum.map_comp comp_def case_prod_beta out_settle_def out_parts_def)
  next
    case N: False
    with False show ?thesis
      by (cases "binary_header b"; cases "projr (binary_header b)")
        (auto simp: consumeBinaryOutput_def drain.simps [of _ _ s b] out_end_def out_settle_def out_parts_def)
  qed
qed

section \<open>One output stream\<close>

fun output_all :: "OutputStream \<Rightarrow> bytes list \<Rightarrow> copy_error + (bytes list \<times> OutputStream)" where
  "output_all s [] = Inr ([], s)"
| "output_all s (p # ps) = (case output_Write s p of Inl e \<Rightarrow> Inl e
     | Inr (out, s') \<Rightarrow> map_sum (\<lambda>e. e) (\<lambda>(rest, t). (out @ rest, t)) (output_all s' ps))"

text \<open>The bytes one Burrow's COPY TO contributes to the client's stream.\<close>

definition output_run :: "OutputStream \<Rightarrow> bytes list \<Rightarrow> copy_error + bytes" where
  "output_run s ps = (case output_all s ps of Inl e \<Rightarrow> Inl e
     | Inr (out, t) \<Rightarrow> map_sum (\<lambda>e. e) (\<lambda>(rest, u). concat (out @ rest)) (output_Finish t))"

lemma output_all_Cons_Inr:
  "output_all s (p # ps) = Inr (out, t) \<longleftrightarrow>
     (\<exists>as s' bs. output_Write s p = Inr (as, s') \<and> output_all s' ps = Inr (bs, t) \<and> out = as @ bs)"
  by (cases "output_Write s p") (auto simp: map_sum_Inr_iff)

lemma drain_out_plan: "drain out_end out_handle s b = Inr (cs, t, rest) \<Longrightarrow> ous_plan t = ous_plan s"
proof (induction "length b" arbitrary: s b cs rule: less_induct)
  case less
  from less.prems show ?case
  proof (cases rule: drain_Inr_cases)
    case (emit n c s' cs')
    then have "ous_plan t = ous_plan s'" by (intro less.hyps [OF _ emit(5)]) simp
    with emit(4) show ?thesis by (auto simp: out_handle_def split: if_splits)
  qed simp
qed

lemma output_Write_drain:
  assumes "output_Write (s\<lparr>ous_buffer := b\<rparr>) p = Inr (out, t)" and "cpl_Format (ous_plan s) = FormatBinary" and "p \<noteq> []"
  obtains cs t0 rest where "drain out_end out_handle s (b @ p) = Inr (cs, t0, rest)" "t = t0\<lparr>ous_buffer := rest\<rparr>" "out = out_parts cs"
proof -
  from assms have "consumeBinaryOutput (s\<lparr>ous_buffer := b @ p\<rparr>) = Inr (out, t)"
    by (auto simp: output_Write_def split: sum.splits if_splits)
  then show thesis unfolding consumeBinaryOutput_drain map_sum_Inr_iff
    by (auto simp: out_settle_def intro: that)
qed

lemma output_all_drain:
  "output_all (s\<lparr>ous_buffer := b\<rparr>) ps = Inr (out, t) \<Longrightarrow> cpl_Format (ous_plan s) = FormatBinary \<Longrightarrow>
     \<exists>cs t0 rest. t = t0\<lparr>ous_buffer := rest\<rparr> \<and> ous_plan t0 = ous_plan s \<and> out = out_parts cs
       \<and> (\<forall>ys. drain out_end out_handle s (b @ concat ps @ ys)
            = map_sum (\<lambda>e. e) (\<lambda>(ds, u). (cs @ ds, u)) (drain out_end out_handle t0 (rest @ ys)))"
proof (induction ps arbitrary: s b out)
  case Nil
  have "map_sum (\<lambda>e. e) (\<lambda>a. a) x = x" for x :: "copy_error + ((bytes \<times> bool) list \<times> OutputStream \<times> bytes)"
    by (cases x) auto
  with Nil show ?case
    by (intro exI [where x = "[] :: (bytes \<times> bool) list"] exI [where x = s] exI [where x = b])
      (auto simp: out_parts_def)
next
  case (Cons p ps)
  show ?case
  proof (cases "p = []")
    case True
    with Cons.prems(1) have "output_all (s\<lparr>ous_buffer := b\<rparr>) ps = Inr (out, t)"
      by (auto simp: output_Write_def map_sum_Inr_iff)
    from Cons.IH [OF this Cons.prems(2)] True show ?thesis by simp
  next
    case False
    from Cons.prems(1) obtain as s1 bs where w: "output_Write (s\<lparr>ous_buffer := b\<rparr>) p = Inr (as, s1)"
      and r: "output_all s1 ps = Inr (bs, t)" and out: "out = as @ bs" unfolding output_all_Cons_Inr by blast
    from output_Write_drain [OF w Cons.prems(2) False] obtain cs t1 rest
      where d: "drain out_end out_handle s (b @ p) = Inr (cs, t1, rest)" "s1 = t1\<lparr>ous_buffer := rest\<rparr>" "as = out_parts cs" .
    note pl = drain_out_plan [OF d(1)]
    from Cons.IH [OF r [unfolded d(2)]] Cons.prems(2) pl obtain ds t0 rest'
      where i: "t = t0\<lparr>ous_buffer := rest'\<rparr>" "ous_plan t0 = ous_plan t1" "bs = out_parts ds"
        "\<forall>ys. drain out_end out_handle t1 (rest @ concat ps @ ys)
            = map_sum (\<lambda>e. e) (\<lambda>(ds', u). (ds @ ds', u)) (drain out_end out_handle t0 (rest' @ ys))" by auto
    have "drain out_end out_handle s (b @ concat (p # ps) @ ys)
        = map_sum (\<lambda>e. e) (\<lambda>(ds', u). ((cs @ ds) @ ds', u)) (drain out_end out_handle t0 (rest' @ ys))" for ys
      using out.drain_append [OF d(1), of "concat ps @ ys"] i(4)
      by (cases "drain out_end out_handle t0 (rest' @ ys)") auto
    with i d(3) out pl show ?thesis
      by (intro exI [of _ "cs @ ds"] exI [of _ t0] exI [of _ rest']) (auto simp: out_parts_def)
  qed
qed

text \<open>A complete binary COPY stream: one header, complete rows, the trailer.\<close>

definition is_header :: "bytes \<Rightarrow> bool" where
  "is_header h = (binary_header h = Inr (Some (length h)))"

definition is_row :: "bytes \<Rightarrow> bool" where
  "is_row r = (2 \<le> length r \<and> 0 \<le> to_signed 16 (be_val (take 2 r))
     \<and> (\<exists>fs. scan_fields (nat (to_signed 16 (be_val (take 2 r)))) r 2 = Row fs (length r)))"

definition is_trailer :: "bytes \<Rightarrow> bool" where
  "is_trailer r = (length r = 2 \<and> to_signed 16 (be_val r) = -1)"

lemma binary_header_take: "binary_header b = Inr (Some n) \<Longrightarrow> is_header (take n b)"
proof -
  assume h: "binary_header b = Inr (Some n)"
  have "19 \<le> n" "n \<le> length b" using binary_header_cases(1) [OF h] by auto
  then have "take 4 (drop 15 (take n b)) = take 4 (drop 15 b)" "length (take n b) = n"
    "take (length binarySignature) (take n b) = take (length binarySignature) b"
    by (auto simp: drop_take min_def binarySignature_def)
  with h show ?thesis by (auto simp: is_header_def binary_header_def Let_def split: if_splits)
qed

lemma drain_out_rows:
  "drain out_end out_handle s b = Inr (cs, t, []) \<Longrightarrow> ous_binaryHeader s \<Longrightarrow> \<not> ous_binaryTrailer s \<Longrightarrow> ous_binaryTrailer t \<Longrightarrow>
     \<exists>rows e. cs = map (\<lambda>r. (r, True)) rows @ [(e, ous_last s)] \<and> (\<forall>r\<in>set rows. is_row r) \<and> is_trailer e"
proof (induction "length b" arbitrary: b cs rule: less_induct)
  case less
  from less.prems(1) show ?case
  proof (cases rule: drain_Inr_cases)
    case stop
    with less.prems show ?thesis by simp
  next
    case (emit n c s' cs')
    note r = out_end_row [OF emit(1,2) less.prems(2)]
    then have tk: "take 2 (take n b) = take 2 b" by (simp add: min_def)
    show ?thesis
    proof (cases "to_signed 16 (be_val (take 2 b)) = -1")
      case True
      with emit(4) less.prems(2) tk r have c: "c = (take n b, ous_last s)" "ous_binaryHeader s'" "ous_binaryTrailer s'"
        by (auto simp: out_handle_def)
      have "cs' = []" using emit(5) c(2,3) by (cases rule: drain_Inr_cases) (auto simp: out_end_def split: if_splits)
      moreover have "is_trailer (take n b)" using True r by (auto simp: is_trailer_def)
      ultimately show ?thesis using emit(6) c(1) by (intro exI [of _ "[]"] exI [of _ "take n b"]) simp
    next
      case False
      with emit(4) less.prems(2) tk have c: "c = (take n b, True)" "s' = s" by (auto simp: out_handle_def)
      from False r obtain fs where fs: "0 \<le> to_signed 16 (be_val (take 2 b))"
        "scan_fields (nat (to_signed 16 (be_val (take 2 b)))) b 2 = Row fs n" by auto
      have "is_row (take n b)"
        using scan_fields_take [OF fs(2) order_refl] fs(1) r tk by (auto simp: is_row_def min_def)
      moreover have "length (drop n b) < length b" using emit(2,3) by simp
      then obtain rows e where "cs' = map (\<lambda>r. (r, True)) rows @ [(e, ous_last s)]" "\<forall>r\<in>set rows. is_row r" "is_trailer e"
        using less.hyps [OF _ emit(5) [unfolded c(2)] less.prems(2-4)] by blast
      ultimately show ?thesis using emit(6) c(1) by (intro exI [of _ "take n b # rows"] exI [of _ e]) simp
    qed
  qed
qed

lemma binary_output_run:
  assumes "output_run (NewOutputStream plan i n) ps = Inr out" and "cpl_Format plan = FormatBinary"
  shows "\<exists>h rows e. concat ps = h @ concat rows @ e \<and> is_header h \<and> (\<forall>r\<in>set rows. is_row r) \<and> is_trailer e
    \<and> out = (if i = 0 then h else []) @ concat rows @ (if i + 1 = n then e else [])"
proof -
  let ?s = "NewOutputStream plan i n"
  have s: "?s\<lparr>ous_buffer := []\<rparr> = ?s" "cpl_Format (ous_plan ?s) = FormatBinary" "\<not> ous_binaryHeader ?s"
    "\<not> ous_binaryTrailer ?s" "ous_first ?s = (i = 0)" "ous_last ?s = (i + 1 = n)"
    using assms(2) by (simp_all add: NewOutputStream_def)
  from assms(1) obtain a t b u where w: "output_all ?s ps = Inr (a, t)" "output_Finish t = Inr (b, u)"
    "out = concat (a @ b)" by (auto simp: output_run_def map_sum_Inr_iff split: sum.splits)
  from output_all_drain [of "[]" ?s ps a t] s(1,2) w(1) obtain cs t0 rest where d: "t = t0\<lparr>ous_buffer := rest\<rparr>"
      "ous_plan t0 = ous_plan ?s" "a = out_parts cs"
      "\<forall>ys. drain out_end out_handle ?s (concat ps @ ys)
            = map_sum (\<lambda>e. e) (\<lambda>(ds, u). (cs @ ds, u)) (drain out_end out_handle t0 (rest @ ys))" by auto
  from w(2) d(1,2) s(2) have c: "consumeBinaryOutput (t0\<lparr>ous_buffer := rest\<rparr>) = Inr (b, u)"
    and u: "ous_buffer u = []" "ous_binaryHeader u" "ous_binaryTrailer u"
    by (auto simp: output_Finish_def split: sum.splits if_splits)
  from c u obtain ds u0 where f: "drain out_end out_handle t0 rest = Inr (ds, u0, [])" "b = out_parts ds"
    "ous_binaryTrailer u0" unfolding consumeBinaryOutput_drain map_sum_Inr_iff by (auto simp: out_settle_def)
  have r: "drain out_end out_handle ?s (concat ps) = Inr (cs @ ds, u0, [])" using d(4) [rule_format, of "[]"] f(1) by simp
  from r show ?thesis
  proof (cases rule: drain_Inr_cases)
    case stop
    with f(3) s(4) show ?thesis by simp
  next
    case (emit k c s' cs')
    from emit(1,2) s(3) have "binary_header (concat ps) = Inr (Some k)"
      by (auto simp: out_end_def map_sum_Inr_iff split: option.splits)
    then have hd: "is_header (take k (concat ps))" by (rule binary_header_take)
    from emit(4) s(3) have h: "c = (take k (concat ps), ous_first ?s)" "s' = ?s\<lparr>ous_binaryHeader := True\<rparr>"
      by (simp_all add: out_handle_def)
    with s(4-6) have c: "c = (take k (concat ps), i = 0)"
      and s': "ous_binaryHeader s'" "\<not> ous_binaryTrailer s'" "ous_last s' = (i + 1 = n)" by simp_all
    from drain_out_rows [OF emit(5) s'(1,2) f(3)] s'(3) obtain rows e where
      rows: "cs' = map (\<lambda>r. (r, True)) rows @ [(e, i + 1 = n)]" "\<forall>r\<in>set rows. is_row r" "is_trailer e" by auto
    have "concat ps = concat (map fst (cs @ ds))" using out.drain_lossless [OF r] by simp
    moreover have "out = concat (out_parts (cs @ ds))" using w(3) d(3) f(2) by (simp add: out_parts_def)
    moreover have "filter snd (map (\<lambda>r. (r, True)) rows) = map (\<lambda>r. (r, True)) rows" by (simp add: filter_id_conv)
    ultimately show ?thesis
      using emit(6) c rows hd
      by (intro exI [of _ "take k (concat ps)"] exI [of _ rows] exI [of _ e]) (simp add: out_parts_def comp_def)
  qed
qed

section \<open>Properties\<close>

lemma delimited_output_run:
  assumes "output_all (s\<lparr>ous_buffer := b\<rparr>) ps = Inr (out, t)" and "cpl_Format (ous_plan s) \<noteq> FormatBinary"
    and "\<not> ous_headerPending s"
  shows "concat out = concat ps \<and> ous_headerPending t = ous_headerPending s \<and> ous_plan t = ous_plan s"
  using assms
proof (induction ps arbitrary: out)
  case (Cons p ps)
  from Cons.prems(1) obtain as s1 bs where w: "output_Write (s\<lparr>ous_buffer := b\<rparr>) p = Inr (as, s1)"
    and r: "output_all s1 ps = Inr (bs, t)" and out: "out = as @ bs" unfolding output_all_Cons_Inr by blast
  from w Cons.prems(2,3) have "s1 = s\<lparr>ous_buffer := b\<rparr>" "concat as = p"
    by (auto simp: output_Write_def split: if_splits)
  with Cons.IH r out Cons.prems(2,3) show ?case by auto
qed auto

lemma output_all_plan:
  "output_all s ps = Inr (out, t) \<Longrightarrow> cpl_Format (ous_plan s) \<noteq> FormatBinary \<Longrightarrow> ous_plan t = ous_plan s"
proof (induction ps arbitrary: s out)
  case (Cons p ps)
  from Cons.prems(1) obtain as s1 bs where w: "output_Write s p = Inr (as, s1)" and r: "output_all s1 ps = Inr (bs, t)"
    unfolding output_all_Cons_Inr by blast
  from w Cons.prems(2) have "ous_plan s1 = ous_plan s"
    by (auto simp: output_Write_def Let_def split: if_splits prod.splits)
  with Cons.IH [OF r] Cons.prems(2) show ?case by simp
qed simp

lemma header_output_run:
  assumes "output_all (s\<lparr>ous_buffer := b\<rparr>) ps = Inr (out, t)" and "cpl_Format (ous_plan s) \<noteq> FormatBinary"
    and "ous_headerPending s" and "fst (delimitedRecordEnd b (ous_plan s)) = 0" and "\<not> ous_headerPending t"
  shows "\<exists>n q. delimitedRecordEnd (b @ concat ps) (ous_plan s) = (n, q) \<and> 0 < n \<and> n \<le> length (b @ concat ps)
    \<and> concat out = drop n (b @ concat ps) \<and> ous_plan t = ous_plan s"
  using assms
proof (induction ps arbitrary: b out)
  case Nil
  then show ?case by auto
next
  case (Cons p ps)
  from Cons.prems(1) obtain as s1 bs where w: "output_Write (s\<lparr>ous_buffer := b\<rparr>) p = Inr (as, s1)"
    and r: "output_all s1 ps = Inr (bs, t)" and out: "out = as @ bs" unfolding output_all_Cons_Inr by blast
  show ?case
  proof (cases "fst (delimitedRecordEnd (b @ p) (ous_plan s)) = 0")
    case True
    then have "as = []" "s1 = s\<lparr>ous_buffer := b @ p\<rparr>"
      using w Cons.prems(2,3) by (auto simp: output_Write_def Let_def case_prod_beta split: if_splits)
    with Cons.IH [of "b @ p" bs] True r out Cons.prems show ?thesis by simp
  next
    case False
    obtain n q where e: "delimitedRecordEnd (b @ p) (ous_plan s) = (n, q)" by (cases "delimitedRecordEnd (b @ p) (ous_plan s)")
    with False have n: "0 < n" by simp
    with Cons.prems(4) have "p \<noteq> []" using e by auto
    with w e n Cons.prems(2,3) have s1: "s1 = (s\<lparr>ous_headerPending := False\<rparr>)\<lparr>ous_buffer := []\<rparr>" and a: "concat as = drop n (b @ p)"
      by (auto simp: output_Write_def Let_def split: if_splits)
    from delimited_output_run [OF r [unfolded s1]] Cons.prems(2) have "concat bs = concat ps" "ous_plan t = ous_plan s" by auto
    with delimitedRecordEnd_stable [OF e n, of "concat ps"] n a out show ?thesis by auto
  qed
qed

text \<open>C16. The binary COPY TO streams of several Burrows merge into one well-formed stream: the
  header of the first Burrow, the rows of every Burrow in order, and the trailer of the last.\<close>

theorem copy_out_binary_merge:
  assumes "cpl_Format plan = FormatBinary" and "0 < length streams" and "length outs = length streams"
    and "\<forall>i<length streams. output_run (NewOutputStream plan i (length streams)) (streams ! i) = Inr (outs ! i)"
  shows "\<exists>h rows e. length rows = length streams \<and> is_header h \<and> is_trailer e
    \<and> (\<forall>rs\<in>set rows. \<forall>r\<in>set rs. is_row r)
    \<and> (\<forall>i<length streams. \<exists>h' e'. is_header h' \<and> is_trailer e'
          \<and> concat (streams ! i) = h' @ concat (rows ! i) @ e' \<and> (i = 0 \<longrightarrow> h' = h) \<and> (i + 1 = length streams \<longrightarrow> e' = e))
    \<and> concat outs = h @ concat (concat rows) @ e"
proof -
  let ?n = "length streams"
  have "\<exists>x. concat (streams ! i) = fst x @ concat (fst (snd x)) @ snd (snd x) \<and> is_header (fst x)
      \<and> (\<forall>r\<in>set (fst (snd x)). is_row r) \<and> is_trailer (snd (snd x))
      \<and> outs ! i = (if i = 0 then fst x else []) @ concat (fst (snd x)) @ (if i + 1 = ?n then snd (snd x) else [])"
    if "i < ?n" for i
    using binary_output_run [OF assms(4) [rule_format, OF that] assms(1)] by fastforce
  then obtain f where f: "\<And>i. i < ?n \<Longrightarrow> concat (streams ! i) = fst (f i) @ concat (fst (snd (f i))) @ snd (snd (f i)) \<and> is_header (fst (f i))
      \<and> (\<forall>r\<in>set (fst (snd (f i))). is_row r) \<and> is_trailer (snd (snd (f i)))
      \<and> outs ! i = (if i = 0 then fst (f i) else []) @ concat (fst (snd (f i))) @ (if i + 1 = ?n then snd (snd (f i)) else [])"
    by metis
  let ?rows = "map (\<lambda>i. fst (snd (f i))) [0..<?n]"
  have part: "concat (map (\<lambda>i. outs ! i) [0..<k]) = (if k = 0 then [] else fst (f 0)) @ concat (concat (map (\<lambda>i. fst (snd (f i))) [0..<k]))
      @ (if k = ?n \<and> 0 < k then snd (snd (f (?n - 1))) else [])" if "k \<le> ?n" for k
    using that
  proof (induction k)
    case (Suc k)
    then have "k < ?n" "k \<noteq> ?n" and last: "Suc k = ?n \<Longrightarrow> ?n - 1 = k" by auto
    with Suc f [of k] show ?case by (simp add: last split: if_splits)
  qed simp
  have "outs = map (\<lambda>i. outs ! i) [0..<?n]" using assms(3) by (metis map_nth)
  then have merged: "concat outs = fst (f 0) @ concat (concat ?rows) @ snd (snd (f (?n - 1)))"
    using part [of ?n] assms(2) by simp
  show ?thesis
  proof (rule exI [of _ "fst (f 0)"], rule exI [of _ ?rows], rule exI [of _ "snd (snd (f (?n - 1)))"], intro conjI allI impI)
    show "\<forall>rs\<in>set ?rows. \<forall>r\<in>set rs. is_row r" using f by auto
    fix i assume i: "i < ?n"
    have last: "snd (snd (f i)) = snd (snd (f (?n - 1)))" if "i + 1 = ?n"
      using that by (metis add_diff_cancel_right')
    have nth: "?rows ! i = fst (snd (f i))" using i by simp
    from f [OF i] last show "\<exists>h' e'. is_header h' \<and> is_trailer e' \<and> concat (streams ! i) = h' @ concat (?rows ! i) @ e'
        \<and> (i = 0 \<longrightarrow> h' = fst (f 0)) \<and> (i + 1 = ?n \<longrightarrow> e' = snd (snd (f (?n - 1))))"
      unfolding nth by (intro exI [of _ "fst (f i)"] exI [of _ "snd (snd (f i))"]) blast
  qed (use f merged assms(2) in simp_all)
qed

definition sample_binary :: "char \<Rightarrow> bytes list" where
  "sample_binary c = [binarySignature @ replicate 8 NUL @ [NUL], [CHR 0x01, NUL, NUL, NUL, CHR 0x01, c, CHR 0xFF], [CHR 0xFF]]"

definition sample_binary_plan :: CopyPlan where
  "sample_binary_plan = sample_plan\<lparr>cpl_Format := FormatBinary\<rparr>"

definition sample_outs :: "bytes list" where
  "sample_outs = [projr (output_run (NewOutputStream sample_binary_plan 0 2) (sample_binary CHR ''x'')),
     projr (output_run (NewOutputStream sample_binary_plan 1 2) (sample_binary CHR ''y''))]"

theorem copy_out_binary_merge_witness:
  "concat sample_outs = binarySignature @ replicate 8 NUL @ [NUL, CHR 0x01, NUL, NUL, NUL, CHR 0x01, CHR ''x'']
     @ [NUL, CHR 0x01, NUL, NUL, NUL, CHR 0x01, CHR ''y'', CHR 0xFF, CHR 0xFF]
   \<and> (\<exists>h rows e. is_header h \<and> is_trailer e \<and> concat sample_outs = h @ concat (concat rows) @ e)"
proof -
  let ?streams = "[sample_binary CHR ''x'', sample_binary CHR ''y'']"
  have b: "cpl_Format sample_binary_plan = FormatBinary" by code_simp
  have o: "output_run (NewOutputStream sample_binary_plan 0 2) (sample_binary CHR ''x'') = Inr (sample_outs ! 0)"
    "output_run (NewOutputStream sample_binary_plan 1 2) (sample_binary CHR ''y'') = Inr (sample_outs ! 1)"
    "concat sample_outs = binarySignature @ replicate 8 NUL @ [NUL, CHR 0x01, NUL, NUL, NUL, CHR 0x01, CHR ''x'']
     @ [NUL, CHR 0x01, NUL, NUL, NUL, CHR 0x01, CHR ''y'', CHR 0xFF, CHR 0xFF]" by code_simp+
  have l: "0 < length ?streams" "length sample_outs = length ?streams" by (simp_all add: sample_outs_def)
  have r: "\<forall>i<length ?streams. output_run (NewOutputStream sample_binary_plan i (length ?streams)) (?streams ! i) = Inr (sample_outs ! i)"
    using o(1,2) by (auto simp: less_Suc_eq numeral_2_eq_2)
  from copy_out_binary_merge [OF b l r] o(3) show ?thesis by blast
qed

text \<open>In text and CSV the stream of a Burrow is forwarded byte for byte, except that every Burrow
  but the first loses exactly its first CSV record when the command asked for a header.\<close>

theorem copy_out_header_once:
  assumes "output_run (NewOutputStream plan i n) ps = Inr out" and "cpl_Format plan \<noteq> FormatBinary"
  shows "if cpl_Format plan = FormatCSV \<and> cpl_Header plan \<and> i > 0
    then \<exists>k q. delimitedRecordEnd (concat ps) plan = (k, q) \<and> 0 < k \<and> out = drop k (concat ps)
    else out = concat ps"
proof -
  let ?s = "NewOutputStream plan i n"
  have s: "?s\<lparr>ous_buffer := []\<rparr> = ?s" "ous_plan ?s = plan" by (simp_all add: NewOutputStream_def)
  from assms(1) obtain a t b u where w: "output_all ?s ps = Inr (a, t)" "output_Finish t = Inr (b, u)"
    "out = concat (a @ b)" by (auto simp: output_run_def map_sum_Inr_iff split: sum.splits)
  show ?thesis
  proof (cases "ous_headerPending ?s")
    case True
    have e: "fst (delimitedRecordEnd [] plan) = 0" by (simp add: delimitedRecordEnd_def)
    from output_all_plan [OF w(1)] s(2) w(2) assms(2) have "\<not> ous_headerPending t" "b = []"
      by (auto simp: output_Finish_def split: if_splits)
    with header_output_run [of "[]" ?s ps a t] e s w(1,3) True assms(2) show ?thesis
      by (auto simp: NewOutputStream_def)
  next
    case False
    from delimited_output_run [of "[]" ?s ps a t] s w(1) False assms(2)
    have "concat a = concat ps" "ous_plan t = plan" by auto
    with w(2,3) assms(2) False show ?thesis
      by (auto simp: output_Finish_def NewOutputStream_def split: if_splits)
  qed
qed

theorem copy_out_header_once_witness:
  "output_run (NewOutputStream (sample_plan\<lparr>cpl_Header := True\<rparr>) 1 2) [''na'', ''me'' @ [LF] @ ''bob'', [LF]] = Inr (''bob'' @ [LF])
   \<and> (\<exists>k q. delimitedRecordEnd (''name'' @ [LF] @ ''bob'' @ [LF]) (sample_plan\<lparr>cpl_Header := True\<rparr>) = (k, q)
        \<and> ''bob'' @ [LF] = drop k (''name'' @ [LF] @ ''bob'' @ [LF]))"
proof -
  have h: "output_run (NewOutputStream (sample_plan\<lparr>cpl_Header := True\<rparr>) 1 2) [''na'', ''me'' @ [LF] @ ''bob'', [LF]] = Inr (''bob'' @ [LF])"
    "cpl_Format (sample_plan\<lparr>cpl_Header := True\<rparr>) \<noteq> FormatBinary"
    "cpl_Format (sample_plan\<lparr>cpl_Header := True\<rparr>) = FormatCSV" by code_simp+
  have "concat [''na'', ''me'' @ [LF] @ ''bob'', [LF]] = ''name'' @ [LF] @ ''bob'' @ [LF]" by simp
  with copy_out_header_once [OF h(1,2)] h show ?thesis by auto
qed

end
