(* ===== verification/Proxy_Copy.thy ===== *)
theory Proxy_Copy
  imports Proxy_Extended Copy_Routing Copy_Output
begin

text \<open>
  The COPY handlers of \<^verbatim>\<open>internal/proxy/server.go\<close>: starting a COPY on the Burrows, distributing the client's data
  to the owners of its rows, completing or aborting the input, and merging the output of COPY TO.  The row decoders
  are those of \<open>Copy_Stream\<close> and \<open>Copy_Output\<close>.
\<close>

text \<open>The bits of binary floating-point keys and the text of the decoder's errors.\<close>

record copy_codec =
  cx_bits :: float_bits
  cx_text :: "copy_error \<Rightarrow> string"

definition session_fail :: "string \<Rightarrow> string \<Rightarrow> 's conn \<Rightarrow> bool \<times> 's conn" where
  "session_fail code message c = (False, say (sendSessionError (txStatus (session_of c)) code message) c)"

definition fail_transaction :: "'s conn \<Rightarrow> 's conn" where
  "fail_transaction c = do_px (on_state (\<lambda>s. s\<lparr>es_transactionFailed := es_transaction s\<rparr>)) c"

definition error_ready :: "ErrorResponse \<Rightarrow> 's conn \<Rightarrow> bool \<times> 's conn" where
  "error_ready response c = (let c1 = fail_transaction c in (False, ready (say [Error response] c1)))"

definition markWriteParticipants :: "string list \<Rightarrow> extendedState \<Rightarrow> extendedState" where
  "markWriteParticipants targets s = (if es_transaction s then s\<lparr>es_writeParticipants := es_writeParticipants s \<union> set targets\<rparr> else s)"

definition mark_mutated :: "extendedState \<Rightarrow> extendedState" where
  "mark_mutated s = (if es_transaction s then s\<lparr>es_mutated := True\<rparr> else s)"

definition copyTargets :: "'s environment \<Rightarrow> compiler \<Rightarrow> string \<Rightarrow> 's conn \<Rightarrow> string list option \<times> 's conn" where
  "copyTargets env cc sql c = (case in_world (en_random env) c of (rnd, c1) \<Rightarrow>
     (case routeSQL (cp_float cc) (cp_parse cc) rnd (px_server (cn_px c1)) sql (shards_of c1) of
        None \<Rightarrow> (None, c1)
      | Some (decision, sv) \<Rightarrow>
          (Some (if rd_routed decision then [rd_target decision] else shards_of c1), do_px (\<lambda>px. px\<lparr>px_server := sv\<rparr>) c1)))"

section \<open>COPY to or from a file of the primary Burrow\<close>

definition server_side_refused :: "CopyPlan \<Rightarrow> server_state \<Rightarrow> (string \<times> string) option" where
  "server_side_refused plan sv =
     (if cpl_Table plan = [] \<or> \<not> HasTable (sv_schema sv) (cpl_Table plan)
      then Some (''0A000'', ''server-side COPY requires a known unsharded table; use COPY FROM STDIN or COPY TO STDOUT'')
      else if cpl_Sharded plan
      then Some (''0A000'', ''server-side COPY for a sharded table is not supported; use COPY FROM STDIN or COPY TO STDOUT'')
      else if sv_unshardedMode sv \<noteq> ''primary''
      then Some (''0A000'', ''server-side COPY is not supported for replicated unsharded tables because file paths are Burrow-local; use COPY FROM STDIN or COPY TO STDOUT'')
      else if sv_primaryBurrow sv = [] then Some (''08006'', ''no primary Burrow configured'')
      else None)"

definition handleServerSideCopy :: "'s wire \<Rightarrow> string \<Rightarrow> CopyPlan \<Rightarrow> 's conn \<Rightarrow> bool \<times> 's conn" where
  "handleServerSideCopy wr sql plan c = (case server_side_refused plan (px_server (cn_px c)) of
       Some (code, message) \<Rightarrow> session_fail code message c
     | None \<Rightarrow>
         (let target = sv_primaryBurrow (px_server (cn_px c)) in
          case exchange_targets wr isQueryDone [target] (FQuery sql) c of
            (Inl e, c1) \<Rightarrow> session_fail ''08006'' e (fail_transaction c1)
          | (Inr responses, c1) \<Rightarrow>
              if length responses \<noteq> 1 \<or> hd responses = [] then session_fail ''XX000'' ''no primary Burrow COPY response'' c1
              else let c2 = say (hd responses) c1 in
                if firstError responses \<noteq> None
                then (False, do_px (on_state (\<lambda>s. s\<lparr>es_transactionFailed := (readyTxStatus responses = CHR ''E'')\<rparr>)) c2)
                else (True, if cpl_From plan
                  then do_px (on_state (\<lambda>s. mark_mutated (markWriteParticipants [target] s))) c2 else c2)))"

section \<open>COPY TO STDOUT\<close>

text \<open>One message of a Burrow's output; an error text ends the stream.\<close>

record copying =
  cy_output :: OutputStream
  cy_tags :: "string list"
  cy_error :: "ErrorResponse option"

definition copy_out_message :: "copy_codec \<Rightarrow> backend_message \<Rightarrow> copying \<Rightarrow> string + (copying \<times> response)" where
  "copy_out_message cx m y = (case m of
       CopyDataOut data \<Rightarrow> (case output_Write (cy_output y) data of
           Inl e \<Rightarrow> Inl (cx_text cx e) | Inr (parts, output) \<Rightarrow> Inr (y\<lparr>cy_output := output\<rparr>, map CopyDataOut parts))
     | CommandComplete t \<Rightarrow> Inr (y\<lparr>cy_tags := cy_tags y @ [t]\<rparr>, [])
     | Error e \<Rightarrow> Inr (y\<lparr>cy_error := Some e\<rparr>, [])
     | CopyDoneOut \<Rightarrow> Inr (y, [])
     | ReadyForQuery _ \<Rightarrow> Inr (y, [])
     | NoticeResponse _ \<Rightarrow> Inr (y, [])
     | other \<Rightarrow> Inl (''unexpected COPY TO response '' @ message_type other))"

fun copy_out_messages :: "copy_codec \<Rightarrow> response \<Rightarrow> copying \<Rightarrow> 's conn \<Rightarrow> string option \<times> copying \<times> 's conn" where
  "copy_out_messages cx [] y c = (None, y, c)"
| "copy_out_messages cx (m # ms) y c = (case copy_out_message cx m y of
       Inl e \<Rightarrow> (Some e, y, c) | Inr (y', out) \<Rightarrow> copy_out_messages cx ms y' (say out c))"

fun copy_out_targets :: "'s wire \<Rightarrow> copy_codec \<Rightarrow> CopyPlan \<Rightarrow> nat \<Rightarrow> nat \<Rightarrow> string list \<Rightarrow> string list \<Rightarrow> 's conn
    \<Rightarrow> ((bool \<times> 's conn) + (string list \<times> 's conn))" where
  "copy_out_targets wr cx plan index n [] tags c = Inr (tags, c)"
| "copy_out_targets wr cx plan index n (target # targets) tags c =
     (case in_world (wr_ReceiveEach wr isQueryDone target) c of ((ms, broken), c1) \<Rightarrow>
        (case copy_out_messages cx ms \<lparr>cy_output = NewOutputStream plan index n, cy_tags = tags, cy_error = None\<rparr> c1 of
           (Some e, y, c2) \<Rightarrow> Inl (session_fail ''08006'' e (fail_transaction c2))
         | (None, y, c2) \<Rightarrow>
             (case broken of
                Some e \<Rightarrow> Inl (session_fail ''08006'' e (fail_transaction c2))
              | None \<Rightarrow>
                  (case cy_error y of
                     Some e \<Rightarrow> Inl (error_ready e c2)
                   | None \<Rightarrow>
                       (case output_Finish (cy_output y) of
                          Inl e \<Rightarrow> Inl (session_fail ''08P01'' (cx_text cx e) c2)
                        | Inr (parts, _) \<Rightarrow>
                            copy_out_targets wr cx plan (index + 1) n targets (cy_tags y) (say (map CopyDataOut parts) c2))))))"

definition handleCopyOut :: "'s wire \<Rightarrow> copy_codec \<Rightarrow> string list \<Rightarrow> CopyPlan \<Rightarrow> 's conn \<Rightarrow> bool \<times> 's conn" where
  "handleCopyOut wr cx targets plan c = (case copy_out_targets wr cx plan 0 (length targets) targets [] c of
       Inl answer \<Rightarrow> answer
     | Inr (tags, c1) \<Rightarrow>
         (True, ready (say ([CopyDoneOut] @ (if tags \<noteq> [] then [CommandComplete (mergedCommandTag tags 0)] else [])) c1)))"

section \<open>Starting a COPY\<close>

definition start_copy_in :: "CopyPlan \<Rightarrow> Stream option \<Rightarrow> string list \<Rightarrow> 's conn \<Rightarrow> 's conn" where
  "start_copy_in plan stream targets c =
     do_px (on_state (\<lambda>s. mark_mutated (markWriteParticipants targets s)))
       ((say [CopyInResponse] c)\<lparr>cn_copyIn := True, cn_copyAborted := False, cn_copyTargets := targets, cn_copyPlan := Some plan,
          cn_copyStream := stream, cn_copyReplicated := cpl_From plan \<and> \<not> cpl_Sharded plan \<and> length targets > 1\<rparr>)"

text \<open>The Burrows have answered the COPY statement.\<close>

definition start_copy :: "'s wire \<Rightarrow> copy_codec \<Rightarrow> CopyPlan \<Rightarrow> Stream option \<Rightarrow> string list \<Rightarrow> response list \<Rightarrow> 's conn \<Rightarrow> bool \<times> 's conn" where
  "start_copy wr cx plan stream targets responses c =
     (case firstError responses of
        Some response \<Rightarrow> error_ready response c
      | None \<Rightarrow>
          if responses = [] \<or> hd responses = [] then session_fail ''XX000'' ''no Burrow COPY response'' c
          else let first = last (hd responses) in
            if \<not> list_all (\<lambda>r. r \<noteq> [] \<and> message_type (last r) = message_type first) (tl responses)
            then session_fail ''XX000'' ''incompatible COPY responses from Burrows'' c
            else case first of
                CopyInResponse \<Rightarrow> (True, start_copy_in plan stream targets c)
              | CopyOutResponse \<Rightarrow> handleCopyOut wr cx targets plan (say [CopyOutResponse] c)
              | CopyBothResponse \<Rightarrow> (False, say (sendExtendedError ''0A000'' ''COPY BOTH is not supported by Hamstergres Proxy'') c)
              | other \<Rightarrow> (False, say (sendExtendedError ''08P01'' (''unexpected COPY response '' @ message_type other)) c))"

definition handleCopyQuery :: "'s environment \<Rightarrow> 's wire \<Rightarrow> compiler \<Rightarrow> copy_codec \<Rightarrow> string \<Rightarrow> 's conn \<Rightarrow> bool \<times> 's conn" where
  "handleCopyQuery env wr cc cx sql c = (case Parse (cp_parse cc) sql (sv_schema (px_server (cn_px c))) of
       Inl e \<Rightarrow> session_fail ''0A000'' (cx_text cx e) c
     | Inr plan \<Rightarrow>
         if cpl_Program plan
         then session_fail ''0A000'' ''COPY PROGRAM is not supported by Hamstergres Proxy; use COPY FROM STDIN or COPY TO STDOUT'' c
         else if cpl_ServerSide plan then handleServerSideCopy wr sql plan c
         else (case copyTargets env cc sql c of
             (None, c1) \<Rightarrow> session_fail ''42601'' (ddl_error_text ParseFailed) c1
           | (Some targets, c1) \<Rightarrow>
               (case (if cpl_From plan \<and> cpl_Sharded plan
                      then map_sum (\<lambda>e. e) Some (NewStream plan (sv_schema (px_server (cn_px c1))) (shards_of c1)) else Inr None) of
                  Inl e \<Rightarrow> session_fail ''0A000'' (cx_text cx e) c1
                | Inr stream \<Rightarrow>
                    (case exchange_targets wr isCopyStarted targets (FQuery sql) c1 of
                       (Inl e, c2) \<Rightarrow> session_fail ''08006'' e (fail_transaction c2)
                     | (Inr responses, c2) \<Rightarrow> start_copy wr cx plan stream targets responses c2))))"

section \<open>The data of COPY FROM STDIN\<close>

text \<open>The bytes each Burrow is sent for the chunks of one message: its own rows and what concerns all Burrows.\<close>

definition by_target :: "Chunk list \<Rightarrow> string \<Rightarrow> bytes" where
  "by_target chunks target = concat (map ch_Data (filter (\<lambda>ch. ch_Target ch = [] \<or> ch_Target ch = target) chunks))"

fun sendCopyChunks :: "'s wire \<Rightarrow> Chunk list \<Rightarrow> string list \<Rightarrow> 's \<Rightarrow> string option \<times> 's" where
  "sendCopyChunks wr chunks [] w = (None, w)"
| "sendCopyChunks wr chunks (target # targets) w =
     (if by_target chunks target = [] then sendCopyChunks wr chunks targets w
      else (case wr_SendCopyTo wr [target] (FCopyData (by_target chunks target)) w of
          (Some e, w1) \<Rightarrow> (Some e, w1)
        | (None, w1) \<Rightarrow> sendCopyChunks wr chunks targets w1))"

definition end_copy :: "'s conn \<Rightarrow> 's conn" where
  "end_copy c = c\<lparr>cn_copyIn := False, cn_copyTargets := [], cn_copyStream := None, cn_copyReplicated := False\<rparr>"

definition abortCopy :: "'s wire \<Rightarrow> string \<Rightarrow> string \<Rightarrow> 's conn \<Rightarrow> 's conn" where
  "abortCopy wr code cause c =
     (let targets = cn_copyTargets c;
          (_, c1) = in_world (wr_SendCopyTo wr targets (FCopyFail cause)) c;
          (_, c2) = in_world (ReceiveUntilFromMany (wr_receive wr isQueryDone) targets) c1;
          c3 = fail_transaction ((end_copy c2)\<lparr>cn_copyAborted := True\<rparr>) in
      ready (say [Error \<lparr>er_Severity = ''ERROR'', er_Code = code, er_Message = cause\<rparr>] c3))"

definition handleCopyData :: "'s wire \<Rightarrow> compiler \<Rightarrow> copy_codec \<Rightarrow> bytes \<Rightarrow> 's conn \<Rightarrow> bool \<times> 's conn" where
  "handleCopyData wr cc cx data c = (case cn_copyStream c of
       None \<Rightarrow> (case in_world (wr_SendCopyTo wr (cn_copyTargets c) (FCopyData data)) c of
           (Some e, c1) \<Rightarrow> (False, abortCopy wr ''08006'' e c1) | (None, c1) \<Rightarrow> (True, c1))
     | Some stream \<Rightarrow>
         (case Write (cp_float cc) (cx_bits cx) stream data of
            Inl e \<Rightarrow> (False, abortCopy wr ''22023'' (cx_text cx e) c)
          | Inr (chunks, stream') \<Rightarrow>
              (case in_world (sendCopyChunks wr chunks (cn_copyTargets c)) (c\<lparr>cn_copyStream := Some stream'\<rparr>) of
                 (Some e, c1) \<Rightarrow> (False, abortCopy wr ''08006'' e c1) | (None, c1) \<Rightarrow> (True, c1))))"

text \<open>The rest of the input when the client has finished it.\<close>

definition finish_copy_input :: "'s wire \<Rightarrow> compiler \<Rightarrow> copy_codec \<Rightarrow> frontend_message \<Rightarrow> 's conn \<Rightarrow> (string \<times> string) option \<times> 's conn" where
  "finish_copy_input wr cc cx message c = (case (message, cn_copyStream c) of
       (FCopyDone, Some stream) \<Rightarrow>
         (case Finish (cp_float cc) (cx_bits cx) stream of
            Inl e \<Rightarrow> (Some (''22023'', cx_text cx e), c)
          | Inr (chunks, stream') \<Rightarrow>
              (case in_world (sendCopyChunks wr chunks (cn_copyTargets c)) (c\<lparr>cn_copyStream := Some stream'\<rparr>) of
                 (Some e, c1) \<Rightarrow> (Some (''08006'', e), c1) | (None, c1) \<Rightarrow> (None, c1)))
     | _ \<Rightarrow> (None, c))"

definition copy_tag_text :: "copy_tag_error \<Rightarrow> string" where
  "copy_tag_text e = (case e of NoCompletionTag \<Rightarrow> ''no Burrow COPY completion tag''
     | ReplicasDiffer tags \<Rightarrow> ''replicated COPY row counts differ across Burrows: '' @ join_with '', '' tags
     | RowCountDiffers tag expected \<Rightarrow> ''sharded COPY row count is '' @ tag @ '', expected '' @ expected)"

definition complete_copy :: "bool \<Rightarrow> bool \<Rightarrow> int \<Rightarrow> response list \<Rightarrow> 's conn \<Rightarrow> bool \<times> 's conn" where
  "complete_copy sharded replicated rows responses c = (case firstError responses of
       Some response \<Rightarrow> error_ready response c
     | None \<Rightarrow>
         (let tags = tags_of (concat responses) in
          if tags = [] then (True, ready c)
          else (case mergedCopyFromTag tags sharded replicated rows of
              Inl e \<Rightarrow> session_fail ''XX000'' (copy_tag_text e) c
            | Inr tag \<Rightarrow> (True, ready (say [CommandComplete tag] c)))))"

definition handleCopyCompletion :: "'s wire \<Rightarrow> compiler \<Rightarrow> copy_codec \<Rightarrow> frontend_message \<Rightarrow> 's conn \<Rightarrow> bool \<times> 's conn" where
  "handleCopyCompletion wr cc cx message c =
     (let targets = cn_copyTargets c;
          sharded = (case cn_copyPlan c of None \<Rightarrow> False | Some plan \<Rightarrow> cpl_Sharded plan);
          replicated = cn_copyReplicated c;
          c1 = (case message of FCopyFail _ \<Rightarrow> fail_transaction c | _ \<Rightarrow> c) in
      case finish_copy_input wr cc cx message c1 of
        (Some (code, cause), c2) \<Rightarrow> (False, (abortCopy wr code cause c2)\<lparr>cn_copyAborted := False\<rparr>)
      | (None, c2) \<Rightarrow>
          (let rows = (case cn_copyStream c2 of None \<Rightarrow> -1 | Some stream \<Rightarrow> Rows stream); c3 = end_copy c2 in
           case in_world (wr_SendCopyTo wr targets message) c3 of
             (Some e, c4) \<Rightarrow> session_fail ''08006'' e (fail_transaction c4)
           | (None, c4) \<Rightarrow>
               (case in_world (ReceiveUntilFromMany (wr_receive wr isQueryDone) targets) c4 of
                  (Inl e, c5) \<Rightarrow> session_fail ''08006'' e (fail_transaction c5)
                | (Inr responses, c5) \<Rightarrow> complete_copy sharded replicated rows responses c5)))"

section \<open>Every COPY command is answered\<close>

definition command_answered :: "'s conn \<Rightarrow> bool \<times> 's conn \<Rightarrow> bool" where
  "command_answered c r = (\<exists>ms status. sent (snd r) = sent c @ ms @ [ReadyForQuery status] \<and> list_all (\<lambda>m. \<not> is_ready m) ms
     \<and> (fst r \<longleftrightarrow> list_all (\<lambda>m. \<not> is_error m) ms))"

lemma command_answeredI:
  assumes "sent c' = sent c @ ms @ [ReadyForQuery status]" and "list_all (\<lambda>m. \<not> is_ready m) ms" and "ok \<longleftrightarrow> list_all (\<lambda>m. \<not> is_error m) ms"
  shows "command_answered c (ok, c')"
  using assms by (auto simp: command_answered_def)

lemma fail_transaction_sent [simp]: "sent (fail_transaction c) = sent c"
  by (simp add: fail_transaction_def)

lemma end_copy_sent [simp]: "sent (end_copy c) = sent c"
  by (simp add: end_copy_def)

lemma session_fail_answered: "sent c1 = sent c \<Longrightarrow> command_answered c (session_fail code message c1)"
  unfolding session_fail_def
  by (rule command_answeredI [where ms = "[Error \<lparr>er_Severity = ''ERROR'', er_Code = code, er_Message = message\<rparr>]"])
    (simp_all add: sendSessionError_def kind_defs)

lemma error_ready_answered: "sent c1 = sent c \<Longrightarrow> command_answered c (error_ready response c1)"
  unfolding error_ready_def Let_def
  by (rule command_answeredI [where ms = "[Error response]"]) (simp_all add: kind_defs)

lemma abortCopy_sent:
  "\<exists>e status. sent (abortCopy wr code cause c) = sent c @ [Error e] @ [ReadyForQuery status]"
proof -
  obtain a c1 where c1: "in_world (wr_SendCopyTo wr (cn_copyTargets c) (FCopyFail cause)) c = (a, c1)" by fastforce
  obtain b c2 where c2: "in_world (ReceiveUntilFromMany (wr_receive wr isQueryDone) (cn_copyTargets c)) c1 = (b, c2)" by fastforce
  have "sent c2 = sent c" using in_world_sent [OF c1] in_world_sent [OF c2] by simp
  then show ?thesis by (simp add: abortCopy_def c1 c2 Let_def)
qed

lemma abortCopy_answered: "sent c1 = sent c \<Longrightarrow> command_answered c (False, (abortCopy wr code cause c1)\<lparr>cn_copyAborted := b\<rparr>)"
  using abortCopy_sent [of wr code cause c1] by (auto simp: kind_defs intro: command_answeredI [where ms = "[Error e]" for e])

lemma finish_copy_input_sent: "finish_copy_input wr cc cx message c = (r, c') \<Longrightarrow> sent c' = sent c"
  by (auto simp: finish_copy_input_def dest: in_world_sent split: frontend_message.splits option.splits sum.splits prod.splits)

lemma complete_copy_answered: "sent c1 = sent c \<Longrightarrow> command_answered c (complete_copy sharded replicated rows responses c1)"
proof -
  assume s: "sent c1 = sent c"
  have "command_answered c (True, ready c1)" by (rule command_answeredI [where ms = "[]"]) (simp_all add: s)
  moreover have "command_answered c (True, ready (say [CommandComplete tag] c1))" for tag
    by (rule command_answeredI [where ms = "[CommandComplete tag]"]) (simp_all add: s kind_defs)
  ultimately show ?thesis
    using s by (auto simp: complete_copy_def Let_def intro: error_ready_answered session_fail_answered split: option.splits sum.splits)
qed

lemma handleCopyCompletion_answered: "command_answered c (handleCopyCompletion wr cc cx message c)"
proof -
  let ?c1 = "case message of FCopyFail _ \<Rightarrow> fail_transaction c | _ \<Rightarrow> c"
  have s1: "sent ?c1 = sent c" by (simp split: frontend_message.split)
  obtain r c2 where c2: "finish_copy_input wr cc cx message ?c1 = (r, c2)" by fastforce
  have s2: "sent c2 = sent c" using finish_copy_input_sent [OF c2] s1 by simp
  obtain a c4 where c4: "in_world (wr_SendCopyTo wr (cn_copyTargets c) message) (end_copy c2) = (a, c4)" by fastforce
  have s4: "sent c4 = sent c" using in_world_sent [OF c4] s2 by simp
  obtain b c5 where c5: "in_world (ReceiveUntilFromMany (wr_receive wr isQueryDone) (cn_copyTargets c)) c4 = (b, c5)" by fastforce
  have s5: "sent c5 = sent c" using in_world_sent [OF c5] s4 by simp
  show ?thesis
  proof (cases r)
    case None
    have "command_answered c (session_fail ''08006'' e (fail_transaction c4))"
      "command_answered c (session_fail ''08006'' e (fail_transaction c5))" for e
      using s4 s5 by (auto intro: session_fail_answered)
    then show ?thesis using None c2 c4 c5 complete_copy_answered [OF s5]
      by (simp add: handleCopyCompletion_def Let_def split: option.split sum.split)
  next
    case (Some failure)
    then show ?thesis using c2 abortCopy_answered [OF s2] by (simp add: handleCopyCompletion_def Let_def split_beta)
  qed
qed

text \<open>What is left of the COPY on the connection, which sending, receiving and reporting do not touch.\<close>

definition copy_state :: "'s conn \<Rightarrow> bool \<times> string list \<times> Stream option" where
  "copy_state c = (cn_copyIn c, cn_copyTargets c, cn_copyStream c)"

lemma copy_state_kept [simp]:
  "copy_state (do_px f c) = copy_state c" "copy_state (say ms c) = copy_state c" "copy_state (ready c) = copy_state c"
  "copy_state (fail_transaction c) = copy_state c" "copy_state (snd (session_fail code message c)) = copy_state c"
  "copy_state (snd (error_ready response c)) = copy_state c"
  by (simp_all add: do_px_def say_def ready_def fail_transaction_def session_fail_def error_ready_def Let_def copy_state_def)

lemma in_world_copy_state: "in_world f c = (a, c') \<Longrightarrow> copy_state c' = copy_state c"
  by (auto simp: on_px_def copy_state_def split: prod.splits)

lemma end_copy_state [simp]: "copy_state (end_copy c) = (False, [], None)"
  by (simp add: end_copy_def copy_state_def)

lemma copy_aborted_state [simp]: "copy_state (c\<lparr>cn_copyAborted := b\<rparr>) = copy_state c"
  by (simp add: copy_state_def)

lemma complete_copy_state: "copy_state (snd (complete_copy sharded replicated rows responses c)) = copy_state c"
  by (auto simp: complete_copy_def Let_def split: option.split sum.split)

lemma abortCopy_state: "copy_state (abortCopy wr code cause c) = (False, [], None)"
  by (simp add: abortCopy_def Let_def split_beta)

lemma handleCopyCompletion_state: "copy_state (snd (handleCopyCompletion wr cc cx message c)) = (False, [], None)"
proof -
  let ?c1 = "case message of FCopyFail _ \<Rightarrow> fail_transaction c | _ \<Rightarrow> c"
  obtain r c2 where c2: "finish_copy_input wr cc cx message ?c1 = (r, c2)" by fastforce
  obtain a c4 where c4: "in_world (wr_SendCopyTo wr (cn_copyTargets c) message) (end_copy c2) = (a, c4)" by fastforce
  obtain b c5 where c5: "in_world (ReceiveUntilFromMany (wr_receive wr isQueryDone) (cn_copyTargets c)) c4 = (b, c5)" by fastforce
  have s: "copy_state c4 = (False, [], None)" "copy_state c5 = (False, [], None)"
    using in_world_copy_state [OF c4] in_world_copy_state [OF c5] by simp_all
  show ?thesis
  proof (cases r)
    case None
    then show ?thesis using c2 c4 c5 s by (simp add: complete_copy_state handleCopyCompletion_def Let_def split: option.split sum.split)
  next
    case (Some failure)
    then show ?thesis using c2 by (simp add: abortCopy_state handleCopyCompletion_def Let_def split_beta)
  qed
qed

text \<open>C32. The end of COPY FROM STDIN, with CopyDone or CopyFail, is always answered: the client gets one ReadyForQuery, last,
  and an error before it exactly when the handler reports failure.  Whatever happened, the session has left COPY mode.\<close>

theorem copy_completion_answered:
  "command_answered c (handleCopyCompletion wr cc cx message c)
    \<and> copy_state (snd (handleCopyCompletion wr cc cx message c)) = (False, [], None)"
  using handleCopyCompletion_answered handleCopyCompletion_state by blast

section \<open>What a Burrow is sent\<close>

text \<open>The contract of the connections: \<open>journal\<close> is what the Burrows have been sent, and a message that was accepted is added
  to it.\<close>

definition records :: "'s wire \<Rightarrow> ('s \<Rightarrow> (string \<times> bytes) list) \<Rightarrow> bool" where
  "records wr journal = (\<forall>names data w w'. wr_SendCopyTo wr names (FCopyData data) w = (None, w')
     \<longrightarrow> journal w' = journal w @ map (\<lambda>n. (n, data)) names)"

definition received :: "(string \<times> bytes) list \<Rightarrow> string \<Rightarrow> bytes" where
  "received journal b = concat (map snd (filter (\<lambda>x. fst x = b) journal))"

lemma received_append [simp]: "received (l @ l') b = received l b @ received l' b"
  by (simp add: received_def)

lemma sendCopyChunks_received:
  assumes "records wr journal" and "sendCopyChunks wr chunks targets w = (None, w')" and "distinct targets"
  shows "received (journal w') b = received (journal w) b @ (if b \<in> set targets then by_target chunks b else [])"
  using assms(2,3)
proof (induction targets arbitrary: w)
  case (Cons t ts)
  show ?case
  proof (cases "by_target chunks t = []")
    case True
    with Cons show ?thesis by auto
  next
    case False
    then obtain w1 where w1: "wr_SendCopyTo wr [t] (FCopyData (by_target chunks t)) w = (None, w1)" "sendCopyChunks wr chunks ts w1 = (None, w')"
      using Cons.prems(1) by (auto split: prod.splits option.splits)
    have "journal w1 = journal w @ [(t, by_target chunks t)]" using assms(1) w1(1) by (simp add: records_def)
    with Cons.IH [OF w1(2)] Cons.prems(2) show ?thesis by (auto simp: received_def)
  qed
qed simp

lemma in_world_conn:
  assumes "in_world f c = (a, c')"
  shows "f (world c) = (a, world c')" "cn_copyStream c' = cn_copyStream c" "cn_copyTargets c' = cn_copyTargets c"
  using assms by (auto simp: on_px_def on_world_def split: prod.splits)

lemma by_target_append [simp]: "by_target (cs @ ds) b = by_target cs b @ by_target ds b"
  by (simp add: by_target_def)

fun feed :: "'s wire \<Rightarrow> compiler \<Rightarrow> copy_codec \<Rightarrow> bytes list \<Rightarrow> 's conn \<Rightarrow> 's conn option" where
  "feed wr cc cx [] c = Some c"
| "feed wr cc cx (p # ps) c = (case handleCopyData wr cc cx p c of (True, c1) \<Rightarrow> feed wr cc cx ps c1 | (False, _) \<Rightarrow> None)"

lemma handleCopyData_received:
  assumes "records wr journal" and "handleCopyData wr cc cx data c = (True, c1)" and "cn_copyStream c = Some s" and "distinct (cn_copyTargets c)"
  obtains chunks t where "Write (cp_float cc) (cx_bits cx) s data = Inr (chunks, t)" "cn_copyStream c1 = Some t" "cn_copyTargets c1 = cn_copyTargets c"
    "\<And>b. b \<in> set (cn_copyTargets c) \<Longrightarrow> received (journal (world c1)) b = received (journal (world c)) b @ by_target chunks b"
proof -
  from assms(2,3) obtain chunks t where w: "Write (cp_float cc) (cx_bits cx) s data = Inr (chunks, t)"
    and sends: "in_world (sendCopyChunks wr chunks (cn_copyTargets c)) (c\<lparr>cn_copyStream := Some t\<rparr>) = (None, c1)"
    by (auto simp: handleCopyData_def split: sum.splits prod.splits option.splits)
  note f = in_world_conn [OF sends]
  show ?thesis
    by (rule that [OF w]) (use f sendCopyChunks_received [OF assms(1) f(1) assms(4)] in simp_all)
qed

lemma feed_received:
  assumes "records wr journal" and "feed wr cc cx ps c = Some c1" and "cn_copyStream c = Some s" and "distinct (cn_copyTargets c)"
  shows "\<exists>cs t. write_all (cp_float cc) (cx_bits cx) s ps = Inr (cs, t) \<and> cn_copyStream c1 = Some t \<and> cn_copyTargets c1 = cn_copyTargets c
    \<and> (\<forall>b \<in> set (cn_copyTargets c). received (journal (world c1)) b = received (journal (world c)) b @ by_target cs b)"
  using assms(2-4)
proof (induction ps arbitrary: c s)
  case Nil
  then show ?case by (simp add: by_target_def)
next
  case (Cons p ps)
  then obtain c0 where c0: "handleCopyData wr cc cx p c = (True, c0)" "feed wr cc cx ps c0 = Some c1"
    by (auto split: prod.splits bool.splits)
  from handleCopyData_received [OF assms(1) c0(1) Cons.prems(2,3)] obtain chunks t where
    h: "Write (cp_float cc) (cx_bits cx) s p = Inr (chunks, t)" "cn_copyStream c0 = Some t" "cn_copyTargets c0 = cn_copyTargets c"
      "\<And>b. b \<in> set (cn_copyTargets c) \<Longrightarrow> received (journal (world c0)) b = received (journal (world c)) b @ by_target chunks b" by metis
  from Cons.IH [OF c0(2) h(2)] h(3) Cons.prems(3) obtain cs t' where "write_all (cp_float cc) (cx_bits cx) t ps = Inr (cs, t')"
    "cn_copyStream c1 = Some t'" "cn_copyTargets c1 = cn_copyTargets c"
    "\<forall>b \<in> set (cn_copyTargets c). received (journal (world c1)) b = received (journal (world c0)) b @ by_target cs b" by auto
  with h show ?case by (intro exI [of _ "chunks @ cs"]) simp
qed


definition copy_recorder :: "(string \<times> bytes) list wire" where
  "copy_recorder = \<lparr>wr_SendTo = (\<lambda>b m w. (None, w)), wr_SendBatchTo = (\<lambda>b ms w. (None, w)),
     wr_SendCopyTo = (\<lambda>bs m w. (None, case m of FCopyData d \<Rightarrow> w @ map (\<lambda>n. (n, d)) bs | _ \<Rightarrow> w)),
     wr_receive = (\<lambda>final b w. (Inr [], w)), wr_ReceiveEach = (\<lambda>final b w. (([], None), w)), wr_Ensure = (\<lambda>b w. (None, w)),
     wr_Prepared = (\<lambda>b n w. True), wr_MarkPrepared = (\<lambda>bs n w. w), wr_ConnectedNames = (\<lambda>w. [])\<rparr>"

definition sample_codec :: copy_codec where
  "sample_codec = \<lparr>cx_bits = (\<lambda>b n. []), cx_text = (\<lambda>e. [])\<rparr>"

definition copying_conn :: "(string \<times> bytes) list conn" where
  "copying_conn = (sample_conn [])\<lparr>cn_pending := None, cn_copyIn := True, cn_copyTargets := [''a'', ''b''], cn_copyStream := Some sample_stream\<rparr>"

definition fed_conn :: "(string \<times> bytes) list conn" where
  "fed_conn = the (feed copy_recorder sample_compiler sample_codec sample_packets copying_conn)"

definition finished_conn :: "(string \<times> bytes) list conn" where
  "finished_conn = snd (finish_copy_input copy_recorder sample_compiler sample_codec FCopyDone fed_conn)"


text \<open>
  When one Burrow refuses the COPY statement, the client gets the error, but a Burrow that has accepted it is sent
  nothing: it stays in COPY mode on the session's connection.
\<close>

lemma copy_refusal_leaves_copy_mode:
  "firstError responses = Some e \<Longrightarrow> world (snd (start_copy wr cx plan stream targets responses c)) = world c"
  by (simp add: start_copy_def error_ready_def fail_transaction_def ready_def say_def do_px_def send_client_def on_state_def)

text \<open>A COPY statement answered with neither CopyInResponse nor CopyOutResponse is reported without ReadyForQuery.\<close>

lemma copy_both_unanswered:
  "\<not> list_ex is_ready (drop (length (sent c)) (sent (snd (start_copy wr cx plan stream [''a''] [[CopyBothResponse]] c))))"
  by (simp add: start_copy_def sendExtendedError_def kind_defs)

end
