(* ===== verification/Proxy_Serve.thy ===== *)
theory Proxy_Serve
  imports Proxy_Copy
begin

text \<open>
  The frontend session of \<^verbatim>\<open>internal/proxy/server.go\<close>: the parameters of the startup message, queries that need no session
  (\<^verbatim>\<open>handleQuery\<close>), and the loop of \<^verbatim>\<open>serveQueries\<close> as a function that handles one message of the client.  Sockets and
  the goroutine that reads ahead are left out: the messages are the inputs, in the order they were read.
\<close>

section \<open>Startup\<close>

type_synonym params = "(string, string) gomap"

definition runtimeParamOrDefault :: "params \<Rightarrow> string \<Rightarrow> string \<Rightarrow> string" where
  "runtimeParamOrDefault ps name defaultValue = (case map_of ps name of None \<Rightarrow> defaultValue | Some v \<Rightarrow> if v \<noteq> [] then v else defaultValue)"

text \<open>The map of the startup message is visited in an unspecified order; a list represents one such order.\<close>

definition startupParameter :: "params \<Rightarrow> string \<Rightarrow> string option" where
  "startupParameter ps wanted = map_option snd (List.find (\<lambda>(name, value). equal_fold name wanted) ps)"

definition setting_char :: "char \<Rightarrow> bool" where
  "setting_char c = (c = CHR ''_'' \<or> 97 \<le> byte_val c \<and> byte_val c \<le> 122 \<or> 65 \<le> byte_val c \<and> byte_val c \<le> 90 \<or> is_digit c)"

definition validSettingName :: "string \<Rightarrow> bool" where
  "validSettingName name = (name \<noteq> [] \<and> list_all setting_char name)"

text \<open>\<^verbatim>\<open>strings.Cut(s, "=")\<close>.\<close>

definition cut_equals :: "string \<Rightarrow> (string \<times> string) option" where
  "cut_equals s = (case index_byte s CHR ''='' of None \<Rightarrow> None | Some i \<Rightarrow> Some (take i s, drop (i + 1) s))"

definition canonicalSetting :: "string \<Rightarrow> string" where
  "canonicalSetting name = (let l = to_lower name in
     if l = ''datestyle'' then ''DateStyle'' else if l = ''timezone'' then ''TimeZone''
     else if l = ''intervalstyle'' then ''IntervalStyle'' else if l = ''standard_conforming_strings'' then ''standard_conforming_strings''
     else if l = ''application_name'' then ''application_name'' else name)"

definition set_startup_option :: "string \<Rightarrow> params \<Rightarrow> params" where
  "set_startup_option assignment ps = (case cut_equals assignment of None \<Rightarrow> ps
     | Some (name, v) \<Rightarrow> if \<not> validSettingName name then ps else AList.update (canonicalSetting name) v ps)"

fun parse_options :: "params \<Rightarrow> string list \<Rightarrow> params" where
  "parse_options ps [] = ps"
| "parse_options ps (f # fs) =
     (if f = ''-c'' \<and> fs \<noteq> [] then parse_options (set_startup_option (hd fs) ps) (tl fs)
      else parse_options (set_startup_option
        (if has_prefix f ''-c'' then trim_prefix f ''-c'' else if has_prefix f ''--'' then trim_prefix f ''--'' else []) ps) fs)"

definition parseStartupOptions :: "params \<Rightarrow> string \<Rightarrow> params" where
  "parseStartupOptions ps options = parse_options ps (split_fields options)"

definition startupRuntimeParameters :: "params \<Rightarrow> params" where
  "startupRuntimeParameters startup =
     (let ps = (case startupParameter startup ''options'' of None \<Rightarrow> [] | Some options \<Rightarrow> parseStartupOptions [] options) in
      foldl (\<lambda>ps (wanted, runtime). case startupParameter startup wanted of None \<Rightarrow> ps | Some v \<Rightarrow> AList.update runtime v ps) ps
        [(''datestyle'', ''DateStyle''), (''timezone'', ''TimeZone''), (''application_name'', ''application_name'')])"

text \<open>The greeting; authentication and the random cancellation key come from the caller.\<close>

definition sendStartup :: "backend_message \<Rightarrow> backend_message \<Rightarrow> params \<Rightarrow> response" where
  "sendStartup authenticationOk backendKeyData ps =
     [authenticationOk, ParameterStatus ''client_encoding'' ''UTF8'',
      ParameterStatus ''DateStyle'' (runtimeParamOrDefault ps ''DateStyle'' ''ISO, MDY''), ParameterStatus ''integer_datetimes'' ''on'',
      ParameterStatus ''IntervalStyle'' (runtimeParamOrDefault ps ''IntervalStyle'' ''postgres''), ParameterStatus ''server_version'' ''17.0'',
      ParameterStatus ''standard_conforming_strings'' (runtimeParamOrDefault ps ''standard_conforming_strings'' ''on''),
      ParameterStatus ''TimeZone'' (runtimeParamOrDefault ps ''TimeZone'' ''UTC''), backendKeyData, ReadyForQuery CHR ''I'']"

definition cloneFrontendMessage :: "frontend_message \<Rightarrow> frontend_message" where
  "cloneFrontendMessage m = (case m of FBind b \<Rightarrow> FBind (clone_bind b) | _ \<Rightarrow> m)"

section \<open>Queries without a session\<close>

datatype query_failure = PgFailure ErrorResponse | OtherFailure string

text \<open>The backend operations of a session: opening and closing its connections (may they go back to the pool, are their
  prepared statements dropped), and the pooled queries.  \<open>bo_Lock\<close> and
  \<open>bo_Unlock\<close> are \<^verbatim>\<open>Manager.LockFleetWrites\<close>.\<close>

record 's backend_ops =
  bo_NewSession :: "params \<Rightarrow> string list \<Rightarrow> 's \<Rightarrow> string option \<times> 's"
  bo_CloseSession :: "bool \<Rightarrow> bool \<Rightarrow> 's \<Rightarrow> 's"
  bo_QueryOne :: "string \<Rightarrow> string \<Rightarrow> 's \<Rightarrow> (query_failure + Result) \<times> 's"
  bo_QueryAll :: "string \<Rightarrow> 's \<Rightarrow> (query_failure + Result) \<times> 's"
  bo_Lock :: "'s \<Rightarrow> 's"
  bo_Unlock :: "'s \<Rightarrow> 's"

definition query_error :: "string \<Rightarrow> string \<Rightarrow> 's proxy \<Rightarrow> bool \<times> 's proxy" where
  "query_error code message px = (False, send_client (sendError code message) px)"

definition query_key :: "'s environment \<Rightarrow> compiler \<Rightarrow> string \<Rightarrow> 's proxy \<Rightarrow> ((string \<times> string) + string \<times> Prepared option) \<times> 's proxy" where
  "query_key env cc sql px =
     (let registry = sv_schema (px_server px); routing = Prepare (cp_parse cc) sql;
          rewrite = (\<lambda>v. RewriteGeneratedInsert (cp_parse cc) (cp_deparse cc) sql registry v) in
      if routing \<noteq> None \<and> firstSQLKeyword sql = ''INSERT'' \<and> GeneratedPrimaryKey registry (Table routing) \<noteq> None \<and> rewrite ''0'' \<noteq> None
      then (case on_world (en_NextGlobalID env) px of
          (Inl e, px1) \<Rightarrow> (Inl (''55000'', ''allocate globally unique primary key: '' @ e), px1)
        | (Inr ident, px1) \<Rightarrow>
            (let sql' = (case rewrite (show_int ident) of None \<Rightarrow> [] | Some g \<Rightarrow> gi_SQL g) in
             case Prepare (cp_parse cc) sql' of None \<Rightarrow> (Inl (''42601'', ddl_error_text ParseFailed), px1)
             | Some p \<Rightarrow> (Inr (sql', Some p), px1)))
      else (Inr (sql, routing), px))"

definition result_messages :: "Result \<Rightarrow> response" where
  "result_messages r = (if rs_Fields r \<noteq> [] then RowDescription (rs_Fields r) # map DataRow (rs_Rows r) else [])
     @ [CommandComplete (rs_CommandTag r), ReadyForQuery CHR ''I'']"

definition run_query :: "'s environment \<Rightarrow> 's backend_ops \<Rightarrow> string \<Rightarrow> bool \<Rightarrow> string \<Rightarrow> bool \<Rightarrow> 's proxy \<Rightarrow> bool \<times> 's proxy" where
  "run_query env bo sql schema target routed px =
     (case on_world (if routed then bo_QueryOne bo sql target else bo_QueryAll bo sql) (beginSchemaCommit schema px) of
        (Inl (PgFailure response), px1) \<Rightarrow> (False, send_client (sendBackendError CHR ''I'' response) px1)
      | (Inl (OtherFailure e), px1) \<Rightarrow> query_error ''XX000'' e px1
      | (Inr result, px1) \<Rightarrow>
          (case (if schema then refreshSchemaAfterDDL env px1 else (None, px1)) of
             (Some e, px2) \<Rightarrow> query_error ''55000'' (refresh_message e) px2
           | (None, px2) \<Rightarrow>
               (let targets = (if routed then [target] else sv_shardNames (px_server px2));
                    px3 = (if invalidatesPreparedStatements sql
                           then snd (on_world (\<lambda>w. ((), en_InvalidatePrepared env targets w)) px2) else px2) in
                (True, send_client (result_messages result) px3))))"

definition route_query :: "'s environment \<Rightarrow> 's backend_ops \<Rightarrow> compiler \<Rightarrow> string \<Rightarrow> bool \<Rightarrow> Prepared option \<Rightarrow> 's proxy \<Rightarrow> bool \<times> 's proxy" where
  "route_query env bo cc sql schema routing px =
     (let (rnd, px1) = on_world (en_random env) px;
          (decision, sv) = resolveRouteDecision (cp_float cc) rnd (px_server px1) routing (sv_shardNames (px_server px1));
          px2 = px1\<lparr>px_server := sv\<rparr> in
      if rd_scatterError decision \<noteq> [] then query_error ''0A000'' (rd_scatterError decision) px2
      else if rd_keyedWrite decision \<and> \<not> rd_routed decision
      then query_error ''0A000'' ''write to a sharded table must include its annotated shard key'' px2
      else run_query env bo sql schema (rd_target decision) (rd_routed decision) px2)"

definition handleQuery :: "'s environment \<Rightarrow> 's backend_ops \<Rightarrow> compiler \<Rightarrow> string \<Rightarrow> 's proxy \<Rightarrow> bool \<times> 's proxy" where
  "handleQuery env bo cc sql px =
     (if trim_space sql = [] then (True, send_client [EmptyQueryResponse, ReadyForQuery CHR ''I''] px)
      else (case normalizeDDL (cp_parse cc) (cp_deparse cc) sql of
          Inl e \<Rightarrow> query_error ''42601'' (ddl_error_text e) px
        | Inr normalized \<Rightarrow>
            (case query_key env cc (ns_sql normalized) px of
               (Inl (code, message), px1) \<Rightarrow> query_error code message px1
             | (Inr (sql', routing), px1) \<Rightarrow>
                 if requiresFleetWriteOrder (cp_parse cc) sql' (length (sv_shardNames (px_server px1)))
                 then (case route_query env bo cc sql' (ns_schema normalized) routing (snd (on_world (\<lambda>w. ((), bo_Lock bo w)) px1)) of
                     (ok, px2) \<Rightarrow> (ok, snd (on_world (\<lambda>w. ((), bo_Unlock bo w)) px2)))
                 else route_query env bo cc sql' (ns_schema normalized) routing px1)))"

section \<open>One message of the client\<close>

text \<open>SHA-256 and the binary decoder of \<^verbatim>\<open>pgtype\<close>.\<close>

record codecs =
  cd_sha :: "bytes \<Rightarrow> bytes"
  cd_scan :: "int \<Rightarrow> bytes \<Rightarrow> string option"
  cd_copy :: copy_codec

definition extended_fail :: "string \<Rightarrow> string \<Rightarrow> 's conn \<Rightarrow> 's conn" where
  "extended_fail code message c = (say (sendExtendedError code message) c)\<lparr>cn_failed := True\<rparr>"

definition fail_unless :: "bool \<times> 's conn \<Rightarrow> 's conn" where
  "fail_unless r = (case r of (ok, c) \<Rightarrow> if ok then c else c\<lparr>cn_failed := True\<rparr>)"

definition ensureSession :: "'s backend_ops \<Rightarrow> params \<Rightarrow> 's conn \<Rightarrow> bool \<times> 's conn" where
  "ensureSession bo ps c = (if cn_session c then (True, c)
     else (case in_world (bo_NewSession bo ps (sessionReplaySQL (session_of c))) c of
         (Some e, c1) \<Rightarrow> (False, extended_fail ''08006'' e c1)
       | (None, c1) \<Rightarrow> (True, c1\<lparr>cn_session := True\<rparr>)))"

definition route_portal :: "'s environment \<Rightarrow> compiler \<Rightarrow> Prepared option \<Rightarrow> parameters \<Rightarrow> 's conn \<Rightarrow> routeDecision \<times> 's conn" where
  "route_portal env cc routing ps c = (case in_world (en_random env) c of (rnd, c1) \<Rightarrow>
     (case routePortal (cp_float cc) rnd (px_server (cn_px c1)) routing ps (shards_of c1) of
        (decision, sv) \<Rightarrow> (decision, do_px (\<lambda>px. px\<lparr>px_server := sv\<rparr>) c1)))"

definition prepare_error_text :: "prepare_error \<Rightarrow> string" where
  "prepare_error_text e = (case e of BadDDL d \<Rightarrow> ddl_error_text d | BadStatement \<Rightarrow> ddl_error_text ParseFailed)"

definition serve_parse :: "'s environment \<Rightarrow> compiler \<Rightarrow> codecs \<Rightarrow> parse_message \<Rightarrow> 's conn \<Rightarrow> 's conn" where
  "serve_parse env cc cd message c = (if cn_failed c then c
     else (case prepareStatement (cd_sha cd) (cp_parse cc) (cp_deparse cc) message (sv_schema (px_server (cn_px c))) of
         Inl e \<Rightarrow> extended_fail ''42601'' (prepare_error_text e) c
       | Inr prepared \<Rightarrow>
     (case session_validateAtomicFleetDDL (cp_parse cc) (sv_twoPhaseCommit (px_server (cn_px c))) (es_temp (session_of c))
             (ss_sql prepared) (length (shards_of c)) of
         Inl e \<Rightarrow> extended_fail ''0A000'' (fleet_error_text e) c
       | Inr _ \<Rightarrow>
     (case route_portal env cc (ss_routing prepared) (placeholderRoutingParameters (nat (MaxParameter (ss_routing prepared)))) c of
         (decision, c1) \<Rightarrow>
           if rd_scatterError decision \<noteq> [] then extended_fail ''0A000'' (rd_scatterError decision) c1
           else if rd_keyedWrite decision \<and> \<not> rd_routed decision
           then extended_fail ''0A000'' ''write to a sharded table must include one unambiguous annotated shard key'' c1
           else (case handleCachedParse c1 of
               (True, c2) \<Rightarrow> c2\<lparr>cn_statements := AList.update (pm_Name message) prepared (cn_statements c2)\<rparr>
             | (False, c2) \<Rightarrow> c2\<lparr>cn_failed := True\<rparr>)))))"

definition needs_session :: "compiler \<Rightarrow> params \<Rightarrow> string \<Rightarrow> 's conn \<Rightarrow> bool" where
  "needs_session cc ps sql c = (cn_session c \<or> ps \<noteq> [] \<or> es_sessionSettings (session_of c) \<noteq> [] \<or> requiresSessionBackend (cp_parse cc) sql
     \<or> isTransactionControl sql \<or> isServerLocalDDL (cp_parse cc) sql \<or> requiresFleetWriteOrder (cp_parse cc) sql (length (shards_of c)))"

definition serve_query :: "'s environment \<Rightarrow> 's wire \<Rightarrow> 's backend_ops \<Rightarrow> compiler \<Rightarrow> codecs \<Rightarrow> params \<Rightarrow> string \<Rightarrow> 's conn \<Rightarrow> 's conn" where
  "serve_query env wr bo cc cd ps sql c = (if cn_failed c then c
     else if firstSQLKeyword sql = ''COPY''
     then (case ensureSession bo ps c of (False, c1) \<Rightarrow> c1 | (True, c1) \<Rightarrow> snd (handleCopyQuery env wr cc (cd_copy cd) sql c1))
     else if containsCopyStatement (cp_parse cc) sql
     then say (sendSessionError (txStatus (session_of c)) ''0A000''
       ''COPY in a multi-statement query is not supported; send COPY as a standalone statement'') c
     else if needs_session cc ps sql c
     then (case ensureSession bo ps c of (False, c1) \<Rightarrow> c1 | (True, c1) \<Rightarrow> do_px (\<lambda>px. snd (handleSessionQuery env cc sql px)) c1)
     else do_px (\<lambda>px. snd (handleQuery env bo cc sql px)) c)"

text \<open>A Bind is kept for the batch when none is waiting; otherwise it goes to the Burrows at once.\<close>

definition bind_portal :: "'s wire \<Rightarrow> compiler \<Rightarrow> bind_message \<Rightarrow> bind_message \<Rightarrow> parameters \<Rightarrow> statementState \<Rightarrow> routeDecision \<Rightarrow> 's conn \<Rightarrow> 's conn" where
  "bind_portal wr cc message bound parameters statement decision c =
     (let temporaryDDL = referencesTemporaryDDL (cp_parse cc) (es_temp (session_of c)) (ss_sql statement);
          ordered = (requiresFleetWriteOrder (cp_parse cc) (ss_sql statement) (length (shards_of c)) \<and> \<not> temporaryDDL);
          target = (if ordered then [] else rd_target decision);
          routed = (\<not> ordered \<and> rd_routed decision);
          portal = \<lparr>ps_sql = ss_sql statement, ps_parameters = parameters, ps_schema = ss_schema statement, ps_target = target,
            ps_routed = routed, ps_keyedWrite = rd_keyedWrite decision\<rparr>;
          keep = (\<lambda>c. c\<lparr>cn_portals := AList.update (bm_DestinationPortal message) portal (cn_portals c)\<rparr>) in
      if cn_pending c = None \<and> \<not> isTransactionControl (ss_sql statement)
      then (keep c)\<lparr>cn_pending := Some \<lparr>pe_targets = (if routed then [target] else shards_of c), pe_bind = bound, pe_describe = None,
        pe_execute = None, pe_portalName = bm_DestinationPortal message, pe_portal = portal, pe_statement = statement\<rparr>\<rparr>
      else (case handleBind wr bound target routed statement c of (True, c1) \<Rightarrow> keep c1 | (False, c1) \<Rightarrow> c1\<lparr>cn_failed := True\<rparr>))"

definition serve_bind :: "'s environment \<Rightarrow> 's wire \<Rightarrow> 's backend_ops \<Rightarrow> compiler \<Rightarrow> codecs \<Rightarrow> params \<Rightarrow> bind_message \<Rightarrow> 's conn \<Rightarrow> 's conn" where
  "serve_bind env wr bo cc cd ps message c = (case ensureSession bo ps c of (ok, c1) \<Rightarrow>
     if \<not> ok \<or> cn_failed c1 then c1
     else let statement = statement_of c1 (bm_PreparedStatement message) in
       case in_world (prepareBind (cd_scan cd) (en_NextGlobalID env) message statement) c1 of
         (Inl e, c2) \<Rightarrow> extended_fail ''55000'' (''allocate globally unique primary key: '' @ e) c2
       | (Inr (bound, parameters), c2) \<Rightarrow>
           (case route_portal env cc (ss_routing statement) parameters c2 of (decision, c3) \<Rightarrow>
              if rd_scatterError decision \<noteq> [] then extended_fail ''0A000'' (rd_scatterError decision) c3
              else if rd_keyedWrite decision \<and> \<not> rd_routed decision
              then extended_fail ''0A000'' ''write to a sharded table must include its annotated shard key'' c3
              else bind_portal wr cc message bound parameters statement decision c3))"

text \<open>Flushing the batch in front of another operation; True when the operation goes on.\<close>

definition flush_first :: "'s environment \<Rightarrow> 's wire \<Rightarrow> compiler \<Rightarrow> 's conn \<Rightarrow> bool \<times> 's conn" where
  "flush_first env wr cc c = (if cn_pending c = None then (True, c)
     else (case flushPendingExtended env wr cc False c of (True, c1) \<Rightarrow> (True, c1) | (False, c1) \<Rightarrow> (False, c1\<lparr>cn_failed := True\<rparr>)))"

text \<open>\<^verbatim>\<open>%q\<close>: quotes, backslashes and control characters are escaped; the bytes of other characters stand for themselves.\<close>

definition quote_char :: "char \<Rightarrow> string" where
  "quote_char ch = (let b = byte_val ch in
     if b = 34 \<or> b = 92 then [CHR 0x5C, ch]
     else if b = 7 then [CHR 0x5C, CHR ''a''] else if b = 8 then [CHR 0x5C, CHR ''b''] else if b = 9 then [CHR 0x5C, CHR ''t'']
     else if b = 10 then [CHR 0x5C, CHR ''n''] else if b = 11 then [CHR 0x5C, CHR ''v''] else if b = 12 then [CHR 0x5C, CHR ''f'']
     else if b = 13 then [CHR 0x5C, CHR ''r'']
     else if b < 32 \<or> b = 127 then [CHR 0x5C, CHR ''x'', Proxy_Prepare.hex_digit (nat b div 16), Proxy_Prepare.hex_digit (nat b mod 16)]
     else [ch])"

definition go_quote :: "string \<Rightarrow> string" where
  "go_quote s = [CHR 0x22] @ concat (map quote_char s) @ [CHR 0x22]"

definition describe_statement :: "'s wire \<Rightarrow> string \<Rightarrow> 's conn \<Rightarrow> 's conn" where
  "describe_statement wr name c = (case map_of (cn_statements c) name of
       None \<Rightarrow> extended_fail ''26000'' (''prepared statement '' @ go_quote name @ '' does not exist'') c
     | Some statement \<Rightarrow>
         (case shards_of c of [] \<Rightarrow> extended_fail ''08006'' ''no Burrows configured'' c
          | target # _ \<Rightarrow>
              (case materializeStatement wr statement [target] c of
                 (False, c1) \<Rightarrow> c1\<lparr>cn_failed := True\<rparr>
               | (True, c1) \<Rightarrow>
                   (case handleDescribe wr CHR ''S'' (ss_backendName statement) (ss_generated statement) target True c1 of
                      ((ok, oids), c2) \<Rightarrow>
                        if \<not> ok then c2\<lparr>cn_failed := True\<rparr>
                        else if oids \<noteq> []
                        then c2\<lparr>cn_statements := AList.update name
                          (statement\<lparr>ss_message := map_option (\<lambda>m. m\<lparr>pm_ParameterOIDs := oids\<rparr>) (ss_message statement)\<rparr>) (cn_statements c2)\<rparr>
                        else c2))))"

definition serve_describe :: "'s environment \<Rightarrow> 's wire \<Rightarrow> 's backend_ops \<Rightarrow> compiler \<Rightarrow> params \<Rightarrow> char \<Rightarrow> string \<Rightarrow> 's conn \<Rightarrow> 's conn" where
  "serve_describe env wr bo cc ps objectType name c = (case ensureSession bo ps c of (ok, c1) \<Rightarrow>
     if \<not> ok \<or> cn_failed c1 then c1
     else (case cn_pending c1 of
         Some p \<Rightarrow> if objectType = CHR ''P'' \<and> pe_portalName p = name
           then c1\<lparr>cn_pending := Some (p\<lparr>pe_describe := Some (FDescribe objectType name)\<rparr>)\<rparr>
           else (case flush_first env wr cc c1 of (False, c2) \<Rightarrow> c2
             | (True, c2) \<Rightarrow> if objectType = CHR ''S'' then describe_statement wr name c2
                 else fail_unless (case handleDescribe wr objectType name False
                   (if objectType = CHR ''P'' then ps_target (portal_of c2 name) else [])
                   (objectType = CHR ''P'' \<and> ps_routed (portal_of c2 name)) c2 of ((ok, _), c3) \<Rightarrow> (ok, c3)))
       | None \<Rightarrow> if objectType = CHR ''S'' then describe_statement wr name c1
           else fail_unless (case handleDescribe wr objectType name False
             (if objectType = CHR ''P'' then ps_target (portal_of c1 name) else [])
             (objectType = CHR ''P'' \<and> ps_routed (portal_of c1 name)) c1 of ((ok, _), c3) \<Rightarrow> (ok, c3))))"

definition serve_execute :: "'s environment \<Rightarrow> 's wire \<Rightarrow> 's backend_ops \<Rightarrow> compiler \<Rightarrow> params \<Rightarrow> string \<Rightarrow> int \<Rightarrow> 's conn \<Rightarrow> 's conn" where
  "serve_execute env wr bo cc ps portal maxRows c = (case ensureSession bo ps c of (ok, c1) \<Rightarrow>
     if \<not> ok \<or> cn_failed c1 then c1
     else (case cn_pending c1 of
         Some p \<Rightarrow> if pe_portalName p = portal then c1\<lparr>cn_pending := Some (p\<lparr>pe_execute := Some (FExecute portal maxRows)\<rparr>)\<rparr>
           else fail_unless (handleExecute env wr cc (FExecute portal maxRows) (portal_of c1 portal) c1)
       | None \<Rightarrow> fail_unless (handleExecute env wr cc (FExecute portal maxRows) (portal_of c1 portal) c1)))"

definition serve_close :: "'s environment \<Rightarrow> 's wire \<Rightarrow> 's backend_ops \<Rightarrow> compiler \<Rightarrow> params \<Rightarrow> char \<Rightarrow> string \<Rightarrow> 's conn \<Rightarrow> 's conn" where
  "serve_close env wr bo cc ps objectType name c = (case ensureSession bo ps c of (ok, c1) \<Rightarrow>
     if \<not> ok \<or> cn_failed c1 then c1
     else (case flush_first env wr cc c1 of (False, c2) \<Rightarrow> c2
       | (True, c2) \<Rightarrow>
           if objectType = CHR ''S'' then say [CloseComplete] (c2\<lparr>cn_statements := AList.delete name (cn_statements c2)\<rparr>)
           else (case handleClose wr objectType name (ps_target (portal_of c2 name)) (objectType = CHR ''P'' \<and> ps_routed (portal_of c2 name)) c2 of
               (True, c3) \<Rightarrow> c3\<lparr>cn_portals := AList.delete name (cn_portals c3)\<rparr>
             | (False, c3) \<Rightarrow> c3\<lparr>cn_failed := True\<rparr>)))"

definition serve_sync :: "'s environment \<Rightarrow> 's wire \<Rightarrow> compiler \<Rightarrow> 's conn \<Rightarrow> 's conn" where
  "serve_sync env wr cc c =
     (if \<not> cn_session c then (ready c)\<lparr>cn_failed := False\<rparr>
      else if cn_pending c \<noteq> None
      then (case flushPendingExtended env wr cc True c of (ok, c1) \<Rightarrow> if ok then c1\<lparr>cn_failed := False\<rparr> else c1)
      else if cn_syncConsumed c then (ready c)\<lparr>cn_syncConsumed := False, cn_failed := False\<rparr>
      else (case handleSync env wr c of (ok, c1) \<Rightarrow> if ok then c1\<lparr>cn_failed := False\<rparr> else c1))"

definition serve_copy_data :: "'s wire \<Rightarrow> compiler \<Rightarrow> codecs \<Rightarrow> bytes \<Rightarrow> 's conn \<Rightarrow> 's conn" where
  "serve_copy_data wr cc cd data c = (if cn_copyAborted c then c
     else if \<not> cn_copyIn c \<or> \<not> cn_session c then extended_fail ''08P01'' ''CopyData received outside COPY FROM STDIN'' c
     else (case handleCopyData wr cc (cd_copy cd) data c of (ok, c1) \<Rightarrow> if ok then c1 else c1\<lparr>cn_failed := False\<rparr>))"

definition serve_copy_end :: "'s wire \<Rightarrow> compiler \<Rightarrow> codecs \<Rightarrow> frontend_message \<Rightarrow> 's conn \<Rightarrow> 's conn" where
  "serve_copy_end wr cc cd message c = (if cn_copyAborted c then c\<lparr>cn_copyAborted := False, cn_failed := False\<rparr>
     else if \<not> cn_copyIn c \<or> \<not> cn_session c then extended_fail ''08P01'' ''COPY completion received outside COPY FROM STDIN'' c
     else (case handleCopyCompletion wr cc (cd_copy cd) message c of (ok, c1) \<Rightarrow> if ok then c1 else c1\<lparr>cn_failed := False\<rparr>))"

definition serve_flush :: "'s environment \<Rightarrow> 's wire \<Rightarrow> compiler \<Rightarrow> 's conn \<Rightarrow> 's conn" where
  "serve_flush env wr cc c = (if cn_session c \<and> cn_pending c \<noteq> None then fail_unless (flushPendingExtended env wr cc False c) else c)"

text \<open>The schema barrier in front of a message; True when the message is handled.\<close>

definition schema_barrier :: "'s environment \<Rightarrow> frontend_message \<Rightarrow> 's conn \<Rightarrow> bool \<times> 's conn" where
  "schema_barrier env message c =
     (let local = (es_schemaDirty (session_of c) \<and> \<not> es_transaction (session_of c)) in
      if message = FSync \<or> \<not> (local \<or> px_schemaRefreshPending (cn_px c)) then (True, c)
      else (case on_px (refreshSchemaBarrier env local) c of
          (Some e, c1) \<Rightarrow> (False, case message of
              FQuery _ \<Rightarrow> say (sendSessionError (txStatus (session_of c1)) ''55000'' (refresh_message e)) c1
            | _ \<Rightarrow> extended_fail ''55000'' (refresh_message e) c1)
        | (None, c1) \<Rightarrow> (True, if local then do_px (on_state (\<lambda>s. s\<lparr>es_schemaDirty := False\<rparr>)) c1 else c1)))"

definition dispatch :: "'s environment \<Rightarrow> 's wire \<Rightarrow> 's backend_ops \<Rightarrow> compiler \<Rightarrow> codecs \<Rightarrow> params \<Rightarrow> frontend_message \<Rightarrow> 's conn \<Rightarrow> 's conn" where
  "dispatch env wr bo cc cd ps message c = (case message of
       FParse m \<Rightarrow> serve_parse env cc cd m c
     | FQuery sql \<Rightarrow> serve_query env wr bo cc cd ps sql c
     | FBind m \<Rightarrow> serve_bind env wr bo cc cd ps m c
     | FDescribe objectType name \<Rightarrow> serve_describe env wr bo cc ps objectType name c
     | FExecute portal maxRows \<Rightarrow> serve_execute env wr bo cc ps portal maxRows c
     | FClose objectType name \<Rightarrow> serve_close env wr bo cc ps objectType name c
     | FSync \<Rightarrow> serve_sync env wr cc c
     | FFlush \<Rightarrow> serve_flush env wr cc c
     | FCopyData data \<Rightarrow> serve_copy_data wr cc cd data c
     | FCopyDone \<Rightarrow> serve_copy_end wr cc cd message c
     | FCopyFail _ \<Rightarrow> serve_copy_end wr cc cd message c
     | FTerminate \<Rightarrow> c
     | FOther kind \<Rightarrow> say (sendError ''0A000'' (''unsupported PostgreSQL frontend message '' @ kind)) c)"

text \<open>Outside a transaction and without session state the connections go back to the pools.\<close>

definition release_session :: "'s backend_ops \<Rightarrow> frontend_message \<Rightarrow> 's conn \<Rightarrow> 's conn" where
  "release_session bo message c =
     (if (case message of FSync \<Rightarrow> True | FQuery _ \<Rightarrow> True | _ \<Rightarrow> False) \<and> cn_session c \<and> \<not> es_transaction (session_of c)
         \<and> \<not> es_sessionAffinity (session_of c) \<and> \<not> cn_copyIn c \<and> cn_pending c = None \<and> \<not> cn_failed c
      then (snd (in_world (\<lambda>w. ((), bo_CloseSession bo True False w)) c))\<lparr>cn_session := False\<rparr> else c)"

text \<open>One round of the loop; None when the client has terminated the session or a handler has crashed.\<close>

definition serve_message :: "'s environment \<Rightarrow> 's wire \<Rightarrow> 's backend_ops \<Rightarrow> compiler \<Rightarrow> codecs \<Rightarrow> params \<Rightarrow> frontend_message \<Rightarrow> 's conn
    \<Rightarrow> 's conn option" where
  "serve_message env wr bo cc cd ps message c =
     (if message = FTerminate then None
      else (case schema_barrier env message c of
          (False, c1) \<Rightarrow> Some c1
        | (True, c1) \<Rightarrow>
            (let c2 = dispatch env wr bo cc cd ps (cloneFrontendMessage message) c1 in
             if cn_crashed c2 then None else Some (release_session bo message c2))))"

fun serveQueries :: "'s environment \<Rightarrow> 's wire \<Rightarrow> 's backend_ops \<Rightarrow> compiler \<Rightarrow> codecs \<Rightarrow> params \<Rightarrow> frontend_message list \<Rightarrow> 's conn \<Rightarrow> 's conn option" where
  "serveQueries env wr bo cc cd ps [] c = Some c"
| "serveQueries env wr bo cc cd ps (m # ms) c = (case serve_message env wr bo cc cd ps m c of
       None \<Rightarrow> None | Some c1 \<Rightarrow> serveQueries env wr bo cc cd ps ms c1)"

text \<open>What is left to do when the loop has ended: the connections of the session are given back or destroyed.\<close>

definition end_session :: "'s backend_ops \<Rightarrow> 's conn \<Rightarrow> 's conn" where
  "end_session bo c = (if cn_session c
     then (snd (in_world (\<lambda>w. ((), bo_CloseSession bo (\<not> es_sessionDestroy (session_of c)) (es_sessionDiscardPrepared (session_of c)) w)) c))
       \<lparr>cn_session := False\<rparr> else c)"

text \<open>The start of a connection: encryption is declined, a cancellation or anything else ends the connection, a startup message
  is greeted and begins the session with its runtime parameters.\<close>

datatype startup_message = SSLRequest | CancelRequest | StartupMessage params | OtherStartup

datatype connection_start = Closed string | Unexpected string | Session string params response

fun serveConn :: "backend_message \<Rightarrow> backend_message \<Rightarrow> string \<Rightarrow> startup_message list \<Rightarrow> connection_start" where
  "serveConn auth key written [] = Closed written"
| "serveConn auth key written (SSLRequest # ms) = serveConn auth key (written @ ''N'') ms"
| "serveConn auth key written (CancelRequest # ms) = Closed written"
| "serveConn auth key written (StartupMessage startup # ms) =
     (let ps = startupRuntimeParameters startup in Session written ps (sendStartup auth key ps))"
| "serveConn auth key written (OtherStartup # ms) = Unexpected written"

section \<open>Recovery from an error\<close>

text \<open>The messages an error makes the Proxy skip until the next Sync.\<close>

definition skipped_after_error :: "frontend_message \<Rightarrow> bool" where
  "skipped_after_error m = (case m of FParse _ \<Rightarrow> True | FQuery _ \<Rightarrow> True | FBind _ \<Rightarrow> True | FDescribe _ _ \<Rightarrow> True
     | FExecute _ _ \<Rightarrow> True | FClose _ _ \<Rightarrow> True | _ \<Rightarrow> False)"


definition sample_ops :: "unit backend_ops" where
  "sample_ops = \<lparr>bo_NewSession = (\<lambda>ps sqls w. (None, w)), bo_CloseSession = (\<lambda>keep discard w. w), bo_QueryOne = (\<lambda>sql b w. (Inl (OtherFailure []), w)),
     bo_QueryAll = (\<lambda>sql w. (Inl (OtherFailure []), w)), bo_Lock = (\<lambda>w. w), bo_Unlock = (\<lambda>w. w)\<rparr>"

definition sample_codecs :: codecs where
  "sample_codecs = \<lparr>cd_sha = (\<lambda>b. b), cd_scan = (\<lambda>n b. None), cd_copy = sample_codec\<rparr>"


section \<open>Every Sync is answered\<close>

lemma relaySync_answer:
  assumes "relaySync responses status = (ms, ok)"
  shows "if ok then ms = [ReadyForQuery status] else list_all (\<lambda>m. \<not> is_ready m) ms \<and> list_ex is_error ms"
  using assms by (auto simp: relaySync_def sendExtendedError_def kind_defs split: if_splits option.splits)

definition ends_ready :: "'s conn \<Rightarrow> 's conn \<Rightarrow> bool" where
  "ends_ready c c' = (\<exists>ms status. sent c' = sent c @ ms @ [ReadyForQuery status] \<and> list_all (\<lambda>m. \<not> is_ready m) ms)"

lemma ends_readyI: "sent c1 = sent c @ ms \<Longrightarrow> list_all (\<lambda>m. \<not> is_ready m) ms \<Longrightarrow> sent c' = sent (ready c1) \<Longrightarrow> ends_ready c c'"
  by (auto simp: ends_ready_def)

lemma handleSync_answer:
  assumes "handleSync env wr c = (ok, c')"
  shows "if ok then ends_ready c c' else (\<exists>ms. sent c' = sent c @ ms \<and> list_all (\<lambda>m. \<not> is_ready m) ms \<and> list_ex is_error ms)"
proof -
  define due where "due = (\<not> es_transaction (session_of c) \<and> (es_schemaDirty (session_of c) \<or> px_schemaRefreshPending (cn_px c)))"
  obtain r c1 where b: "(if due then on_px (refreshSchemaBarrier env (es_schemaDirty (session_of c))) c else (None, c)) = (r, c1)" by fastforce
  have s1: "sent c1 = sent c" using b by (auto dest: barrier_conn_sent split: if_splits)
  define c2 where "c2 = (if due then do_px (on_state (\<lambda>s. s\<lparr>es_schemaDirty := False\<rparr>)) c1 else c1)"
  have s2: "sent c2 = sent c" using s1 by (simp add: c2_def)
  obtain res c3 where x: "exchange_targets wr isSyncDone (wr_ConnectedNames wr (world c2)) FSync c2 = (res, c3)" by fastforce
  have s3: "sent c3 = sent c" using exchange_targets_sent [OF x] s2 by simp
  consider (refused) e where "r = Some e" | (idle) "r = None" "wr_ConnectedNames wr (world c2) = []"
    | (broken) e where "r = None" "wr_ConnectedNames wr (world c2) \<noteq> []" "res = Inl e"
    | (answered) responses where "r = None" "wr_ConnectedNames wr (world c2) \<noteq> []" "res = Inr responses"
    by (cases r; cases res) auto
  then show ?thesis
  proof cases
    case refused
    have "handleSync env wr c = (True, do_px (unlock env) (ready (say [refresh_error e] c1)))"
      using b refused by (simp add: handleSync_def Let_def due_def)
    then show ?thesis using assms s1
      by (auto intro: ends_readyI [where ms = "[refresh_error e]" and ?c1.0 = "say [refresh_error e] c1"] simp: refresh_error_def is_ready_def)
  next
    case idle
    then have "handleSync env wr c = (True, ready c2)" using b by (simp add: handleSync_def Let_def due_def c2_def)
    then show ?thesis using assms s2 by (auto intro: ends_readyI [where ms = "[]" and ?c1.0 = c2])
  next
    case broken
    then have "handleSync env wr c = (False, say (sendExtendedError ''08006'' e) c3)"
      using b x by (simp add: handleSync_def Let_def due_def c2_def)
    then show ?thesis using assms s3 by (auto simp: sendExtendedError_def kind_defs)
  next
    case answered
    obtain ms ok' where r: "relaySync responses (txStatus (session_of c3)) = (ms, ok')" by fastforce
    have "handleSync env wr c = (if \<not> ok' then (False, say ms c3)
        else (True, if \<not> es_transaction (session_of (say ms c3)) then do_px (unlock env) (say ms c3) else say ms c3))"
      using b x answered r by (simp add: handleSync_def Let_def due_def c2_def)
    then show ?thesis using assms s3 relaySync_answer [OF r]
      by (auto simp: ends_ready_def intro: exI [of _ "[]"] split: if_splits)
  qed
qed

lemma ready_failed [simp]: "cn_failed (ready c) = cn_failed c" "cn_failed (say ms c) = cn_failed c" "cn_failed (do_px f c) = cn_failed c"
  by (simp_all add: ready_def say_def do_px_def)

lemma failPending_failed [simp]: "cn_failed (snd (failPendingExtended emitReady code message c)) = (\<not> emitReady)"
  by (simp add: failPendingExtended_def Let_def)

lemma fail_batch_failed [simp]: "cn_failed (snd (fail_batch env p sd emitReady code message c)) = (\<not> emitReady)"
  by (simp add: fail_batch_def Let_def)

lemma close_batch_failed [simp]: "cn_failed (close_batch env emitReady failed c) = (failed \<and> \<not> emitReady)"
  by (simp add: close_batch_def Let_def)

lemma finish_batch_failed [simp]: "\<not> cn_failed (snd (finish_batch env cc p sd True b c))"
  by (simp add: finish_batch_def split: prod.split)

lemma start_batch_failed:
  assumes "start_batch env cc p True c = Inl answer"
  shows "\<not> cn_failed (snd answer)"
proof -
  have "\<exists>sd code message c'. answer = fail_batch env p sd True code message c' \<or> answer = failPendingExtended True code message c'"
    using assms by (auto simp: start_batch_def Let_def split: if_splits sum.splits prod.splits option.splits)
  then show ?thesis by auto
qed

lemma flush_failed:
  assumes "cn_pending c = Some p"
  shows "\<not> cn_failed (snd (flushPendingExtended env wr cc True c))"
  using assms by (auto simp: flushPendingExtended_def dest: start_batch_failed split: sum.split prod.split option.split)

text \<open>C29. Every Sync is answered: whatever happened before, the client gets exactly one ReadyForQuery, as the last message, and the
  session has recovered from its error.  The one exception is a Sync that has to be forwarded and fails on the way to
  the Burrows or back.\<close>

theorem sync_answered_once:
  assumes "cn_session c \<and> cn_pending c = None \<and> \<not> cn_syncConsumed c \<longrightarrow> fst (handleSync env wr c)"
  shows "\<not> cn_failed (serve_sync env wr cc c)
    \<and> (\<exists>ms status. sent (serve_sync env wr cc c) = sent c @ ms @ [ReadyForQuery status] \<and> list_all (\<lambda>m. \<not> is_ready m) ms)"
proof -
  have own: "ends_ready c ((ready c)\<lparr>cn_failed := False\<rparr>)" "ends_ready c ((ready c)\<lparr>cn_syncConsumed := False, cn_failed := False\<rparr>)"
    by (auto intro: ends_readyI [where ms = "[]" and ?c1.0 = c])
  have "\<not> cn_failed (serve_sync env wr cc c) \<and> ends_ready c (serve_sync env wr cc c)"
  proof (cases "cn_session c")
    case False
    with own show ?thesis by (simp add: serve_sync_def)
  next
    case session: True
    show ?thesis
    proof (cases "cn_pending c")
      case (Some p)
      obtain ok c1 where f: "flushPendingExtended env wr cc True c = (ok, c1)" by fastforce
      have "\<not> cn_failed c1" using flush_failed [OF Some, of env wr cc] f by simp
      moreover have "ends_ready c c1"
        using flush_answer [OF Some, where emitReady = True and env = env and wr = wr and cc = cc and reply = "\<lambda>_. []"] f
        by (auto simp: batch_answer_def ends_ready_def)
      ultimately show ?thesis using session Some f by (auto simp: serve_sync_def ends_ready_def)
    next
      case None
      obtain ok c1 where h: "handleSync env wr c = (ok, c1)" by fastforce
      show ?thesis
      proof (cases "cn_syncConsumed c")
        case True
        with session None own show ?thesis by (simp add: serve_sync_def)
      next
        case False
        with assms session None h have "ok" by simp
        with handleSync_answer [OF h] session None False h show ?thesis by (auto simp: serve_sync_def ends_ready_def)
      qed
    qed
  qed
  then show ?thesis by (simp add: ends_ready_def)
qed

theorem sync_answered_once_witness:
  "\<exists>ms status. sent (serve_sync sample_environment sample_wire sample_compiler (sample_conn ())) = ms @ [ReadyForQuery status]
     \<and> list_all (\<lambda>m. \<not> is_ready m) ms"
proof -
  have "cn_pending (sample_conn ()) \<noteq> None" "sent (sample_conn ()) = []" by (simp_all add: sample_conn_def sample_proxy_def)
  with sync_answered_once [of "sample_conn ()" sample_environment sample_wire sample_compiler] show ?thesis by auto
qed

text \<open>When the forwarded Sync fails, the client is told of the error but never gets the ReadyForQuery it waits for.\<close>

lemma sync_failure_unanswered:
  assumes "\<not> fst (handleSync env wr c)"
  shows "\<exists>ms. sent (snd (handleSync env wr c)) = sent c @ ms \<and> list_all (\<lambda>m. \<not> is_ready m) ms"
  using assms handleSync_answer [of env wr c] by (cases "handleSync env wr c") auto

section \<open>Pipelined statements\<close>

lemma on_px_pending: "on_px f c = (a, c') \<Longrightarrow> cn_pending c' = cn_pending c"
  by (auto simp: on_px_def split: prod.splits)

lemma quiet_pending [simp]: "cn_pending (say ms c) = cn_pending c" "cn_pending (do_px f c) = cn_pending c" "cn_pending (snd (on_px g c)) = cn_pending c"
  "cn_pending (extended_fail code message c) = cn_pending c"
  by (simp_all add: say_def do_px_def on_px_def extended_fail_def split: prod.split)

lemma materializeStatement_pending: "materializeStatement wr statement targets c = (ok, c') \<Longrightarrow> cn_pending c' = cn_pending c"
  by (auto simp: materializeStatement_def dest!: on_px_pending split: prod.splits sum.splits list.splits option.splits parse_failure.splits)

lemma handleBind_pending: "handleBind wr m target routed statement c = (ok, c') \<Longrightarrow> cn_pending c' = cn_pending c"
  by (auto simp: handleBind_def exchange_targets_def relay_def Let_def dest!: on_px_pending materializeStatement_pending split: prod.splits bool.splits)

lemma bind_portal_pending: "cn_pending c = Some p \<Longrightarrow> cn_pending (bind_portal wr cc m bound ps statement decision c) = Some p"
  by (auto simp: bind_portal_def Let_def dest!: handleBind_pending split: prod.split bool.split)

lemma route_portal_pending: "route_portal env cc routing ps c = (d, c') \<Longrightarrow> cn_pending c' = cn_pending c"
  by (auto simp: route_portal_def dest!: on_px_pending split: prod.splits)

lemma serve_bind_pending:
  assumes "cn_pending c = Some p" and "cn_session c"
  shows "cn_pending (serve_bind env wr bo cc cd ps m c) = Some p"
  using assms
  by (auto simp: serve_bind_def ensureSession_def Let_def bind_portal_pending dest!: on_px_pending route_portal_pending split: prod.split sum.split)

text \<open>
  A client may send a second Bind and Execute before its Sync.  The second Bind does not enter the batch that is waiting, and
  an Execute of the same portal replaces the first: what the Sync sends is still the first statement, and the second one is
  never executed.
\<close>

lemma pipelined_execution_lost:
  assumes "cn_pending c = Some p" and "cn_session c"
  shows "\<exists>q. cn_pending (serve_execute env wr bo cc ps (pe_portalName p) n (serve_bind env wr bo cc cd ps m c)) = Some q
    \<and> pe_bind q = pe_bind p \<and> pe_statement q = pe_statement p \<and> pe_portal q = pe_portal p"
  using serve_bind_pending [OF assms, of env wr bo cc cd ps m]
  by (auto simp: serve_execute_def ensureSession_def dest!: on_px_pending split: prod.split option.split)

end
