(* ===== verification/Query_Statistics.thy ===== *)
theory Query_Statistics
  imports Go_Number "HOL-Library.Product_Lexorder"
begin

text \<open>
  \<^verbatim>\<open>internal/statistics/statistics.go\<close>: the process-local query telemetry.  The collector is a record
  and every method a function on it that is given the clock reading (nanoseconds since the epoch)
  the Go method takes with \<^verbatim>\<open>c.now()\<close>.  Counters are unbounded integers: each grows by one per
  query, which no process takes to \<^verbatim>\<open>2^63\<close>.  Histogram bounds and sums are binary64 values, kept
  as the rationals they denote with the rounding of every operation written out.
\<close>

section \<open>Package time\<close>

text \<open>\<^verbatim>\<open>time.Duration.Seconds\<close> and \<^verbatim>\<open>Milliseconds\<close> of a duration in nanoseconds.\<close>

definition duration_seconds :: "int \<Rightarrow> rat" where
  "duration_seconds d = float64 (of_int (go_quot d 1000000000)
     + float64 (of_int (go_rem d 1000000000) / 1000000000))"

definition duration_millis :: "int \<Rightarrow> int" where
  "duration_millis d = go_quot d 1000000"

definition unix_second :: "int \<Rightarrow> int" where
  "unix_second t = t div 1000000000"

section \<open>Data\<close>

definition rollingBuckets :: nat where
  "rollingBuckets = 10 * 60"

definition maxQuerySummaries :: nat where
  "maxQuerySummaries = 100"

definition maxSummaryLabels :: nat where
  "maxSummaryLabels = 100"

record QueryEvent =
  qe_Duration :: int
  qe_Success :: bool
  qe_Shards :: "string list"
  qe_SQL :: string
  qe_ErrorCategory :: string

record Statistics =
  sa_Queries :: int
  sa_FailedQueries :: int
  sa_ScatteredQueries :: int
  sa_SingleShardQueries :: int
  sa_TotalDurationMillis :: int
  sa_AverageDurationMillis :: int

text \<open>A nil map is \<open>None\<close>: reading it is allowed, writing to it panics.\<close>

record timeBucket =
  tb_second :: int
  tb_statistics :: Statistics
  tb_shards :: "(string, int) gomap option"

record Bucket =
  bk_UpperBound :: rat
  bk_Count :: int

record Histogram =
  hi_Buckets :: "Bucket list"
  hi_Count :: int
  hi_Sum :: rat

record summary =
  su_statistics :: Statistics
  su_shards :: "(string, int) gomap"
  su_lastSeenAt :: int

record Collector =
  co_buckets :: "timeBucket list"
  co_total :: Statistics
  co_shards :: "(string, int) gomap"
  co_summaries :: "(string, summary) gomap"
  co_labels :: "(string, string) gomap"
  co_labelOrder :: "string list"
  co_labelNext :: nat
  co_latency :: Histogram
  co_operations :: "(string \<times> string, int) gomap"
  co_failures :: "(string, int) gomap"

record ShardCount =
  sc_Name :: string
  sc_Queries :: int

record WindowStatistics =
  ws_Name :: string
  ws_Seconds :: int
  ws_Statistics :: Statistics
  ws_ShardExecutions :: "ShardCount list"

record QuerySummary =
  qs_QueryShape :: string
  qs_Fingerprint :: string
  qs_Statement :: string
  qs_Statistics :: Statistics
  qs_ShardExecutions :: "ShardCount list"
  qs_LastSeenAt :: int

record StatisticsSnapshot =
  sn_Total :: Statistics
  sn_ShardExecutions :: "ShardCount list"
  sn_Windows :: "WindowStatistics list"
  sn_QuerySummaries :: "QuerySummary list"
  sn_Latency :: Histogram
  sn_Operations :: "((string \<times> string) \<times> int) list"
  sn_Failures :: "(string \<times> int) list"

definition windows :: "(string \<times> int) list" where
  "windows = [(''10 seconds'', 10), (''1 minute'', 60), (''5 minutes'', 5 * 60), (''10 minutes'', 10 * 60)]"

definition LatencyBuckets :: "rat list" where
  "LatencyBuckets = map float64
     [1 / 1000, 5 / 1000, 1 / 100, 25 / 1000, 5 / 100, 1 / 10, 25 / 100, 1 / 2, 1, 5 / 2, 5, 10]"

definition noStatistics :: Statistics where
  "noStatistics = \<lparr>sa_Queries = 0, sa_FailedQueries = 0, sa_ScatteredQueries = 0, sa_SingleShardQueries = 0,
     sa_TotalDurationMillis = 0, sa_AverageDurationMillis = 0\<rparr>"

definition newCollector :: Collector where
  "newCollector = \<lparr>co_buckets = replicate rollingBuckets \<lparr>tb_second = 0, tb_statistics = noStatistics, tb_shards = None\<rparr>,
     co_total = noStatistics, co_shards = [], co_summaries = [], co_labels = [], co_labelOrder = [], co_labelNext = 0,
     co_latency = \<lparr>hi_Buckets = map (\<lambda>upper. \<lparr>bk_UpperBound = upper, bk_Count = 0\<rparr>) LatencyBuckets,
       hi_Count = 0, hi_Sum = 0\<rparr>,
     co_operations = [], co_failures = []\<rparr>"

section \<open>Normalize\<close>

text \<open>
  The five regular expressions, each as the scan that replaces its leftmost matches from left to
  right.  \<open>cut_block s\<close> is what follows the first \<^verbatim>\<open>*/\<close>; a comment that is never closed is no match.
\<close>

fun cut_block :: "string \<Rightarrow> string option" where
  "cut_block (a # b # s) = (if a = CHR ''*'' \<and> b = CHR ''/'' then Some s else cut_block (b # s))"
| "cut_block _ = None"

lemma cut_block_shorter [go_len]: "cut_block s = Some t \<Longrightarrow> length t < length s"
  by (induction s rule: cut_block.induct) (auto split: if_splits)

function blockComment :: "string \<Rightarrow> string" where
  "blockComment s = (case s of [] \<Rightarrow> []
     | c # s' \<Rightarrow> (if take 2 s = ''/*''
         then (case cut_block (drop 2 s) of None \<Rightarrow> c # blockComment s' | Some t \<Rightarrow> CHR '' '' # blockComment t)
         else c # blockComment s'))"
  by pat_completeness auto
termination
  by (relation "measure length") (auto dest!: cut_block_shorter)

function (sequential) lineComment :: "string \<Rightarrow> string" where
  "lineComment (a # b # s) = (if a = CHR ''-'' \<and> b = CHR ''-''
     then CHR '' '' # lineComment (dropWhile (\<lambda>c. c \<noteq> LF) s) else a # lineComment (b # s))"
| "lineComment s = s"
  by pat_completeness auto
termination
  by (relation "measure length") (auto simp: less_Suc_eq_le intro: le_SucI length_dropWhile_le)

text \<open>
  \<^verbatim>\<open>'(?:''|[^'])*'\<close> after its opening quote: a doubled quote is taken as content when the rest
  still closes, and as the closing quote followed by text otherwise.
\<close>

fun string_rest :: "string \<Rightarrow> string option" where
  "string_rest [] = None"
| "string_rest (c # s) = (if c \<noteq> CHR 0x27 then string_rest s
     else (case s of [] \<Rightarrow> Some s
       | d # s' \<Rightarrow> (if d \<noteq> CHR 0x27 then Some s
           else (case string_rest s' of None \<Rightarrow> Some s | Some t \<Rightarrow> Some t))))"

lemma string_rest_shorter [go_len]: "string_rest s = Some t \<Longrightarrow> length t < length s"
proof (induction s arbitrary: t rule: length_induct)
  case (1 s)
  have IH: "length u < length v" if "length v < length s" "string_rest v = Some u" for u v
    using 1(1) that by blast
  from 1(2) show ?case
    by (cases s) (auto split: if_splits list.splits option.splits dest!: IH [rotated])
qed

function stringValue :: "string \<Rightarrow> string" where
  "stringValue s = (case s of [] \<Rightarrow> []
     | c # s' \<Rightarrow> (if c = CHR 0x27
         then (case string_rest s' of None \<Rightarrow> c # stringValue s' | Some t \<Rightarrow> CHR ''?'' # stringValue t)
         else c # stringValue s'))"
  by pat_completeness auto
termination
  by (relation "measure length") (auto dest!: string_rest_shorter)

declare blockComment.simps [simp del] stringValue.simps [simp del]

definition word_char :: "char \<Rightarrow> bool" where
  "word_char c = (is_digit c \<or> 65 \<le> byte_val c \<and> byte_val c \<le> 90 \<or> 97 \<le> byte_val c \<and> byte_val c \<le> 122 \<or> c = CHR ''_'')"

definition at_word :: "string \<Rightarrow> bool" where
  "at_word s = (case s of [] \<Rightarrow> False | c # _ \<Rightarrow> word_char c)"

text \<open>
  \<^verbatim>\<open>\b\d+(?:\.\d+)?\b\<close> at a digit with a boundary before it.  Giving up digits never helps, since the
  boundary would fall between two digits; giving up the fraction can.
\<close>

definition number_rest :: "string \<Rightarrow> string option" where
  "number_rest s = (let whole = dropWhile is_digit s; fraction = dropWhile is_digit (drop 1 whole) in
     if take 1 whole = ''.'' \<and> fraction \<noteq> drop 1 whole \<and> \<not> at_word fraction then Some fraction
     else if \<not> at_word whole then Some whole else None)"

lemma number_rest_shorter [go_len]:
  assumes "number_rest (c # s) = Some t" and "is_digit c"
  shows "length t \<le> length s"
proof -
  have le: "length (dropWhile is_digit u) \<le> length u" for u by (rule length_dropWhile_le)
  from assms le [of s] le [of "drop 1 (dropWhile is_digit s)"] show ?thesis
    by (auto simp: number_rest_def Let_def split: if_splits)
qed

function numberValue :: "bool \<Rightarrow> string \<Rightarrow> string" where
  "numberValue inside s = (case s of [] \<Rightarrow> []
     | c # s' \<Rightarrow> (if is_digit c \<and> \<not> inside
         then (case number_rest s of None \<Rightarrow> c # numberValue True s' | Some t \<Rightarrow> CHR ''?'' # numberValue True t)
         else c # numberValue (word_char c) s'))"
  by pat_completeness auto
termination
  by (relation "measure (\<lambda>(i, s). length s)") (auto dest!: number_rest_shorter)

declare numberValue.simps [simp del]

definition regex_space :: "char \<Rightarrow> bool" where
  "regex_space c = (c = TAB \<or> c = LF \<or> c = CHR 0x0C \<or> c = CR \<or> c = CHR '' '')"

fun whitespace :: "string \<Rightarrow> string" where
  "whitespace [] = []"
| "whitespace (c # s) = (if regex_space c
     then (case s of [] \<Rightarrow> '' '' | d # _ \<Rightarrow> (if regex_space d then whitespace s else CHR '' '' # whitespace s))
     else c # whitespace s)"

definition ellipsis :: string where
  "ellipsis = [CHR 0xE2, CHR 0x80, CHR 0xA6]"

definition NormalizeLabel :: "string \<Rightarrow> string" where
  "NormalizeLabel sql = (let normalized = trim_space (whitespace (numberValue False (stringValue (lineComment (blockComment sql)))));
       normalized = (if length normalized > 300 then take 300 normalized @ ellipsis else normalized)
     in if normalized = [] then ''<empty query>'' else normalized)"

definition statement_word :: "string \<Rightarrow> string" where
  "statement_word query = (case split_fields query of [] \<Rightarrow> ''UNKNOWN'' | part # _ \<Rightarrow> to_upper part)"

section \<open>The collector\<close>

definition bump :: "'k \<Rightarrow> int \<Rightarrow> ('k, int) gomap \<Rightarrow> ('k, int) gomap" where
  "bump k n m = AList.update k ((case map_of m k of None \<Rightarrow> 0 | Some v \<Rightarrow> v) + n) m"

definition count_shards :: "string list \<Rightarrow> (string, int) gomap \<Rightarrow> (string, int) gomap" where
  "count_shards shards m = foldl (\<lambda>m shard. bump shard 1 m) m shards"

definition add_event :: "Statistics \<Rightarrow> QueryEvent \<Rightarrow> Statistics" where
  "add_event s query = s\<lparr>sa_Queries := sa_Queries s + 1,
     sa_FailedQueries := (if \<not> qe_Success query then sa_FailedQueries s + 1 else sa_FailedQueries s),
     sa_ScatteredQueries := (if length (qe_Shards query) > 1 then sa_ScatteredQueries s + 1 else sa_ScatteredQueries s),
     sa_SingleShardQueries := (if length (qe_Shards query) = 1 then sa_SingleShardQueries s + 1 else sa_SingleShardQueries s),
     sa_TotalDurationMillis := sa_TotalDurationMillis s + duration_millis (qe_Duration query)\<rparr>"

definition Collector_RecordOperation :: "string \<Rightarrow> string \<Rightarrow> Collector \<Rightarrow> Collector" where
  "Collector_RecordOperation operation outcome c = c\<lparr>co_operations := bump (operation, outcome) 1 (co_operations c)\<rparr>"

definition summaryLabel :: "string \<Rightarrow> Collector \<Rightarrow> string \<times> Collector" where
  "summaryLabel sql c = (case map_of (co_labels c) sql of
       Some label \<Rightarrow> (label, c)
     | None \<Rightarrow>
         (let label = NormalizeLabel sql in
          if length (co_labels c) < maxSummaryLabels
          then (label, c\<lparr>co_labels := AList.update sql label (co_labels c), co_labelOrder := co_labelOrder c @ [sql]\<rparr>)
          else (label, c\<lparr>co_labels := AList.update sql label (AList.delete (co_labelOrder c ! co_labelNext c) (co_labels c)),
            co_labelOrder := (co_labelOrder c)[co_labelNext c := sql],
            co_labelNext := (co_labelNext c + 1) mod maxSummaryLabels\<rparr>)))"

text \<open>The slot of a second, and the slot's contents after one more query; \<open>None\<close> is the panic on a nil map.\<close>

definition bucket_index :: "int \<Rightarrow> nat \<Rightarrow> nat" where
  "bucket_index second n = (let index = go_rem second (int n) in nat (if index < 0 then index + int n else index))"

definition enter_second :: "int \<Rightarrow> timeBucket \<Rightarrow> timeBucket" where
  "enter_second second b = (if tb_second b \<noteq> second
     then \<lparr>tb_second = second, tb_statistics = noStatistics, tb_shards = Some []\<rparr> else b)"

definition count_event :: "QueryEvent \<Rightarrow> timeBucket \<Rightarrow> timeBucket option" where
  "count_event query b = (case tb_shards b of
       Some m \<Rightarrow> Some (b\<lparr>tb_statistics := add_event (tb_statistics b) query, tb_shards := Some (count_shards (qe_Shards query) m)\<rparr>)
     | None \<Rightarrow> if qe_Shards query = [] then Some (b\<lparr>tb_statistics := add_event (tb_statistics b) query\<rparr>) else None)"

definition recordWindow :: "int \<Rightarrow> QueryEvent \<Rightarrow> timeBucket list \<Rightarrow> timeBucket list option" where
  "recordWindow second query buckets = (let index = bucket_index second (length buckets) in
     map_option (\<lambda>b. buckets[index := b]) (count_event query (enter_second second (buckets ! index))))"

text \<open>The map is visited in an unspecified order, so among equal candidates any may be evicted.\<close>

definition evict_before :: "string \<times> summary \<Rightarrow> string \<times> summary \<Rightarrow> bool" where
  "evict_before x y = (sa_Queries (su_statistics (snd x)) < sa_Queries (su_statistics (snd y))
     \<or> sa_Queries (su_statistics (snd x)) = sa_Queries (su_statistics (snd y)) \<and> su_lastSeenAt (snd x) < su_lastSeenAt (snd y))"

fun evict_candidate :: "(string \<times> summary) option \<Rightarrow> (string, summary) gomap \<Rightarrow> (string \<times> summary) option" where
  "evict_candidate best [] = best"
| "evict_candidate best (x # m) =
     evict_candidate (case best of None \<Rightarrow> Some x | Some y \<Rightarrow> if evict_before x y then Some x else best) m"

definition evictSummary :: "(string, summary) gomap \<Rightarrow> (string, summary) gomap" where
  "evictSummary m = AList.delete (case evict_candidate None m of None \<Rightarrow> [] | Some (candidate, _) \<Rightarrow> candidate) m"

definition recordSummary :: "string \<Rightarrow> int \<Rightarrow> QueryEvent \<Rightarrow> (string, summary) gomap \<Rightarrow> (string, summary) gomap" where
  "recordSummary label now query m =
     (let (item, m) = (case map_of m label of Some item \<Rightarrow> (item, m)
            | None \<Rightarrow> (\<lparr>su_statistics = noStatistics, su_shards = [], su_lastSeenAt = 0\<rparr>,
                if length m \<ge> maxQuerySummaries then evictSummary m else m)) in
      AList.update label \<lparr>su_statistics = add_event (su_statistics item) query,
        su_shards = count_shards (qe_Shards query) (su_shards item), su_lastSeenAt = now\<rparr> m)"

definition observe :: "int \<Rightarrow> Histogram \<Rightarrow> Histogram" where
  "observe d h = \<lparr>hi_Buckets = map (\<lambda>b. if duration_seconds d \<le> bk_UpperBound b then b\<lparr>bk_Count := bk_Count b + 1\<rparr> else b) (hi_Buckets h),
     hi_Count = hi_Count h + 1, hi_Sum = float64 (hi_Sum h + duration_seconds d)\<rparr>"

definition Record :: "int \<Rightarrow> QueryEvent \<Rightarrow> Collector \<Rightarrow> Collector option" where
  "Record now query c =
     (let (label, c1) = summaryLabel (qe_SQL query) c in
      case recordWindow (unix_second now) query (co_buckets c1) of None \<Rightarrow> None
      | Some buckets \<Rightarrow> Some (c1\<lparr>co_total := add_event (co_total c1) query, co_buckets := buckets,
          co_failures := (if \<not> qe_Success query
            then bump (if qe_ErrorCategory query = [] then ''unknown'' else qe_ErrorCategory query) 1 (co_failures c1)
            else co_failures c1),
          co_latency := observe (qe_Duration query) (co_latency c1),
          co_shards := count_shards (qe_Shards query) (co_shards c1),
          co_summaries := recordSummary label now query (co_summaries c1)\<rparr>))"

section \<open>Snapshots\<close>

definition finalize :: "Statistics \<Rightarrow> Statistics" where
  "finalize s = (if sa_Queries s > 0
     then s\<lparr>sa_AverageDurationMillis := go_quot (sa_TotalDurationMillis s) (sa_Queries s)\<rparr> else s)"

definition sortedShardCounts :: "(string, int) gomap \<Rightarrow> ShardCount list" where
  "sortedShardCounts counts = sort_key sc_Name (map (\<lambda>(name, queries). \<lparr>sc_Name = name, sc_Queries = queries\<rparr>) counts)"

definition add_statistics :: "Statistics \<Rightarrow> Statistics \<Rightarrow> Statistics" where
  "add_statistics s b = s\<lparr>sa_Queries := sa_Queries s + sa_Queries b,
     sa_FailedQueries := sa_FailedQueries s + sa_FailedQueries b,
     sa_ScatteredQueries := sa_ScatteredQueries s + sa_ScatteredQueries b,
     sa_SingleShardQueries := sa_SingleShardQueries s + sa_SingleShardQueries b,
     sa_TotalDurationMillis := sa_TotalDurationMillis s + sa_TotalDurationMillis b\<rparr>"

definition bucket_counts :: "timeBucket \<Rightarrow> (string, int) gomap" where
  "bucket_counts b = (case tb_shards b of None \<Rightarrow> [] | Some m \<Rightarrow> m)"

definition add_bucket :: "Statistics \<times> (string, int) gomap \<Rightarrow> timeBucket \<Rightarrow> Statistics \<times> (string, int) gomap" where
  "add_bucket acc b = (add_statistics (fst acc) (tb_statistics b),
     foldl (\<lambda>m (shard, queries). bump shard queries m) (snd acc) (bucket_counts b))"

definition summarizeBuckets :: "timeBucket list \<Rightarrow> int \<Rightarrow> int \<Rightarrow> Statistics \<times> (string, int) gomap" where
  "summarizeBuckets buckets now seconds = (let cutoff = now - seconds + 1 in
     foldl (\<lambda>total b. if tb_second b < cutoff \<or> tb_second b > now then total else add_bucket total b)
       (noStatistics, []) buckets)"

definition hex_digit :: "nat \<Rightarrow> char" where
  "hex_digit d = (if d < 10 then digit_char d else char_of (97 + d - 10))"

definition hex_encode :: "bytes \<Rightarrow> string" where
  "hex_encode s = concat (map (\<lambda>c. [hex_digit (byte_val c div 16), hex_digit (byte_val c mod 16)]) s)"

definition QueryFingerprint :: "(bytes \<Rightarrow> bytes) \<Rightarrow> string \<Rightarrow> string" where
  "QueryFingerprint sha256 normalizedQuery = hex_encode (take 8 (sha256 normalizedQuery))"

definition query_summary :: "(bytes \<Rightarrow> bytes) \<Rightarrow> string \<times> summary \<Rightarrow> QuerySummary" where
  "query_summary sha256 x = (case x of (label, item) \<Rightarrow>
     \<lparr>qs_QueryShape = label, qs_Fingerprint = QueryFingerprint sha256 label, qs_Statement = statement_word label,
      qs_Statistics = finalize (su_statistics item), qs_ShardExecutions = sortedShardCounts (su_shards item),
      qs_LastSeenAt = su_lastSeenAt item\<rparr>)"

definition take_snapshot :: "(bytes \<Rightarrow> bytes) \<Rightarrow> int \<Rightarrow> Collector \<Rightarrow> StatisticsSnapshot" where
  "take_snapshot sha256 now c =
     \<lparr>sn_Total = finalize (co_total c), sn_ShardExecutions = sortedShardCounts (co_shards c),
      sn_Windows = map (\<lambda>(name, seconds). case summarizeBuckets (co_buckets c) (unix_second now) seconds of
          (s, shards) \<Rightarrow> \<lparr>ws_Name = name, ws_Seconds = seconds, ws_Statistics = finalize s,
            ws_ShardExecutions = sortedShardCounts shards\<rparr>) windows,
      sn_QuerySummaries = sort_key (\<lambda>q. (- sa_Queries (qs_Statistics q), - qs_LastSeenAt q))
        (map (query_summary sha256) (co_summaries c)),
      sn_Latency = co_latency c,
      sn_Operations = sort_key fst (co_operations c),
      sn_Failures = sort_key fst (co_failures c)\<rparr>"

section \<open>Counters\<close>

text \<open>A recorded history, oldest first; \<open>None\<close> when a write panicked.\<close>

type_synonym event_history = "(int \<times> QueryEvent) list"

fun record_all :: "event_history \<Rightarrow> Collector \<Rightarrow> Collector option" where
  "record_all [] c = Some c"
| "record_all ((now, query) # h) c = Option.bind (Record now query c) (record_all h)"

lemma record_all_append: "record_all (h @ h') c = Option.bind (record_all h c) (record_all h')"
  by (induction h c rule: record_all.induct) (auto simp: bind_eq_Some_conv split: Option.bind_splits)

abbreviation second_of :: "int \<times> QueryEvent \<Rightarrow> int" where
  "second_of e \<equiv> unix_second (fst e)"

definition tally :: "QueryEvent list \<Rightarrow> Statistics" where
  "tally qs = foldl add_event noStatistics qs"

definition shard_total :: "string \<Rightarrow> QueryEvent list \<Rightarrow> int" where
  "shard_total name qs = (\<Sum>q\<leftarrow>qs. int (count_list (qe_Shards q) name))"

definition map_total :: "'k \<Rightarrow> ('k, int) gomap \<Rightarrow> int" where
  "map_total k m = (\<Sum>x\<leftarrow>filter (\<lambda>x. fst x = k) m. snd x)"

lemma map_total_simps [simp]:
  "map_total k [] = 0"
  "map_total k ((j, v) # m) = (if j = k then v else 0) + map_total k m"
  "map_total k (m @ m') = map_total k m + map_total k m'"
  by (simp_all add: map_total_def)

lemma map_total_bump [simp]: "map_total k (bump j n m) = map_total k m + (if j = k then n else 0)"
proof (induction m)
  case Nil
  show ?case by (simp add: bump_def)
next
  case (Cons x m)
  obtain a b where "x = (a, b)" by (cases x)
  with Cons.IH show ?case by (cases "a = j") (auto simp: bump_def)
qed

lemma map_total_foldl_bump:
  "map_total k (foldl (\<lambda>m (j, n). bump j n m) m xs) = map_total k m + map_total k xs"
  by (induction xs arbitrary: m) auto

lemma map_total_count_shards [simp]:
  "map_total k (count_shards shards m) = map_total k m + int (count_list shards k)"
  unfolding count_shards_def by (induction shards arbitrary: m) auto

lemma map_total_lookup: "map_ok m \<Longrightarrow> map_total k m = (case map_of m k of None \<Rightarrow> 0 | Some v \<Rightarrow> v)"
proof (induction m)
  case (Cons x m)
  have "map_total k m = 0" if "k \<notin> set (keys m)" for k
    using that by (induction m) auto
  with Cons show ?case by (cases x) (auto simp: map_ok_def)
qed simp

lemma sorted_counts_total:
  "(\<Sum>s\<leftarrow>filter (\<lambda>s. sc_Name s = name) (sortedShardCounts m). sc_Queries s) = map_total name m"
proof -
  let ?xs = "map (\<lambda>(name, queries). \<lparr>sc_Name = name, sc_Queries = queries\<rparr>) m"
  have "mset (filter (\<lambda>s. sc_Name s = name) (sortedShardCounts m)) = mset (filter (\<lambda>s. sc_Name s = name) ?xs)"
    by (simp add: sortedShardCounts_def)
  then have "sum_list (map sc_Queries (filter (\<lambda>s. sc_Name s = name) (sortedShardCounts m)))
      = sum_list (map sc_Queries (filter (\<lambda>s. sc_Name s = name) ?xs))"
    by (simp only: sum_mset_sum_list [symmetric] mset_map)
  also have "\<dots> = map_total name m"
    by (induction m) (auto simp: map_total_def)
  finally show ?thesis .
qed

lemma tally_fields:
  "sa_Queries (tally qs) = int (length qs)"
  "sa_FailedQueries (tally qs) = (\<Sum>q\<leftarrow>qs. if \<not> qe_Success q then 1 else 0)"
  "sa_ScatteredQueries (tally qs) = (\<Sum>q\<leftarrow>qs. if length (qe_Shards q) > 1 then 1 else 0)"
  "sa_SingleShardQueries (tally qs) = (\<Sum>q\<leftarrow>qs. if length (qe_Shards q) = 1 then 1 else 0)"
  "sa_TotalDurationMillis (tally qs) = (\<Sum>q\<leftarrow>qs. duration_millis (qe_Duration q))"
  "sa_AverageDurationMillis (tally qs) = 0"
  by (induction qs rule: rev_induct) (auto simp: tally_def noStatistics_def add_event_def)

lemma tally_snoc: "tally (qs @ [q]) = add_event (tally qs) q"
  by (simp add: tally_def)

section \<open>The ring of seconds\<close>

text \<open>
  What each slot holds after a history whose clock never went back: the queries of the last second
  that falls on the slot.
\<close>

definition initial_bucket :: timeBucket where
  "initial_bucket = \<lparr>tb_second = 0, tb_statistics = noStatistics, tb_shards = None\<rparr>"

definition filled :: "int \<Rightarrow> QueryEvent list \<Rightarrow> timeBucket" where
  "filled second qs = \<lparr>tb_second = second, tb_statistics = tally qs,
     tb_shards = Some (foldl (\<lambda>m q. count_shards (qe_Shards q) m) [] qs)\<rparr>"

definition clocked :: "event_history \<Rightarrow> bool" where
  "clocked h = (sorted (map second_of h) \<and> (\<forall>e \<in> set h. 0 < second_of e))"

definition slot_events :: "event_history \<Rightarrow> nat \<Rightarrow> event_history" where
  "slot_events h i = filter (\<lambda>e. second_of e mod int rollingBuckets = int i) h"

definition slot :: "event_history \<Rightarrow> nat \<Rightarrow> timeBucket" where
  "slot h i = (if slot_events h i = [] then initial_bucket
     else let s = second_of (last (slot_events h i)) in filled s (map snd (filter (\<lambda>e. second_of e = s) h)))"

lemma rolling_pos: "0 < int rollingBuckets"
  by (simp add: rollingBuckets_def)

lemma bucket_index_mod: "0 < n \<Longrightarrow> int (bucket_index second n) = second mod int n"
proof -
  assume n: "0 < n"
  show ?thesis
  proof (cases "second < 0")
    case True
    then have rem: "go_rem second (int n) = - ((- second) mod int n)" by (simp add: go_rem_def)
    have "second mod int n = (if (- second) mod int n = 0 then 0 else int n - (- second) mod int n)"
      using zmod_zminus1_eq_if [of "- second" "int n"] by simp
    moreover have "0 \<le> (- second) mod int n" "(- second) mod int n < int n" using n by simp_all
    ultimately show ?thesis by (auto simp: bucket_index_def Let_def rem)
  next
    case False
    with n have "go_rem second (int n) = second mod int n" by (cases "second = 0") (auto simp: go_rem_def)
    moreover have "0 \<le> second mod int n" using n by simp
    ultimately show ?thesis by (simp add: bucket_index_def Let_def)
  qed
qed

lemma bucket_index_less: "0 < n \<Longrightarrow> bucket_index second n < n"
  using bucket_index_mod [of n second] pos_mod_bound [of "int n" second] by linarith

lemma filled_snoc: "count_event q (filled s qs) = Some (filled s (qs @ [q]))"
  by (simp add: filled_def count_event_def tally_snoc)

lemma filled_Nil: "\<lparr>tb_second = s, tb_statistics = noStatistics, tb_shards = Some []\<rparr> = filled s []"
  by (simp add: filled_def tally_def)

lemma filled_second [simp]: "tb_second (filled s qs) = s"
  by (simp add: filled_def)

lemma slot_other:
  assumes "second_of e mod int rollingBuckets \<noteq> int i"
  shows "slot (h @ [e]) i = slot h i"
proof -
  have same: "slot_events (h @ [e]) i = slot_events h i" using assms by (simp add: slot_events_def)
  have "second_of (last (slot_events h i)) \<noteq> second_of e" if "slot_events h i \<noteq> []"
    using last_in_set [OF that] assms by (auto simp: slot_events_def)
  with same show ?thesis by (auto simp: slot_def Let_def)
qed

lemma slot_top:
  assumes "sorted (map second_of h)" and "e \<in> set h" and "second_of e mod int rollingBuckets = int i"
  shows "second_of e \<le> second_of (last (slot_events h i))"
proof -
  have last_top: "second_of e \<le> second_of (last es)" if "sorted (map second_of es)" "e \<in> set es" for es
    using that by (induction es) auto
  show ?thesis
    using assms by (intro last_top) (auto simp: slot_events_def intro: sorted_filter)
qed

lemma slot_latest:
  assumes "clocked (h @ [e])" and "second_of e mod int rollingBuckets = int i" and "x \<in> set h" and "second_of x = second_of e"
  shows "slot_events h i \<noteq> [] \<and> second_of (last (slot_events h i)) = second_of e"
proof -
  have x: "x \<in> set (slot_events h i)" using assms by (simp add: slot_events_def)
  then have ne: "slot_events h i \<noteq> []" by auto
  have srt: "sorted (map second_of h)" and top: "\<forall>y \<in> set h. second_of y \<le> second_of e"
    using assms(1) by (auto simp: clocked_def sorted_append)
  have "second_of x \<le> second_of (last (slot_events h i))"
    using srt assms(2-4) by (intro slot_top) simp_all
  moreover have "last (slot_events h i) \<in> set h"
    using last_in_set [OF ne] by (simp add: slot_events_def)
  ultimately show ?thesis using ne top assms(4) by force
qed

lemma slot_same:
  assumes "clocked (h @ [e])" and "second_of e mod int rollingBuckets = int i"
  shows "count_event (snd e) (enter_second (second_of e) (slot h i)) = Some (slot (h @ [e]) i)"
proof -
  let ?s = "second_of e"
  let ?seen = "filter (\<lambda>x. second_of x = ?s) h"
  have new: "slot (h @ [e]) i = filled ?s (map snd ?seen @ [snd e])"
    using assms(2) by (simp add: slot_def slot_events_def Let_def)
  have pos: "0 < ?s" using assms(1) by (simp add: clocked_def)
  show ?thesis
  proof (cases "?seen = []")
    case True
    have "tb_second (slot h i) \<noteq> ?s"
    proof (cases "slot_events h i = []")
      case True
      with pos show ?thesis by (simp add: slot_def initial_bucket_def)
    next
      case False
      from last_in_set [OF False] have "last (slot_events h i) \<in> set h" by (simp add: slot_events_def)
      with True False show ?thesis by (auto simp: slot_def Let_def filled_def filter_empty_conv)
    qed
    then have "enter_second ?s (slot h i) = filled ?s []" by (simp add: enter_second_def filled_Nil)
    with new True show ?thesis by (simp add: filled_snoc)
  next
    case False
    then obtain x where "x \<in> set h" "second_of x = ?s" by (auto simp: filter_empty_conv)
    from slot_latest [OF assms this] have old: "slot h i = filled ?s (map snd ?seen)"
      by (simp add: slot_def Let_def)
    then have "enter_second ?s (slot h i) = filled ?s (map snd ?seen)" by (simp add: enter_second_def filled_def)
    with new show ?thesis by (simp add: filled_snoc)
  qed
qed

lemma recordWindow_slots:
  assumes "clocked (h @ [e])"
  shows "recordWindow (second_of e) (snd e) (map (slot h) [0..<rollingBuckets])
    = Some (map (slot (h @ [e])) [0..<rollingBuckets])"
proof -
  define i where "i = bucket_index (second_of e) rollingBuckets"
  have i: "i < rollingBuckets" "second_of e mod int rollingBuckets = int i"
    using rolling_pos by (auto simp: i_def bucket_index_mod bucket_index_less)
  have other: "slot (h @ [e]) j = slot h j" if "j < rollingBuckets" "j \<noteq> i" for j
    using that i by (intro slot_other) simp
  have "recordWindow (second_of e) (snd e) (map (slot h) [0..<rollingBuckets])
      = Some ((map (slot h) [0..<rollingBuckets])[i := slot (h @ [e]) i])"
    using slot_same [OF assms i(2)] i by (simp add: recordWindow_def Let_def flip: i_def)
  also have "(map (slot h) [0..<rollingBuckets])[i := slot (h @ [e]) i] = map (slot (h @ [e])) [0..<rollingBuckets]"
    using i other by (intro nth_equalityI) (auto simp: nth_list_update)
  finally show ?thesis .
qed

lemma summaryLabel_buckets [simp]: "co_buckets (snd (summaryLabel sql c)) = co_buckets c"
  by (simp add: summaryLabel_def Let_def split: option.split)

lemma newCollector_slots: "co_buckets newCollector = map (slot []) [0..<rollingBuckets]"
  by (intro nth_equalityI) (simp_all add: newCollector_def slot_def slot_events_def initial_bucket_def)

lemma record_all_slots:
  assumes "clocked h"
  shows "\<exists>c. record_all h newCollector = Some c \<and> co_buckets c = map (slot h) [0..<rollingBuckets]"
  using assms
proof (induction h rule: rev_induct)
  case Nil
  show ?case by (simp add: newCollector_slots)
next
  case (snoc e h)
  obtain t q where e: "e = (t, q)" by (cases e)
  from snoc.prems have "clocked h" by (auto simp: clocked_def sorted_append)
  with snoc.IH obtain c where c: "record_all h newCollector = Some c" "co_buckets c = map (slot h) [0..<rollingBuckets]"
    by blast
  with recordWindow_slots [OF snoc.prems] e obtain c' where "Record t q c = Some c'"
    "co_buckets c' = map (slot (h @ [e])) [0..<rollingBuckets]"
    by (simp add: Record_def split_beta)
  with c e show ?case by (simp add: record_all_append)
qed

lemma window_residue:
  fixes a b :: int
  assumes "a mod int rollingBuckets = b mod int rollingBuckets" and "a \<le> b" and "b < a + int rollingBuckets"
  shows "a = b"
proof -
  from assms(1) have "int rollingBuckets dvd b - a" by (metis mod_eq_dvd_iff)
  then have "(b - a) mod int rollingBuckets = 0" by simp
  moreover have "(b - a) mod int rollingBuckets = b - a" using assms(2,3) by (intro mod_pos_pos_trivial) simp_all
  ultimately show ?thesis by simp
qed

lemma residue_partition:
  "(\<Sum>i\<leftarrow>[0..<rollingBuckets]. \<Sum>e\<leftarrow>h. if P e \<and> r e mod int rollingBuckets = int i then w e else (0 :: int))
    = (\<Sum>e\<leftarrow>h. if P e then w e else 0)"
proof -
  have one: "(\<Sum>i \<in> {0..<rollingBuckets}. if P e \<and> r e mod int rollingBuckets = int i then w e else 0)
      = (if P e then w e else 0)" for e
  proof -
    define k where "k = nat (r e mod int rollingBuckets)"
    have k: "k < rollingBuckets" "\<And>i. r e mod int rollingBuckets = int i \<longleftrightarrow> i = k"
      using rolling_pos pos_mod_bound [OF rolling_pos, of "r e"] pos_mod_sign [OF rolling_pos, of "r e"]
      by (auto simp: k_def)
    then show ?thesis by (simp add: sum.delta)
  qed
  have "(\<Sum>i \<in> {0..<rollingBuckets}. \<Sum>e\<leftarrow>h. if P e \<and> r e mod int rollingBuckets = int i then w e else 0)
      = (\<Sum>e\<leftarrow>h. if P e then w e else 0)"
    by (induction h) (simp_all add: sum.distrib one)
  then show ?thesis by (simp add: interv_sum_list_conv_sum_set_nat)
qed

text \<open>
  A counter that is read off the buckets: it starts at zero, moves with each query, and is added up
  by \<open>add_bucket\<close>.
\<close>

locale window_counter =
  fixes per_bucket :: "timeBucket \<Rightarrow> int"
    and overall :: "Statistics \<times> (string, int) gomap \<Rightarrow> int"
    and weight :: "QueryEvent \<Rightarrow> int"
  assumes start: "overall (noStatistics, []) = 0"
    and merge: "overall (add_bucket acc b) = overall acc + per_bucket b"
    and empty_bucket: "per_bucket initial_bucket = 0"
    and filled_bucket: "per_bucket (filled s qs) = (\<Sum>q\<leftarrow>qs. weight q)"
begin

lemma overall_fold:
  "overall (foldl (\<lambda>acc b. if skip b then acc else add_bucket acc b) acc bs)
    = overall acc + (\<Sum>b\<leftarrow>bs. if skip b then 0 else per_bucket b)"
  by (induction bs arbitrary: acc) (auto simp: merge)

lemma slot_share:
  assumes "clocked h" and "\<forall>e \<in> set h. second_of e \<le> now" and "seconds \<le> int rollingBuckets"
  shows "(if tb_second (slot h i) < now - seconds + 1 \<or> tb_second (slot h i) > now then 0 else per_bucket (slot h i))
    = (\<Sum>e\<leftarrow>h. if now - seconds < second_of e \<and> second_of e mod int rollingBuckets = int i then weight (snd e) else 0)"
    (is "?lhs = ?rhs")
proof (cases "slot_events h i = []")
  case True
  then have "?rhs = (\<Sum>e\<leftarrow>h. 0)"
    by (intro arg_cong [where f = sum_list] map_cong) (auto simp: slot_events_def filter_empty_conv)
  with True show ?thesis by (simp add: slot_def empty_bucket)
next
  case False
  define s where "s = second_of (last (slot_events h i))"
  have s: "s \<le> now" "s mod int rollingBuckets = int i"
    using last_in_set [OF False] assms(2) by (auto simp: s_def slot_events_def)
  have b: "slot h i = filled s (map snd (filter (\<lambda>e. second_of e = s) h))"
    using False by (simp add: slot_def s_def Let_def)
  have top: "second_of e \<le> s" if "e \<in> set h" "second_of e mod int rollingBuckets = int i" for e
    using that assms(1) unfolding s_def by (intro slot_top) (auto simp: clocked_def)
  have same: "now - seconds < second_of e \<and> second_of e mod int rollingBuckets = int i
      \<longleftrightarrow> now - seconds < s \<and> second_of e = s" if "e \<in> set h" for e
  proof
    assume e: "now - seconds < second_of e \<and> second_of e mod int rollingBuckets = int i"
    with top [OF that] have le: "second_of e \<le> s" by simp
    have "second_of e = s"
    proof (rule window_residue)
      show "second_of e mod int rollingBuckets = s mod int rollingBuckets" using e s by simp
      show "s < second_of e + int rollingBuckets" using e s assms(3) by linarith
    qed (rule le)
    with e show "now - seconds < s \<and> second_of e = s" by simp
  qed (use s in simp)
  have "?rhs = (\<Sum>e\<leftarrow>h. if now - seconds < s \<and> second_of e = s then weight (snd e) else 0)"
    by (intro arg_cong [where f = sum_list] map_cong refl) (simp only: same)
  also have "\<dots> = (if now - seconds < s then \<Sum>e\<leftarrow>filter (\<lambda>e. second_of e = s) h. weight (snd e) else 0)"
    by (simp add: sum_list_map_filter')
  also have "\<dots> = ?lhs" using s by (simp add: b filled_bucket o_def)
  finally show ?thesis ..
qed

lemma window_total:
  assumes "clocked h" and "\<forall>e \<in> set h. second_of e \<le> now" and "seconds \<le> int rollingBuckets"
  shows "overall (summarizeBuckets (map (slot h) [0..<rollingBuckets]) now seconds)
    = (\<Sum>e\<leftarrow>filter (\<lambda>e. now - seconds < second_of e) h. weight (snd e))"
proof -
  have "overall (summarizeBuckets (map (slot h) [0..<rollingBuckets]) now seconds)
      = (\<Sum>i\<leftarrow>[0..<rollingBuckets]. \<Sum>e\<leftarrow>h. if now - seconds < second_of e \<and> second_of e mod int rollingBuckets = int i
          then weight (snd e) else 0)"
    unfolding summarizeBuckets_def Let_def overall_fold start
    by (simp only: map_map o_def slot_share [OF assms] add_0)
  also have "\<dots> = (\<Sum>e\<leftarrow>h. if now - seconds < second_of e then weight (snd e) else 0)"
    by (rule residue_partition)
  finally show ?thesis by (simp add: sum_list_map_filter')
qed

end

lemmas counter_defs = noStatistics_def add_bucket_def add_statistics_def initial_bucket_def filled_def tally_fields

interpretation queries: window_counter "\<lambda>b. sa_Queries (tb_statistics b)" "\<lambda>acc. sa_Queries (fst acc)" "\<lambda>_. 1"
  by unfold_locales (simp_all add: counter_defs sum_list_triv)

interpretation failed: window_counter "\<lambda>b. sa_FailedQueries (tb_statistics b)" "\<lambda>acc. sa_FailedQueries (fst acc)"
  "\<lambda>q. if \<not> qe_Success q then 1 else 0"
  by unfold_locales (simp_all add: counter_defs)

interpretation scattered: window_counter "\<lambda>b. sa_ScatteredQueries (tb_statistics b)" "\<lambda>acc. sa_ScatteredQueries (fst acc)"
  "\<lambda>q. if length (qe_Shards q) > 1 then 1 else 0"
  by unfold_locales (simp_all add: counter_defs)

interpretation single: window_counter "\<lambda>b. sa_SingleShardQueries (tb_statistics b)" "\<lambda>acc. sa_SingleShardQueries (fst acc)"
  "\<lambda>q. if length (qe_Shards q) = 1 then 1 else 0"
  by unfold_locales (simp_all add: counter_defs)

interpretation millis: window_counter "\<lambda>b. sa_TotalDurationMillis (tb_statistics b)" "\<lambda>acc. sa_TotalDurationMillis (fst acc)"
  "\<lambda>q. duration_millis (qe_Duration q)"
  by unfold_locales (simp_all add: counter_defs)

interpretation shards: window_counter "\<lambda>b. map_total name (bucket_counts b)" "\<lambda>acc. map_total name (snd acc)"
  "\<lambda>q. int (count_list (qe_Shards q) name)" for name
proof
  fix s and qs :: "QueryEvent list"
  show "map_total name (bucket_counts (filled s qs)) = (\<Sum>q\<leftarrow>qs. int (count_list (qe_Shards q) name))"
    by (induction qs rule: rev_induct) (simp_all add: bucket_counts_def filled_def)
qed (simp_all add: add_bucket_def map_total_foldl_bump bucket_counts_def initial_bucket_def)

definition recent :: "int \<Rightarrow> int \<Rightarrow> event_history \<Rightarrow> QueryEvent list" where
  "recent now seconds h = map snd (filter (\<lambda>e. now - seconds < second_of e) h)"

lemma summarizeBuckets_average: "sa_AverageDurationMillis (fst (summarizeBuckets bs now seconds)) = 0"
proof -
  have "sa_AverageDurationMillis (fst (foldl (\<lambda>acc b. if skip b then acc else add_bucket acc b) acc bs))
      = sa_AverageDurationMillis (fst acc)" for skip acc
    by (induction bs arbitrary: acc) (simp_all add: add_bucket_def add_statistics_def)
  then show ?thesis by (simp add: summarizeBuckets_def noStatistics_def)
qed

lemma summarizeBuckets_recent:
  assumes "clocked h" and "\<forall>e \<in> set h. second_of e \<le> now" and "seconds \<le> int rollingBuckets"
  shows "fst (summarizeBuckets (map (slot h) [0..<rollingBuckets]) now seconds) = tally (recent now seconds h)"
    and "map_total name (snd (summarizeBuckets (map (slot h) [0..<rollingBuckets]) now seconds))
      = shard_total name (recent now seconds h)"
proof -
  let ?r = "recent now seconds h"
  note totals = queries.window_total [OF assms] failed.window_total [OF assms] scattered.window_total [OF assms]
    single.window_total [OF assms] millis.window_total [OF assms]
  show "fst (summarizeBuckets (map (slot h) [0..<rollingBuckets]) now seconds) = tally ?r"
    by (rule Statistics.equality) (simp_all add: totals tally_fields summarizeBuckets_average sum_list_triv recent_def o_def)
  show "map_total name (snd (summarizeBuckets (map (slot h) [0..<rollingBuckets]) now seconds)) = shard_total name ?r"
    by (simp add: shards.window_total [OF assms] shard_total_def recent_def o_def)
qed

text \<open>C18. As long as the clock does not go back before the epoch or behind an earlier query, recording never
  fails and a snapshot is exact: each of its windows reports the counters of precisely the queries of
  its last seconds, and as many executions for every Burrow as those queries selected it.\<close>

theorem snapshot_windows_exact:
  assumes "clocked h" and "\<forall>e \<in> set h. second_of e \<le> unix_second now"
  shows "\<exists>c. record_all h newCollector = Some c \<and> list_all2 (\<lambda>w (name, seconds).
       ws_Name w = name \<and> ws_Statistics w = finalize (tally (recent (unix_second now) seconds h))
       \<and> (\<forall>shard. (\<Sum>x\<leftarrow>filter (\<lambda>x. sc_Name x = shard) (ws_ShardExecutions w). sc_Queries x)
             = shard_total shard (recent (unix_second now) seconds h)))
     (sn_Windows (take_snapshot sha256 now c)) windows"
proof -
  from record_all_slots [OF assms(1)] obtain c where c: "record_all h newCollector = Some c"
    "co_buckets c = map (slot h) [0..<rollingBuckets]" by blast
  have w: "seconds \<le> int rollingBuckets" if "(name, seconds) \<in> set windows" for name seconds
    using that by (auto simp: windows_def rollingBuckets_def)
  note exact = summarizeBuckets_recent [OF assms w]
  have "list_all2 (\<lambda>w (name, seconds).
       ws_Name w = name \<and> ws_Statistics w = finalize (tally (recent (unix_second now) seconds h))
       \<and> (\<forall>shard. (\<Sum>x\<leftarrow>filter (\<lambda>x. sc_Name x = shard) (ws_ShardExecutions w). sc_Queries x)
             = shard_total shard (recent (unix_second now) seconds h)))
     (sn_Windows (take_snapshot sha256 now c)) windows"
    by (auto simp: take_snapshot_def list_all2_map1 list_all2_same c(2) split_beta exact sorted_counts_total)
  with c(1) show ?thesis by blast
qed

definition sample_history :: event_history where
  "sample_history =
    [(5000000000, \<lparr>qe_Duration = 3000000, qe_Success = True, qe_Shards = [''a''], qe_SQL = ''SELECT 1'', qe_ErrorCategory = []\<rparr>),
     (604000000000, \<lparr>qe_Duration = 8000000, qe_Success = False, qe_Shards = [''a'', ''b''], qe_SQL = ''SELECT 2'', qe_ErrorCategory = []\<rparr>)]"

theorem snapshot_windows_exact_witness:
  "\<exists>c. record_all sample_history newCollector = Some c
   \<and> ws_Statistics (last (sn_Windows (take_snapshot (\<lambda>b. b) 604500000000 c)))
     = \<lparr>sa_Queries = 2, sa_FailedQueries = 1, sa_ScatteredQueries = 1, sa_SingleShardQueries = 1,
        sa_TotalDurationMillis = 11, sa_AverageDurationMillis = 5\<rparr>
   \<and> ws_Statistics (hd (sn_Windows (take_snapshot (\<lambda>b. b) 604500000000 c)))
     = \<lparr>sa_Queries = 1, sa_FailedQueries = 1, sa_ScatteredQueries = 1, sa_SingleShardQueries = 0,
        sa_TotalDurationMillis = 8, sa_AverageDurationMillis = 8\<rparr>"
  (is "\<exists>c. record_all ?h newCollector = Some c \<and> _ = ?all \<and> _ = ?near")
proof -
  have h: "clocked ?h" "\<forall>e \<in> set ?h. second_of e \<le> unix_second 604500000000"
    by (simp_all add: sample_history_def clocked_def unix_second_def)
  have f: "finalize (tally (recent (unix_second 604500000000) 600 ?h)) = ?all"
    "finalize (tally (recent (unix_second 604500000000) 10 ?h)) = ?near"
    by (simp_all add: sample_history_def finalize_def tally_def recent_def add_event_def noStatistics_def unix_second_def duration_millis_def go_quot_def)
  from snapshot_windows_exact [OF h, of "\<lambda>b. b"] f show ?thesis
    by (auto simp: windows_def list_all2_Cons2)
qed

section \<open>Bounds of the collector\<close>

lemma NormalizeLabel_bounded: "NormalizeLabel sql \<noteq> [] \<and> length (NormalizeLabel sql) \<le> 303"
proof -
  define n where "n = trim_space (whitespace (numberValue False (stringValue (lineComment (blockComment sql)))))"
  have "NormalizeLabel sql = (if n = [] then ''<empty query>'' else if length n > 300 then take 300 n @ ellipsis else n)"
    by (simp add: NormalizeLabel_def ellipsis_def Let_def flip: n_def)
  then show ?thesis by (simp add: ellipsis_def)
qed

definition labels_ok :: "Collector \<Rightarrow> bool" where
  "labels_ok c = (map_ok (co_labels c) \<and> length (co_labels c) \<le> maxSummaryLabels
     \<and> distinct (co_labelOrder c) \<and> set (co_labelOrder c) = set (keys (co_labels c)) \<and> co_labelNext c < maxSummaryLabels
     \<and> (\<forall>sql label. map_of (co_labels c) sql = Some label \<longrightarrow> label = NormalizeLabel sql))"

definition summaries_ok :: "(string, summary) gomap \<Rightarrow> bool" where
  "summaries_ok m = (map_ok m \<and> length m \<le> maxQuerySummaries \<and> (\<forall>label \<in> set (keys m). length label \<le> 303))"

lemma length_delete: "map_ok m \<Longrightarrow> k \<in> set (keys m) \<Longrightarrow> Suc (length (AList.delete k m)) = length m"
proof (induction m)
  case (Cons x m)
  obtain a b where x: "x = (a, b)" by (cases x)
  show ?case
  proof (cases "a = k")
    case True
    with Cons.prems x have "k \<notin> set (keys m)" by (simp add: map_ok_def)
    then have "AList.delete k m = m" by (simp add: delete_id)
    with x True show ?thesis by simp
  next
    case False
    with Cons x show ?thesis by (simp add: map_ok_def)
  qed
qed simp

lemma length_update:
  "length (AList.update k v m) = (if k \<in> set (keys m) then length m else Suc (length m))"
  by (induction m) auto

lemma keys_update_delete:
  "fst ` set (AList.update k v m) = insert k (fst ` set m)"
  "fst ` set (AList.delete k m) = fst ` set m - {k}"
  by (auto simp: dom_map_of_conv_image_fst [symmetric] split: if_splits)

lemma summaryLabel_ok:
  assumes "labels_ok c"
  shows "fst (summaryLabel sql c) = NormalizeLabel sql \<and> labels_ok (snd (summaryLabel sql c))"
proof (cases "map_of (co_labels c) sql")
  case (Some label)
  with assms show ?thesis by (simp add: summaryLabel_def labels_ok_def)
next
  case None
  have new: "sql \<notin> set (keys (co_labels c))" using None by (simp add: map_of_eq_None_iff)
  note ok = assms [unfolded labels_ok_def]
  have len: "length (co_labelOrder c) = length (co_labels c)"
    using ok distinct_card [of "co_labelOrder c"] distinct_card [of "keys (co_labels c)"] by (simp add: map_ok_def)
  show ?thesis
  proof (cases "length (co_labels c) < maxSummaryLabels")
    case True
    with None new ok show ?thesis
      by (auto simp: summaryLabel_def labels_ok_def Let_def length_update keys_update_delete split: if_splits)
  next
    case False
    define i where "i = co_labelNext c"
    have i: "i < length (co_labelOrder c)" "length (co_labels c) = maxSummaryLabels" using ok len False by (simp_all add: i_def)
    define old where "old = co_labelOrder c ! i"
    have old: "old \<in> set (keys (co_labels c))" using ok i(1) by (auto simp: old_def)
    have order: "set ((co_labelOrder c)[i := sql]) = insert sql (set (keys (co_labels c)) - {old})"
      using ok i(1) set_update_distinct [of "co_labelOrder c" i sql] by (simp add: old_def)
    show ?thesis
      using None new ok i old order length_delete [of "co_labels c" old]
      by (auto simp: summaryLabel_def labels_ok_def Let_def length_update keys_update_delete maxSummaryLabels_def
          distinct_list_update simp flip: i_def old_def split: if_splits)
  qed
qed

lemma evict_candidate_mem:
  "evict_candidate best m = Some x \<Longrightarrow> best = Some x \<or> x \<in> set m"
  by (induction best m rule: evict_candidate.induct) (auto split: option.splits if_splits)

lemma evict_candidate_some: "evict_candidate (Some y) m \<noteq> None"
  by (induction "Some y" m arbitrary: y rule: evict_candidate.induct) (auto split: if_splits)

lemma evictSummary_shorter:
  assumes "map_ok m" and "m \<noteq> []"
  shows "Suc (length (evictSummary m)) = length m"
proof -
  obtain x m' where m: "m = x # m'" using assms(2) by (cases m) auto
  then have "evict_candidate None m \<noteq> None" using evict_candidate_some by simp
  then obtain y where y: "evict_candidate None m = Some y" by blast
  then have "fst y \<in> set (keys m)" using evict_candidate_mem [OF y] by auto
  with y assms(1) show ?thesis by (simp add: evictSummary_def length_delete split_beta)
qed

lemma recordSummary_ok:
  assumes "summaries_ok m" and "length label \<le> 303"
  shows "summaries_ok (recordSummary label now q m) \<and> label \<in> set (keys (recordSummary label now q m))"
proof (cases "map_of m label")
  case (Some item)
  then have "label \<in> fst ` set m" by (metis domI dom_map_of_conv_image_fst)
  with Some assms show ?thesis
    by (auto simp: recordSummary_def summaries_ok_def length_update keys_update_delete)
next
  case None
  then have new: "label \<notin> fst ` set m" by (simp add: map_of_eq_None_iff)
  let ?m = "if length m \<ge> maxQuerySummaries then evictSummary m else m"
  have keys: "fst ` set ?m \<subseteq> fst ` set m" by (auto simp: evictSummary_def keys_update_delete)
  have ok: "map_ok ?m" using assms(1) by (simp add: summaries_ok_def evictSummary_def)
  have room: "length ?m < maxQuerySummaries"
    using assms(1) evictSummary_shorter [of m]
    by (cases m) (auto simp: summaries_ok_def maxQuerySummaries_def)
  have le: "\<forall>k \<in> fst ` set ?m. length k \<le> 303"
    using assms(1) subsetD [OF keys] by (force simp: summaries_ok_def simp del: image_iff)
  have "summaries_ok (AList.update label v ?m)" for v
    using ok room le assms(2) unfolding summaries_ok_def set_map keys_update_delete length_update by auto
  with None show ?thesis by (simp add: recordSummary_def keys_update_delete)
qed

definition totals_ok :: "QueryEvent list \<Rightarrow> Collector \<Rightarrow> bool" where
  "totals_ok qs c = (co_total c = tally qs
     \<and> (\<forall>shard. map_total shard (co_shards c) = shard_total shard qs)
     \<and> hi_Count (co_latency c) = int (length qs)
     \<and> hi_Buckets (co_latency c) = map (\<lambda>upper. \<lparr>bk_UpperBound = upper,
          bk_Count = int (length (filter (\<lambda>q. duration_seconds (qe_Duration q) \<le> upper) qs))\<rparr>) LatencyBuckets)"

definition collector_ok :: "QueryEvent list \<Rightarrow> Collector \<Rightarrow> bool" where
  "collector_ok qs c = (labels_ok c \<and> summaries_ok (co_summaries c) \<and> totals_ok qs c)"

lemma summaryLabel_rest:
  "co_total (snd (summaryLabel sql c)) = co_total c" "co_shards (snd (summaryLabel sql c)) = co_shards c"
  "co_latency (snd (summaryLabel sql c)) = co_latency c" "co_summaries (snd (summaryLabel sql c)) = co_summaries c"
  by (simp_all add: summaryLabel_def Let_def split: option.split)

lemma collector_ok_new: "collector_ok [] newCollector"
  by (simp add: collector_ok_def newCollector_def labels_ok_def summaries_ok_def totals_ok_def tally_def shard_total_def
      maxSummaryLabels_def)

lemma collector_ok_Record:
  assumes "collector_ok qs c" and "Record now q c = Some c'"
  shows "collector_ok (qs @ [q]) c'"
proof -
  define l where "l = fst (summaryLabel (qe_SQL q) c)"
  define c1 where "c1 = snd (summaryLabel (qe_SQL q) c)"
  have l: "l = NormalizeLabel (qe_SQL q)" "labels_ok c1"
    using summaryLabel_ok assms(1) by (auto simp: collector_ok_def l_def c1_def)
  have rest: "co_total c1 = co_total c" "co_shards c1 = co_shards c" "co_latency c1 = co_latency c" "co_summaries c1 = co_summaries c"
    by (simp_all add: c1_def summaryLabel_rest)
  from assms(2) obtain bs fs where c': "c' = c1\<lparr>co_total := add_event (co_total c1) q, co_buckets := bs, co_failures := fs,
      co_latency := observe (qe_Duration q) (co_latency c1), co_shards := count_shards (qe_Shards q) (co_shards c1),
      co_summaries := recordSummary l now q (co_summaries c1)\<rparr>"
    by (auto simp: Record_def split_beta l_def c1_def split: option.splits)
  have "summaries_ok (recordSummary l now q (co_summaries c))"
    using recordSummary_ok assms(1) NormalizeLabel_bounded l(1) by (simp add: collector_ok_def)
  moreover have "totals_ok (qs @ [q]) c'"
    using assms(1) by (simp add: collector_ok_def totals_ok_def c' rest tally_snoc shard_total_def observe_def)
  ultimately show ?thesis using l(2) by (simp add: collector_ok_def c' rest labels_ok_def)
qed

lemma collector_ok_all: "record_all h newCollector = Some c \<Longrightarrow> collector_ok (map snd h) c"
proof (induction h arbitrary: c rule: rev_induct)
  case (snoc e h)
  obtain t q where e: "e = (t, q)" by (cases e)
  from snoc.prems e obtain c0 where "record_all h newCollector = Some c0" "Record t q c0 = Some c"
    by (auto simp: record_all_append bind_eq_Some_conv)
  with snoc.IH e collector_ok_Record show ?case by simp
qed (simp add: collector_ok_new)

text \<open>C19. Whatever is recorded, the collector stays bounded and its totals exact: at most a hundred cached
  labels and a hundred query shapes of at most 303 bytes, every cached label is the one \<open>NormalizeLabel\<close>
  computes, the totals are those of all queries, and each latency bucket counts the queries that
  took no longer than its bound.\<close>

theorem collector_bounded:
  assumes "record_all h newCollector = Some c"
  shows "length (co_labels c) \<le> 100 \<and> length (co_labelOrder c) \<le> 100 \<and> length (co_summaries c) \<le> 100
    \<and> (\<forall>sql label. map_of (co_labels c) sql = Some label \<longrightarrow> label = NormalizeLabel sql)
    \<and> (\<forall>label \<in> set (keys (co_summaries c)). length label \<le> 303)
    \<and> co_total c = tally (map snd h)
    \<and> (\<forall>b \<in> set (hi_Buckets (co_latency c)). bk_Count b
        = int (length (filter (\<lambda>q. duration_seconds (qe_Duration q) \<le> bk_UpperBound b) (map snd h))))"
proof -
  note ok = collector_ok_all [OF assms, unfolded collector_ok_def]
  have "length (co_labelOrder c) = card (set (keys (co_labels c)))"
    using ok distinct_card [of "co_labelOrder c"] by (simp add: labels_ok_def)
  also have "\<dots> \<le> length (co_labels c)" by (metis card_length length_map)
  finally show ?thesis
    using ok by (auto simp: labels_ok_def summaries_ok_def totals_ok_def maxSummaryLabels_def maxQuerySummaries_def)
qed

theorem collector_bounded_witness:
  "\<exists>c. record_all sample_history newCollector = Some c \<and> sa_Queries (co_total c) = 2 \<and> length (co_summaries c) \<le> 100"
proof -
  have "clocked sample_history" by (simp add: sample_history_def clocked_def unix_second_def)
  from record_all_slots [OF this] obtain c where c: "record_all sample_history newCollector = Some c" by blast
  with collector_bounded [OF c] show ?thesis by (auto simp: tally_fields sample_history_def)
qed

text \<open>
  Line comments are cut before string literals are recognised, so a literal that contains two dashes
  swallows the text up to the next quote and leaves the following literal in the label.
\<close>

lemma normalize_leaks_literal:
  "NormalizeLabel (''SELECT '' @ [CHR 0x27] @ ''--'' @ [CHR 0x27] @ [LF] @ '', '' @ [CHR 0x27] @ ''secret'' @ [CHR 0x27])
    = ''SELECT ?secret'' @ [CHR 0x27]"
  by code_simp

text \<open>A query at the epoch itself finds the initial bucket already at its second and its map still nil.\<close>

lemma record_at_epoch_panics: "qe_Shards q \<noteq> [] \<Longrightarrow> Record 0 q newCollector = None"
  by (simp add: Record_def split_beta recordWindow_def bucket_index_def go_rem_def unix_second_def newCollector_def
      enter_second_def count_event_def rollingBuckets_def summaryLabel_def maxSummaryLabels_def Let_def)

end
