(* ===== verification/Backend_Transport.thy ===== *)
theory Backend_Transport
  imports Backend_Pool Proxy_Serve Query_Statistics
begin

text \<open>
  The transport of \<^verbatim>\<open>internal/backend/backend.go\<close>: how the messages of a session reach the pooled connections and how the
  answers are read, the pooled queries of the Manager with the statistics they leave, and what becomes of the connections.
  The sockets are the record \<open>transport\<close>.
\<close>

section \<open>Sending\<close>

text \<open>
  \<open>tp_Send\<close> puts a message into the buffer of a connection and \<open>tp_Flush\<close> writes the buffer.  \<open>tp_Query\<close> runs a statement with the
  simple protocol: the row description, the raw rows read, the error that ended them, and the command tag.  \<open>tp_cause\<close> is
  what \<^verbatim>\<open>errors.As\<close> finds behind an error of the pool or of a setting.
\<close>

record rows =
  rw_Fields :: "FieldDescription list"
  rw_Values :: "bytes option list list"
  rw_Err :: "query_failure option"
  rw_Tag :: string

record 's transport =
  tp_Send :: "string \<Rightarrow> nat \<Rightarrow> frontend_message \<Rightarrow> 's \<Rightarrow> 's"
  tp_Flush :: "string \<Rightarrow> nat \<Rightarrow> 's \<Rightarrow> string option \<times> 's"
  tp_Receive :: "string \<Rightarrow> nat \<Rightarrow> 's \<Rightarrow> (string + backend_message) \<times> 's"
  tp_Query :: "string \<Rightarrow> nat \<Rightarrow> string \<Rightarrow> 's \<Rightarrow> (query_failure + rows) \<times> 's"
  tp_cause :: "string \<Rightarrow> query_failure"

datatype transport_error = NotAcquired acquire_error | SendFailed string string | NotConnected string | ReceiveFailed string string | HandlerFailed string

definition connectedShards :: "'s pool_env \<Rightarrow> session \<Rightarrow> (string \<times> nat) list" where
  "connectedShards env s = map (\<lambda>name. (name, the (shardByName s name))) (ConnectedNames env s)"

fun put_all :: "'s transport \<Rightarrow> frontend_message list \<Rightarrow> (string \<times> nat) list \<Rightarrow> 's \<Rightarrow> 's" where
  "put_all tp ms [] w = w"
| "put_all tp ms ((name, pid) # shards) w = put_all tp ms shards (foldl (\<lambda>w m. tp_Send tp name pid m w) w ms)"

fun flush_all :: "'s transport \<Rightarrow> (string \<times> nat) list \<Rightarrow> 's \<Rightarrow> transport_error option \<times> 's" where
  "flush_all tp [] w = (None, w)"
| "flush_all tp ((name, pid) # shards) w = (case tp_Flush tp name pid w of
       (Some e, w1) \<Rightarrow> (Some (SendFailed name e), w1) | (None, w1) \<Rightarrow> flush_all tp shards w1)"

definition session_Send :: "'s pool_env \<Rightarrow> 's transport \<Rightarrow> frontend_message \<Rightarrow> session \<Rightarrow> 's \<Rightarrow> transport_error option \<times> 's" where
  "session_Send env tp message s w = flush_all tp (connectedShards env s) (put_all tp [message, FFlush] (connectedShards env s) w)"

fun named_shards :: "session \<Rightarrow> string list \<Rightarrow> transport_error + (string \<times> nat) list" where
  "named_shards s [] = Inr []"
| "named_shards s (name # names) = (case shardByName s name of None \<Rightarrow> Inl (NotConnected name)
     | Some pid \<Rightarrow> map_sum (\<lambda>e. e) (\<lambda>shards. (name, pid) # shards) (named_shards s names))"

definition SendCopyTo :: "'s transport \<Rightarrow> string list \<Rightarrow> frontend_message \<Rightarrow> session \<Rightarrow> 's \<Rightarrow> transport_error option \<times> 's" where
  "SendCopyTo tp names message s w = (case named_shards s names of Inl e \<Rightarrow> (Some e, w)
     | Inr shards \<Rightarrow> flush_all tp shards (put_all tp [message] shards w))"

text \<open>The messages for one Burrow, whose connection is acquired when the session has none yet.\<close>

definition send_acquired :: "'s pool_env \<Rightarrow> 's transport \<Rightarrow> string \<Rightarrow> frontend_message list \<Rightarrow> session \<Rightarrow> 's pools \<Rightarrow> transport_error option \<times> session \<times> 's pools" where
  "send_acquired env tp name ms s p = (case acquire env name s p of
       (Some e, s1, p1) \<Rightarrow> (Some (NotAcquired e), s1, p1)
     | (None, s1, p1) \<Rightarrow>
         (let shard = [(name, the (shardByName s1 name))] in
          case flush_all tp shard (put_all tp ms shard (pl_world p1)) of (e, w1) \<Rightarrow> (e, s1, p1\<lparr>pl_world := w1\<rparr>)))"

definition SendTo :: "'s pool_env \<Rightarrow> 's transport \<Rightarrow> string \<Rightarrow> frontend_message \<Rightarrow> session \<Rightarrow> 's pools \<Rightarrow> transport_error option \<times> session \<times> 's pools" where
  "SendTo env tp name message s p = send_acquired env tp name [message, FFlush] s p"

definition SendBatchTo :: "'s pool_env \<Rightarrow> 's transport \<Rightarrow> string \<Rightarrow> frontend_message list \<Rightarrow> session \<Rightarrow> 's pools \<Rightarrow> transport_error option \<times> session \<times> 's pools" where
  "SendBatchTo env tp name messages s p = send_acquired env tp name messages s p"

section \<open>Receiving\<close>

text \<open>A Burrow may never send the message that is waited for: not returning is \<open>None\<close>.\<close>

partial_function (option) receive_loop :: "'s transport \<Rightarrow> (backend_message \<Rightarrow> bool) \<Rightarrow> string \<Rightarrow> nat \<Rightarrow> response \<Rightarrow> 's \<Rightarrow> ((transport_error + response) \<times> 's) option" where
  "receive_loop tp final name pid response w = (case tp_Receive tp name pid w of
       (Inl e, w1) \<Rightarrow> Some (Inl (ReceiveFailed name e), w1)
     | (Inr message, w1) \<Rightarrow>
         if final message then Some (Inr (response @ [cloneBackendMessage message]), w1)
         else receive_loop tp final name pid (response @ [cloneBackendMessage message]) w1)"

fun receive_many :: "'s transport \<Rightarrow> (backend_message \<Rightarrow> bool) \<Rightarrow> session \<Rightarrow> string list \<Rightarrow> 's \<Rightarrow> ((transport_error + response list) \<times> 's) option" where
  "receive_many tp final s [] w = Some (Inr [], w)"
| "receive_many tp final s (name # names) w = (case shardByName s name of None \<Rightarrow> Some (Inl (NotConnected name), w)
     | Some pid \<Rightarrow> (case receive_loop tp final name pid [] w of None \<Rightarrow> None
       | Some (Inl e, w1) \<Rightarrow> Some (Inl e, w1)
       | Some (Inr r, w1) \<Rightarrow> map_option (\<lambda>(rest, w2). (map_sum (\<lambda>e. e) (\<lambda>rs. r # rs) rest, w2)) (receive_many tp final s names w1)))"

definition session_ReceiveUntil :: "'s pool_env \<Rightarrow> 's transport \<Rightarrow> (backend_message \<Rightarrow> bool) \<Rightarrow> session \<Rightarrow> 's \<Rightarrow> ((transport_error + response list) \<times> 's) option" where
  "session_ReceiveUntil env tp final s w = receive_many tp final s (ConnectedNames env s) w"

definition ReceiveUntilFrom :: "'s transport \<Rightarrow> (backend_message \<Rightarrow> bool) \<Rightarrow> string \<Rightarrow> session \<Rightarrow> 's \<Rightarrow> ((transport_error + response list) \<times> 's) option" where
  "ReceiveUntilFrom tp final name s w = receive_many tp final s [name] w"

text \<open>COPY output is handed on message by message; \<open>handle\<close> is the callback, with a state of its own.\<close>

partial_function (option) receive_each :: "'s transport \<Rightarrow> (backend_message \<Rightarrow> bool) \<Rightarrow> (backend_message \<Rightarrow> 'c \<Rightarrow> string option \<times> 'c) \<Rightarrow> string \<Rightarrow> nat \<Rightarrow> 'c \<Rightarrow> 's
    \<Rightarrow> (transport_error option \<times> 'c \<times> 's) option" where
  "receive_each tp final handle name pid c w = (case tp_Receive tp name pid w of
       (Inl e, w1) \<Rightarrow> Some (Some (ReceiveFailed name e), c, w1)
     | (Inr message, w1) \<Rightarrow> (case handle message c of
         (Some e, c1) \<Rightarrow> Some (Some (HandlerFailed e), c1, w1)
       | (None, c1) \<Rightarrow> if final message then Some (None, c1, w1) else receive_each tp final handle name pid c1 w1))"

definition ReceiveEachFrom :: "'s transport \<Rightarrow> (backend_message \<Rightarrow> bool) \<Rightarrow> (backend_message \<Rightarrow> 'c \<Rightarrow> string option \<times> 'c) \<Rightarrow> string \<Rightarrow> session \<Rightarrow> 'c \<Rightarrow> 's
    \<Rightarrow> (transport_error option \<times> 'c \<times> 's) option" where
  "ReceiveEachFrom tp final handle name s c w = (case shardByName s name of None \<Rightarrow> Some (Some (NotConnected name), c, w)
     | Some pid \<Rightarrow> receive_each tp final handle name pid c w)"

section \<open>Pooled queries\<close>

text \<open>\<^verbatim>\<open>fmt.Errorf("...: %w", err)\<close> adds to the text and keeps what is behind the error.\<close>

definition with_context :: "string \<Rightarrow> query_failure \<Rightarrow> query_failure" where
  "with_context prefix e = (case e of PgFailure r \<Rightarrow> PgFailure r | OtherFailure text \<Rightarrow> OtherFailure (prefix @ text))"

definition param_cause :: "'s transport \<Rightarrow> string \<Rightarrow> param_error \<Rightarrow> query_failure" where
  "param_cause tp burrow e = (case e of
       InspectFailed name text \<Rightarrow> with_context (''inspect frontend settings on Burrow '' @ burrow @ '': inspect default for '' @ name @ '': '') (tp_cause tp text)
     | ApplyFailed name text \<Rightarrow> with_context (''apply frontend setting '' @ name @ '' on Burrow '' @ burrow @ '': '') (tp_cause tp text))"

definition read_rows :: "rows \<Rightarrow> query_failure + Result" where
  "read_rows r = (case rw_Err r of Some e \<Rightarrow> Inl e
     | None \<Rightarrow> Inr \<lparr>rs_Fields = rw_Fields r, rs_Rows = map (map append_nil) (rw_Values r), rs_CommandTag = rw_Tag r\<rparr>)"

definition queryShard :: "'s pool_env \<Rightarrow> 's transport \<Rightarrow> string \<Rightarrow> string \<Rightarrow> 's pools \<Rightarrow> (query_failure + Result) \<times> 's pools" where
  "queryShard env tp sql name p = (case po_Acquire env name (pl_world p) of
       (Inl e, w1) \<Rightarrow> (Inl (tp_cause tp e), p\<lparr>pl_world := w1\<rparr>)
     | (Inr pid, w1) \<Rightarrow>
         (case applyRuntimeParams (po_setting env name pid) (po_set_config env name pid) (preparedConnectionKey name pid) [] w1 (pl_params p) of
            (Some e, w2, m2) \<Rightarrow> (Inl (param_cause tp name e), discardPooledConnection env name pid (p\<lparr>pl_world := w2, pl_params := m2\<rparr>))
          | (None, w2, m2) \<Rightarrow> (case tp_Query tp name pid sql w2 of (r, w3) \<Rightarrow>
              ((case r of Inl e \<Rightarrow> Inl e | Inr rs \<Rightarrow> read_rows rs), p\<lparr>pl_world := po_Release env name pid w3, pl_params := m2\<rparr>))))"

definition classifyQueryError :: "query_failure \<Rightarrow> string" where
  "classifyQueryError err = (case err of OtherFailure _ \<Rightarrow> ''backend_connection''
     | PgFailure e \<Rightarrow>
         if length (er_Code e) \<ge> 2
         then (let c = take 2 (er_Code e) in
           if c \<in> set [''22'', ''23''] then ''data_error'' else if c \<in> set [''25'', ''40''] then ''transaction_error''
           else if c = ''42'' then ''sql_error'' else if c = ''53'' then ''resource_exhausted'' else ''postgres_error'')
         else ''postgres_error'')"

text \<open>How the Proxy reports the failure of a pooled query: the category it counts, and PostgreSQL's own error where there is one.\<close>

definition classifyProxyError :: "query_failure \<Rightarrow> string" where
  "classifyProxyError err = (case err of PgFailure e \<Rightarrow> postgresErrorCategory (er_Code e) | OtherFailure _ \<Rightarrow> ''burrow_transport'')"

definition postgresErrorResponse :: "query_failure \<Rightarrow> ErrorResponse option" where
  "postgresErrorResponse err = (case err of PgFailure e \<Rightarrow> Some e | OtherFailure _ \<Rightarrow> None)"

text \<open>The Manager: its pools and its statistics.\<close>

record 's fleet =
  fl_pools :: "'s pools"
  fl_metrics :: Collector

definition RecordQueryTargetsCategory :: "int \<Rightarrow> string \<Rightarrow> bool \<Rightarrow> int \<Rightarrow> string list \<Rightarrow> string \<Rightarrow> 's fleet \<Rightarrow> 's fleet option" where
  "RecordQueryTargetsCategory now sql success duration shards errorCategory f = map_option (\<lambda>c. f\<lparr>fl_metrics := c\<rparr>)
     (Record now \<lparr>qe_Duration = duration, qe_Success = success, qe_Shards = shards, qe_SQL = sql, qe_ErrorCategory = errorCategory\<rparr> (fl_metrics f))"

definition RecordQueryTargets :: "int \<Rightarrow> string \<Rightarrow> bool \<Rightarrow> int \<Rightarrow> string list \<Rightarrow> 's fleet \<Rightarrow> 's fleet option" where
  "RecordQueryTargets now sql success duration shards f = RecordQueryTargetsCategory now sql success duration shards [] f"

definition RecordQuery :: "'s pool_env \<Rightarrow> int \<Rightarrow> string \<Rightarrow> bool \<Rightarrow> int \<Rightarrow> 's fleet \<Rightarrow> 's fleet option" where
  "RecordQuery env now sql success duration f = RecordQueryTargets now sql success duration (po_burrows env) f"

definition manager_RecordOperation :: "string \<Rightarrow> string \<Rightarrow> 's fleet \<Rightarrow> 's fleet" where
  "manager_RecordOperation operation outcome f = f\<lparr>fl_metrics := Collector_RecordOperation operation outcome (fl_metrics f)\<rparr>"

definition record_outcome :: "(query_failure + Result) \<Rightarrow> 's fleet \<Rightarrow> 's fleet" where
  "record_outcome r f = manager_RecordOperation ''backend_query'' (if isl r then ''failure'' else ''success'') f"

text \<open>The Burrows are queried concurrently, each on a connection of its own, and answer in the order \<open>finished\<close>.\<close>

fun query_shards :: "'s pool_env \<Rightarrow> 's transport \<Rightarrow> string \<Rightarrow> string list \<Rightarrow> 's pools \<Rightarrow> (string \<times> (query_failure + Result)) list \<times> 's pools" where
  "query_shards env tp sql [] p = ([], p)"
| "query_shards env tp sql (name # names) p = (case queryShard env tp sql name p of (r, p1) \<Rightarrow>
     (case query_shards env tp sql names p1 of (rs, p2) \<Rightarrow> ((name, r) # rs, p2)))"

definition merge_text :: "merge_error \<Rightarrow> string" where
  "merge_text e = (case e of NoShards \<Rightarrow> ''no shards configured'' | IncompatibleRows n \<Rightarrow> ''incompatible row descriptions from shard '' @ show_nat n)"

text \<open>The answer, and the category under which a failure is counted.\<close>

definition answer_all :: "(string \<times> (query_failure + Result)) list \<Rightarrow> (query_failure + Result) \<times> string" where
  "answer_all outcomes = (case List.find (\<lambda>(name, r). isl r) outcomes of
       Some (name, r) \<Rightarrow> (let e = with_context (''shard '' @ name @ '': '') (projl r) in (Inl e, classifyQueryError e))
     | None \<Rightarrow> (case merge (map (\<lambda>name. projr (the (map_of (rev outcomes) name))) (sort (remdups (map fst outcomes)))) of
           Inl e \<Rightarrow> (Inl (OtherFailure (merge_text e)), ''result_mismatch'')
         | Inr r \<Rightarrow> (Inr r, ''query_execution'')))"

definition manager_QueryAll :: "'s pool_env \<Rightarrow> 's transport \<Rightarrow> int \<Rightarrow> int \<Rightarrow> string \<Rightarrow> string list \<Rightarrow> 's fleet \<Rightarrow> ((query_failure + Result) \<times> 's fleet) option" where
  "manager_QueryAll env tp now duration sql finished f =
     (case query_shards env tp sql finished (fl_pools f) of (outcomes, p1) \<Rightarrow> (case answer_all outcomes of (r, category) \<Rightarrow>
        map_option (\<lambda>f1. (r, f1)) (RecordQueryTargetsCategory now sql (\<not> isl r) duration (po_burrows env) category (record_outcome r (f\<lparr>fl_pools := p1\<rparr>)))))"

definition manager_QueryOne :: "'s pool_env \<Rightarrow> 's transport \<Rightarrow> int \<Rightarrow> int \<Rightarrow> string \<Rightarrow> string \<Rightarrow> 's fleet \<Rightarrow> ((query_failure + Result) \<times> 's fleet) option" where
  "manager_QueryOne env tp now duration sql name f =
     (if name \<notin> set (po_burrows env)
      then map_option (\<lambda>f1. (Inl (OtherFailure (''unknown Burrow '' @ name)), f1)) (RecordQueryTargetsCategory now sql False duration [name] ''configuration'' f)
      else (case queryShard env tp sql name (fl_pools f) of (r, p1) \<Rightarrow>
        map_option (\<lambda>f1. (r, f1)) (RecordQueryTargetsCategory now sql (\<not> isl r) duration [name]
          (case r of Inl e \<Rightarrow> classifyQueryError e | Inr _ \<Rightarrow> ''query_execution'') (record_outcome r (f\<lparr>fl_pools := p1\<rparr>)))))"

section \<open>A connection serves one session\<close>

text \<open>
  \<open>out w\<close> are the connections checked out of the pools.  The contract of the pools: a connection is handed out only while it is not
  checked out, releasing or destroying it ends that, and nothing else changes what is checked out.
\<close>

definition checkout_contract :: "'s pool_env \<Rightarrow> 's transport \<Rightarrow> ('s \<Rightarrow> (string \<times> nat) set) \<Rightarrow> bool" where
  "checkout_contract env tp out =
     ((\<forall>b w e w'. po_Acquire env b w = (Inl e, w') \<longrightarrow> out w' = out w)
      \<and> (\<forall>b w pid w'. po_Acquire env b w = (Inr pid, w') \<longrightarrow> (b, pid) \<notin> out w \<and> out w' = insert (b, pid) (out w))
      \<and> (\<forall>b pid n v w. out (snd (po_set_config env b pid n v w)) = out w)
      \<and> (\<forall>b pid sql w. out (snd (po_Exec env b pid sql w)) = out w)
      \<and> (\<forall>b pid w. out (snd (po_DeallocateAll env b pid w)) = out w)
      \<and> (\<forall>b pid w. out (po_Release env b pid w) = out w - {(b, pid)})
      \<and> (\<forall>b pid w. out (snd (po_Destroy env b pid w)) = out w - {(b, pid)})
      \<and> (\<forall>b pid m w. out (tp_Send tp b pid m w) = out w)
      \<and> (\<forall>b pid w. out (snd (tp_Flush tp b pid w)) = out w)
      \<and> (\<forall>b pid w. out (snd (tp_Receive tp b pid w)) = out w)
      \<and> (\<forall>b pid sql w. out (snd (tp_Query tp b pid sql w)) = out w))"

lemma checkout_rules:
  assumes "checkout_contract env tp out"
  shows out_refused: "po_Acquire env b w = (Inl e, w') \<Longrightarrow> out w' = out w"
    and out_acquired: "po_Acquire env b w = (Inr pid, w') \<Longrightarrow> (b, pid) \<notin> out w \<and> out w' = insert (b, pid) (out w)"
    and out_config: "po_set_config env b pid n v w = (r, w') \<Longrightarrow> out w' = out w"
    and out_Exec: "po_Exec env b pid sql w = (r, w') \<Longrightarrow> out w' = out w"
    and out_Deallocate: "po_DeallocateAll env b pid w = (r, w') \<Longrightarrow> out w' = out w"
    and out_Release: "out (po_Release env b pid w) = out w - {(b, pid)}"
    and out_Destroy: "po_Destroy env b pid w = (r, w') \<Longrightarrow> out w' = out w - {(b, pid)}"
    and out_Send: "out (tp_Send tp b pid m w) = out w"
    and out_Flush: "tp_Flush tp b pid w = (r, w') \<Longrightarrow> out w' = out w"
    and out_Receive: "tp_Receive tp b pid w = (rm, w') \<Longrightarrow> out w' = out w"
    and out_Query: "tp_Query tp b pid sql w = (rq, w') \<Longrightarrow> out w' = out w"
proof -
  note r1 = assms [unfolded checkout_contract_def]
  note r2 = r1 [THEN conjunct2]
  note r3 = r2 [THEN conjunct2]
  note r4 = r3 [THEN conjunct2]
  note r5 = r4 [THEN conjunct2]
  note r6 = r5 [THEN conjunct2]
  note r7 = r6 [THEN conjunct2]
  note r8 = r7 [THEN conjunct2]
  note r9 = r8 [THEN conjunct2]
  note r10 = r9 [THEN conjunct2]
  note r11 = r10 [THEN conjunct2]
  show "po_Acquire env b w = (Inl e, w') \<Longrightarrow> out w' = out w" by (rule r1 [THEN conjunct1, rule_format])
  show "po_Acquire env b w = (Inr pid, w') \<Longrightarrow> (b, pid) \<notin> out w \<and> out w' = insert (b, pid) (out w)" by (rule r2 [THEN conjunct1, rule_format])
  show "po_set_config env b pid n v w = (r, w') \<Longrightarrow> out w' = out w" using r3 [THEN conjunct1, rule_format, of b pid n v w] by simp
  show "po_Exec env b pid sql w = (r, w') \<Longrightarrow> out w' = out w" using r4 [THEN conjunct1, rule_format, of b pid sql w] by simp
  show "po_DeallocateAll env b pid w = (r, w') \<Longrightarrow> out w' = out w" using r5 [THEN conjunct1, rule_format, of b pid w] by simp
  show "out (po_Release env b pid w) = out w - {(b, pid)}" by (rule r6 [THEN conjunct1, rule_format])
  show "po_Destroy env b pid w = (r, w') \<Longrightarrow> out w' = out w - {(b, pid)}" using r7 [THEN conjunct1, rule_format, of b pid w] by simp
  show "out (tp_Send tp b pid m w) = out w" by (rule r8 [THEN conjunct1, rule_format])
  show "tp_Flush tp b pid w = (r, w') \<Longrightarrow> out w' = out w" using r9 [THEN conjunct1, rule_format, of b pid w] by simp
  show "tp_Receive tp b pid w = (rm, w') \<Longrightarrow> out w' = out w" using r10 [THEN conjunct1, rule_format, of b pid w] by simp
  show "tp_Query tp b pid sql w = (rq, w') \<Longrightarrow> out w' = out w" using r11 [rule_format, of b pid sql w] by simp
qed


lemma put_all_out:
  assumes "checkout_contract env tp out"
  shows "out (put_all tp ms shards w) = out w"
proof (induction shards arbitrary: w)
  case (Cons x shards)
  have "out (foldl (\<lambda>w m. tp_Send tp (fst x) (snd x) m w) w ms) = out w"
    by (induction ms arbitrary: w) (simp_all add: out_Send [OF assms])
  with Cons show ?case by (cases x) simp
qed simp

lemma flush_all_out:
  assumes "checkout_contract env tp out"
  shows "flush_all tp shards w = (r, w') \<Longrightarrow> out w' = out w"
proof (induction shards arbitrary: w)
  case (Cons x shards)
  obtain b pid where x: "x = (b, pid)" by (cases x)
  obtain r1 w1 where w1: "tp_Flush tp b pid w = (r1, w1)" by fastforce
  from out_Flush [OF assms w1] Cons w1 x show ?case by (cases r1) auto
qed simp

lemma apply_changed_out:
  assumes "checkout_contract env tp out"
  shows "apply_changed (po_set_config env b pid) key changed names w m = (r, w', m') \<Longrightarrow> out w' = out w"
proof (induction names arbitrary: w m)
  case (Cons n names)
  obtain r1 w1 where w1: "po_set_config env b pid n (the (map_of changed n)) w = (r1, w1)" by fastforce
  from out_config [OF assms w1] Cons w1 show ?case by (cases r1) auto
qed simp

lemma applyRuntimeParams_out:
  assumes "checkout_contract env tp out" and "applyRuntimeParams getp (po_set_config env b pid) key desired w m = (r, w', m')"
  shows "out w' = out w"
  using assms(2) by (auto simp: applyRuntimeParams_def Let_def dest: apply_changed_out [OF assms(1)] split: prod.splits option.splits)

lemma replay_out:
  assumes "checkout_contract env tp out"
  shows "replaySessionSettings env b pid sqls w = (r, w') \<Longrightarrow> out w' = out w"
proof (induction sqls arbitrary: w)
  case (Cons sql sqls)
  obtain r1 w1 where w1: "po_Exec env b pid sql w = (r1, w1)" by fastforce
  from out_Exec [OF assms w1] Cons w1 show ?case by (cases r1) auto
qed simp

lemma discard_out:
  assumes "checkout_contract env tp out"
  shows "out (pl_world (discardPooledConnection env b pid p)) = out (pl_world p) - {(b, pid)}"
  using out_Destroy [OF assms] by (cases "po_Destroy env b pid (pl_world p)") (simp add: discardPooledConnection_def)

lemma prepare_connection_out:
  assumes "checkout_contract env tp out" and "prepare_connection env s b pid p = (r, p')"
  shows "out (pl_world p') = (if r = None then out (pl_world p) else out (pl_world p) - {(b, pid)})"
proof -
  obtain r1 p1 where p1: "syncPreparedStatements env b pid p = (r1, p1)" by fastforce
  have w1: "pl_world p1 = pl_world p" using p1 by (auto simp: syncPreparedStatements_def Let_def split: if_splits sum.splits)
  obtain r2 w2 m2 where w2: "applyRuntimeParams (po_setting env b pid) (po_set_config env b pid) (preparedConnectionKey b pid) (se_runtimeParams s)
      (pl_world p1) (pl_params p1) = (r2, w2, m2)" by (metis prod_cases3)
  obtain r3 w3 where w3: "replaySessionSettings env b pid (se_replaySQL s) w2 = (r3, w3)" by fastforce
  have out: "out w2 = out (pl_world p)" "out w3 = out (pl_world p)"
    using applyRuntimeParams_out [OF assms(1) w2] replay_out [OF assms(1) w3] w1 by simp_all
  note step = assms(2) [unfolded prepare_connection_def p1 prod.case]
  consider (sync) e where "r1 = Some e" | (config) e where "r1 = None" "r2 = Some e" | (replay) "r1 = None" "r2 = None"
    by (cases r1; cases r2) simp_all
  then show ?thesis
  proof cases
    case sync
    with step w1 show ?thesis by (auto simp: discard_out [OF assms(1)])
  next
    case config
    with step w2 out show ?thesis by (auto simp: discard_out [OF assms(1)])
  next
    case replay
    with step w2 w3 out show ?thesis by (cases r3) (auto simp: discard_out [OF assms(1)])
  qed
qed

text \<open>The connections of a session: one for each Burrow it uses.\<close>

definition session_wf :: "'s pool_env \<Rightarrow> session \<Rightarrow> bool" where
  "session_wf env s = (distinct (keys (se_shards s)) \<and> set (keys (se_shards s)) \<subseteq> set (po_burrows env))"

text \<open>An operation of a session may check out further connections, which are then the session's.\<close>

definition extends :: "'s pool_env \<Rightarrow> ('s \<Rightarrow> (string \<times> nat) set) \<Rightarrow> session \<Rightarrow> 's \<Rightarrow> session \<Rightarrow> 's \<Rightarrow> bool" where
  "extends env out s w s' w' = (\<exists>new. set (se_shards s') = set (se_shards s) \<union> new \<and> new \<inter> out w = {} \<and> out w' = out w \<union> new
     \<and> (session_wf env s \<longrightarrow> session_wf env s'))"

lemma extends_same: "out w' = out w \<Longrightarrow> extends env out s w s w'"
  by (auto simp: extends_def)

lemma extends_then: "extends env out s w s' w' \<Longrightarrow> out w'' = out w' \<Longrightarrow> extends env out s w s' w''"
  by (auto simp: extends_def)

lemma acquire_extends:
  assumes "checkout_contract env tp out" and "acquire env name s p = (r, s', p')"
  shows "extends env out s (pl_world p) s' (pl_world p')"
proof -
  obtain ra w1 where w1: "po_Acquire env name (pl_world p) = (ra, w1)" by fastforce
  show ?thesis
  proof (cases "shardByName s name \<noteq> None \<or> name \<notin> set (po_burrows env)")
    case True
    with assms(2) show ?thesis by (auto simp: acquire_def extends_same split: if_splits)
  next
    case False
    show ?thesis
    proof (cases ra)
      case (Inl e)
      with assms(2) False w1 out_refused [OF assms(1)] show ?thesis by (auto simp: acquire_def extends_same)
    next
      case (Inr pid)
      note fresh = out_acquired [OF assms(1) w1 [unfolded Inr]]
      obtain rp p2 where p2: "prepare_connection env s name pid (p\<lparr>pl_world := w1\<rparr>) = (rp, p2)" by fastforce
      note out2 = prepare_connection_out [OF assms(1) p2]
      have unused: "name \<notin> set (keys (se_shards s))" using False by (auto simp: shardByName_def map_of_eq_None_iff)
      hence shards: "AList.update name pid (se_shards s) = se_shards s @ [(name, pid)]" by (rule update_absent)
      show ?thesis
      proof (cases rp)
        case None
        with assms(2) False w1 Inr p2 shards have s': "s' = s\<lparr>se_shards := se_shards s @ [(name, pid)]\<rparr>" "p' = p2"
          by (auto simp: acquire_def)
        have "session_wf env s \<longrightarrow> session_wf env s'" using False unused by (simp add: s' session_wf_def)
        with None s' fresh out2 show ?thesis by (auto simp: extends_def intro!: exI [of _ "{(name, pid)}"])
      next
        case (Some e)
        with assms(2) False w1 Inr p2 fresh out2 show ?thesis by (auto simp: acquire_def extends_same)
      qed
    qed
  qed
qed


lemma send_acquired_extends:
  assumes "checkout_contract env tp out" and "send_acquired env tp name ms s p = (r, s', p')"
  shows "extends env out s (pl_world p) s' (pl_world p')"
proof -
  obtain ra s1 p1 where a: "acquire env name s p = (ra, s1, p1)" by (metis prod_cases3)
  note e = acquire_extends [OF assms(1) a]
  show ?thesis
  proof (cases ra)
    case None
    let ?shard = "[(name, the (shardByName s1 name))]"
    obtain r2 w2 where w2: "flush_all tp ?shard (put_all tp ms ?shard (pl_world p1)) = (r2, w2)" by fastforce
    have "out w2 = out (pl_world p1)" using flush_all_out [OF assms(1) w2] put_all_out [OF assms(1), of ms ?shard "pl_world p1"] by (rule trans)
    with assms(2) a None w2 e show ?thesis by (auto simp: send_acquired_def Let_def intro: extends_then)
  next
    case (Some x)
    with assms(2) a e show ?thesis by (auto simp: send_acquired_def)
  qed
qed

lemma receive_loop_out:
  assumes "receive_loop tp final name pid response w = Some y" and "checkout_contract env tp out"
  shows "out (snd y) = out w"
  using assms
proof (induction tp final name pid response w y rule: receive_loop.raw_induct [rotated, consumes 1, case_names step])
  case (step loop tp final name pid response w y)
  obtain rm w1 where w1: "tp_Receive tp name pid w = (rm, w1)" by fastforce
  show ?case
  proof (cases rm)
    case (Inl e)
    with step(2) w1 have "y = (Inl (ReceiveFailed name e), w1)" by simp
    with out_Receive [OF step(3) w1] show ?thesis by simp
  next
    case (Inr m)
    show ?thesis
    proof (cases "final m")
      case True
      with step(2) w1 Inr have "y = (Inr (response @ [cloneBackendMessage m]), w1)" by simp
      with out_Receive [OF step(3) w1] show ?thesis by simp
    next
      case False
      with step(2) w1 Inr have "loop tp final name pid (response @ [cloneBackendMessage m]) w1 = Some y" by simp
      from step(1) [OF this step(3)] out_Receive [OF step(3) w1] show ?thesis by simp
    qed
  qed
qed

lemma receive_many_out:
  assumes "checkout_contract env tp out"
  shows "receive_many tp final s names w = Some (r, w') \<Longrightarrow> out w' = out w"
proof (induction names arbitrary: w r w')
  case (Cons name names)
  show ?case
  proof (cases "shardByName s name")
    case (Some pid)
    with Cons.prems obtain r1 w1 where w1: "receive_loop tp final name pid [] w = Some (r1, w1)" by (auto split: option.splits)
    have "out w1 = out w" using receive_loop_out [OF w1 assms] by simp
    with Cons Some w1 show ?thesis by (cases r1) auto
  qed (use Cons.prems in auto)
qed simp

lemma receive_each_out:
  assumes "receive_each tp final handle name pid c w = Some y" and "checkout_contract env tp out"
  shows "out (snd (snd y)) = out w"
  using assms
proof (induction tp final handle name pid c w y rule: receive_each.raw_induct [rotated, consumes 1, case_names step])
  case (step loop tp final handle name pid c w y)
  obtain rm w1 where w1: "tp_Receive tp name pid w = (rm, w1)" by fastforce
  note out1 = out_Receive [OF step(3) w1]
  show ?case
  proof (cases rm)
    case (Inl e)
    with step(2) w1 have "y = (Some (ReceiveFailed name e), c, w1)" by simp
    with out1 show ?thesis by simp
  next
    case (Inr m)
    obtain h c1 where h: "handle m c = (h, c1)" by fastforce
    show ?thesis
    proof (cases "h = None \<and> \<not> final m")
      case True
      with step(2) w1 Inr h have "loop tp final handle name pid c1 w1 = Some y" by simp
      from step(1) [OF this step(3)] out1 show ?thesis by simp
    next
      case False
      with step(2) w1 Inr h have "y = (map_option HandlerFailed h, c1, w1)" by (cases h) simp_all
      with out1 show ?thesis by simp
    qed
  qed
qed


lemma reset_out:
  assumes "checkout_contract env tp out"
    and "resetSessionState status d (po_DeallocateAll env b pid) (po_Exec env b pid sql) w = (r, w')"
  shows "out w' = out w"
  using assms(2) by (auto simp: resetSessionState_def dest: out_Deallocate [OF assms(1)] out_Exec [OF assms(1)] split: if_splits prod.splits option.splits)

lemma destroy_out:
  assumes "checkout_contract env tp out"
  shows "out (pl_world (snd (destroy_connection env b pid p))) = out (pl_world p) - {(b, pid)}"
  using out_Destroy [OF assms] by (cases "po_Destroy env b pid (pl_world p)") (simp add: destroy_connection_def forget_connection_def)

lemma close_connection_out:
  assumes "checkout_contract env tp out"
  shows "out (pl_world (snd (close_connection env release d b pid p))) = out (pl_world p) - {(b, pid)}"
proof (cases release)
  case True
  obtain r w1 where w1: "resetSessionState (po_TxStatus env b pid (pl_world p)) d (po_DeallocateAll env b pid)
      (po_Exec env b pid (if d then ''DISCARD ALL'' else pooledSessionResetSQL)) (pl_world p) = (r, w1)" by fastforce
  note out1 = reset_out [OF assms w1]
  show ?thesis
  proof (cases r)
    case None
    with True w1 out1 show ?thesis by (simp add: close_connection_def Let_def out_Release [OF assms])
  next
    case (Some e)
    with True w1 out1 destroy_out [OF assms] show ?thesis by (simp add: close_connection_def)
  qed
next
  case False
  then show ?thesis by (simp add: close_connection_def destroy_out [OF assms])
qed

lemma close_connections_out:
  assumes "checkout_contract env tp out"
  shows "out (pl_world (snd (close_connections env cancelled d s release names p))) = out (pl_world p) - (\<lambda>b. (b, the (shardByName s b))) ` set names"
proof (induction names arbitrary: release p)
  case (Cons b names)
  let ?r = "release \<and> \<not> cancelled b"
  obtain ok p1 where p1: "close_connection env ?r d b (the (shardByName s b)) p = (ok, p1)" by fastforce
  have "out (pl_world p1) = out (pl_world p) - {(b, the (shardByName s b))}"
    using close_connection_out [OF assms, of ?r d b "the (shardByName s b)" p] p1 by simp
  moreover obtain ok' p2 where p2: "close_connections env cancelled d s ?r names p1 = (ok', p2)" by fastforce
  moreover note Cons.IH [of ?r p1]
  ultimately have "out (pl_world p2) = out (pl_world p) - (\<lambda>b. (b, the (shardByName s b))) ` set (b # names)" by auto
  with p1 p2 show ?case by (simp add: Let_def)
qed simp

lemma session_connections:
  assumes "session_wf env s"
  shows "(\<lambda>b. (b, the (shardByName s b))) ` set (ConnectedNames env s) = set (se_shards s)"
proof -
  have look: "shardByName s b = Some pid \<longleftrightarrow> (b, pid) \<in> set (se_shards s)" for b pid
    using assms by (auto simp: session_wf_def shardByName_def)
  have used: "b \<in> set (po_burrows env)" if "(b, pid) \<in> set (se_shards s)" for b pid using assms that by (force simp: session_wf_def)
  show ?thesis
  proof (intro equalityI subsetI)
    fix x assume x: "x \<in> set (se_shards s)"
    obtain b pid where bp: "x = (b, pid)" by (cases x)
    have shard: "shardByName s b = Some pid" using x look unfolding bp by blast
    have "b \<in> set (po_burrows env)" using x used unfolding bp by blast
    with shard have "b \<in> set (ConnectedNames env s)" by (simp add: ConnectedNames_def)
    thus "x \<in> (\<lambda>b. (b, the (shardByName s b))) ` set (ConnectedNames env s)" using shard by (auto simp: bp image_iff intro!: bexI [of _ b])
  next
    fix x assume "x \<in> (\<lambda>b. (b, the (shardByName s b))) ` set (ConnectedNames env s)"
    then obtain b pid where "x = (b, pid)" "shardByName s b = Some pid" by (auto simp: ConnectedNames_def)
    thus "x \<in> set (se_shards s)" using look by blast
  qed
qed

lemma Close_out:
  assumes "checkout_contract env tp out" and "session_wf env s"
  shows "out (pl_world (snd (Close env cancelled reusable d s p))) = out (pl_world p) - set (se_shards s)"
  by (simp add: Close_def close_connections_out [OF assms(1)] session_connections [OF assms(2)])

lemma queryShard_out:
  assumes "checkout_contract env tp out"
  shows "out (pl_world (snd (queryShard env tp sql name p))) = out (pl_world p)"
proof -
  obtain ra w1 where w1: "po_Acquire env name (pl_world p) = (ra, w1)" by fastforce
  show ?thesis
  proof (cases ra)
    case (Inl e)
    with w1 out_refused [OF assms] show ?thesis by (simp add: queryShard_def)
  next
    case (Inr pid)
    note fresh = out_acquired [OF assms w1 [unfolded Inr]]
    obtain r2 w2 m2 where w2: "applyRuntimeParams (po_setting env name pid) (po_set_config env name pid) (preparedConnectionKey name pid) [] w1 (pl_params p)
        = (r2, w2, m2)" by (metis prod_cases3)
    note out2 = applyRuntimeParams_out [OF assms w2]
    obtain r3 w3 where w3: "tp_Query tp name pid sql w2 = (r3, w3)" by fastforce
    note out3 = out_Query [OF assms w3]
    show ?thesis
    proof (cases r2)
      case None
      with w1 Inr w2 w3 fresh out2 out3 show ?thesis by (simp add: queryShard_def out_Release [OF assms])
    next
      case (Some e)
      with w1 Inr w2 fresh out2 show ?thesis by (simp add: queryShard_def discard_out [OF assms])
    qed
  qed
qed

lemma query_shards_out:
  assumes "checkout_contract env tp out"
  shows "out (pl_world (snd (query_shards env tp sql names p))) = out (pl_world p)"
proof (induction names arbitrary: p)
  case (Cons name names)
  obtain r p1 where p1: "queryShard env tp sql name p = (r, p1)" by fastforce
  obtain rs p2 where p2: "query_shards env tp sql names p1 = (rs, p2)" by fastforce
  have "out (pl_world p1) = out (pl_world p)" using queryShard_out [OF assms, of sql name p] p1 by simp
  with Cons [of p1] p1 p2 show ?case by simp
qed simp

lemma recorded_pools:
  "RecordQueryTargetsCategory now sql ok duration shards category f = Some f' \<Longrightarrow> fl_pools f' = fl_pools f"
  "fl_pools (record_outcome r f) = fl_pools f"
  by (auto simp: RecordQueryTargetsCategory_def record_outcome_def manager_RecordOperation_def)

lemma manager_QueryAll_out:
  assumes "checkout_contract env tp out" and "manager_QueryAll env tp now duration sql finished f = Some (r, f')"
  shows "out (pl_world (fl_pools f')) = out (pl_world (fl_pools f))"
proof -
  obtain outcomes p1 where p1: "query_shards env tp sql finished (fl_pools f) = (outcomes, p1)" by fastforce
  obtain r1 category where r1: "answer_all outcomes = (r1, category)" by fastforce
  have "fl_pools f' = p1"
    using assms(2) by (auto simp: manager_QueryAll_def p1 r1 recorded_pools(2) dest: recorded_pools(1))
  with query_shards_out [OF assms(1), of sql finished "fl_pools f"] p1 show ?thesis by simp
qed

lemma manager_QueryOne_out:
  assumes "checkout_contract env tp out" and "manager_QueryOne env tp now duration sql name f = Some (r, f')"
  shows "out (pl_world (fl_pools f')) = out (pl_world (fl_pools f))"
proof -
  obtain r1 p1 where p1: "queryShard env tp sql name (fl_pools f) = (r1, p1)" by fastforce
  have "fl_pools f' = p1 \<or> fl_pools f' = fl_pools f"
    using assms(2) by (cases "name \<in> set (po_burrows env)") (auto simp: manager_QueryOne_def p1 recorded_pools(2) dest: recorded_pools(1))
  moreover have "out (pl_world p1) = out (pl_world (fl_pools f))" using queryShard_out [OF assms(1), of sql name "fl_pools f"] p1 by simp
  ultimately show ?thesis by (elim disjE) simp_all
qed


text \<open>What the Proxy does with a session: acquiring connections, sending and receiving in every form.\<close>

inductive session_step :: "'s pool_env \<Rightarrow> 's transport \<Rightarrow> session \<Rightarrow> 's pools \<Rightarrow> session \<Rightarrow> 's pools \<Rightarrow> bool" for env tp where
  ensured: "acquire env name s p = (r, s', p') \<Longrightarrow> session_step env tp s p s' p'"
| sent_to: "SendTo env tp name message s p = (r, s', p') \<Longrightarrow> session_step env tp s p s' p'"
| batched: "SendBatchTo env tp name messages s p = (r, s', p') \<Longrightarrow> session_step env tp s p s' p'"
| broadcast: "session_Send env tp message s (pl_world p) = (r, w) \<Longrightarrow> session_step env tp s p s (p\<lparr>pl_world := w\<rparr>)"
| copied: "SendCopyTo tp names message s (pl_world p) = (r, w) \<Longrightarrow> session_step env tp s p s (p\<lparr>pl_world := w\<rparr>)"
| received: "receive_many tp final s names (pl_world p) = Some (r, w) \<Longrightarrow> session_step env tp s p s (p\<lparr>pl_world := w\<rparr>)"
| streamed: "ReceiveEachFrom tp final handle name s (c :: response) (pl_world p) = Some (r, c', w) \<Longrightarrow> session_step env tp s p s (p\<lparr>pl_world := w\<rparr>)"

text \<open>
  Sessions come and go while pooled queries run beside them.  Operations are taken one at a time: they work on connections of their
  own, and what they share is guarded by locks.
\<close>

inductive fleet_step :: "'s pool_env \<Rightarrow> 's transport \<Rightarrow> (nat \<rightharpoonup> session) \<times> 's fleet \<Rightarrow> (nat \<rightharpoonup> session) \<times> 's fleet \<Rightarrow> bool" for env tp where
  opened: "ss i = None \<Longrightarrow> fleet_step env tp (ss, f) (ss(i \<mapsto> NewSession ps replay), f)"
| used: "ss i = Some s \<Longrightarrow> session_step env tp s (fl_pools f) s' p' \<Longrightarrow> fleet_step env tp (ss, f) (ss(i \<mapsto> s'), f\<lparr>fl_pools := p'\<rparr>)"
| closed: "ss i = Some s \<Longrightarrow> Close env cancelled reusable d s (fl_pools f) = (ok, p') \<Longrightarrow> fleet_step env tp (ss, f) (ss(i := None), f\<lparr>fl_pools := p'\<rparr>)"
| queried_all: "manager_QueryAll env tp now duration sql finished f = Some (r, f') \<Longrightarrow> fleet_step env tp (ss, f) (ss, f')"
| queried_one: "manager_QueryOne env tp now duration sql name f = Some (r, f') \<Longrightarrow> fleet_step env tp (ss, f) (ss, f')"

lemma session_step_extends:
  assumes "checkout_contract env tp out" and "session_step env tp s p s' p'"
  shows "extends env out s (pl_world p) s' (pl_world p')"
  using assms(2)
proof cases
  case (ensured name r)
  then show ?thesis by (rule acquire_extends [OF assms(1)])
next
  case (sent_to name message r)
  then show ?thesis unfolding SendTo_def by (rule send_acquired_extends [OF assms(1)])
next
  case (batched name messages r)
  then show ?thesis unfolding SendBatchTo_def by (rule send_acquired_extends [OF assms(1)])
next
  case (broadcast message r w)
  have "out w = out (put_all tp [message, FFlush] (connectedShards env s) (pl_world p))"
    using broadcast(3) unfolding session_Send_def by (rule flush_all_out [OF assms(1)])
  also have "\<dots> = out (pl_world p)" by (rule put_all_out [OF assms(1)])
  finally show ?thesis using broadcast(1,2) by (simp add: extends_same)
next
  case (copied names message r w)
  have "out w = out (pl_world p)"
  proof (cases "named_shards s names")
    case (Inr shards)
    with copied(3) have "flush_all tp shards (put_all tp [message] shards (pl_world p)) = (r, w)" by (simp add: SendCopyTo_def)
    from flush_all_out [OF assms(1) this] put_all_out [OF assms(1)] show ?thesis by (rule trans)
  qed (use copied(3) in \<open>simp add: SendCopyTo_def\<close>)
  then show ?thesis using copied(1,2) by (simp add: extends_same)
next
  case (received final names r w)
  then show ?thesis using receive_many_out [OF assms(1) received(3)] by (simp add: extends_same)
next
  case (streamed final handle name c r c' w)
  have "out w = out (pl_world p)"
  proof (cases "shardByName s name")
    case (Some pid)
    with streamed(3) have "receive_each tp final handle name pid c (pl_world p) = Some (r, c', w)" by (simp add: ReceiveEachFrom_def)
    from receive_each_out [OF this assms(1)] show ?thesis by simp
  qed (use streamed(3) in \<open>simp add: ReceiveEachFrom_def\<close>)
  then show ?thesis using streamed(1,2) by (simp add: extends_same)
qed

definition held :: "(nat \<rightharpoonup> session) \<Rightarrow> nat \<Rightarrow> (string \<times> nat) set" where
  "held ss i = (case ss i of None \<Rightarrow> {} | Some s \<Rightarrow> set (se_shards s))"

definition fleet_ok :: "'s pool_env \<Rightarrow> ('s \<Rightarrow> (string \<times> nat) set) \<Rightarrow> (nat \<rightharpoonup> session) \<times> 's fleet \<Rightarrow> bool" where
  "fleet_ok env out x = (case x of (ss, f) \<Rightarrow> out (pl_world (fl_pools f)) = (\<Union>i. held ss i)
     \<and> (\<forall>i j. i \<noteq> j \<longrightarrow> held ss i \<inter> held ss j = {}) \<and> (\<forall>i s. ss i = Some s \<longrightarrow> session_wf env s))"

lemma held_upd: "held (ss(i \<mapsto> s)) = (held ss)(i := set (se_shards s))" "held (ss(i := None)) = (held ss)(i := {})"
  by (rule ext, simp add: held_def)+


lemma family_grow:
  assumes "\<forall>i j. i \<noteq> j \<longrightarrow> h i \<inter> h j = {}" and "new \<inter> (\<Union>i. h i) = {}"
  shows "(\<Union>j. (h(i := h i \<union> new)) j) = (\<Union>j. h j) \<union> new"
    and "\<forall>j k. j \<noteq> k \<longrightarrow> (h(i := h i \<union> new)) j \<inter> (h(i := h i \<union> new)) k = {}"
proof -
  show "(\<Union>j. (h(i := h i \<union> new)) j) = (\<Union>j. h j) \<union> new" by (auto split: if_splits)
  show "\<forall>j k. j \<noteq> k \<longrightarrow> (h(i := h i \<union> new)) j \<inter> (h(i := h i \<union> new)) k = {}" using assms by (simp add: Int_Un_distrib Int_Un_distrib2) blast
qed

lemma family_shrink:
  assumes "\<forall>i j. i \<noteq> j \<longrightarrow> h i \<inter> h j = {}"
  shows "(\<Union>j. (h(i := {})) j) = (\<Union>j. h j) - h i" and "\<forall>j k. j \<noteq> k \<longrightarrow> (h(i := {})) j \<inter> (h(i := {})) k = {}"
proof -
  show "(\<Union>j. (h(i := {})) j) = (\<Union>j. h j) - h i" using assms by (auto split: if_splits)
  show "\<forall>j k. j \<noteq> k \<longrightarrow> (h(i := {})) j \<inter> (h(i := {})) k = {}" using assms by simp
qed

lemma fleet_okD:
  assumes "fleet_ok env out (ss, f)"
  shows "out (pl_world (fl_pools f)) = (\<Union>i. held ss i)" and "\<forall>i j. i \<noteq> j \<longrightarrow> held ss i \<inter> held ss j = {}"
    and "ss i = Some s \<Longrightarrow> session_wf env s"
  using assms by (simp_all add: fleet_ok_def)

lemma fleet_okI:
  assumes "out (pl_world (fl_pools f)) = (\<Union>i. held ss i)" and "\<forall>i j. i \<noteq> j \<longrightarrow> held ss i \<inter> held ss j = {}"
    and "\<And>i s. ss i = Some s \<Longrightarrow> session_wf env s"
  shows "fleet_ok env out (ss, f)"
  using assms by (simp add: fleet_ok_def)

lemma fleet_ok_used:
  assumes "checkout_contract env tp out" and "fleet_ok env out (ss, f)" and "ss i = Some s" and "session_step env tp s (fl_pools f) s' p'"
  shows "fleet_ok env out (ss(i \<mapsto> s'), f\<lparr>fl_pools := p'\<rparr>)"
proof -
  note ok = fleet_okD [OF assms(2)]
  obtain new where new: "set (se_shards s') = set (se_shards s) \<union> new" "new \<inter> out (pl_world (fl_pools f)) = {}"
    "out (pl_world p') = out (pl_world (fl_pools f)) \<union> new" "session_wf env s \<longrightarrow> session_wf env s'"
    using session_step_extends [OF assms(1,4)] unfolding extends_def by blast
  have h: "held (ss(i \<mapsto> s')) = (held ss)(i := held ss i \<union> new)" using new(1) assms(3) by (simp add: held_upd held_def [of ss i])
  note grown = family_grow [OF ok(2) new(2) [unfolded ok(1)], of i, folded h]
  show ?thesis
  proof (rule fleet_okI)
    show "out (pl_world (fl_pools (f\<lparr>fl_pools := p'\<rparr>))) = (\<Union>j. held (ss(i \<mapsto> s')) j)" using grown(1) new(3) ok(1) by simp
    show "session_wf env t" if "(ss(i \<mapsto> s')) j = Some t" for j t using that ok(3) new(4) assms(3) by (auto split: if_splits)
  qed (rule grown(2))
qed

lemma fleet_ok_closed:
  assumes "checkout_contract env tp out" and "fleet_ok env out (ss, f)" and "ss i = Some s"
    and "Close env cancelled reusable d s (fl_pools f) = (ok, p')"
  shows "fleet_ok env out (ss(i := None), f\<lparr>fl_pools := p'\<rparr>)"
proof -
  note ok = fleet_okD [OF assms(2)]
  have out': "out (pl_world p') = out (pl_world (fl_pools f)) - set (se_shards s)"
    using Close_out [OF assms(1) ok(3) [OF assms(3)], of cancelled reusable d "fl_pools f"] assms(4) by simp
  have h: "held ss i = set (se_shards s)" using assms(3) by (simp add: held_def)
  note shrunk = family_shrink [OF ok(2), of i, folded held_upd(2)]
  show ?thesis
  proof (rule fleet_okI)
    show "out (pl_world (fl_pools (f\<lparr>fl_pools := p'\<rparr>))) = (\<Union>j. held (ss(i := None)) j)" using shrunk(1) out' ok(1) h by simp
    show "session_wf env t" if "(ss(i := None)) j = Some t" for j t using that ok(3) by (auto split: if_splits)
  qed (rule shrunk(2))
qed

lemma fleet_ok_opened:
  assumes "fleet_ok env out (ss, f)" and "ss i = None"
  shows "fleet_ok env out (ss(i \<mapsto> NewSession ps replay), f)"
proof -
  note ok = fleet_okD [OF assms(1)]
  have h: "held (ss(i \<mapsto> NewSession ps replay)) = held ss" using assms(2) by (intro ext) (simp add: held_def NewSession_def)
  have "session_wf env (NewSession ps replay)" by (simp add: session_wf_def NewSession_def)
  with ok show ?thesis by (intro fleet_okI) (auto simp: h split: if_splits)
qed

lemma fleet_ok_world: "fleet_ok env out (ss, f) \<Longrightarrow> out (pl_world (fl_pools f')) = out (pl_world (fl_pools f)) \<Longrightarrow> fleet_ok env out (ss, f')"
  by (simp add: fleet_ok_def)

lemma fleet_ok_step:
  assumes "checkout_contract env tp out" and "fleet_step env tp x y" and "fleet_ok env out x"
  shows "fleet_ok env out y"
  using assms(2,3)
proof cases
  case (queried_all now duration sql finished f r f' ss)
  with assms(3) show ?thesis using manager_QueryAll_out [OF assms(1)] by (simp add: fleet_ok_world)
next
  case (queried_one now duration sql name f r f' ss)
  with assms(3) show ?thesis using manager_QueryOne_out [OF assms(1)] by (simp add: fleet_ok_world)
qed (auto intro: fleet_ok_opened fleet_ok_used [OF assms(1)] fleet_ok_closed [OF assms(1)])


text \<open>C38. A pooled connection serves one session at a time and none is lost: whatever sessions open, send, receive and close and whatever pooled queries
  run, failing at any point, the connections checked out of the pools are those of the open sessions, and no two sessions share one.
\<close>

theorem connection_isolation:
  assumes "checkout_contract env tp out" and "out (pl_world (fl_pools f0)) = {}"
    and "(fleet_step env tp)\<^sup>*\<^sup>* (\<lambda>_. None, f0) (ss, f)"
  shows "out (pl_world (fl_pools f)) = (\<Union>i. held ss i) \<and> (\<forall>i j. i \<noteq> j \<longrightarrow> held ss i \<inter> held ss j = {})"
proof -
  have "fleet_ok env out (\<lambda>_. None, f0)" using assms(2) by (intro fleet_okI) (auto simp: held_def)
  with assms(3) have "fleet_ok env out (ss, f)"
    by (induction rule: rtranclp_induct) (auto intro: fleet_ok_step [OF assms(1)])
  from fleet_okD(1,2) [OF this] show ?thesis by blast
qed

text \<open>A pool that hands out processes in turn; the world is the list of the connections checked out.\<close>

definition counting_pool :: "(string \<times> nat) list pool_env" where
  "counting_pool = \<lparr>po_burrows = [''a''], po_Acquire = (\<lambda>b w. let pid = Suc (foldr max (map snd w) 0) in (Inr pid, (b, pid) # w)),
     po_statements = (\<lambda>b pid w. Inr []), po_setting = (\<lambda>b pid n w. Inr []), po_set_config = (\<lambda>b pid n v w. (None, w)),
     po_Exec = (\<lambda>b pid sql w. (None, w)), po_DeallocateAll = (\<lambda>b pid w. (None, w)), po_TxStatus = (\<lambda>b pid w. CHR ''I''),
     po_Release = (\<lambda>b pid w. removeAll (b, pid) w), po_Destroy = (\<lambda>b pid w. (None, removeAll (b, pid) w))\<rparr>"

definition silent_transport :: "'s transport" where
  "silent_transport = \<lparr>tp_Send = (\<lambda>b pid m w. w), tp_Flush = (\<lambda>b pid w. (None, w)), tp_Receive = (\<lambda>b pid w. (Inl [], w)),
     tp_Query = (\<lambda>b pid sql w. (Inl (OtherFailure []), w)), tp_cause = OtherFailure\<rparr>"

definition idle_fleet :: "(string \<times> nat) list fleet" where
  "idle_fleet = \<lparr>fl_pools = \<lparr>pl_world = [], pl_prepared = [], pl_params = []\<rparr>, fl_metrics = newCollector\<rparr>"

definition acquire_a :: "(string \<times> nat) list pools \<Rightarrow> session \<times> (string \<times> nat) list pools" where
  "acquire_a p = snd (acquire counting_pool ''a'' (NewSession [] []) p)"

lemma counting_contract: "checkout_contract counting_pool silent_transport set"
proof -
  have bound: "n \<le> foldr max ns 0" if "n \<in> set ns" for n and ns :: "nat list" using that by (induction ns) auto
  have fresh: "(b, Suc (foldr max (map snd w) 0)) \<notin> set w" for b and w :: "(string \<times> nat) list"
  proof
    assume "(b, Suc (foldr max (map snd w) 0)) \<in> set w"
    hence "Suc (foldr max (map snd w) 0) \<in> set (map snd w)" by force
    from bound [OF this] show False by simp
  qed
  show ?thesis by (auto simp: checkout_contract_def counting_pool_def silent_transport_def Let_def fresh)
qed

theorem connection_isolation_witness:
  "let (s0, p0) = acquire_a (fl_pools idle_fleet); (s1, p1) = acquire_a p0; ss = [0 \<mapsto> s0, 1 \<mapsto> s1] in
     pl_world p1 = [(''a'', 2), (''a'', 1)] \<and> held ss 0 = {(''a'', 1)} \<and> held ss 0 \<inter> held ss 1 = {}"
proof -
  let ?f0 = "idle_fleet"
  define a where "a = acquire_a (fl_pools ?f0)"
  define b where "b = acquire_a (snd a)"
  let ?f1 = "?f0\<lparr>fl_pools := snd a\<rparr>"
  let ?f2 = "?f1\<lparr>fl_pools := snd b\<rparr>"
  let ?step = "fleet_step counting_pool silent_transport"
  have acquired: "acquire counting_pool ''a'' (NewSession [] []) p = (fst (acquire counting_pool ''a'' (NewSession [] []) p), acquire_a p)" for p
    by (simp add: acquire_a_def)
  have first: "session_step counting_pool silent_transport (NewSession [] []) (fl_pools ?f0) (fst a) (snd a)"
    using acquired [of "fl_pools ?f0"] by (intro ensured) (simp add: a_def)
  have second: "session_step counting_pool silent_transport (NewSession [] []) (fl_pools ?f1) (fst b) (snd b)"
    using acquired [of "snd a"] by (intro ensured) (simp add: b_def)
  have s1: "?step (\<lambda>_. None, ?f0) ([0 \<mapsto> NewSession [] []], ?f0)" by (rule opened) simp
  have s2: "?step ([0 \<mapsto> NewSession [] []], ?f0) ([0 \<mapsto> fst a], ?f1)"
    using used [OF _ first, of "[0 \<mapsto> NewSession [] []]" 0] by simp
  have s3: "?step ([0 \<mapsto> fst a], ?f1) ([0 \<mapsto> fst a, 1 \<mapsto> NewSession [] []], ?f1)" by (rule opened) simp
  have s4: "?step ([0 \<mapsto> fst a, 1 \<mapsto> NewSession [] []], ?f1) ([0 \<mapsto> fst a, 1 \<mapsto> fst b], ?f2)"
    using used [OF _ second, of "[0 \<mapsto> fst a, 1 \<mapsto> NewSession [] []]" 1] by simp
  from s1 s2 s3 s4 have reach: "?step\<^sup>*\<^sup>* (\<lambda>_. None, ?f0) ([0 \<mapsto> fst a, 1 \<mapsto> fst b], ?f2)"
    by (meson converse_rtranclp_into_rtranclp r_into_rtranclp)
  have "set (pl_world (fl_pools ?f0)) = {}" by (simp add: idle_fleet_def)
  note iso = connection_isolation [OF counting_contract this reach]
  have w: "pl_world (snd b) = [(''a'', 2), (''a'', 1)]" "se_shards (fst a) = [(''a'', 1)]" unfolding a_def b_def by code_simp+
  from iso have "held [0 \<mapsto> fst a, 1 \<mapsto> fst b] 0 \<inter> held [0 \<mapsto> fst a, 1 \<mapsto> fst b] 1 = {}" by simp
  with w show ?thesis by (simp add: a_def [symmetric] b_def [symmetric] held_def Let_def split_beta)
qed


section \<open>Responses are read in step\<close>

text \<open>\<open>queue w x\<close> are the messages that have arrived on a connection and are not read yet.\<close>

definition queue_contract :: "'s transport \<Rightarrow> ('s \<Rightarrow> string \<times> nat \<Rightarrow> response) \<Rightarrow> bool" where
  "queue_contract tp queue = (\<forall>b pid w m ms. queue w (b, pid) = m # ms
     \<longrightarrow> (\<exists>w'. tp_Receive tp b pid w = (Inr m, w') \<and> queue w' = (queue w)((b, pid) := ms)))"

definition one_response :: "(backend_message \<Rightarrow> bool) \<Rightarrow> response \<Rightarrow> bool" where
  "one_response final r = (r \<noteq> [] \<and> final (last r) \<and> list_all (\<lambda>m. \<not> final m) (butlast r))"

lemma receive_loop_reads:
  assumes "queue_contract tp queue" and "final m"
  shows "list_all (\<lambda>m. \<not> final m) pre \<Longrightarrow> queue w (b, pid) = pre @ m # rest
    \<Longrightarrow> \<exists>w'. receive_loop tp final b pid response w = Some (Inr (response @ map cloneBackendMessage (pre @ [m])), w') \<and> queue w' = (queue w)((b, pid) := rest)"
proof (induction pre arbitrary: response w)
  case Nil
  obtain w1 where "tp_Receive tp b pid w = (Inr m, w1)" "queue w1 = (queue w)((b, pid) := rest)"
    using assms(1) Nil(2) unfolding queue_contract_def by (metis append_Nil)
  then show ?case using assms(2) by (subst receive_loop.simps) simp
next
  case (Cons x pre)
  obtain w1 where w1: "tp_Receive tp b pid w = (Inr x, w1)" "queue w1 = (queue w)((b, pid) := pre @ m # rest)"
    using assms(1) Cons(3) unfolding queue_contract_def by (metis append_Cons)
  have "list_all (\<lambda>m. \<not> final m) pre" "queue w1 (b, pid) = pre @ m # rest" using Cons(2) w1(2) by simp_all
  then obtain w2 where "receive_loop tp final b pid (response @ [cloneBackendMessage x]) w1
      = Some (Inr ((response @ [cloneBackendMessage x]) @ map cloneBackendMessage (pre @ [m])), w2)" "queue w2 = (queue w1)((b, pid) := rest)"
    using Cons.IH by blast
  with w1 Cons(2) show ?case by (subst receive_loop.simps) simp
qed

lemma receive_one:
  assumes "queue_contract tp queue" and "one_response final r" and "queue w (b, pid) = r @ rest"
  shows "\<exists>w'. receive_loop tp final b pid [] w = Some (Inr (map cloneBackendMessage r), w') \<and> queue w' = (queue w)((b, pid) := rest)"
proof -
  have r: "r = butlast r @ [last r]" using assms(2) by (simp add: one_response_def)
  hence "queue w (b, pid) = butlast r @ last r # rest" using assms(3) by (metis append.assoc append_Cons append_Nil)
  from receive_loop_reads [OF assms(1) _ _ this, of final "[]"] assms(2) r show ?thesis by (simp add: one_response_def)
qed

text \<open>
  When every participant has answered, one response of each is read, in the order asked for, and what has arrived behind it stays for the
  next exchange: reading ends, and no Burrow's messages are taken for those of another request.
\<close>

theorem responses_in_step:
  assumes "queue_contract tp queue" and "distinct names"
    and "\<And>n. n \<in> set names \<Longrightarrow> shardByName s n = Some (pid n) \<and> queue w (n, pid n) = answer n @ rest n \<and> one_response final (answer n)"
  shows "\<exists>w'. receive_many tp final s names w = Some (Inr (map (\<lambda>n. map cloneBackendMessage (answer n)) names), w')
    \<and> queue w' = (\<lambda>x. if x \<in> (\<lambda>n. (n, pid n)) ` set names then rest (fst x) else queue w x)"
  using assms(2,3)
proof (induction names arbitrary: w)
  case (Cons n names)
  have n: "shardByName s n = Some (pid n)" "queue w (n, pid n) = answer n @ rest n" "one_response final (answer n)" using Cons.prems(2) by simp_all
  obtain w1 where w1: "receive_loop tp final n (pid n) [] w = Some (Inr (map cloneBackendMessage (answer n)), w1)"
    "queue w1 = (queue w)((n, pid n) := rest n)" using receive_one [OF assms(1) n(3,2)] by blast
  have "shardByName s k = Some (pid k) \<and> queue w1 (k, pid k) = answer k @ rest k \<and> one_response final (answer k)" if "k \<in> set names" for k
    using Cons.prems that w1(2) by auto
  with Cons.IH [of w1] Cons.prems(1) obtain w2 where w2:
    "receive_many tp final s names w1 = Some (Inr (map (\<lambda>n. map cloneBackendMessage (answer n)) names), w2)"
    "queue w2 = (\<lambda>x. if x \<in> (\<lambda>n. (n, pid n)) ` set names then rest (fst x) else queue w1 x)" by auto
  have "queue w2 = (\<lambda>x. if x \<in> (\<lambda>n. (n, pid n)) ` set (n # names) then rest (fst x) else queue w x)"
    using w2(2) w1(2) by (auto simp: fun_eq_iff)
  with n(1) w1(1) w2(1) show ?case by simp
qed simp

section \<open>Pooled queries are counted once\<close>

text \<open>The Manager and the Proxy put an error of PostgreSQL into the same category, except connection errors (class 08), which only the Proxy tells apart.\<close>

lemma categories_agree:
  "classifyQueryError (PgFailure e) = classifyProxyError (PgFailure e) \<longleftrightarrow> \<not> (length (er_Code e) \<ge> 2 \<and> take 2 (er_Code e) = ''08'')"
  by (auto simp: classifyQueryError_def classifyProxyError_def postgresErrorCategory_def Let_def)

lemma Record_total:
  assumes "Record now q c = Some c'"
  shows "co_total c' = add_event (co_total c) q"
  using assms summaryLabel_rest [of "qe_SQL q" c] by (auto simp: Record_def Let_def split: prod.splits option.splits)

text \<open>One event for each pooled query, a failure just when the client gets an error.\<close>

lemma query_all_counted:
  assumes "manager_QueryAll env tp now duration sql finished f = Some (r, f')"
  shows "\<exists>q. co_total (fl_metrics f') = add_event (co_total (fl_metrics f)) q \<and> qe_Success q = (\<not> isl r) \<and> qe_Shards q = po_burrows env \<and> qe_SQL q = sql"
  using assms
  by (fastforce simp: manager_QueryAll_def RecordQueryTargetsCategory_def record_outcome_def manager_RecordOperation_def Collector_RecordOperation_def
    dest: Record_total split: prod.splits)

end
