(* ===== verification/Status_Service.thy ===== *)
theory Status_Service
  imports Backend_Manager Backend_Transport
begin

text \<open>
  \<^verbatim>\<open>internal/status/server.go\<close> and \<^verbatim>\<open>cmd/hamstergres-proxy/main.go\<close>: the snapshot of a running Proxy, the health check, the metrics document,
  the status command and the start of the process.  \<^verbatim>\<open>ShardStatuses\<close> of \<^verbatim>\<open>backend.go\<close> and the connection counters of
  \<^verbatim>\<open>proxy.Server\<close> belong here too.  HTTP, JSON and the HTML template are outside the model.
\<close>

section \<open>What is observed\<close>

text \<open>The health kept for each Burrow; the empty text stands for no error.\<close>

record shardHealth =
  sh_name :: string
  sh_checkedAt :: int
  sh_error :: string

record pool_stat =
  st_TotalConns :: int
  st_AcquiredConns :: int
  st_IdleConns :: int
  st_MaxConns :: int
  st_AcquireCount :: int
  st_EmptyAcquireCount :: int
  st_CanceledAcquireCount :: int
  st_AcquireSeconds :: rat

record ShardStatus =
  bs_Name :: string
  bs_Healthy :: bool
  bs_LastCheckedAt :: int
  bs_LastError :: string
  bs_Stat :: pool_stat

text \<open>\<open>ping\<close> is the outcome of \<^verbatim>\<open>pool.Ping\<close> on a Burrow, with the text of its error.\<close>

definition check_health :: "(string \<Rightarrow> string option) \<Rightarrow> (string \<Rightarrow> int) \<Rightarrow> shardHealth \<Rightarrow> shardHealth" where
  "check_health ping clock h = h\<lparr>sh_checkedAt := clock (sh_name h), sh_error := (case ping (sh_name h) of None \<Rightarrow> [] | Some e \<Rightarrow> e)\<rparr>"

definition shard_status :: "(string \<Rightarrow> pool_stat) \<Rightarrow> shardHealth \<Rightarrow> ShardStatus" where
  "shard_status stat h = \<lparr>bs_Name = sh_name h, bs_Healthy = (sh_error h = []), bs_LastCheckedAt = sh_checkedAt h, bs_LastError = sh_error h,
     bs_Stat = stat (sh_name h)\<rparr>"

definition ShardStatuses :: "(string \<Rightarrow> string option) \<Rightarrow> (string \<Rightarrow> int) \<Rightarrow> (string \<Rightarrow> pool_stat) \<Rightarrow> shardHealth list \<Rightarrow> ShardStatus list \<times> shardHealth list" where
  "ShardStatuses ping clock stat shards = (let checked = map (check_health ping clock) shards in (map (shard_status stat) checked, checked))"

text \<open>The counters of accepted and of open client connections.\<close>

record frontend =
  fe_Connections :: int
  fe_ActiveConnections :: int

inductive accept_step :: "frontend \<Rightarrow> frontend \<Rightarrow> bool" where
  accepted: "accept_step s (s\<lparr>fe_Connections := fe_Connections s + 1, fe_ActiveConnections := fe_ActiveConnections s + 1\<rparr>)"
| ended: "fe_ActiveConnections s > 0 \<Longrightarrow> accept_step s (s\<lparr>fe_ActiveConnections := fe_ActiveConnections s - 1\<rparr>)"

record status_snapshot =
  sp_UptimeSeconds :: int
  sp_Queries :: Statistics
  sp_QueryMetrics :: StatisticsSnapshot
  sp_Frontend :: frontend
  sp_Burrows :: "ShardStatus list"
  sp_Sharding :: ShardingInventory

text \<open>\<open>started\<close> and \<open>now\<close> in nanoseconds; the Manager is asked for its metrics, its Burrows and its inventory.\<close>

definition collect_snapshot :: "int \<Rightarrow> int \<Rightarrow> StatisticsSnapshot \<Rightarrow> frontend \<Rightarrow> ShardStatus list \<Rightarrow> manager \<Rightarrow> status_snapshot" where
  "collect_snapshot started now metrics fe burrows m = \<lparr>sp_UptimeSeconds = (now - started) div 1000000000, sp_Queries = sn_Total metrics,
     sp_QueryMetrics = metrics, sp_Frontend = fe, sp_Burrows = burrows, sp_Sharding = manager_inventory m\<rparr>"

section \<open>Endpoints\<close>

datatype endpoint = StatusPage | StatusJSON | Health | Metrics | ProfileIndex | Profile string | NotFound | RedirectTo string

text \<open>\<^verbatim>\<open>http.ServeMux\<close> on a clean path: exact patterns first, then the longest subtree; the root of a subtree redirects to it.\<close>

definition status_endpoint :: "bool \<Rightarrow> string \<Rightarrow> endpoint" where
  "status_endpoint profiling path =
     (if path = ''/api/v1/status'' then StatusJSON else if path = ''/healthz'' then Health else if path = ''/metrics'' then Metrics
      else if path = ''/debug/pprof'' then RedirectTo ''/debug/pprof/''
      else if has_prefix path ''/debug/pprof/''
      then (if \<not> profiling then NotFound
            else let name = drop 13 path in if name \<in> set [''cmdline'', ''profile'', ''symbol'', ''trace''] then Profile name else ProfileIndex)
      else StatusPage)"

definition handleHealth :: "ShardStatus list \<Rightarrow> nat \<times> string" where
  "handleHealth burrows = (if list_ex (\<lambda>b. \<not> bs_Healthy b) burrows then (503, ''a Burrow is unhealthy'' @ [LF]) else (200, ''ok'' @ [LF]))"

text \<open>Metrics: the helper \<^verbatim>\<open>metric\<close>, a label, and a sample.  \<open>fg\<close> prints a float64 with \<^verbatim>\<open>%g\<close>.\<close>

definition metric :: "string \<Rightarrow> string \<Rightarrow> string \<Rightarrow> string" where
  "metric name kind help = ''# HELP '' @ name @ '' '' @ help @ [LF] @ ''# TYPE '' @ name @ '' '' @ kind @ [LF]"

definition label_quoted :: "string \<Rightarrow> string \<Rightarrow> string" where
  "label_quoted key v = key @ ''='' @ go_quote v"

definition sample :: "string \<Rightarrow> string list \<Rightarrow> string \<Rightarrow> string" where
  "sample name labels v = name @ (if labels = [] then [] else ''{'' @ join_with '','' labels @ ''}'') @ '' '' @ v @ [LF]"

definition flag :: "bool \<Rightarrow> string" where
  "flag b = (if b then ''1'' else ''0'')"

definition proxy_metrics :: "status_snapshot \<Rightarrow> string" where
  "proxy_metrics s = (let q = sp_Queries s in
     metric ''hamstergres_proxy_uptime_seconds'' ''gauge'' ''Seconds since the Proxy started.''
     @ sample ''hamstergres_proxy_uptime_seconds'' [] (show_int (sp_UptimeSeconds s))
     @ metric ''hamstergres_proxy_frontend_connections'' ''gauge'' ''Frontend connections by state.''
     @ sample ''hamstergres_proxy_frontend_connections'' [label_quoted ''state'' ''active''] (show_int (fe_ActiveConnections (sp_Frontend s)))
     @ sample ''hamstergres_proxy_frontend_connections'' [label_quoted ''state'' ''total''] (show_int (fe_Connections (sp_Frontend s)))
     @ metric ''hamstergres_proxy_queries_total'' ''counter'' ''Client queries by outcome and routing decision.''
     @ sample ''hamstergres_proxy_queries_total'' [label_quoted ''outcome'' ''success''] (show_int (sa_Queries q - sa_FailedQueries q))
     @ sample ''hamstergres_proxy_queries_total'' [label_quoted ''outcome'' ''failure''] (show_int (sa_FailedQueries q))
     @ metric ''hamstergres_proxy_query_routes_total'' ''counter'' ''Client query routing decisions.''
     @ sample ''hamstergres_proxy_query_routes_total'' [label_quoted ''route'' ''single_burrow''] (show_int (sa_SingleShardQueries q))
     @ sample ''hamstergres_proxy_query_routes_total'' [label_quoted ''route'' ''scatter''] (show_int (sa_ScatteredQueries q)))"

definition query_metrics :: "(rat \<Rightarrow> string) \<Rightarrow> StatisticsSnapshot \<Rightarrow> string" where
  "query_metrics fg m = (let h = sn_Latency m in
     metric ''hamstergres_proxy_query_failures_total'' ''counter'' ''Failed client queries by stable error category.''
     @ concat (map (\<lambda>(category, n). sample ''hamstergres_proxy_query_failures_total'' [label_quoted ''category'' category] (show_int n)) (sn_Failures m))
     @ metric ''hamstergres_proxy_query_duration_seconds'' ''histogram'' ''Client query latency in seconds.''
     @ concat (map (\<lambda>b. sample ''hamstergres_proxy_query_duration_seconds_bucket'' [label_quoted ''le'' (fg (bk_UpperBound b))] (show_int (bk_Count b))) (hi_Buckets h))
     @ sample ''hamstergres_proxy_query_duration_seconds_bucket'' [label_quoted ''le'' ''+Inf''] (show_int (hi_Count h))
     @ sample ''hamstergres_proxy_query_duration_seconds_sum'' [] (fg (hi_Sum h))
     @ sample ''hamstergres_proxy_query_duration_seconds_count'' [] (show_int (hi_Count h))
     @ metric ''hamstergres_proxy_burrow_executions_total'' ''counter'' ''Query executions sent through Tunnels to each Burrow.''
     @ concat (map (\<lambda>i. sample ''hamstergres_proxy_burrow_executions_total'' [label_quoted ''burrow'' (sc_Name i)] (show_int (sc_Queries i))) (sn_ShardExecutions m))
     @ metric ''hamstergres_proxy_operations_total'' ''counter'' ''Operational events by stable operation and outcome.''
     @ concat (map (\<lambda>((operation, outcome), n). sample ''hamstergres_proxy_operations_total''
         [label_quoted ''operation'' operation, label_quoted ''outcome'' outcome] (show_int n)) (sn_Operations m)))"

definition sharding_metrics :: "ShardingInventory \<Rightarrow> string" where
  "sharding_metrics i =
     metric ''hamstergres_proxy_burrow_up'' ''gauge'' ''Whether the latest Burrow health check succeeded.''
     @ metric ''hamstergres_proxy_schema_revision'' ''gauge'' ''Schema revision applied by this Proxy.''
     @ sample ''hamstergres_proxy_schema_revision'' [] (show_nat (unat (si_SchemaRevision i)))
     @ metric ''hamstergres_proxy_topology_revision'' ''gauge'' ''Topology revision applied by this Proxy.''
     @ sample ''hamstergres_proxy_topology_revision'' [] (show_nat (unat (si_TopologyRevision i)))
     @ metric ''hamstergres_proxy_table_sharded'' ''gauge'' ''Whether a table is sharded according to the cached Hamstergres Nest inventory.''
     @ concat (map (\<lambda>t. sample ''hamstergres_proxy_table_sharded'' [label_quoted ''table'' (ti_Table t)] (flag (ti_Sharded t))) (si_Tables i))"

definition burrow_metrics :: "(rat \<Rightarrow> string) \<Rightarrow> ShardStatus \<Rightarrow> string" where
  "burrow_metrics fg b = (let burrow = label_quoted ''burrow'' (bs_Name b); st = bs_Stat b in
     sample ''hamstergres_proxy_burrow_up'' [burrow] (flag (bs_Healthy b))
     @ sample ''hamstergres_proxy_backend_pool_connections'' [burrow, label_quoted ''state'' ''capacity''] (show_int (st_MaxConns st))
     @ sample ''hamstergres_proxy_backend_pool_connections'' [burrow, label_quoted ''state'' ''in_use''] (show_int (st_AcquiredConns st))
     @ sample ''hamstergres_proxy_backend_pool_connections'' [burrow, label_quoted ''state'' ''idle''] (show_int (st_IdleConns st))
     @ sample ''hamstergres_proxy_backend_pool_acquire_total'' [burrow, label_quoted ''outcome'' ''success''] (show_int (st_AcquireCount st))
     @ sample ''hamstergres_proxy_backend_pool_acquire_total'' [burrow, label_quoted ''outcome'' ''canceled''] (show_int (st_CanceledAcquireCount st))
     @ sample ''hamstergres_proxy_backend_pool_wait_total'' [burrow] (show_int (st_EmptyAcquireCount st))
     @ sample ''hamstergres_proxy_backend_pool_acquire_duration_seconds_total'' [burrow] (fg (st_AcquireSeconds st)))"

definition pool_metrics :: "(rat \<Rightarrow> string) \<Rightarrow> ShardStatus list \<Rightarrow> string" where
  "pool_metrics fg burrows =
     metric ''hamstergres_proxy_backend_pool_connections'' ''gauge'' ''Backend pool connections by Burrow and state.''
     @ metric ''hamstergres_proxy_backend_pool_acquire_total'' ''counter'' ''Backend pool acquisition attempts by Burrow and outcome.''
     @ metric ''hamstergres_proxy_backend_pool_wait_total'' ''counter'' ''Backend pool acquisitions that had to wait for capacity.''
     @ metric ''hamstergres_proxy_backend_pool_acquire_duration_seconds_total'' ''counter'' ''Total time spent acquiring backend connections.''
     @ concat (map (burrow_metrics fg) burrows)"

definition handleMetrics :: "(rat \<Rightarrow> string) \<Rightarrow> status_snapshot \<Rightarrow> string" where
  "handleMetrics fg s = proxy_metrics s @ query_metrics fg (sp_QueryMetrics s) @ sharding_metrics (sp_Sharding s)
     @ pool_metrics fg (sp_Burrows s) @ ''# EOF'' @ [LF]"


section \<open>Reading the metrics back\<close>

text \<open>A reader of the text format: lines, quoted label values with their escapes, samples.\<close>

fun split_lines :: "string \<Rightarrow> string \<Rightarrow> string list" where
  "split_lines acc [] = (if acc = [] then [] else [acc])"
| "split_lines acc (c # s) = (if c = LF then acc # split_lines [] s else split_lines (acc @ [c]) s)"

definition hex_value :: "char \<Rightarrow> nat" where
  "hex_value c = (if is_digit c then byte_val c - 48 else byte_val c - 87)"

definition unescape :: "char \<Rightarrow> char" where
  "unescape e = (if e = CHR ''a'' then CHR 0x07 else if e = CHR ''b'' then CHR 0x08 else if e = CHR ''t'' then CHR 0x09 else if e = CHR ''n'' then CHR 0x0A
     else if e = CHR ''v'' then CHR 0x0B else if e = CHR ''f'' then CHR 0x0C else if e = CHR ''r'' then CHR 0x0D else e)"

definition cons_fst :: "char \<Rightarrow> (string \<times> string) option \<Rightarrow> (string \<times> string) option" where
  "cons_fst c = map_option (\<lambda>(v, r). (c # v, r))"

fun unquote :: "string \<Rightarrow> (string \<times> string) option" where
  "unquote [] = None"
| "unquote (c # s) = (if c = CHR 0x22 then Some ([], s)
     else if c = CHR 0x5C then (case s of [] \<Rightarrow> None
       | e # t \<Rightarrow> if e = CHR ''x'' then (case t of h # l # u \<Rightarrow> cons_fst (char_of (16 * hex_value h + hex_value l)) (unquote u) | _ \<Rightarrow> None)
           else cons_fst (unescape e) (unquote t))
     else cons_fst c (unquote s))"

lemma cons_fst_Some: "cons_fst c x = Some (v, r) \<longleftrightarrow> (\<exists>v'. x = Some (v', r) \<and> v = c # v')"
  by (cases x) (auto simp: cons_fst_def)

lemma unquote_shorter: "unquote s = Some (v, r) \<Longrightarrow> length r < length s"
proof (induction s arbitrary: v r rule: length_induct)
  case (1 s)
  have IH: "length r < length t" if "unquote t = Some (v', r)" "length t < length s" for t v' using 1 that by blast
  show ?case
  proof (cases s)
    case (Cons c t)
    consider (close) "c = CHR 0x22" | (esc) "c = CHR 0x5C" | (plain) "c \<noteq> CHR 0x22" "c \<noteq> CHR 0x5C" by blast
    then show ?thesis
    proof cases
      case close
      with "1.prems" Cons show ?thesis by simp
    next
      case plain
      with "1.prems" Cons obtain v' where "unquote t = Some (v', r)" by (auto simp: cons_fst_Some)
      from IH [OF this] Cons show ?thesis by simp
    next
      case esc
      with "1.prems" Cons obtain e u where t: "t = e # u" by (cases t) simp_all
      show ?thesis
      proof (cases "e = CHR ''x''")
        case True
        with "1.prems" Cons esc t obtain h l x where u: "u = h # l # x" by (auto split: list.splits)
        with "1.prems" Cons esc t True obtain v' where "unquote x = Some (v', r)" by (auto simp: cons_fst_Some)
        from IH [OF this] Cons t u show ?thesis by simp
      next
        case False
        with "1.prems" Cons esc t obtain v' where "unquote u = Some (v', r)" by (auto simp: cons_fst_Some)
        from IH [OF this] Cons t show ?thesis by simp
      qed
    qed
  qed (use "1.prems" in simp)
qed

function read_labels :: "string \<Rightarrow> ((string \<times> string) list \<times> string) option" where
  "read_labels s = (case dropWhile (\<lambda>c. c \<noteq> CHR ''='') s of _ # q # body \<Rightarrow>
       (if q \<noteq> CHR 0x22 then None
        else (case unquote body of Some (v, c # rest) \<Rightarrow>
          (let l = (takeWhile (\<lambda>c. c \<noteq> CHR ''='') s, v) in
           if c = CHR ''}'' then Some ([l], rest)
           else if c = CHR '','' then map_option (\<lambda>(ls, r). (l # ls, r)) (read_labels rest) else None)
        | _ \<Rightarrow> None))
     | _ \<Rightarrow> None)"
  by pat_completeness auto
termination
proof (relation "measure length", goal_cases)
  case (2 s e t q body c v y rest)
  have "length (e # q # body) \<le> length s" using length_dropWhile_le [of "\<lambda>c. c \<noteq> CHR ''=''" s] 2 by simp
  with unquote_shorter [of body] 2 show ?case by fastforce
qed simp

definition read_sample :: "string \<Rightarrow> (string \<times> (string \<times> string) list \<times> string) option" where
  "read_sample line = (let p = (\<lambda>c. c \<notin> set ''{ ''); name = takeWhile p line in
     case dropWhile p line of [] \<Rightarrow> None
     | c # rest \<Rightarrow> if c = CHR '' '' then Some (name, [], rest)
         else (case read_labels rest of Some (ls, d # v) \<Rightarrow> if d = CHR '' '' then Some (name, ls, v) else None | _ \<Rightarrow> None))"

fun read_samples :: "string list \<Rightarrow> (string \<times> (string \<times> string) list \<times> string) list option" where
  "read_samples [] = Some []"
| "read_samples (line # lines) = (if has_prefix line ''#'' then read_samples lines
     else (case read_sample line of None \<Rightarrow> None | Some x \<Rightarrow> map_option (\<lambda>xs. x # xs) (read_samples lines)))"

definition read_metrics :: "string \<Rightarrow> (string \<times> (string \<times> string) list \<times> string) list option" where
  "read_metrics doc = read_samples (split_lines [] doc)"

lemma split_lines_line: "LF \<notin> set l \<Longrightarrow> split_lines acc (l @ LF # s) = (acc @ l) # split_lines [] s"
  by (induction l arbitrary: acc) auto

lemma hex_value_digit: "n < 16 \<Longrightarrow> hex_value (Proxy_Prepare.hex_digit n) = n"
  by (cases "n < 10") (simp_all add: hex_value_def Proxy_Prepare.hex_digit_def digit_char_def is_digit_def)

text \<open>What \<^verbatim>\<open>%q\<close> writes is read as the same bytes.\<close>

lemma quoted_bytes:
  "byte_val c = 34 \<longleftrightarrow> c = CHR 0x22" "byte_val c = 92 \<longleftrightarrow> c = CHR 0x5C" "byte_val c = 7 \<longleftrightarrow> c = CHR 0x07" "byte_val c = 8 \<longleftrightarrow> c = CHR 0x08"
  "byte_val c = 9 \<longleftrightarrow> c = CHR 0x09" "byte_val c = 10 \<longleftrightarrow> c = CHR 0x0A" "byte_val c = 11 \<longleftrightarrow> c = CHR 0x0B" "byte_val c = 12 \<longleftrightarrow> c = CHR 0x0C"
  "byte_val c = 13 \<longleftrightarrow> c = CHR 0x0D"
  using of_char_eq_iff [of c "CHR 0x22", where ?'a = nat] of_char_eq_iff [of c "CHR 0x5C", where ?'a = nat] of_char_eq_iff [of c "CHR 0x07", where ?'a = nat]
    of_char_eq_iff [of c "CHR 0x08", where ?'a = nat] of_char_eq_iff [of c "CHR 0x09", where ?'a = nat] of_char_eq_iff [of c "CHR 0x0A", where ?'a = nat]
    of_char_eq_iff [of c "CHR 0x0B", where ?'a = nat] of_char_eq_iff [of c "CHR 0x0C", where ?'a = nat] of_char_eq_iff [of c "CHR 0x0D", where ?'a = nat]
  by simp_all

lemma unquote_char: "unquote (quote_char c @ s) = cons_fst c (unquote s)"
proof -
  let ?b = "byte_val c"
  have less: "?b < 256" by (rule byte_val_less)
  consider (same) "?b = 34 \<or> ?b = 92" | (letter) "?b \<in> {7 .. 13}" | (hex) "?b < 32 \<or> ?b = 127" "?b \<notin> {7 .. 13}"
    | (plain) "?b \<ge> 32" "?b \<noteq> 127" "?b \<noteq> 34" "?b \<noteq> 92" by fastforce
  then show ?thesis
  proof cases
    case same
    then show ?thesis unfolding quoted_bytes by (elim disjE) (simp_all add: quote_char_def unescape_def)
  next
    case letter
    hence "?b = 7 \<or> ?b = 8 \<or> ?b = 9 \<or> ?b = 10 \<or> ?b = 11 \<or> ?b = 12 \<or> ?b = 13" by auto
    then show ?thesis unfolding quoted_bytes by (elim disjE) (simp_all add: quote_char_def unescape_def)
  next
    case hex
    have digits: "hex_value (Proxy_Prepare.hex_digit (?b div 16)) = ?b div 16" "hex_value (Proxy_Prepare.hex_digit (?b mod 16)) = ?b mod 16"
      using less by (intro hex_value_digit; linarith)+
    have whole: "char_of (16 * (?b div 16) + ?b mod 16) = c" by simp
    have q: "quote_char c = [CHR 0x5C, CHR ''x'', Proxy_Prepare.hex_digit (?b div 16), Proxy_Prepare.hex_digit (?b mod 16)]"
      using hex by (auto simp: quote_char_def Let_def)
    show ?thesis unfolding q by (simp add: digits whole del: mult_div_mod_eq)
  next
    case plain
    hence "c \<noteq> CHR 0x22" "c \<noteq> CHR 0x5C" by auto
    with plain show ?thesis by (auto simp: quote_char_def Let_def)
  qed
qed


lemma unquote_quoted: "unquote (concat (map quote_char v) @ CHR 0x22 # rest) = Some (v, rest)"
  by (induction v) (simp_all add: unquote_char cons_fst_def)

lemma quote_char_no_LF: "LF \<notin> set (quote_char c)"
proof -
  have digits: "Proxy_Prepare.hex_digit n \<noteq> LF" if "n < 16" for n
  proof -
    have "byte_val (Proxy_Prepare.hex_digit n) \<noteq> byte_val LF" using that by (simp add: Proxy_Prepare.hex_digit_def digit_char_def)
    thus ?thesis by metis
  qed
  have "byte_val c div 16 < 16" using byte_val_less [of c] by linarith
  moreover have "byte_val c \<noteq> 10 \<Longrightarrow> c \<noteq> LF" by auto
  ultimately show ?thesis using digits [of "byte_val c div 16"] digits [of "byte_val c mod 16"] by (auto simp: quote_char_def Let_def)
qed

lemma go_quote_no_LF: "LF \<notin> set (go_quote v)"
  using quote_char_no_LF by (auto simp: go_quote_def)

definition label_texts :: "(string \<times> string) list \<Rightarrow> string list" where
  "label_texts ls = map (\<lambda>(k, v). label_quoted k v) ls"

definition key_ok :: "string \<Rightarrow> bool" where
  "key_ok k = (list_all (\<lambda>c. c \<noteq> CHR ''='' \<and> c \<noteq> LF) k)"

lemma read_labels_texts:
  assumes "list_all (\<lambda>(k, v). key_ok k) ls" and "ls \<noteq> []"
  shows "read_labels (join_with '','' (label_texts ls) @ CHR ''}'' # rest) = Some (ls, rest)"
  using assms
proof (induction ls)
  case (Cons l ls)
  note IH = Cons.IH and prems = Cons.prems
  obtain k v where l: "l = (k, v)" by (cases l)
  have k: "\<forall>c \<in> set k. c \<noteq> CHR ''=''" using Cons.prems l by (auto simp: key_ok_def list_all_iff)
  have shape: "label_quoted k v @ t = k @ CHR ''='' # CHR 0x22 # concat (map quote_char v) @ CHR 0x22 # t" for t
    by (simp add: label_quoted_def go_quote_def)
  have parts: "takeWhile (\<lambda>c. c \<noteq> CHR ''='') (k @ CHR ''='' # t) = k" "dropWhile (\<lambda>c. c \<noteq> CHR ''='') (k @ CHR ''='' # t) = CHR ''='' # t" for t
    using k by (simp_all add: takeWhile_append2 dropWhile_append2)
  show ?case
  proof (cases ls)
    case Nil
    then show ?thesis unfolding l by (subst read_labels.simps) (simp add: label_texts_def shape parts unquote_quoted)
  next
    case (Cons l' ls')
    hence "join_with '','' (label_texts (l # ls)) @ CHR ''}'' # rest = label_quoted k v @ CHR '','' # join_with '','' (label_texts ls) @ CHR ''}'' # rest"
      by (simp add: l label_texts_def)
    moreover have "read_labels (join_with '','' (label_texts ls) @ CHR ''}'' # rest) = Some (ls, rest)"
      using IH prems Cons by simp
    ultimately show ?thesis unfolding l by (subst read_labels.simps) (simp add: shape parts unquote_quoted)
  qed
qed simp


text \<open>The document as a list: declarations of metrics, and observations with their labels.\<close>

datatype metric_item = Declare string string string | Observe string "(string \<times> string) list" string

fun render :: "metric_item \<Rightarrow> string" where
  "render (Declare name kind help) = metric name kind help"
| "render (Observe name ls v) = sample name (label_texts ls) v"

fun observed :: "metric_item \<Rightarrow> (string \<times> (string \<times> string) list \<times> string) list" where
  "observed (Declare name kind help) = []"
| "observed (Observe name ls v) = [(name, ls, v)]"

definition name_ok :: "string \<Rightarrow> bool" where
  "name_ok n = (n \<noteq> [] \<and> hd n \<noteq> CHR ''#'' \<and> list_all (\<lambda>c. c \<noteq> CHR ''{'' \<and> c \<noteq> CHR '' '' \<and> c \<noteq> LF) n)"

fun item_ok :: "metric_item \<Rightarrow> bool" where
  "item_ok (Declare name kind help) = (LF \<notin> set name \<and> LF \<notin> set kind \<and> LF \<notin> set help)"
| "item_ok (Observe name ls v) = (name_ok name \<and> list_all (\<lambda>(k, v). key_ok k) ls \<and> LF \<notin> set v)"

definition sample_line :: "string \<Rightarrow> (string \<times> string) list \<Rightarrow> string \<Rightarrow> string" where
  "sample_line name ls v = name @ (if ls = [] then [] else ''{'' @ join_with '','' (label_texts ls) @ ''}'') @ '' '' @ v"

lemma label_texts_no_LF: "list_all (\<lambda>(k, v). key_ok k) ls \<Longrightarrow> LF \<notin> set (join_with '','' (label_texts ls))"
proof (induction ls)
  case (Cons l ls)
  obtain k v where l: "l = (k, v)" by (cases l)
  have "LF \<notin> set (label_quoted k v)" using Cons.prems go_quote_no_LF [of v] by (auto simp: l label_quoted_def key_ok_def list_all_iff)
  with Cons show ?case by (cases ls) (auto simp: l label_texts_def)
qed (simp add: label_texts_def)

lemma read_sample_line:
  assumes "name_ok name" and "list_all (\<lambda>(k, v). key_ok k) ls"
  shows "read_sample (sample_line name ls v) = Some (name, ls, v)"
proof -
  have n: "\<forall>c \<in> set name. c \<notin> set ''{ ''" using assms(1) by (auto simp: name_ok_def list_all_iff)
  show ?thesis
  proof (cases ls)
    case Nil
    with n show ?thesis by (simp add: read_sample_def sample_line_def takeWhile_append2 dropWhile_append2)
  next
    case (Cons l ls')
    hence "sample_line name ls v = name @ CHR ''{'' # join_with '','' (label_texts ls) @ CHR ''}'' # CHR '' '' # v" by (simp add: sample_line_def)
    moreover have "read_labels (join_with '','' (label_texts ls) @ CHR ''}'' # CHR '' '' # v) = Some (ls, CHR '' '' # v)"
      using Cons by (intro read_labels_texts [OF assms(2)]) simp
    ultimately show ?thesis using n by (simp add: read_sample_def takeWhile_append2 dropWhile_append2)
  qed
qed

lemma read_rendered:
  assumes "item_ok i"
  shows "read_samples (split_lines [] (render i @ s)) = map_option (\<lambda>xs. observed i @ xs) (read_samples (split_lines [] s))"
proof (cases i)
  case (Declare name kind hlp)
  have lines: "split_lines [] (render i @ s) = (''# HELP '' @ name @ '' '' @ hlp) # (''# TYPE '' @ name @ '' '' @ kind) # split_lines [] s"
    using assms split_lines_line [of "''# HELP '' @ name @ '' '' @ hlp" "[]" "''# TYPE '' @ name @ '' '' @ kind @ LF # s"]
      split_lines_line [of "''# TYPE '' @ name @ '' '' @ kind" "[]" s] by (simp add: Declare metric_def)
  show ?thesis unfolding lines by (simp add: Declare has_prefix_def option.map_ident)
next
  case (Observe name ls v)
  have ok: "name_ok name" "list_all (\<lambda>(k, v). key_ok k) ls" "LF \<notin> set v" using assms by (simp_all add: Observe)
  have "LF \<notin> set (sample_line name ls v)" using ok label_texts_no_LF [OF ok(2)] by (auto simp: sample_line_def name_ok_def list_all_iff)
  from split_lines_line [OF this, of "[]" s]
  have lines: "split_lines [] (render i @ s) = sample_line name ls v # split_lines [] s"
    by (auto simp: Observe sample_def sample_line_def label_texts_def)
  have "\<not> has_prefix (sample_line name ls v) ''#''"
    using ok(1) by (cases name) (auto simp: sample_line_def name_ok_def has_prefix_def)
  with read_sample_line [OF ok(1,2)] show ?thesis unfolding lines by (simp add: Observe comp_def)
qed

lemma read_document:
  assumes "list_all item_ok items"
  shows "read_metrics (concat (map render items) @ ''# EOF'' @ [LF]) = Some (concat (map observed items))"
proof -
  have "read_samples (split_lines [] (concat (map render items) @ ''# EOF'' @ [LF])) = Some (concat (map observed items))"
    using assms
  proof (induction items)
    case Nil
    show ?case by (simp add: has_prefix_def)
  next
    case (Cons i items)
    then show ?case using read_rendered [of i "concat (map render items) @ ''# EOF'' @ [LF]"] by simp
  qed
  thus ?thesis by (simp add: read_metrics_def)
qed


definition proxy_items :: "status_snapshot \<Rightarrow> metric_item list" where
  "proxy_items s = (let q = sp_Queries s in
     [Declare ''hamstergres_proxy_uptime_seconds'' ''gauge'' ''Seconds since the Proxy started.'',
      Observe ''hamstergres_proxy_uptime_seconds'' [] (show_int (sp_UptimeSeconds s)),
      Declare ''hamstergres_proxy_frontend_connections'' ''gauge'' ''Frontend connections by state.'',
      Observe ''hamstergres_proxy_frontend_connections'' [(''state'', ''active'')] (show_int (fe_ActiveConnections (sp_Frontend s))),
      Observe ''hamstergres_proxy_frontend_connections'' [(''state'', ''total'')] (show_int (fe_Connections (sp_Frontend s))),
      Declare ''hamstergres_proxy_queries_total'' ''counter'' ''Client queries by outcome and routing decision.'',
      Observe ''hamstergres_proxy_queries_total'' [(''outcome'', ''success'')] (show_int (sa_Queries q - sa_FailedQueries q)),
      Observe ''hamstergres_proxy_queries_total'' [(''outcome'', ''failure'')] (show_int (sa_FailedQueries q)),
      Declare ''hamstergres_proxy_query_routes_total'' ''counter'' ''Client query routing decisions.'',
      Observe ''hamstergres_proxy_query_routes_total'' [(''route'', ''single_burrow'')] (show_int (sa_SingleShardQueries q)),
      Observe ''hamstergres_proxy_query_routes_total'' [(''route'', ''scatter'')] (show_int (sa_ScatteredQueries q))])"

definition query_items :: "(rat \<Rightarrow> string) \<Rightarrow> StatisticsSnapshot \<Rightarrow> metric_item list" where
  "query_items fg m =
     Declare ''hamstergres_proxy_query_failures_total'' ''counter'' ''Failed client queries by stable error category.''
     # map (\<lambda>(category, n). Observe ''hamstergres_proxy_query_failures_total'' [(''category'', category)] (show_int n)) (sn_Failures m)
     @ Declare ''hamstergres_proxy_query_duration_seconds'' ''histogram'' ''Client query latency in seconds.''
     # map (\<lambda>b. Observe ''hamstergres_proxy_query_duration_seconds_bucket'' [(''le'', fg (bk_UpperBound b))] (show_int (bk_Count b))) (hi_Buckets (sn_Latency m))
     @ [Observe ''hamstergres_proxy_query_duration_seconds_bucket'' [(''le'', ''+Inf'')] (show_int (hi_Count (sn_Latency m))),
        Observe ''hamstergres_proxy_query_duration_seconds_sum'' [] (fg (hi_Sum (sn_Latency m))),
        Observe ''hamstergres_proxy_query_duration_seconds_count'' [] (show_int (hi_Count (sn_Latency m))),
        Declare ''hamstergres_proxy_burrow_executions_total'' ''counter'' ''Query executions sent through Tunnels to each Burrow.'']
     @ map (\<lambda>i. Observe ''hamstergres_proxy_burrow_executions_total'' [(''burrow'', sc_Name i)] (show_int (sc_Queries i))) (sn_ShardExecutions m)
     @ Declare ''hamstergres_proxy_operations_total'' ''counter'' ''Operational events by stable operation and outcome.''
     # map (\<lambda>((operation, outcome), n). Observe ''hamstergres_proxy_operations_total'' [(''operation'', operation), (''outcome'', outcome)] (show_int n))
         (sn_Operations m)"

definition sharding_items :: "ShardingInventory \<Rightarrow> metric_item list" where
  "sharding_items i =
     [Declare ''hamstergres_proxy_burrow_up'' ''gauge'' ''Whether the latest Burrow health check succeeded.'',
      Declare ''hamstergres_proxy_schema_revision'' ''gauge'' ''Schema revision applied by this Proxy.'',
      Observe ''hamstergres_proxy_schema_revision'' [] (show_nat (unat (si_SchemaRevision i))),
      Declare ''hamstergres_proxy_topology_revision'' ''gauge'' ''Topology revision applied by this Proxy.'',
      Observe ''hamstergres_proxy_topology_revision'' [] (show_nat (unat (si_TopologyRevision i))),
      Declare ''hamstergres_proxy_table_sharded'' ''gauge'' ''Whether a table is sharded according to the cached Hamstergres Nest inventory.'']
     @ map (\<lambda>t. Observe ''hamstergres_proxy_table_sharded'' [(''table'', ti_Table t)] (flag (ti_Sharded t))) (si_Tables i)"

definition burrow_items :: "(rat \<Rightarrow> string) \<Rightarrow> ShardStatus \<Rightarrow> metric_item list" where
  "burrow_items fg b = (let burrow = (''burrow'', bs_Name b); st = bs_Stat b in
     [Observe ''hamstergres_proxy_burrow_up'' [burrow] (flag (bs_Healthy b)),
      Observe ''hamstergres_proxy_backend_pool_connections'' [burrow, (''state'', ''capacity'')] (show_int (st_MaxConns st)),
      Observe ''hamstergres_proxy_backend_pool_connections'' [burrow, (''state'', ''in_use'')] (show_int (st_AcquiredConns st)),
      Observe ''hamstergres_proxy_backend_pool_connections'' [burrow, (''state'', ''idle'')] (show_int (st_IdleConns st)),
      Observe ''hamstergres_proxy_backend_pool_acquire_total'' [burrow, (''outcome'', ''success'')] (show_int (st_AcquireCount st)),
      Observe ''hamstergres_proxy_backend_pool_acquire_total'' [burrow, (''outcome'', ''canceled'')] (show_int (st_CanceledAcquireCount st)),
      Observe ''hamstergres_proxy_backend_pool_wait_total'' [burrow] (show_int (st_EmptyAcquireCount st)),
      Observe ''hamstergres_proxy_backend_pool_acquire_duration_seconds_total'' [burrow] (fg (st_AcquireSeconds st))])"

definition pool_items :: "(rat \<Rightarrow> string) \<Rightarrow> ShardStatus list \<Rightarrow> metric_item list" where
  "pool_items fg burrows =
     [Declare ''hamstergres_proxy_backend_pool_connections'' ''gauge'' ''Backend pool connections by Burrow and state.'',
      Declare ''hamstergres_proxy_backend_pool_acquire_total'' ''counter'' ''Backend pool acquisition attempts by Burrow and outcome.'',
      Declare ''hamstergres_proxy_backend_pool_wait_total'' ''counter'' ''Backend pool acquisitions that had to wait for capacity.'',
      Declare ''hamstergres_proxy_backend_pool_acquire_duration_seconds_total'' ''counter'' ''Total time spent acquiring backend connections.'']
     @ concat (map (burrow_items fg) burrows)"

definition metric_items :: "(rat \<Rightarrow> string) \<Rightarrow> status_snapshot \<Rightarrow> metric_item list" where
  "metric_items fg s = proxy_items s @ query_items fg (sp_QueryMetrics s) @ sharding_items (sp_Sharding s) @ pool_items fg (sp_Burrows s)"

lemma concat_render: "concat (map render (map f xs)) = concat (map (\<lambda>x. render (f x)) xs)"
  by (simp add: comp_def)

lemma proxy_rendered: "proxy_metrics s = concat (map render (proxy_items s))"
  by (simp add: proxy_metrics_def proxy_items_def Let_def label_texts_def)

lemma query_rendered: "query_metrics fg m = concat (map render (query_items fg m))"
  by (simp add: query_metrics_def query_items_def Let_def label_texts_def comp_def case_prod_unfold)

lemma sharding_rendered: "sharding_metrics i = concat (map render (sharding_items i))"
  by (simp add: sharding_metrics_def sharding_items_def label_texts_def comp_def)

lemma burrow_rendered: "burrow_metrics fg b = concat (map render (burrow_items fg b))"
  by (simp add: burrow_metrics_def burrow_items_def Let_def label_texts_def)

lemma pool_rendered: "pool_metrics fg bs = concat (map render (pool_items fg bs))"
  by (induction bs) (simp_all add: pool_metrics_def pool_items_def burrow_rendered)

lemma show_no_LF: "LF \<notin> set (show_nat n)" "LF \<notin> set (show_int m)"
proof -
  have "\<not> is_digit LF" by (simp add: is_digit_def)
  then show n: "LF \<notin> set (show_nat n)" for n using all_digits_show_nat [of n] by (auto simp: all_digits_def list_all_iff)
  show "LF \<notin> set (show_int m)" using n by (simp add: show_int_def)
qed

lemmas item_simps = name_ok_def key_ok_def flag_def show_no_LF

lemma items_ok:
  assumes "\<And>x. LF \<notin> set (fg x)"
  shows "list_all item_ok (metric_items fg s)"
proof -
  have "list_all item_ok (proxy_items s)" by (simp add: proxy_items_def Let_def item_simps)
  moreover have "list_all item_ok (query_items fg m)" for m using assms
    by (auto simp: query_items_def item_simps list_all_iff)
  moreover have "list_all item_ok (sharding_items i)" for i by (simp add: sharding_items_def item_simps list_all_iff)
  moreover have "list_all item_ok (burrow_items fg b)" for b using assms by (simp add: burrow_items_def Let_def item_simps)
  hence "list_all item_ok (pool_items fg bs)" for bs by (induction bs) (simp_all add: pool_items_def)
  ultimately show ?thesis by (simp add: metric_items_def)
qed



text \<open>A table whose name tries to close the label and start a sample of its own.\<close>

definition hostile_name :: string where
  "hostile_name = ''t'' @ [CHR 0x22, CHR ''}''] @ '' 1'' @ [LF] @ ''hamstergres_proxy_schema_revision 9'' @ [CHR 0x5C]"

definition hostile_snapshot :: status_snapshot where
  "hostile_snapshot = \<lparr>sp_UptimeSeconds = 5, sp_Queries = noStatistics,
     sp_QueryMetrics = \<lparr>sn_Total = noStatistics, sn_ShardExecutions = [], sn_Windows = [], sn_QuerySummaries = [],
       sn_Latency = \<lparr>hi_Buckets = [], hi_Count = 0, hi_Sum = 0\<rparr>, sn_Operations = [], sn_Failures = []\<rparr>,
     sp_Frontend = \<lparr>fe_Connections = 3, fe_ActiveConnections = 1\<rparr>, sp_Burrows = [],
     sp_Sharding = \<lparr>si_Source = ''hamstergres-nest'', si_SchemaRevision = 2, si_TopologyRevision = 1, si_UnshardedMode = ''reject'', si_PrimaryBurrow = [],
       si_VirtualShards = 4, si_Tables = [\<lparr>ti_Table = hostile_name, ti_Sharded = True, ti_ShardKeys = [''id'']\<rparr>]\<rparr>\<rparr>"


section \<open>Health\<close>

text \<open>
  The health check asks every Burrow anew: undisturbed by another check at the same time, it answers 200 just when every Burrow answered its ping, and 503
  otherwise, whatever earlier checks found.  (An error with an empty text would pass for health: the text is the only mark that is kept.)
\<close>

theorem health_exact:
  assumes "\<And>b e. ping b = Some e \<Longrightarrow> e \<noteq> []"
  shows "fst (handleHealth (fst (ShardStatuses ping clock stat shards))) = (if \<forall>h \<in> set shards. ping (sh_name h) = None then 200 else 503)"
    and "map sh_name (snd (ShardStatuses ping clock stat shards)) = map sh_name shards"
proof -
  have "sh_error (check_health ping clock h) = [] \<longleftrightarrow> ping (sh_name h) = None" for h
    using assms by (auto simp: check_health_def split: option.splits)
  thus "fst (handleHealth (fst (ShardStatuses ping clock stat shards))) = (if \<forall>h \<in> set shards. ping (sh_name h) = None then 200 else 503)"
    by (auto simp: handleHealth_def ShardStatuses_def Let_def shard_status_def list_ex_iff)
  show "map sh_name (snd (ShardStatuses ping clock stat shards)) = map sh_name shards"
    by (simp add: ShardStatuses_def Let_def check_health_def)
qed

lemma accepted_counts: "accept_step\<^sup>*\<^sup>* \<lparr>fe_Connections = 0, fe_ActiveConnections = 0\<rparr> s \<Longrightarrow> 0 \<le> fe_ActiveConnections s \<and> fe_ActiveConnections s \<le> fe_Connections s"
  by (induction rule: rtranclp_induct) (auto elim!: accept_step.cases)

section \<open>The command\<close>

text \<open>What the start of the Proxy depends on: each step's error text, and how serving ended.\<close>

record start_outcome =
  so_config :: "string option"
  so_backends :: "string option"
  so_listen :: "string option"
  so_serve :: "string option"
  so_serveClosed :: bool

definition start_event :: "string \<Rightarrow> string" where
  "start_event err = (if contains_text err ''schema registry mismatch'' \<or> contains_text err ''live Burrow schema differs from Nest registry''
     then ''schema_registry_mismatch'' else ''backend_initialization_failed'')"

text \<open>The exit code, the event logged for it, and whether the pools were closed.\<close>

definition serveCommand :: "start_outcome \<Rightarrow> nat \<times> string option \<times> bool" where
  "serveCommand so =
     (if so_config so \<noteq> None then (1, Some ''configuration_load_failed'', False)
      else (case so_backends so of Some e \<Rightarrow> (1, Some (start_event e), False)
      | None \<Rightarrow>
          if so_listen so \<noteq> None then (1, Some ''frontend_listen_failed'', False)
          else if so_serve so \<noteq> None \<and> \<not> so_serveClosed so then (1, Some ''frontend_failed'', False) else (0, None, True)))"


definition line :: "string list \<Rightarrow> string" where
  "line parts = concat parts @ [LF]"

definition window_text :: "WindowStatistics \<Rightarrow> string" where
  "window_text w = (let q = ws_Statistics w in
     line [''  '', ws_Name w, '': '', show_int (sa_Queries q), '' queries, '', show_int (sa_FailedQueries q), '' failed, '',
       show_int (sa_ScatteredQueries q), '' scattered, '', show_int (sa_SingleShardQueries q), '' single-shard, '',
       show_int (sa_AverageDurationMillis q), ''ms average'']
     @ concat (map (\<lambda>b. line [''    '', sc_Name b, '': '', show_int (sc_Queries b), '' executions'']) (ws_ShardExecutions w)))"

definition summary_text :: "QuerySummary \<Rightarrow> string" where
  "summary_text y = (let q = qs_Statistics y in
     line [''  '', qs_QueryShape y, '' ['', qs_Fingerprint y, ''] ('', qs_Statement y, ''): '', show_int (sa_Queries q), '' queries, '',
       show_int (sa_FailedQueries q), '' failures, '', show_int (sa_ScatteredQueries q), '' scattered''])"

definition table_text :: "TableInventory \<Rightarrow> string" where
  "table_text t = (if ti_Sharded t then line [''  '', ti_Table t, '': sharded by ('', join_with '', '' (ti_ShardKeys t), '')'']
     else line [''  '', ti_Table t, '': unsharded''])"

definition burrow_text :: "ShardStatus \<Rightarrow> string" where
  "burrow_text b = (let st = bs_Stat b in
     line [bs_Name b, '': '', if bs_Healthy b then ''healthy'' else ''unhealthy: '' @ bs_LastError b, '' ('', show_int (st_AcquiredConns st), '' acquired, '',
       show_int (st_IdleConns st), '' idle, '', show_int (st_TotalConns st), '' total connections)''])"

definition status_text :: "string \<Rightarrow> status_snapshot \<Rightarrow> string" where
  "status_text now s = (let q = sp_Queries s; m = sp_QueryMetrics s; i = sp_Sharding s in
     line [''Hamstergres status ('', now, '')'']
     @ line [''Uptime: '', show_int (sp_UptimeSeconds s), ''s'']
     @ line [''Frontend: '', show_int (fe_ActiveConnections (sp_Frontend s)), '' active / '', show_int (fe_Connections (sp_Frontend s)), '' total connections'']
     @ line [''Queries: '', show_int (sa_Queries q), '' total / '', show_int (sa_FailedQueries q), '' failed (average '', show_int (sa_AverageDurationMillis q), ''ms)'']
     @ line [''Routing: '', show_int (sa_ScatteredQueries (sn_Total m)), '' scattered / '', show_int (sa_SingleShardQueries (sn_Total m)), '' single-shard'']
     @ line [''Sharding inventory: '', si_Source i, '' (schema revision '', show_nat (unat (si_SchemaRevision i)), '', topology revision '',
         show_nat (unat (si_TopologyRevision i)), '', '', show_nat (si_VirtualShards i), '' vshards, unsharded mode '', si_UnshardedMode i, '')'']
     @ concat (map table_text (si_Tables i))
     @ line [''Rolling query traffic:''] @ concat (map window_text (sn_Windows m))
     @ (if sn_QuerySummaries m = [] then [] else line [''Query summaries:''] @ concat (map summary_text (sn_QuerySummaries m)))
     @ concat (map burrow_text (sp_Burrows s)))"

text \<open>The status endpoint could not be asked, or it answered with a status code and a body that decodes or not.\<close>

definition statusCommand :: "(string + nat \<times> (string \<times> status_snapshot) option) \<Rightarrow> nat \<times> string" where
  "statusCommand response = (case response of Inl e \<Rightarrow> (1, [])
     | Inr (code, body) \<Rightarrow> if code \<noteq> 200 then (1, [])
         else (case body of None \<Rightarrow> (1, []) | Some (now, s) \<Rightarrow> (0, status_text now s)))"

text \<open>The command succeeds just when it could print a snapshot.\<close>

lemma statusCommand_ok: "fst (statusCommand r) = 0 \<longleftrightarrow> (\<exists>now s. r = Inr (200, Some (now, s)))"
  by (auto simp: statusCommand_def split: sum.splits option.splits)

section \<open>Tracing\<close>

text \<open>\<^verbatim>\<open>internal/observability/tracing.go\<close>: whether the environment asks for an exporter, and under which name.\<close>

definition tracingEnabled :: "(string \<Rightarrow> string) \<Rightarrow> bool" where
  "tracingEnabled getenv =
     (if equal_fold (getenv ''OTEL_SDK_DISABLED'') ''true'' \<or> equal_fold (getenv ''OTEL_TRACES_EXPORTER'') ''none'' then False
      else getenv ''OTEL_EXPORTER_OTLP_ENDPOINT'' \<noteq> [] \<or> getenv ''OTEL_EXPORTER_OTLP_TRACES_ENDPOINT'' \<noteq> []
        \<or> contains_text (getenv ''OTEL_TRACES_EXPORTER'') ''otlp'')"

definition configuredServiceName :: "(string \<Rightarrow> string) \<Rightarrow> string" where
  "configuredServiceName getenv = (if getenv ''OTEL_SERVICE_NAME'' \<noteq> [] then getenv ''OTEL_SERVICE_NAME'' else ''hamstergres-proxy'')"

datatype tracing = NoTracing | TracingFailed string | TracingTo string

text \<open>\<open>exporter\<close> and \<open>resource\<close> are the errors of the exporter and of merging the resource.\<close>

definition ConfigureTracing :: "(string \<Rightarrow> string) \<Rightarrow> string option \<Rightarrow> (string \<Rightarrow> string option) \<Rightarrow> tracing" where
  "ConfigureTracing getenv exporter resource = (if \<not> tracingEnabled getenv then NoTracing
     else (case exporter of Some e \<Rightarrow> TracingFailed e
       | None \<Rightarrow> (case resource (configuredServiceName getenv) of Some e \<Rightarrow> TracingFailed e | None \<Rightarrow> TracingTo (configuredServiceName getenv))))"

text \<open>Without configuration nothing is exported, and the exporters can be turned off whatever else is set.\<close>

lemma tracing_off:
  "tracingEnabled (\<lambda>_. []) = False"
  "equal_fold (getenv ''OTEL_SDK_DISABLED'') ''true'' \<Longrightarrow> ConfigureTracing getenv exporter resource = NoTracing"
proof -
  show "tracingEnabled (\<lambda>_. []) = False" by code_simp
qed (simp add: ConfigureTracing_def tracingEnabled_def)

end
