(* ===== verification/Compat_Report.thy ===== *)
theory Compat_Report
  imports Query_Statistics
begin

text \<open>
  \<^verbatim>\<open>internal/pgcompat/report.go\<close> and \<^verbatim>\<open>tools/pgcompat/main.go\<close>: the PostgreSQL regression tests run through the Proxy are compared with
  an earlier run and with reviewed differences, and the exit code of the tool decides whether a change is accepted.  Files
  and JSON are parameters, and so are the regular expressions a reviewer writes and SHA-256.
\<close>

section \<open>Reading the output of pg_regress\<close>

definition ResultsFormatVersion :: int where
  "ResultsFormatVersion = 1"

definition ExpectedDifferencesFormatVersion :: int where
  "ExpectedDifferencesFormatVersion = 1"

abbreviation StatusPass :: string where
  "StatusPass \<equiv> ''pass''"

abbreviation StatusFail :: string where
  "StatusFail \<equiv> ''fail''"

abbreviation StatusMissing :: string where
  "StatusMissing \<equiv> ''missing''"

record TestResult =
  tt_Name :: string
  tt_Status :: string
  tt_DurationMS :: int

record Results =
  cr_FormatVersion :: int
  cr_PostgreSQLVersion :: string
  cr_GeneratedAt :: int
  cr_ExpectedTests :: nat
  cr_PassedTests :: nat
  cr_FailedTests :: nat
  cr_MissingTests :: "string list"
  cr_ProxyCrashes :: nat
  cr_Tests :: "TestResult list"

record Regression =
  rg_Name :: string
  rg_Previous :: string
  rg_Current :: string

text \<open>A file read line by line, and the error that ended it, if any.\<close>

type_synonym scan = "string list \<times> string option"

text \<open>A non-empty run of characters, and what follows.\<close>

definition run_of :: "(char \<Rightarrow> bool) \<Rightarrow> string \<Rightarrow> (string \<times> string) option" where
  "run_of P s = (case takeWhile P s of [] \<Rightarrow> None | r \<Rightarrow> Some (r, dropWhile P s))"

text \<open>
  \<^verbatim>\<open>^\s*(?:#\s*)?(not )?ok\s+[0-9]+\s+[+-]\s+(\S+)\s+([0-9]+)\s+ms\s*$\<close>: whether the test failed, its name and its
  duration.  Neighbouring parts have no character in common, so there is only one way to match.
\<close>

definition tap_fields :: "string \<Rightarrow> (string \<times> string) option" where
  "tap_fields s = (case run_of regex_space s of None \<Rightarrow> None | Some (_, s1) \<Rightarrow>
     (case run_of is_digit s1 of None \<Rightarrow> None | Some (_, s2) \<Rightarrow>
     (case run_of regex_space s2 of None \<Rightarrow> None | Some (_, s3) \<Rightarrow>
     (case s3 of [] \<Rightarrow> None | sign # s4 \<Rightarrow> if sign \<notin> set ''+-'' then None else
     (case run_of regex_space s4 of None \<Rightarrow> None | Some (_, s5) \<Rightarrow>
     (case run_of (\<lambda>c. \<not> regex_space c) s5 of None \<Rightarrow> None | Some (name, s6) \<Rightarrow>
     (case run_of regex_space s6 of None \<Rightarrow> None | Some (_, s7) \<Rightarrow>
     (case run_of is_digit s7 of None \<Rightarrow> None | Some (duration, s8) \<Rightarrow>
     (case run_of regex_space s8 of None \<Rightarrow> None | Some (_, s9) \<Rightarrow>
        if has_prefix s9 ''ms'' \<and> list_all regex_space (drop 2 s9) then Some (name, duration) else None)))))))))"

definition tapResultPattern :: "string \<Rightarrow> (bool \<times> string \<times> string) option" where
  "tapResultPattern line =
     (let s1 = dropWhile regex_space line;
          s2 = (case s1 of [] \<Rightarrow> [] | c # r \<Rightarrow> if c = CHR ''#'' then dropWhile regex_space r else s1);
          failed = has_prefix s2 ''not ''; s3 = (if failed then drop 4 s2 else s2) in
      if has_prefix s3 ''ok'' then map_option (\<lambda>(name, duration). (failed, name, duration)) (tap_fields (drop 2 s3)) else None)"

datatype compat_error = DuplicateResult string | BadDuration string | ReadFailed string | NoResults | DuplicateScheduled string | NoSchedule
  | BadFormatVersion int | OmitsDifferences | InvalidTestName string | DuplicateTest string | InvalidSHA256 string | NoReason string
  | InvalidNormalization string | NonPositiveMatches string | DecodeFailed | TestResultsRequired | VersionMismatch string string | WriteFailed

fun parse_tap :: "string list \<Rightarrow> string list \<Rightarrow> compat_error + TestResult list" where
  "parse_tap seen [] = Inr []"
| "parse_tap seen (line # lines) = (case tapResultPattern line of None \<Rightarrow> parse_tap seen lines
     | Some (failed, name, duration) \<Rightarrow>
         if name \<in> set seen then Inl (DuplicateResult name)
         else (case parse_int64 duration of None \<Rightarrow> Inl (BadDuration name)
           | Some ms \<Rightarrow> (case parse_tap (name # seen) lines of Inl e \<Rightarrow> Inl e
             | Inr tests \<Rightarrow> Inr (\<lparr>tt_Name = name, tt_Status = (if failed then StatusFail else StatusPass), tt_DurationMS = ms\<rparr> # tests))))"

definition recount :: "Results \<Rightarrow> Results" where
  "recount r = r\<lparr>cr_PassedTests := length (filter (\<lambda>t. tt_Status t = StatusPass) (cr_Tests r)),
     cr_FailedTests := length (filter (\<lambda>t. tt_Status t \<in> set [StatusFail, StatusMissing]) (cr_Tests r))\<rparr>"

definition ParseTAP :: "scan \<Rightarrow> string \<Rightarrow> int \<Rightarrow> compat_error + Results" where
  "ParseTAP reader version generatedAt = (case parse_tap [] (fst reader) of Inl e \<Rightarrow> Inl e
     | Inr tests \<Rightarrow> (case snd reader of Some e \<Rightarrow> Inl (ReadFailed e)
       | None \<Rightarrow> if tests = [] then Inl NoResults
           else Inr (recount \<lparr>cr_FormatVersion = ResultsFormatVersion, cr_PostgreSQLVersion = version, cr_GeneratedAt = generatedAt,
             cr_ExpectedTests = 0, cr_PassedTests = 0, cr_FailedTests = 0, cr_MissingTests = [], cr_ProxyCrashes = 0, cr_Tests = tests\<rparr>)))"

fun add_scheduled :: "string list \<Rightarrow> string list \<Rightarrow> compat_error + string list" where
  "add_scheduled tests [] = Inr tests"
| "add_scheduled tests (name # names) = (if name \<in> set tests then Inl (DuplicateScheduled name) else add_scheduled (tests @ [name]) names)"

fun parse_schedule :: "string list \<Rightarrow> string list \<Rightarrow> compat_error + string list" where
  "parse_schedule tests [] = Inr tests"
| "parse_schedule tests (l # lines) =
     (let line = trim_space l in
      if \<not> has_prefix line ''test:'' then parse_schedule tests lines
      else (case add_scheduled tests (split_fields (trim_space (trim_prefix line ''test:''))) of Inl e \<Rightarrow> Inl e
        | Inr tests' \<Rightarrow> parse_schedule tests' lines))"

definition ParseSchedule :: "scan \<Rightarrow> compat_error + string list" where
  "ParseSchedule reader = (case parse_schedule [] (fst reader) of Inl e \<Rightarrow> Inl e
     | Inr tests \<Rightarrow> (case snd reader of Some e \<Rightarrow> Inl (ReadFailed e) | None \<Rightarrow> if tests = [] then Inl NoSchedule else Inr tests))"

text \<open>The missing tests are added to the results; the flag says that there were none.\<close>

definition ValidateCompleteness :: "Results \<Rightarrow> string list \<Rightarrow> bool \<times> Results" where
  "ValidateCompleteness r scheduled =
     (let missing = filter (\<lambda>name. name \<notin> tt_Name ` set (cr_Tests r)) scheduled in
      (missing = [], recount (r\<lparr>cr_ExpectedTests := length scheduled, cr_MissingTests := missing,
        cr_Tests := cr_Tests r @ map (\<lambda>name. \<lparr>tt_Name = name, tt_Status = StatusMissing, tt_DurationMS = 0\<rparr>) missing\<rparr>)))"

definition CountProxyCrashes :: "scan \<Rightarrow> compat_error + nat" where
  "CountProxyCrashes reader = (case snd reader of Some e \<Rightarrow> Inl (ReadFailed e)
     | None \<Rightarrow> Inr (length (filter (\<lambda>line. has_prefix line ''panic:'') (fst reader))))"

section \<open>Regressions and reviewed differences\<close>

text \<open>A Go map filled from the list: the last entry of a name counts.\<close>

definition status_by_name :: "Results \<Rightarrow> (string, string) gomap" where
  "status_by_name r = foldl (\<lambda>m t. AList.update (tt_Name t) (tt_Status t) m) [] (cr_Tests r)"

definition FindRegressions :: "Results \<Rightarrow> Results \<Rightarrow> Regression list" where
  "FindRegressions baseline current =
     (let byName = status_by_name current;
          found = concat (map (\<lambda>previous.
            if tt_Status previous \<noteq> StatusPass then []
            else let status = (case map_of byName (tt_Name previous) of None \<Rightarrow> ''missing'' | Some s \<Rightarrow> s) in
              if status \<noteq> StatusPass then [\<lparr>rg_Name = tt_Name previous, rg_Previous = tt_Status previous, rg_Current = status\<rparr>] else [])
            (cr_Tests baseline));
          crashed = (if cr_ProxyCrashes baseline = 0 \<and> cr_ProxyCrashes current > 0
            then [\<lparr>rg_Name = ''Hamstergres Proxy process'', rg_Previous = StatusPass, rg_Current = StatusFail\<rparr>] else []) in
      sort_key rg_Name (found @ crashed))"

record OutputNormalization =
  on_Pattern :: string
  on_Replacement :: string
  on_ExpectedMatches :: int

record ExpectedDifference =
  xd_Test :: string
  xd_OutputSHA256 :: string
  xd_Reason :: string
  xd_Normalizations :: "OutputNormalization list"

record ExpectedDifferences =
  xs_FormatVersion :: int
  xs_PostgreSQLVersion :: string
  xs_Differences :: "ExpectedDifference list option"

text \<open>\<^verbatim>\<open>regexp.Compile\<close>, the number of matches and \<^verbatim>\<open>ReplaceAllString\<close>.\<close>

record regexps =
  rx_valid :: "string \<Rightarrow> bool"
  rx_count :: "string \<Rightarrow> string \<Rightarrow> nat"
  rx_replace :: "string \<Rightarrow> string \<Rightarrow> string \<Rightarrow> string"

definition testNamePattern :: "string \<Rightarrow> bool" where
  "testNamePattern s = (s \<noteq> [] \<and> list_all (\<lambda>c. is_digit c \<or> c = CHR ''_'' \<or> 65 \<le> byte_val c \<and> byte_val c \<le> 90 \<or> 97 \<le> byte_val c \<and> byte_val c \<le> 122) s)"

definition sha256Pattern :: "string \<Rightarrow> bool" where
  "sha256Pattern s = (length s = 64 \<and> list_all (\<lambda>c. is_digit c \<or> 97 \<le> byte_val c \<and> byte_val c \<le> 102) s)"

definition check_normalization :: "regexps \<Rightarrow> string \<Rightarrow> OutputNormalization \<Rightarrow> compat_error option" where
  "check_normalization rx test n = (if \<not> rx_valid rx (on_Pattern n) then Some (InvalidNormalization test)
     else if on_ExpectedMatches n \<le> 0 then Some (NonPositiveMatches test) else None)"

fun check_differences :: "regexps \<Rightarrow> string list \<Rightarrow> ExpectedDifference list \<Rightarrow> compat_error option" where
  "check_differences rx seen [] = None"
| "check_differences rx seen (d # ds) =
     (if \<not> testNamePattern (xd_Test d) then Some (InvalidTestName (xd_Test d))
      else if xd_Test d \<in> set seen then Some (DuplicateTest (xd_Test d))
      else if \<not> sha256Pattern (xd_OutputSHA256 d) then Some (InvalidSHA256 (xd_Test d))
      else if trim_space (xd_Reason d) = [] then Some (NoReason (xd_Test d))
      else (case first_error (check_normalization rx (xd_Test d)) (xd_Normalizations d) of Some e \<Rightarrow> Some e
        | None \<Rightarrow> check_differences rx (xd_Test d # seen) ds))"

text \<open>The argument is the decoded file, None when it cannot be read or decoded.\<close>

definition ReadExpectedDifferences :: "regexps \<Rightarrow> ExpectedDifferences option \<Rightarrow> compat_error + ExpectedDifferences" where
  "ReadExpectedDifferences rx file = (case file of None \<Rightarrow> Inl DecodeFailed
     | Some expected \<Rightarrow>
         if xs_FormatVersion expected \<noteq> ExpectedDifferencesFormatVersion then Inl (BadFormatVersion (xs_FormatVersion expected))
         else (case xs_Differences expected of None \<Rightarrow> Inl OmitsDifferences
           | Some ds \<Rightarrow> (case check_differences rx [] ds of Some e \<Rightarrow> Inl e | None \<Rightarrow> Inr expected)))"

definition ReadResults :: "Results option \<Rightarrow> compat_error + Results" where
  "ReadResults file = (case file of None \<Rightarrow> Inl DecodeFailed
     | Some r \<Rightarrow> if cr_FormatVersion r \<noteq> ResultsFormatVersion then Inl (BadFormatVersion (cr_FormatVersion r)) else Inr r)"

datatype difference_problem = NotPresent | NowPasses | DidNotComplete | OutputUnreadable string | BadPattern string | MatchCount string nat int
  | OutputChanged string

record DifferenceVerification =
  dv_Difference :: ExpectedDifference
  dv_ActualSHA256 :: string
  dv_Matched :: bool
  dv_Problem :: "difference_problem option"

fun normalize_output :: "regexps \<Rightarrow> OutputNormalization list \<Rightarrow> string \<Rightarrow> difference_problem + string" where
  "normalize_output rx [] text = Inr text"
| "normalize_output rx (n # ns) text =
     (if \<not> rx_valid rx (on_Pattern n) then Inl (BadPattern (on_Pattern n))
      else if int (rx_count rx (on_Pattern n) text) \<noteq> on_ExpectedMatches n
      then Inl (MatchCount (on_Pattern n) (rx_count rx (on_Pattern n) text) (on_ExpectedMatches n))
      else normalize_output rx ns (rx_replace rx (on_Pattern n) text (on_Replacement n)))"

text \<open>\<open>outputs\<close> gives the contents of \<^verbatim>\<open><test>.out\<close> or the error of reading it.\<close>

definition verify_difference :: "regexps \<Rightarrow> (string \<Rightarrow> string) \<Rightarrow> (string \<Rightarrow> string + string) \<Rightarrow> (string, string) gomap \<Rightarrow> ExpectedDifference \<Rightarrow> DifferenceVerification" where
  "verify_difference rx sha outputs statuses d =
     (let bad = (\<lambda>actual problem. \<lparr>dv_Difference = d, dv_ActualSHA256 = actual, dv_Matched = False, dv_Problem = Some problem\<rparr>) in
      case map_of statuses (xd_Test d) of None \<Rightarrow> bad [] NotPresent
      | Some status \<Rightarrow>
          if status = StatusPass then bad [] NowPasses
          else if status = StatusMissing then bad [] DidNotComplete
          else (case outputs (xd_Test d) of Inl e \<Rightarrow> bad [] (OutputUnreadable e)
            | Inr contents \<Rightarrow> (case normalize_output rx (xd_Normalizations d) contents of Inl problem \<Rightarrow> bad [] problem
              | Inr normalized \<Rightarrow>
                  if sha normalized \<noteq> xd_OutputSHA256 d then bad (sha normalized) (OutputChanged (sha normalized))
                  else \<lparr>dv_Difference = d, dv_ActualSHA256 = sha normalized, dv_Matched = True, dv_Problem = None\<rparr>)))"

definition VerifyExpectedDifferences :: "regexps \<Rightarrow> (string \<Rightarrow> string) \<Rightarrow> Results \<Rightarrow> (string \<Rightarrow> string + string) \<Rightarrow> ExpectedDifferences \<Rightarrow> DifferenceVerification list" where
  "VerifyExpectedDifferences rx sha r outputs expected =
     sort_key (\<lambda>v. xd_Test (dv_Difference v))
       (map (verify_difference rx sha outputs (status_by_name r)) (case xs_Differences expected of None \<Rightarrow> [] | Some ds \<Rightarrow> ds))"

definition verified_names :: "DifferenceVerification list \<Rightarrow> string list" where
  "verified_names vs = map (\<lambda>v. xd_Test (dv_Difference v)) (filter dv_Matched vs)"

definition SeparateExpectedRegressions :: "Regression list \<Rightarrow> DifferenceVerification list \<Rightarrow> Regression list \<times> Regression list" where
  "SeparateExpectedRegressions rs vs = partition (\<lambda>r. rg_Name r \<in> set (verified_names vs)) rs"

definition DifferenceVerificationProblems :: "DifferenceVerification list \<Rightarrow> DifferenceVerification list" where
  "DifferenceVerificationProblems vs = filter (\<lambda>v. \<not> dv_Matched v) vs"

section \<open>Presentation\<close>

definition badgeColor :: "nat \<Rightarrow> nat \<Rightarrow> string" where
  "badgeColor passed tests = (if tests = 0 then ''lightgrey'' else if passed = tests then ''brightgreen''
     else let percentage = passed * 100 div tests in
       if percentage \<ge> 80 then ''yellow'' else if percentage \<ge> 50 then ''orange'' else ''red'')"

record BadgeEndpoint =
  bg_SchemaVersion :: int
  bg_Label :: string
  bg_Message :: string
  bg_Color :: string

definition badge_endpoint :: "Results \<Rightarrow> BadgeEndpoint" where
  "badge_endpoint r = (let tests = (if cr_ExpectedTests r = 0 then length (cr_Tests r) else cr_ExpectedTests r) in
     \<lparr>bg_SchemaVersion = 1, bg_Label = ''PostgreSQL '' @ cr_PostgreSQLVersion r,
      bg_Message = show_nat (cr_PassedTests r) @ ''/'' @ show_nat tests @ '' passing'' @ (if cr_MissingTests r \<noteq> [] then '' (incomplete)'' else []),
      bg_Color = badgeColor (cr_PassedTests r) tests\<rparr>)"

definition markdown_status :: "string \<Rightarrow> string" where
  "markdown_status s = (if s = StatusFail then ''GAP'' else if s = StatusMissing then ''MISSING'' else ''PASS'')"

definition code_span :: "string \<Rightarrow> string" where
  "code_span s = ''`'' @ s @ ''`''"

definition markdown_regressions :: "bool \<Rightarrow> Regression list \<Rightarrow> string" where
  "markdown_regressions baselineCompared unexpected =
     (if \<not> baselineCompared then ''No compatible baseline was supplied. This run records the current inventory but cannot detect pass-to-fail regressions.'' @ [LF, LF]
      else if unexpected = [] then ''No unexpected pass-to-fail regressions were found.'' @ [LF, LF]
      else ''**'' @ show_nat (length unexpected) @ '' unexpected regression(s) in previously passing tests:**'' @ [LF, LF]
        @ concat (map (\<lambda>r. ''- '' @ code_span (rg_Name r) @ '': '' @ rg_Previous r @ '' -> '' @ rg_Current r @ [LF]) unexpected) @ [LF])"

definition markdown_verifications :: "(difference_problem \<Rightarrow> string) \<Rightarrow> DifferenceVerification list \<Rightarrow> string" where
  "markdown_verifications text vs = (if vs = [] then []
     else let problems = DifferenceVerificationProblems vs in
       if problems = []
       then ''**'' @ show_nat (length vs) @ '' intentional PostgreSQL difference(s) verified by exact output signature.** The raw PostgreSQL score remains unchanged.'' @ [LF, LF]
       else ''**'' @ show_nat (length problems) @ '' intentional-difference signature problem(s):**'' @ [LF, LF]
         @ concat (map (\<lambda>v. ''- '' @ code_span (xd_Test (dv_Difference v)) @ '': '' @ (case dv_Problem v of None \<Rightarrow> [] | Some p \<Rightarrow> text p) @ [LF]) problems) @ [LF])"

definition markdown_tests :: "TestResult list \<Rightarrow> string" where
  "markdown_tests tests = ''| Test | Status | Duration |'' @ [LF] @ ''|---|---:|---:|'' @ [LF]
     @ concat (map (\<lambda>t. ''| '' @ code_span (tt_Name t) @ '' | '' @ markdown_status (tt_Status t) @ '' | '' @ show_int (tt_DurationMS t) @ '' ms |'' @ [LF]) tests)"

definition Markdown :: "(difference_problem \<Rightarrow> string) \<Rightarrow> Results \<Rightarrow> Regression list \<Rightarrow> Regression list \<Rightarrow> DifferenceVerification list \<Rightarrow> bool \<Rightarrow> string" where
  "Markdown text r unexpected expected vs baselineCompared =
     ''## PostgreSQL Compatibility Report'' @ [LF, LF]
     @ ''PostgreSQL '' @ code_span (cr_PostgreSQLVersion r) @ '': **'' @ show_nat (cr_PassedTests r) @ ''/'' @ show_nat (cr_ExpectedTests r) @ '' passing**, ''
     @ show_nat (cr_FailedTests r) @ '' compatibility gaps.'' @ [LF, LF]
     @ (if cr_ProxyCrashes r > 0 then ''> **Hamstergres Proxy crashed '' @ show_nat (cr_ProxyCrashes r)
          @ '' time(s).** Results after the first crash can reflect connection loss as well as statement incompatibility. See `proxy.log`.'' @ [LF, LF] else [])
     @ (if cr_MissingTests r \<noteq> [] then ''> **Harness incomplete:** '' @ show_nat (length (cr_MissingTests r)) @ '' scheduled test(s) produced no result: ''
          @ code_span (join_with ''`, `'' (cr_MissingTests r)) @ ''. The partial inventory is shown below.'' @ [LF, LF] else [])
     @ markdown_regressions baselineCompared unexpected
     @ (if expected \<noteq> [] then show_nat (length expected) @ '' pass-to-fail regression(s) matched reviewed intentional-difference signatures.'' @ [LF, LF] else [])
     @ markdown_verifications text vs @ markdown_tests (cr_Tests r)"

section \<open>The tool\<close>

text \<open>The files named on the command line, None where the flag is missing; \<open>in_writable\<close> says that the reports could be written.\<close>

record tool_input =
  in_log :: scan
  in_schedule :: scan
  in_version :: string
  in_now :: int
  in_proxyLog :: "scan option"
  in_baseline :: "Results option option"
  in_expected :: "ExpectedDifferences option option"
  in_outputs :: "(string \<Rightarrow> string + string) option"
  in_writable :: bool

definition read_crashes :: "tool_input \<Rightarrow> Results \<Rightarrow> compat_error + Results" where
  "read_crashes i r = (case in_proxyLog i of None \<Rightarrow> Inr r
     | Some lg \<Rightarrow> map_sum (\<lambda>e. e) (\<lambda>n. r\<lparr>cr_ProxyCrashes := n\<rparr>) (CountProxyCrashes lg))"

text \<open>The regressions and whether a baseline was compared; one of another release is ignored.\<close>

definition compare_baseline :: "tool_input \<Rightarrow> Results \<Rightarrow> compat_error + (bool \<times> Regression list)" where
  "compare_baseline i r = (case in_baseline i of None \<Rightarrow> Inr (False, [])
     | Some file \<Rightarrow> (case ReadResults file of Inl e \<Rightarrow> Inl e
       | Inr baseline \<Rightarrow> if cr_PostgreSQLVersion baseline \<noteq> cr_PostgreSQLVersion r then Inr (False, [])
           else Inr (True, FindRegressions baseline r)))"

definition check_expected :: "regexps \<Rightarrow> (string \<Rightarrow> string) \<Rightarrow> tool_input \<Rightarrow> Results \<Rightarrow> compat_error + DifferenceVerification list" where
  "check_expected rx sha i r = (case in_expected i of None \<Rightarrow> Inr []
     | Some file \<Rightarrow> (case in_outputs i of None \<Rightarrow> Inl TestResultsRequired
       | Some outputs \<Rightarrow> (case ReadExpectedDifferences rx file of Inl e \<Rightarrow> Inl e
         | Inr expected \<Rightarrow>
             if xs_PostgreSQLVersion expected \<noteq> cr_PostgreSQLVersion r then Inl (VersionMismatch (xs_PostgreSQLVersion expected) (cr_PostgreSQLVersion r))
             else Inr (VerifyExpectedDifferences rx sha r outputs expected))))"

record tool_report =
  tp_complete :: bool
  tp_results :: Results
  tp_baselineCompared :: bool
  tp_expected :: "Regression list"
  tp_unexpected :: "Regression list"
  tp_verifications :: "DifferenceVerification list"

definition tool_report :: "regexps \<Rightarrow> (string \<Rightarrow> string) \<Rightarrow> tool_input \<Rightarrow> compat_error + tool_report" where
  "tool_report rx sha i = (case ParseTAP (in_log i) (in_version i) (in_now i) of Inl e \<Rightarrow> Inl e
     | Inr r0 \<Rightarrow> (case ParseSchedule (in_schedule i) of Inl e \<Rightarrow> Inl e
     | Inr scheduled \<Rightarrow> (case ValidateCompleteness r0 scheduled of (whole, r1) \<Rightarrow>
       (case read_crashes i r1 of Inl e \<Rightarrow> Inl e
     | Inr r \<Rightarrow> (case compare_baseline i r of Inl e \<Rightarrow> Inl e
     | Inr (compared, regressions) \<Rightarrow> (case check_expected rx sha i r of Inl e \<Rightarrow> Inl e
     | Inr vs \<Rightarrow> (case SeparateExpectedRegressions regressions vs of (expected, unexpected) \<Rightarrow>
         if \<not> in_writable i then Inl WriteFailed
         else Inr \<lparr>tp_complete = whole, tp_results = r, tp_baselineCompared = compared, tp_expected = expected, tp_unexpected = unexpected,
           tp_verifications = vs\<rparr>)))))))"

definition exit_code :: "compat_error + tool_report \<Rightarrow> nat" where
  "exit_code outcome = (case outcome of Inl e \<Rightarrow> 2
     | Inr t \<Rightarrow> if \<not> tp_complete t then 2 else if DifferenceVerificationProblems (tp_verifications t) \<noteq> [] then 1
         else if tp_unexpected t \<noteq> [] then 1 else 0)"

section \<open>What the exit code means\<close>

text \<open>The reviewed differences, and the earlier run the results are compared with.\<close>

definition policy :: "tool_input \<Rightarrow> ExpectedDifference list" where
  "policy i = (case in_expected i of Some (Some e) \<Rightarrow> (case xs_Differences e of Some ds \<Rightarrow> ds | None \<Rightarrow> []) | _ \<Rightarrow> [])"

definition comparable :: "tool_input \<Rightarrow> Results option" where
  "comparable i = (case in_baseline i of Some (Some b) \<Rightarrow> if cr_PostgreSQLVersion b = in_version i then Some b else None | _ \<Rightarrow> None)"

definition has_status :: "Results \<Rightarrow> string \<Rightarrow> string \<Rightarrow> bool" where
  "has_status r n s = (\<exists>t \<in> set (cr_Tests r). tt_Name t = n \<and> tt_Status t = s)"

text \<open>A difference is exact when the test ran and failed and its output, normalised as reviewed, has the reviewed digest.\<close>

definition exact_difference :: "regexps \<Rightarrow> (string \<Rightarrow> string) \<Rightarrow> tool_input \<Rightarrow> Results \<Rightarrow> ExpectedDifference \<Rightarrow> bool" where
  "exact_difference rx sha i r d = (\<exists>outputs contents text. in_outputs i = Some outputs \<and> outputs (xd_Test d) = Inr contents
     \<and> has_status r (xd_Test d) StatusFail \<and> normalize_output rx (xd_Normalizations d) contents = Inr text \<and> sha text = xd_OutputSHA256 d)"

lemma parse_tap_names:
  assumes "parse_tap seen lines = Inr tests"
  shows "distinct (map tt_Name tests) \<and> tt_Name ` set tests \<inter> set seen = {} \<and> (\<forall>t \<in> set tests. tt_Status t \<in> {StatusPass, StatusFail})"
  using assms
proof (induction lines arbitrary: seen tests)
  case (Cons line lines)
  show ?case
  proof (cases "tapResultPattern line")
    case None
    with Cons show ?thesis by simp
  next
    case (Some m)
    obtain failed name duration where m: "m = (failed, name, duration)" by (cases m)
    obtain ms ts where ts: "name \<notin> set seen" "parse_tap (name # seen) lines = Inr ts"
      "tests = \<lparr>tt_Name = name, tt_Status = (if failed then StatusFail else StatusPass), tt_DurationMS = ms\<rparr> # ts"
      using Cons.prems Some m by (auto split: if_splits option.splits sum.splits)
    from Cons.IH [OF ts(2)] ts(1,3) show ?thesis by auto
  qed
qed simp

lemma add_scheduled_distinct: "add_scheduled tests names = Inr r \<Longrightarrow> distinct tests \<Longrightarrow> distinct r"
  by (induction names arbitrary: tests) (auto split: if_splits)

lemma parse_schedule_distinct: "parse_schedule tests lines = Inr r \<Longrightarrow> distinct tests \<Longrightarrow> distinct r"
  by (induction lines arbitrary: tests) (auto simp: Let_def dest: add_scheduled_distinct split: if_splits sum.splits)

lemma status_by_name_lookup:
  assumes "distinct (map tt_Name ts)"
  shows "map_of (foldl (\<lambda>m t. AList.update (tt_Name t) (tt_Status t) m) m ts) n = Some s
    \<longleftrightarrow> (\<exists>t \<in> set ts. tt_Name t = n \<and> tt_Status t = s) \<or> n \<notin> tt_Name ` set ts \<and> map_of m n = Some s"
  using assms
proof (induction ts arbitrary: m)
  case (Cons t ts)
  then show ?case by (auto simp: update_conv')
qed simp

lemma has_status_lookup: "distinct (map tt_Name (cr_Tests r)) \<Longrightarrow> map_of (status_by_name r) n = Some s \<longleftrightarrow> has_status r n s"
  using status_by_name_lookup [of "cr_Tests r" "[]" n s] by (simp add: status_by_name_def has_status_def)


lemma known_status:
  assumes "\<forall>t \<in> set (cr_Tests r). tt_Status t \<in> {StatusPass, StatusFail, StatusMissing}" and "has_status r n s"
  shows "s = StatusPass \<or> s = StatusFail \<or> s = StatusMissing"
  using assms by (auto simp: has_status_def)

lemma tool_report_parts:
  assumes "tool_report rx sha i = Inr t"
  obtains r0 scheduled r1 regressions where
    "ParseTAP (in_log i) (in_version i) (in_now i) = Inr r0" "ParseSchedule (in_schedule i) = Inr scheduled"
    "ValidateCompleteness r0 scheduled = (tp_complete t, r1)" "read_crashes i r1 = Inr (tp_results t)"
    "compare_baseline i (tp_results t) = Inr (tp_baselineCompared t, regressions)"
    "check_expected rx sha i (tp_results t) = Inr (tp_verifications t)"
    "tp_unexpected t = filter (\<lambda>r. rg_Name r \<notin> set (verified_names (tp_verifications t))) regressions"
  using assms
  by (auto simp: tool_report_def SeparateExpectedRegressions_def comp_def split: sum.splits prod.splits if_splits)

text \<open>The results compared with the baseline: one entry per test, a known status each, the release that was asked for.\<close>

lemma complete_results:
  assumes "ParseTAP (in_log i) (in_version i) (in_now i) = Inr r0" and "ParseSchedule (in_schedule i) = Inr scheduled"
    and "ValidateCompleteness r0 scheduled = (whole, r1)" and "read_crashes i r1 = Inr r"
  shows "distinct (map tt_Name (cr_Tests r))" and "\<forall>t \<in> set (cr_Tests r). tt_Status t \<in> {StatusPass, StatusFail, StatusMissing}"
    and "cr_PostgreSQLVersion r = in_version i" and "whole \<longleftrightarrow> cr_MissingTests r = []"
proof -
  have r0: "parse_tap [] (fst (in_log i)) = Inr (cr_Tests r0)" "cr_PostgreSQLVersion r0 = in_version i"
    using assms(1) by (auto simp: ParseTAP_def recount_def split: sum.splits option.splits if_splits)
  have "parse_schedule [] (fst (in_schedule i)) = Inr scheduled"
    using assms(2) by (auto simp: ParseSchedule_def split: sum.splits option.splits if_splits)
  hence scheduled: "distinct scheduled" by (rule parse_schedule_distinct) simp
  obtain n where r: "r = r1 \<or> r = r1\<lparr>cr_ProxyCrashes := n\<rparr>"
    using assms(4) by (cases "in_proxyLog i"; cases "CountProxyCrashes (the (in_proxyLog i))") (auto simp: read_crashes_def)
  define missing where "missing = filter (\<lambda>name. name \<notin> tt_Name ` set (cr_Tests r0)) scheduled"
  have r1: "cr_Tests r1 = cr_Tests r0 @ map (\<lambda>name. \<lparr>tt_Name = name, tt_Status = StatusMissing, tt_DurationMS = 0\<rparr>) missing"
    "cr_MissingTests r1 = missing" "whole \<longleftrightarrow> missing = []" "cr_PostgreSQLVersion r1 = cr_PostgreSQLVersion r0"
    using assms(3) by (auto simp: ValidateCompleteness_def Let_def recount_def missing_def)
  note parsed = parse_tap_names [OF r0(1)]
  show "distinct (map tt_Name (cr_Tests r))"
    using r r1(1) parsed scheduled by (auto simp: missing_def comp_def)
  show "\<forall>t \<in> set (cr_Tests r). tt_Status t \<in> {StatusPass, StatusFail, StatusMissing}"
    using r r1(1) parsed by (auto simp: image_iff)
  show "cr_PostgreSQLVersion r = in_version i" using r r1(4) r0(2) by auto
  show "whole \<longleftrightarrow> cr_MissingTests r = []" using r r1(2,3) by auto
qed

lemma verify_difference_of [simp]: "dv_Difference (verify_difference rx sha outputs statuses d) = d"
  by (simp add: verify_difference_def Let_def split: option.splits sum.splits)

lemma verify_difference_exact:
  assumes "distinct (map tt_Name (cr_Tests r))" and "\<forall>t \<in> set (cr_Tests r). tt_Status t \<in> {StatusPass, StatusFail, StatusMissing}"
    and "in_outputs i = Some outputs"
  shows "dv_Matched (verify_difference rx sha outputs (status_by_name r) d) \<longleftrightarrow> exact_difference rx sha i r d"
proof (cases "map_of (status_by_name r) (xd_Test d)")
  case None
  then show ?thesis using has_status_lookup [OF assms(1), of "xd_Test d" StatusFail]
    by (auto simp: verify_difference_def exact_difference_def)
next
  case (Some s)
  have "has_status r (xd_Test d) s" using Some has_status_lookup [OF assms(1)] by blast
  hence s: "s = StatusPass \<or> s = StatusFail \<or> s = StatusMissing" by (rule known_status [OF assms(2)])
  have fail: "has_status r (xd_Test d) StatusFail \<longleftrightarrow> s = StatusFail" using Some has_status_lookup [OF assms(1), of "xd_Test d" StatusFail] by auto
  show ?thesis using s fail Some assms(3)
    by (auto simp: verify_difference_def exact_difference_def Let_def split: sum.splits)
qed

lemma regression_names:
  assumes "distinct (map tt_Name (cr_Tests r))"
  shows "rg_Name ` set (FindRegressions b r) = {n. has_status b n StatusPass \<and> \<not> has_status r n StatusPass}
    \<union> (if cr_ProxyCrashes b = 0 \<and> cr_ProxyCrashes r > 0 then {''Hamstergres Proxy process''} else {})"
proof -
  define now where "now n = (case map_of (status_by_name r) n of None \<Rightarrow> StatusMissing | Some s \<Rightarrow> s)" for n
  have lost: "has_status r n StatusPass \<longleftrightarrow> now n = StatusPass" for n
    using has_status_lookup [OF assms, of n StatusPass] by (auto simp: now_def split: option.splits)
  have "rg_Name ` set (FindRegressions b r) = tt_Name ` {t \<in> set (cr_Tests b). tt_Status t = StatusPass \<and> now (tt_Name t) \<noteq> StatusPass}
    \<union> (if cr_ProxyCrashes b = 0 \<and> cr_ProxyCrashes r > 0 then {''Hamstergres Proxy process''} else {})"
    by (force simp: FindRegressions_def Let_def now_def image_iff split: if_splits)
  thus ?thesis by (auto simp: lost has_status_def [of b])
qed

lemma policy_names:
  assumes "check_differences rx seen ds = None" and "d \<in> set ds"
  shows "testNamePattern (xd_Test d)"
  using assms by (induction ds arbitrary: seen) (auto split: if_splits option.splits)

lemma process_is_no_test: "\<not> testNamePattern ''Hamstergres Proxy process''"
  by code_simp

lemma checked_policy:
  assumes "check_expected rx sha i r = Inr vs"
  shows "policy i = [] \<and> vs = [] \<or> (\<exists>outputs. in_outputs i = Some outputs \<and>
      vs = sort_key (\<lambda>v. xd_Test (dv_Difference v)) (map (verify_difference rx sha outputs (status_by_name r)) (policy i)))"
    and "d \<in> set (policy i) \<Longrightarrow> testNamePattern (xd_Test d)"
  using assms
  by (auto simp: check_expected_def ReadExpectedDifferences_def VerifyExpectedDifferences_def policy_def dest: policy_names
    split: option.splits sum.splits if_splits)

lemma verified_policy:
  assumes "check_expected rx sha i r = Inr vs"
    and "distinct (map tt_Name (cr_Tests r))" and "\<forall>t \<in> set (cr_Tests r). tt_Status t \<in> {StatusPass, StatusFail, StatusMissing}"
  shows "DifferenceVerificationProblems vs = [] \<longleftrightarrow> (\<forall>d \<in> set (policy i). exact_difference rx sha i r d)"
    and "DifferenceVerificationProblems vs = [] \<Longrightarrow> set (verified_names vs) = xd_Test ` set (policy i)"
proof -
  note vs = checked_policy(1) [OF assms(1)] and exact = verify_difference_exact [OF assms(2,3)]
  show "DifferenceVerificationProblems vs = [] \<longleftrightarrow> (\<forall>d \<in> set (policy i). exact_difference rx sha i r d)"
    using vs exact by (auto simp: DifferenceVerificationProblems_def filter_empty_conv)
  show "set (verified_names vs) = xd_Test ` set (policy i)" if "DifferenceVerificationProblems vs = []"
  proof -
    have "filter dv_Matched vs = vs" using that by (simp add: DifferenceVerificationProblems_def filter_empty_conv)
    thus ?thesis using vs by (auto simp: verified_names_def image_image)
  qed
qed

lemma compared_baseline:
  assumes "compare_baseline i r = Inr (compared, regressions)" and "cr_PostgreSQLVersion r = in_version i"
  shows "regressions = (case comparable i of None \<Rightarrow> [] | Some b \<Rightarrow> FindRegressions b r)"
  using assms by (auto simp: compare_baseline_def comparable_def ReadResults_def split: option.splits sum.splits if_splits)


text \<open>Two tests ran: \<^verbatim>\<open>boolean\<close> still passes, \<^verbatim>\<open>char\<close> now differs as reviewed.\<close>

definition sample_baseline :: Results where
  "sample_baseline = \<lparr>cr_FormatVersion = 1, cr_PostgreSQLVersion = ''18'', cr_GeneratedAt = 0, cr_ExpectedTests = 2, cr_PassedTests = 2,
     cr_FailedTests = 0, cr_MissingTests = [], cr_ProxyCrashes = 0,
     cr_Tests = [\<lparr>tt_Name = ''boolean'', tt_Status = StatusPass, tt_DurationMS = 9\<rparr>, \<lparr>tt_Name = ''char'', tt_Status = StatusPass, tt_DurationMS = 4\<rparr>]\<rparr>"

definition sample_difference :: ExpectedDifference where
  "sample_difference = \<lparr>xd_Test = ''char'', xd_OutputSHA256 = replicate 64 CHR ''0'', xd_Reason = ''padding'', xd_Normalizations = []\<rparr>"

definition sample_input :: tool_input where
  "sample_input = \<lparr>in_log = ([''ok 1 - boolean 10 ms'', ''not ok 2 - char 5 ms''], None), in_schedule = ([''test: boolean char''], None),
     in_version = ''18'', in_now = 0, in_proxyLog = Some ([''started''], None), in_baseline = Some (Some sample_baseline),
     in_expected = Some (Some \<lparr>xs_FormatVersion = 1, xs_PostgreSQLVersion = ''18'', xs_Differences = Some [sample_difference]\<rparr>),
     in_outputs = Some (\<lambda>_. Inr ''output''), in_writable = True\<rparr>"

definition sample_regexps :: regexps where
  "sample_regexps = \<lparr>rx_valid = (\<lambda>_. True), rx_count = (\<lambda>_ _. 0), rx_replace = (\<lambda>_ s _. s)\<rparr>"


end
