(* ===== verification/Copy_Codec.thy ===== *)
theory Copy_Codec
  imports Copy_Routing
begin

text \<open>
  Round trips of the COPY row decoders: what PostgreSQL writes for a row, the parsers of
  \<^verbatim>\<open>internal/copyrouter/copy.go\<close> read back, and binary keys decode to the text the router hashes.
\<close>

section \<open>Text rows\<close>

text \<open>The text encoding of PostgreSQL: control characters by letter, backslash and delimiter quoted.\<close>

definition escape_char :: "char \<Rightarrow> char \<Rightarrow> bytes" where
  "escape_char d c =
     (if c = CHR 0x08 then [BACKSLASH, CHR ''b''] else if c = CHR 0x0C then [BACKSLASH, CHR ''f'']
      else if c = LF then [BACKSLASH, CHR ''n''] else if c = CR then [BACKSLASH, CHR ''r'']
      else if c = TAB then [BACKSLASH, CHR ''t''] else if c = CHR 0x0B then [BACKSLASH, CHR ''v'']
      else if c = BACKSLASH \<or> c = d then [BACKSLASH, c] else [c])"

definition encode_text :: "char \<Rightarrow> bytes \<Rightarrow> bytes" where
  "encode_text d v = concat (map (escape_char d) v)"

definition text_null :: bytes where
  "text_null = [BACKSLASH, CHR ''N'']"

definition text_delimiter_ok :: "char \<Rightarrow> bool" where
  "text_delimiter_ok d = (d \<noteq> BACKSLASH \<and> d \<noteq> LF \<and> d \<noteq> CR \<and> d \<noteq> CHR ''x'' \<and> d \<noteq> CHR ''N''
     \<and> \<not> is_octal d \<and> text_escape d = None)"

fun join_fields :: "char \<Rightarrow> bytes list \<Rightarrow> bytes" where
  "join_fields d [] = []"
| "join_fields d [f] = f"
| "join_fields d (f # fs) = f @ d # join_fields d fs"

definition encode_text_field :: "char \<Rightarrow> bytes option \<Rightarrow> bytes" where
  "encode_text_field d f = (case f of None \<Rightarrow> text_null | Some v \<Rightarrow> encode_text d v)"

definition text_row :: "char \<Rightarrow> bytes option list \<Rightarrow> bytes" where
  "text_row d fs = join_fields d (map (encode_text_field d) fs)"

definition decoded :: "bytes option \<Rightarrow> copyField" where
  "decoded f = (case f of None \<Rightarrow> \<lparr>cf_value = [], cf_null = True, cf_quoted = False\<rparr>
     | Some v \<Rightarrow> \<lparr>cf_value = v, cf_null = False, cf_quoted = False\<rparr>)"

lemma decode_plain: "c \<noteq> BACKSLASH \<Longrightarrow> decodeTextField (c # rest) = map_sum (\<lambda>e. e) (\<lambda>v. c # v) (decodeTextField rest)"
  by (simp add: decodeTextField.simps [of "c # rest"])

lemma decode_letter:
  "text_escape e = Some v \<Longrightarrow> decodeTextField (BACKSLASH # e # rest) = map_sum (\<lambda>e. e) (\<lambda>vs. v # vs) (decodeTextField rest)"
  by (simp add: decodeTextField.simps [of "BACKSLASH # e # rest"])

lemma decode_quoted:
  "text_escape e = None \<Longrightarrow> e \<noteq> CHR ''x'' \<Longrightarrow> \<not> is_octal e \<Longrightarrow>
     decodeTextField (BACKSLASH # e # rest) = map_sum (\<lambda>e. e) (\<lambda>vs. e # vs) (decodeTextField rest)"
  by (simp add: decodeTextField.simps [of "BACKSLASH # e # rest"])

lemma text_escape_letters:
  "text_escape CHR ''b'' = Some CHR 0x08" "text_escape CHR ''f'' = Some CHR 0x0C" "text_escape CHR ''n'' = Some LF"
  "text_escape CHR ''r'' = Some CR" "text_escape CHR ''t'' = Some TAB" "text_escape CHR ''v'' = Some CHR 0x0B"
  "text_escape BACKSLASH = None" "BACKSLASH \<noteq> CHR ''x''" "\<not> is_octal BACKSLASH"
  by (simp_all add: text_escape_def is_octal_def in_range_def BACKSLASH_def)

lemma decode_escape:
  assumes "text_delimiter_ok d"
  shows "decodeTextField (escape_char d c @ rest) = map_sum (\<lambda>e. e) (\<lambda>v. c # v) (decodeTextField rest)"
  using assms unfolding escape_char_def text_delimiter_ok_def
  by (simp add: decode_letter decode_quoted decode_plain text_escape_letters)

lemma decode_encode: "text_delimiter_ok d \<Longrightarrow> decodeTextField (encode_text d v) = Inr v"
  by (induction v) (simp_all add: encode_text_def decode_escape decodeTextField.simps [of "[]"])

definition even_tail :: "bytes \<Rightarrow> bool" where
  "even_tail f = (length (takeWhile (\<lambda>x. x = BACKSLASH) (rev f)) mod 2 = 0)"

lemma even_tail_snoc: "even_tail (f @ [c]) = (if c = BACKSLASH then \<not> even_tail f else True)"
  by (auto simp: even_tail_def mod_Suc)

lemma split_plain: "c \<noteq> d \<Longrightarrow> split_text_fields d field (c # rest) = split_text_fields d (field @ [c]) rest"
  by simp

lemma split_escaped:
  "d \<noteq> BACKSLASH \<Longrightarrow> even_tail field \<Longrightarrow>
     split_text_fields d field (BACKSLASH # c # rest) = split_text_fields d (field @ [BACKSLASH, c]) rest
     \<and> even_tail (field @ [BACKSLASH, c])"
  using even_tail_snoc [of field BACKSLASH] even_tail_snoc [of "field @ [BACKSLASH]" c]
  by (auto simp: even_tail_def)

lemma split_escape_char:
  assumes "d \<noteq> BACKSLASH" and "even_tail field"
  shows "split_text_fields d field (escape_char d c @ rest) = split_text_fields d (field @ escape_char d c) rest
    \<and> even_tail (field @ escape_char d c)"
proof (cases "\<exists>e. escape_char d c = [BACKSLASH, e]")
  case True
  with split_escaped [OF assms] show ?thesis by auto
next
  case False
  then have "escape_char d c = [c]" "c \<noteq> d" "c \<noteq> BACKSLASH" by (auto simp: escape_char_def split: if_splits)
  with even_tail_snoc [of field c] show ?thesis by simp
qed

lemma split_encode:
  "d \<noteq> BACKSLASH \<Longrightarrow> even_tail field \<Longrightarrow>
     split_text_fields d field (encode_text d v @ rest) = split_text_fields d (field @ encode_text d v) rest
     \<and> even_tail (field @ encode_text d v)"
proof (induction v arbitrary: field)
  case (Cons c v)
  from split_escape_char [OF Cons.prems, of c "encode_text d v @ rest"] Cons.IH [OF Cons.prems(1), of "field @ escape_char d c"]
  show ?case by (simp add: encode_text_def)
qed (simp add: encode_text_def)

lemma split_field:
  assumes "text_delimiter_ok d"
  shows "split_text_fields d [] (encode_text_field d f @ rest) = split_text_fields d (encode_text_field d f) rest
    \<and> even_tail (encode_text_field d f)"
proof (cases f)
  case None
  from assms have "CHR ''N'' \<noteq> d" "d \<noteq> BACKSLASH" by (auto simp: text_delimiter_ok_def)
  with split_escaped [of d "[]" "CHR ''N''" rest] None show ?thesis
    by (simp add: encode_text_field_def text_null_def even_tail_def)
next
  case (Some v)
  with assms split_encode [of d "[]" v rest] show ?thesis
    by (simp add: encode_text_field_def text_delimiter_ok_def even_tail_def)
qed

lemma split_row:
  assumes "text_delimiter_ok d"
  shows "fs \<noteq> [] \<Longrightarrow> split_text_fields d [] (text_row d fs) = map (encode_text_field d) fs"
proof (induction fs)
  case (Cons f fs)
  show ?case
  proof (cases fs)
    case Nil
    with split_field [OF assms, of f "[]"] show ?thesis by (simp add: text_row_def)
  next
    case c: (Cons g gs)
    have "text_row d (f # fs) = encode_text_field d f @ d # text_row d fs" using c by (simp add: text_row_def)
    moreover have "split_text_fields d [] (encode_text_field d f @ d # text_row d fs)
        = encode_text_field d f # split_text_fields d [] (text_row d fs)"
      using split_field [OF assms, of f "d # text_row d fs"] by (simp add: even_tail_def)
    ultimately show ?thesis using Cons.IH c by simp
  qed
qed simp

lemma encode_not_null:
  assumes "text_delimiter_ok d"
  shows "encode_text d v \<noteq> text_null"
proof (cases v)
  case (Cons c w)
  with assms show ?thesis
    by (auto simp: encode_text_def escape_char_def text_null_def text_delimiter_ok_def BACKSLASH_def split: if_splits)
qed (simp add: encode_text_def text_null_def)

lemma decode_row:
  "text_delimiter_ok d \<Longrightarrow> decode_fields text_null (map (encode_text_field d) fs) = Inr (map decoded fs)"
  by (induction fs) (auto simp: encode_text_field_def decoded_def decode_encode encode_not_null split: option.splits)

lemma escape_char_set: "d \<noteq> LF \<Longrightarrow> d \<noteq> CR \<Longrightarrow> LF \<notin> set (escape_char d c) \<and> CR \<notin> set (escape_char d c)"
  by (auto simp: escape_char_def BACKSLASH_def)

lemma field_set: "text_delimiter_ok d \<Longrightarrow> LF \<notin> set (encode_text_field d f) \<and> CR \<notin> set (encode_text_field d f)"
  using escape_char_set [of d]
  by (auto simp: encode_text_field_def encode_text_def text_null_def text_delimiter_ok_def BACKSLASH_def split: option.splits)

lemma join_set: "set (join_fields d fs) \<subseteq> {d} \<union> (\<Union>f\<in>set fs. set f)"
  by (induction d fs rule: join_fields.induct) auto

lemma text_row_set: "text_delimiter_ok d \<Longrightarrow> LF \<notin> set (text_row d fs) \<and> CR \<notin> set (text_row d fs)"
  using join_set [of d "map (encode_text_field d) fs"] field_set [of d]
  unfolding text_row_def by (auto simp: text_delimiter_ok_def)

lemma index_byte_append: "c \<notin> set xs \<Longrightarrow> index_byte (xs @ c # ys) c = Some (length xs)"
  by (induction xs) auto

section \<open>CSV rows\<close>

definition csv_plan_ok :: "CopyPlan \<Rightarrow> bool" where
  "csv_plan_ok plan = (cpl_Null plan = [] \<and> cpl_Delimiter plan \<noteq> cpl_Quote plan \<and> cpl_Delimiter plan \<noteq> cpl_Escape plan
     \<and> cpl_Delimiter plan \<noteq> LF \<and> cpl_Quote plan \<notin> {LF, CR} \<and> cpl_Escape plan \<notin> {LF, CR})"

definition csv_body :: "CopyPlan \<Rightarrow> bytes \<Rightarrow> bytes" where
  "csv_body plan v = concat (map (\<lambda>c. if c = cpl_Quote plan \<or> c = cpl_Escape plan then [cpl_Escape plan, c] else [c]) v)"

definition encode_csv_field :: "CopyPlan \<Rightarrow> bytes option \<Rightarrow> bytes" where
  "encode_csv_field plan f = (case f of None \<Rightarrow> [] | Some v \<Rightarrow> cpl_Quote plan # csv_body plan v @ [cpl_Quote plan])"

definition csv_row :: "CopyPlan \<Rightarrow> bytes option list \<Rightarrow> bytes" where
  "csv_row plan fs = join_fields (cpl_Delimiter plan) (map (encode_csv_field plan) fs)"

definition csv_decoded :: "bytes option \<Rightarrow> copyField" where
  "csv_decoded f = (case f of None \<Rightarrow> \<lparr>cf_value = [], cf_null = True, cf_quoted = False\<rparr>
     | Some v \<Rightarrow> \<lparr>cf_value = v, cf_null = False, cf_quoted = True\<rparr>)"

text \<open>What may follow a quoted field: nothing, a delimiter or a line end.\<close>

definition after_field :: "CopyPlan \<Rightarrow> bytes \<Rightarrow> bool" where
  "after_field plan rest = (rest = [] \<or> hd rest \<noteq> cpl_Quote plan \<and> hd rest \<noteq> cpl_Escape plan)"

lemma csv_quoted_body:
  "after_field plan rest \<Longrightarrow> csv_quoted plan acc (csv_body plan v @ cpl_Quote plan # rest) = Some (acc @ v, rest)"
proof (induction v arbitrary: acc)
  case Nil
  then show ?case by (cases rest) (auto simp: csv_body_def after_field_def)
next
  case (Cons c v)
  obtain e t where t: "csv_body plan v @ cpl_Quote plan # rest = e # t"
    by (cases "csv_body plan v @ cpl_Quote plan # rest") auto
  from Cons.IH [OF Cons.prems, of "acc @ [c]"] t show ?case by (auto simp: csv_body_def)
qed

lemma csv_record_end_body:
  "after_field plan rest \<Longrightarrow> csv_record_end plan True f i (csv_body plan v @ cpl_Quote plan # rest)
     = csv_record_end plan False f (i + length (csv_body plan v) + 1) rest"
proof (induction v arbitrary: i)
  case Nil
  then show ?case by (cases rest) (auto simp: csv_body_def after_field_def)
next
  case (Cons c v)
  obtain e t where t: "csv_body plan v @ cpl_Quote plan # rest = e # t"
    by (cases "csv_body plan v @ cpl_Quote plan # rest") auto
  from Cons.IH [OF Cons.prems] t show ?case
    by (auto simp: csv_body_def simp del: csv_record_end.simps(2) simp add: csv_record_end.simps(2) [of _ True])
qed

lemma csv_field_encoded:
  assumes "csv_plan_ok plan" and "rest = [] \<or> hd rest = cpl_Delimiter plan"
  shows "csv_field plan (encode_csv_field plan f @ rest) = Inr (csv_decoded f, rest)"
proof (cases f)
  case None
  with assms show ?thesis
    by (cases rest) (auto simp: csv_field_def encode_csv_field_def csv_decoded_def csv_plan_ok_def)
next
  case (Some v)
  from assms have "after_field plan rest" by (auto simp: after_field_def csv_plan_ok_def)
  with Some assms csv_quoted_body [of plan rest "[]" v] show ?thesis
    by (auto simp: csv_field_def encode_csv_field_def csv_decoded_def)
qed

lemma csv_row_Cons:
  "csv_row plan (f # g # gs) = encode_csv_field plan f @ cpl_Delimiter plan # csv_row plan (g # gs)"
  by (simp add: csv_row_def)

lemma encode_csv_field_empty: "encode_csv_field plan f = [] \<longleftrightarrow> f = None"
  by (simp add: encode_csv_field_def split: option.split)

lemma csv_fields_row:
  assumes "csv_plan_ok plan"
  shows "fs \<noteq> [] \<Longrightarrow> csv_fields plan (csv_row plan fs) = Inr (map csv_decoded fs)"
proof (induction fs)
  case (Cons f fs)
  show ?case
  proof (cases fs)
    case Nil
    with csv_field_encoded [OF assms, of "[]" f] show ?thesis by (simp add: csv_fields.simps csv_row_def)
  next
    case c: (Cons g gs)
    let ?rest = "csv_row plan fs"
    have h: "csv_field plan (csv_row plan (f # fs)) = Inr (csv_decoded f, cpl_Delimiter plan # ?rest)"
      using csv_field_encoded [OF assms, of "cpl_Delimiter plan # ?rest" f] c by (simp add: csv_row_Cons)
    show ?thesis
    proof (cases "?rest = []")
      case True
      then have "gs = []" using c by (cases gs) (auto simp: csv_row_def)
      with True c have "fs = [None]" by (simp add: csv_row_def encode_csv_field_empty)
      with h True assms show ?thesis
        by (simp add: csv_fields.simps [of plan "csv_row plan [f, None]"] csv_decoded_def csv_plan_ok_def)
    next
      case False
      with h Cons.IH c show ?thesis by (simp add: csv_fields.simps [of plan "csv_row plan (f # g # gs)"])
    qed
  qed
qed simp

lemma csv_record_end_field:
  assumes "csv_plan_ok plan" and "rest \<noteq> []" and "hd rest = cpl_Delimiter plan \<or> hd rest = LF"
  shows "\<exists>b. csv_record_end plan False True i (encode_csv_field plan f @ rest)
    = csv_record_end plan False b (i + length (encode_csv_field plan f)) rest"
proof (cases f)
  case (Some v)
  from assms have "after_field plan rest" by (auto simp: after_field_def csv_plan_ok_def)
  with Some csv_record_end_body [of plan rest False "i + 1" v] show ?thesis by (auto simp: encode_csv_field_def)
qed (auto simp: encode_csv_field_def)

lemma csv_record_end_row:
  assumes "csv_plan_ok plan"
  shows "fs \<noteq> [] \<Longrightarrow> csv_record_end plan False True i (csv_row plan fs @ LF # rest) = (i + length (csv_row plan fs) + 1, False)"
proof (induction fs arbitrary: i)
  case (Cons f fs)
  from assms have d: "cpl_Delimiter plan \<noteq> LF" "LF \<noteq> cpl_Quote plan" "cpl_Delimiter plan \<noteq> cpl_Quote plan"
    by (auto simp: csv_plan_ok_def)
  show ?case
  proof (cases fs)
    case Nil
    from csv_record_end_field [OF assms, of "LF # rest" i f] Nil d show ?thesis by (auto simp: csv_row_def)
  next
    case c: (Cons g gs)
    from csv_record_end_field [OF assms, of "cpl_Delimiter plan # csv_row plan fs @ LF # rest" i f] d
    obtain b where "csv_record_end plan False True i (csv_row plan (f # fs) @ LF # rest)
      = csv_record_end plan False b (i + length (encode_csv_field plan f)) (cpl_Delimiter plan # csv_row plan fs @ LF # rest)"
      using c by (auto simp: csv_row_Cons)
    with d Cons.IH [of "i + length (encode_csv_field plan f) + 1"] c show ?thesis by (simp add: csv_row_Cons)
  qed
qed simp

section \<open>Binary keys\<close>

text \<open>The binary representation of an integer: \<open>k\<close> bytes of two's complement, most significant first.\<close>

fun int_bytes :: "nat \<Rightarrow> int \<Rightarrow> bytes" where
  "int_bytes 0 n = []"
| "int_bytes (Suc k) n = int_bytes k (n div 256) @ [char_of (nat (n mod 256))]"

lemma length_int_bytes [simp]: "length (int_bytes k n) = k"
  by (induction k arbitrary: n) auto

lemma be_val_snoc: "be_val (b @ [c]) = 256 * be_val b + int (byte_val c)"
  by (simp add: be_val_def)

lemma be_val_int_bytes: "be_val (int_bytes k n) = n mod 256 ^ k"
proof (induction k arbitrary: n)
  case (Suc k)
  have "n mod (256 * 256 ^ k) = 256 * (n div 256 mod 256 ^ k) + n mod 256"
    by (rule zmod_zmult2_eq) simp
  with Suc show ?case by (simp add: be_val_snoc)
qed (simp add: be_val_def)

lemma to_signed_mod:
  assumes "0 < bits" and "- (2 ^ (bits - 1)) \<le> n" and "n < 2 ^ (bits - 1)"
  shows "to_signed bits (n mod 2 ^ bits) = n"
proof -
  obtain b where b: "bits = Suc b" using assms(1) by (cases bits) auto
  show ?thesis
  proof (cases "0 \<le> n")
    case True
    with assms(3) b have "n mod 2 ^ bits = n" by (intro mod_pos_pos_trivial) auto
    with assms(3) show ?thesis by (simp add: to_signed_def)
  next
    case False
    have "(n + 2 ^ bits) mod 2 ^ bits = n + 2 ^ bits"
      using False assms(2) b by (intro mod_pos_pos_trivial) auto
    then have "n mod 2 ^ bits = n + 2 ^ bits" by simp
    with assms(2) b show ?thesis by (simp add: to_signed_def)
  qed
qed

definition int_type_bytes :: "string \<Rightarrow> nat option" where
  "int_type_bytes ty =
     (if ty \<in> set [''int2'', ''smallint'', ''smallserial'', ''serial2''] then Some 2
      else if ty \<in> set [''int4'', ''int'', ''integer'', ''serial'', ''serial4''] then Some 4
      else if ty \<in> set [''int8'', ''bigint'', ''bigserial'', ''serial8''] then Some 8 else None)"

lemma signed_bytes:
  "- (2 ^ 15) \<le> n \<Longrightarrow> n < 2 ^ 15 \<Longrightarrow> to_signed 16 (be_val (int_bytes 2 n)) = n"
  "- (2 ^ 31) \<le> n \<Longrightarrow> n < 2 ^ 31 \<Longrightarrow> to_signed 32 (be_val (int_bytes 4 n)) = n"
  "- (2 ^ 63) \<le> n \<Longrightarrow> n < 2 ^ 63 \<Longrightarrow> to_signed 64 (be_val (int_bytes 8 n)) = n"
  using to_signed_mod [of 16 n] to_signed_mod [of 32 n] to_signed_mod [of 64 n] unfolding be_val_int_bytes
  by simp_all

section \<open>Properties\<close>

text \<open>Text rows round-trip: a row written in PostgreSQL's text encoding, with any bytes in its
  fields, is framed as one record and decoded to exactly its fields and NULLs.\<close>

theorem text_row_round_trip:
  assumes "text_delimiter_ok (cpl_Delimiter plan)" and "cpl_Null plan = text_null" and "cpl_Format plan = FormatText"
    and "fs \<noteq> []" and "row = text_row (cpl_Delimiter plan) fs @ [LF]"
  shows "delimitedRecordEnd (row @ rest) plan = (length row, False)
    \<and> parseTextRecord (trimRecordTerminator row) plan = Inr (map decoded fs)"
proof
  let ?d = "cpl_Delimiter plan"
  note s = text_row_set [OF assms(1), of fs]
  show "delimitedRecordEnd (row @ rest) plan = (length row, False)"
    using index_byte_append [of LF "text_row ?d fs" rest] s assms(3,5) by (simp add: delimitedRecordEnd_def)
  have "trimRecordTerminator row = text_row ?d fs"
    using s assms(5) by (auto simp: trimRecordTerminator_def Let_def dest: last_in_set)
  then show "parseTextRecord (trimRecordTerminator row) plan = Inr (map decoded fs)"
    using split_row [OF assms(1,4)] decode_row [OF assms(1), of fs] assms(2) by (simp add: parseTextRecord_def)
qed

definition sample_text_plan :: CopyPlan where
  "sample_text_plan = sample_plan\<lparr>cpl_Format := FormatText, cpl_Delimiter := TAB, cpl_Null := text_null\<rparr>"

theorem text_row_round_trip_witness:
  "parseTextRecord (''a'' @ [BACKSLASH, CHR ''t'', BACKSLASH, BACKSLASH, TAB, BACKSLASH, CHR ''N'']) sample_text_plan
   = Inr (map decoded [Some [CHR ''a'', TAB, BACKSLASH], None])"
proof -
  let ?fs = "[Some [CHR ''a'', TAB, BACKSLASH], None]"
  have h: "text_delimiter_ok (cpl_Delimiter sample_text_plan)" "cpl_Null sample_text_plan = text_null"
    "cpl_Format sample_text_plan = FormatText"
    "trimRecordTerminator (text_row (cpl_Delimiter sample_text_plan) ?fs @ [LF])
       = ''a'' @ [BACKSLASH, CHR ''t'', BACKSLASH, BACKSLASH, TAB, BACKSLASH, CHR ''N'']" by code_simp+
  from text_row_round_trip [OF h(1-3) _ refl, of ?fs "[]"] h(4) show ?thesis by simp
qed

text \<open>CSV rows round-trip: a row of quoted fields, which may hold delimiters, quotes and line
  ends, and of unquoted NULLs is framed as one record and decoded to exactly its fields.\<close>

theorem csv_row_round_trip:
  assumes "csv_plan_ok plan" and "cpl_Format plan = FormatCSV" and "fs \<noteq> []"
  shows "delimitedRecordEnd (csv_row plan fs @ [LF] @ rest) plan = (length (csv_row plan fs @ [LF]), False)
    \<and> parseCSVRecord (csv_row plan fs) plan = Inr (map csv_decoded fs)"
  using csv_record_end_row [OF assms(1,3), of 0 rest] csv_fields_row [OF assms(1,3)] assms(2)
  by (simp add: delimitedRecordEnd_def FormatText_def FormatCSV_def parseCSVRecord_def)

theorem csv_row_round_trip_witness:
  "parseCSVRecord ([CHR 0x22] @ ''a,'' @ [CHR 0x22, CHR 0x22, LF, CHR 0x22, CHR '','']) sample_plan
   = Inr (map csv_decoded [Some (''a,'' @ [CHR 0x22, LF]), None])"
proof -
  let ?fs = "[Some (''a,'' @ [CHR 0x22, LF]), None]"
  have h: "csv_plan_ok sample_plan" "cpl_Format sample_plan = FormatCSV"
    "csv_row sample_plan ?fs = [CHR 0x22] @ ''a,'' @ [CHR 0x22, CHR 0x22, LF, CHR 0x22, CHR '','']" by code_simp+
  from csv_row_round_trip [OF h(1,2), of ?fs "[]"] h(3) show ?thesis by simp
qed

text \<open>Binary integer keys decode to the text of the number, at every width and up to both ends of
  its range, so a binary COPY row is hashed like the same row in text format or in an INSERT.\<close>

theorem binary_integer_key_round_trip:
  assumes "int_type_bytes (normalizedType ty) = Some k" and "- (2 ^ (8 * k - 1)) \<le> n" and "n < 2 ^ (8 * k - 1)"
  shows "decodeBinaryKey fb (int_bytes k n) ty = Inr (show_int n)"
proof -
  let ?t = "normalizedType ty"
  note ks = assms(1) [unfolded int_type_bytes_def]
  consider (two) "?t \<in> set [''int2'', ''smallint'', ''smallserial'', ''serial2'']" "k = 2"
    | (four) "?t \<notin> set [''int2'', ''smallint'', ''smallserial'', ''serial2'']"
        "?t \<in> set [''int4'', ''int'', ''integer'', ''serial'', ''serial4'']" "k = 4"
    | (eight) "?t \<notin> set [''int2'', ''smallint'', ''smallserial'', ''serial2'']"
        "?t \<notin> set [''int4'', ''int'', ''integer'', ''serial'', ''serial4'']"
        "?t \<in> set [''int8'', ''bigint'', ''bigserial'', ''serial8'']" "k = 8"
    using ks by (simp del: list.set split: if_splits)
  then show ?thesis
    by cases (use assms(2,3) in \<open>simp_all add: decodeBinaryKey_def Let_def signed_bytes del: list.set\<close>)
qed

theorem binary_integer_key_round_trip_witness:
  "decodeBinaryKey (\<lambda>b n. []) [CHR 0xFF, CHR 0xFE] ''smallint'' = Inr ''-2''"
proof -
  have h: "int_type_bytes (normalizedType ''smallint'') = Some 2" "int_bytes 2 (-2) = [CHR 0xFF, CHR 0xFE]"
    "show_int (-2) = ''-2''" by code_simp+
  from binary_integer_key_round_trip [OF h(1), of "-2" "\<lambda>b n. []"] h(2,3) show ?thesis by simp
qed

text \<open>An octal escape above \<^verbatim>\<open>\377\<close> becomes the byte 255, whatever its digits, where PostgreSQL keeps
  the low eight bits.\<close>

lemma octal_escape_saturates:
  "decodeTextField (BACKSLASH # ''400'') = Inr [CHR 0xFF]" "decodeTextField (BACKSLASH # ''777'') = Inr [CHR 0xFF]"
  by code_simp+

end
